(* ===== verification/PyPrelude.thy ===== *)
theory PyPrelude
  imports
    Complex_Main
    "HOL-Library.Multiset"
    "HOL-Library.Sublist"
    "HOL-Library.Char_ord"
    "HOL-Library.List_Lexorder"
    "HOL-Library.Product_Lexorder"
begin

text \<open>
  Shared vocabulary of the development: Python's exceptions as values, its list
  indexing, slicing and insertion, the string methods the sources call, decimal
  rendering, ordered dictionaries as association lists and JSON values.

  Strings are lists of characters; a character stands for a code point below 256.
  Logging calls are effects the models leave out everywhere.
\<close>

section \<open>Collections of rewrite rules\<close>

named_theorems py_simps \<open>characteristic equations of the Python primitives\<close>
named_theorems frame_simps \<open>what an operation leaves unchanged\<close>
named_theorems inv_intros \<open>operations keep the invariant of their component\<close>

section \<open>Exceptions as values\<close>

datatype py_error =
    ValueError string
  | KeyError string
  | IndexError
  | AttributeError string
  | TypeError string
  | RuntimeError string
  | AssertionError string
  | FileNotFoundError string
  | FunctionNotRegisteredError string
  | TimeoutError string
  | OtherException string

type_synonym 'a result = "py_error + 'a"

definition bind_result :: "'a result \<Rightarrow> ('a \<Rightarrow> 'b result) \<Rightarrow> 'b result" where
  "bind_result r f = (case r of Inl e \<Rightarrow> Inl e | Inr x \<Rightarrow> f x)"

lemma bind_result_simps [simp, py_simps]:
  "bind_result (Inl e) f = Inl e"
  "bind_result (Inr x) f = f x"
  by (simp_all add: bind_result_def)

lemma bind_result_Inr_iff:
  "bind_result r f = Inr y \<longleftrightarrow> (\<exists>x. r = Inr x \<and> f x = Inr y)"
  by (cases r) auto

lemma bind_result_Inl_iff:
  "bind_result r f = Inl e \<longleftrightarrow> r = Inl e \<or> (\<exists>x. r = Inr x \<and> f x = Inl e)"
  by (cases r) auto

section \<open>List indexing, slicing and insertion\<close>

text \<open>An index \<open>i\<close> of a slice bound on a sequence of length \<open>n\<close>, clamped as Python does.\<close>

definition clamp_index :: "nat \<Rightarrow> int \<Rightarrow> nat" where
  "clamp_index n i = (if i < 0 then nat (i + int n) else min (nat i) n)"

definition py_slice :: "int option \<Rightarrow> int option \<Rightarrow> 'a list \<Rightarrow> 'a list" where
  "py_slice a b xs =
     (let n = length xs;
          s = (case a of None \<Rightarrow> 0 | Some i \<Rightarrow> clamp_index n i);
          e = (case b of None \<Rightarrow> n | Some i \<Rightarrow> clamp_index n i)
      in take (e - s) (drop s xs))"

definition py_get :: "'a list \<Rightarrow> int \<Rightarrow> 'a result" where
  "py_get xs i =
     (if i < - int (length xs) \<or> int (length xs) \<le> i then Inl IndexError
      else if i < 0 then Inr (xs ! nat (int (length xs) + i))
      else Inr (xs ! nat i))"

definition py_insert :: "int \<Rightarrow> 'a \<Rightarrow> 'a list \<Rightarrow> 'a list" where
  "py_insert i x xs = (let k = clamp_index (length xs) i in take k xs @ x # drop k xs)"

lemma clamp_index_le: "clamp_index n i \<le> n"
  by (auto simp: clamp_index_def)

lemma clamp_index_nonneg [simp]: "clamp_index n (int k) = min k n"
  by (simp add: clamp_index_def)

lemma clamp_index_neg: "0 < k \<Longrightarrow> clamp_index n (- int k) = n - k"
  by (auto simp: clamp_index_def nat_diff_distrib)

lemma py_slice_take [simp]: "py_slice None (Some (int k)) xs = take k xs"
  by (simp add: py_slice_def Let_def min_def)

lemma py_slice_drop [simp]: "py_slice (Some (int k)) None xs = drop k xs"
  by (simp add: py_slice_def Let_def min_def)

text \<open>\<open>xs[-k:]\<close> for a positive \<open>k\<close> is the last \<open>k\<close> elements; for \<open>k = 0\<close> it is all of \<open>xs\<close>.\<close>

lemma py_slice_last: "0 < k \<Longrightarrow> py_slice (Some (- int k)) None xs = drop (length xs - k) xs"
  by (simp add: py_slice_def Let_def clamp_index_neg)

lemma py_slice_minus_zero: "py_slice (Some (- int 0)) None xs = xs"
  by (simp add: py_slice_def Let_def clamp_index_def)

lemma py_slice_mid:
  "0 < k \<Longrightarrow> py_slice (Some (int j)) (Some (- int k)) xs = drop j (take (length xs - k) xs)"
  by (auto simp: py_slice_def Let_def clamp_index_neg drop_take min_def)

lemma py_slice_mid_zero: "py_slice (Some (int j)) (Some (- int 0)) xs = []"
  by (simp add: py_slice_def Let_def clamp_index_def)

lemma length_py_insert [simp]: "length (py_insert i x xs) = Suc (length xs)"
  using clamp_index_le [of "length xs" i] by (simp add: py_insert_def Let_def)

lemma set_py_insert [simp]: "set (py_insert i x xs) = insert x (set xs)"
proof -
  let ?k = "clamp_index (length xs) i"
  have "set (take ?k xs) \<union> set (drop ?k xs) = set xs"
    by (metis append_take_drop_id set_append)
  then show ?thesis by (auto simp: py_insert_def Let_def)
qed

lemma mset_py_insert [simp]: "mset (py_insert i x xs) = add_mset x (mset xs)"
proof -
  let ?k = "clamp_index (length xs) i"
  have "mset (take ?k xs) + mset (drop ?k xs) = mset xs"
    by (metis append_take_drop_id mset_append)
  then show ?thesis by (simp add: py_insert_def Let_def)
qed

section \<open>Strings\<close>

definition newline :: char where
  "newline = CHR 0x0A"

definition is_space :: "char \<Rightarrow> bool" where
  "is_space c = (let n = of_char c :: nat in (9 \<le> n \<and> n \<le> 13) \<or> (28 \<le> n \<and> n \<le> 32) \<or> n = 133 \<or> n = 160)"

definition py_lstrip :: "string \<Rightarrow> string" where
  "py_lstrip s = dropWhile is_space s"

definition py_strip :: "string \<Rightarrow> string" where
  "py_strip s = rev (dropWhile is_space (rev (dropWhile is_space s)))"

definition startswith :: "string \<Rightarrow> string \<Rightarrow> bool" where
  "startswith s p \<longleftrightarrow> take (length p) s = p"

fun contains :: "string \<Rightarrow> string \<Rightarrow> bool" where
  "contains p [] = (p = [])"
| "contains p (c # s) = (startswith (c # s) p \<or> contains p s)"

fun split_on :: "char \<Rightarrow> string \<Rightarrow> string list" where
  "split_on c [] = [[]]"
| "split_on c (x # xs) =
     (if x = c then [] # split_on c xs
      else case split_on c xs of [] \<Rightarrow> [[x]] | y # ys \<Rightarrow> (x # y) # ys)"

fun join_with :: "string \<Rightarrow> string list \<Rightarrow> string" where
  "join_with sep [] = []"
| "join_with sep [s] = s"
| "join_with sep (s # t # ss) = s @ sep @ join_with sep (t # ss)"

fun nat_digits :: "nat \<Rightarrow> string" where
  "nat_digits n =
     (if n < 10 then [char_of (48 + n)] else nat_digits (n div 10) @ [char_of (48 + n mod 10)])"

declare nat_digits.simps [simp del]

definition str_int :: "int \<Rightarrow> string" where
  "str_int i = (if i < 0 then ''-'' @ nat_digits (nat (- i)) else nat_digits (nat i))"

lemma startswith_prefix: "startswith s p \<longleftrightarrow> prefix p s"
  unfolding startswith_def prefix_def by (metis append_eq_conv_conj append_take_drop_id)

lemma startswith_Nil [simp]: "startswith s []"
  by (simp add: startswith_def)

lemma contains_sublist: "contains p s \<longleftrightarrow> sublist p s"
  by (induction s) (auto simp: startswith_prefix sublist_Cons_right)

lemma split_on_not_Nil [simp]: "split_on c s \<noteq> []"
  by (induction s) (auto split: list.splits)

lemma split_on_no_sep: "\<forall>l \<in> set (split_on c s). c \<notin> set l"
  by (induction s) (auto split: list.splits)

lemma join_split_on: "join_with [c] (split_on c s) = s"
proof (induction s)
  case Nil
  then show ?case by simp
next
  case (Cons x xs)
  show ?case
  proof (cases "split_on c xs")
    case Nil
    then show ?thesis by simp
  next
    case (Cons y ys)
    with Cons.IH show ?thesis by (cases ys) auto
  qed
qed

section \<open>Ordered dictionaries\<close>

text \<open>
  A dictionary whose insertion order is observable is an association list:
  assignment to a present key keeps its place, to a new key appends.
\<close>

type_synonym ('k, 'v) dict = "('k \<times> 'v) list"

fun dict_set :: "('k, 'v) dict \<Rightarrow> 'k \<Rightarrow> 'v \<Rightarrow> ('k, 'v) dict" where
  "dict_set [] k v = [(k, v)]"
| "dict_set ((k', v') # d) k v = (if k' = k then (k, v) # d else (k', v') # dict_set d k v)"

definition dict_get :: "('k, 'v) dict \<Rightarrow> 'k \<Rightarrow> 'v option" where
  "dict_get d k = map_of d k"

definition dict_del :: "('k, 'v) dict \<Rightarrow> 'k \<Rightarrow> ('k, 'v) dict" where
  "dict_del d k = filter (\<lambda>(k', _). k' \<noteq> k) d"

abbreviation dict_keys :: "('k, 'v) dict \<Rightarrow> 'k list" where
  "dict_keys d \<equiv> map fst d"

definition dict_get_default :: "('k, 'v) dict \<Rightarrow> 'k \<Rightarrow> 'v \<Rightarrow> 'v" where
  "dict_get_default d k v = (case dict_get d k of None \<Rightarrow> v | Some x \<Rightarrow> x)"

lemma dict_get_set [simp, py_simps]:
  "dict_get (dict_set d k v) k' = (if k' = k then Some v else dict_get d k')"
  by (induction d k v rule: dict_set.induct) (auto simp: dict_get_def)

lemma dict_keys_set [simp]: "fst ` set (dict_set d k v) = insert k (fst ` set d)"
  by (induction d k v rule: dict_set.induct) auto

lemma distinct_dict_set: "distinct (dict_keys d) \<Longrightarrow> distinct (dict_keys (dict_set d k v))"
  by (induction d k v rule: dict_set.induct) auto

lemma dict_get_del [simp, py_simps]:
  "dict_get (dict_del d k) k' = (if k' = k then None else dict_get d k')"
  by (induction d) (auto simp: dict_get_def dict_del_def)

lemma dict_keys_del: "set (dict_keys (dict_del d k)) = set (dict_keys d) - {k}"
  by (auto simp: dict_del_def)

lemma distinct_dict_del: "distinct (dict_keys d) \<Longrightarrow> distinct (dict_keys (dict_del d k))"
  by (induction d) (auto simp: dict_del_def)

lemma dict_get_None_iff: "dict_get d k = None \<longleftrightarrow> k \<notin> set (dict_keys d)"
  by (simp add: dict_get_def map_of_eq_None_iff)

section \<open>JSON values\<close>

text \<open>
  The values Python's dictionaries of results and arguments hold. An object is an
  ordered dictionary.
\<close>

datatype json =
    JNull
  | JBool bool
  | JInt int
  | JFloat real
  | JStr string
  | JList "json list"
  | JObj "(string \<times> json) list"

type_synonym jdict = "(string, json) dict"

text \<open>Python truth of a value.\<close>

fun truthy :: "json \<Rightarrow> bool" where
  "truthy JNull = False"
| "truthy (JBool b) = b"
| "truthy (JInt i) = (i \<noteq> 0)"
| "truthy (JFloat r) = (r \<noteq> 0)"
| "truthy (JStr s) = (s \<noteq> [])"
| "truthy (JList l) = (l \<noteq> [])"
| "truthy (JObj d) = (d \<noteq> [])"

text \<open>\<open>f'{v}'\<close>; \<open>rp\<close> renders floats, lists and dictionaries.\<close>

fun py_str :: "(json \<Rightarrow> string) \<Rightarrow> json \<Rightarrow> string" where
  "py_str rp (JStr s) = s"
| "py_str rp (JInt i) = str_int i"
| "py_str rp (JBool b) = (if b then ''True'' else ''False'')"
| "py_str rp JNull = ''None''"
| "py_str rp v = rp v"

text \<open>\<open>v.get(k, dflt)\<close> and \<open>v[k]\<close> on a value that should be a dictionary.\<close>

definition json_get :: "json \<Rightarrow> string \<Rightarrow> json \<Rightarrow> json result" where
  "json_get v k dflt =
     (case v of
        JObj d \<Rightarrow> Inr (dict_get_default d k dflt)
      | _ \<Rightarrow> Inl (AttributeError ''get''))"

definition json_item :: "json \<Rightarrow> string \<Rightarrow> json result" where
  "json_item v k =
     (case v of
        JObj d \<Rightarrow> (case dict_get d k of None \<Rightarrow> Inl (KeyError k) | Some x \<Rightarrow> Inr x)
      | _ \<Rightarrow> Inl (TypeError ''not subscriptable by a string''))"

text \<open>\<open>len(v)\<close> and \<open>s in v\<close>.\<close>

fun json_len :: "json \<Rightarrow> nat result" where
  "json_len (JStr s) = Inr (length s)"
| "json_len (JList l) = Inr (length l)"
| "json_len (JObj d) = Inr (length d)"
| "json_len v = Inl (TypeError ''object has no len()'')"

fun json_in :: "string \<Rightarrow> json \<Rightarrow> bool result" where
  "json_in s (JStr t) = Inr (contains s t)"
| "json_in s (JList l) = Inr (JStr s \<in> set l)"
| "json_in s (JObj d) = Inr (s \<in> set (dict_keys d))"
| "json_in s v = Inl (TypeError ''argument is not iterable'')"

end
