(* ===== verification/Timer.thy ===== *)
theory Timer
  imports PyPrelude
begin

text \<open>
  \<^verbatim>\<open>openhands/nvidia/timer.py\<close>: the job timer that counts only the phases init, run and
  eval toward the timeout, and the runner that bounds a coroutine by the time left.

  A call of \<open>time.time()\<close> is a clock argument of the operation, one argument per call, in
  the order of the calls; floating point is read as real numbers. The dictionary
  \<open>phase_times\<close> never gains or loses a key (\<open>+=\<close> reads the key first), so it is a
  record with one field per key, and the \<open>KeyError\<close> of a foreign phase name is a branch.
\<close>

section \<open>State\<close>

record phase_times =
  pt_init :: real
  pt_run :: real
  pt_eval :: real
  pt_others :: real

record pausable_timer =
  tm_timeout :: real
  tm_start_time :: "real option"
  tm_is_running :: bool
  tm_current_phase :: "string option"
  tm_phase_start_time :: "real option"
  tm_timeout_triggered :: bool
  tm_phase_times :: phase_times

record timing_info =
  init_time :: real
  run_time :: real
  eval_time :: real
  others_time :: real
  counted_elapsed :: real
  timeout_triggered :: bool

definition counted_phase :: "string option \<Rightarrow> bool" where
  "counted_phase p \<longleftrightarrow> p \<in> {Some ''init'', Some ''run'', Some ''eval''}"

text \<open>\<open>self.phase_times[phase] += elapsed\<close>\<close>

definition phase_add :: "phase_times \<Rightarrow> string \<Rightarrow> real \<Rightarrow> phase_times result" where
  "phase_add pt p d =
     (if p = ''init'' then Inr (pt\<lparr>pt_init := pt_init pt + d\<rparr>)
      else if p = ''run'' then Inr (pt\<lparr>pt_run := pt_run pt + d\<rparr>)
      else if p = ''eval'' then Inr (pt\<lparr>pt_eval := pt_eval pt + d\<rparr>)
      else if p = ''others'' then Inr (pt\<lparr>pt_others := pt_others pt + d\<rparr>)
      else Inl (KeyError p))"

section \<open>Operations\<close>

definition timer_new :: "real \<Rightarrow> pausable_timer" where
  "timer_new timeout =
     \<lparr>tm_timeout = timeout, tm_start_time = None, tm_is_running = False,
      tm_current_phase = None, tm_phase_start_time = None, tm_timeout_triggered = False,
      tm_phase_times = \<lparr>pt_init = 0, pt_run = 0, pt_eval = 0, pt_others = 0\<rparr>\<rparr>"

definition timer_start :: "pausable_timer \<Rightarrow> real \<Rightarrow> pausable_timer" where
  "timer_start t now =
     (if \<not> tm_is_running t then
        t\<lparr>tm_start_time := Some now, tm_is_running := True,
          tm_current_phase := Some ''others'', tm_phase_start_time := Some now\<rparr>
      else t)"

definition trigger_timeout :: "pausable_timer \<Rightarrow> pausable_timer" where
  "trigger_timeout t =
     (if \<not> tm_timeout_triggered t then t\<lparr>tm_timeout_triggered := True\<rparr> else t)"

definition get_counted_time :: "pausable_timer \<Rightarrow> real \<Rightarrow> real" where
  "get_counted_time t now =
     (let pt = tm_phase_times t; c = pt_init pt + pt_run pt + pt_eval pt
      in case tm_phase_start_time t of
           Some s \<Rightarrow>
             if tm_is_running t \<and> counted_phase (tm_current_phase t) then c + (now - s) else c
         | None \<Rightarrow> c)"

definition check_and_trigger_timeout :: "pausable_timer \<Rightarrow> real \<Rightarrow> pausable_timer" where
  "check_and_trigger_timeout t now =
     (if tm_timeout_triggered t then t
      else if get_counted_time t now \<ge> tm_timeout t then trigger_timeout t
      else t)"

definition get_remaining_timeout :: "pausable_timer \<Rightarrow> real \<Rightarrow> real option" where
  "get_remaining_timeout t now =
     (if \<not> tm_is_running t \<or> tm_timeout_triggered t then None
      else if \<not> counted_phase (tm_current_phase t) then None
      else Some (max 0 (tm_timeout t - get_counted_time t now)))"

text \<open>
  \<open>if self.current_phase and self.phase_start_time\<close>: both set, the name not empty and the
  start not \<open>0.0\<close>.
\<close>

definition open_phase :: "pausable_timer \<Rightarrow> (string \<times> real) option" where
  "open_phase t =
     (case (tm_current_phase t, tm_phase_start_time t) of
        (Some p, Some s) \<Rightarrow> if p \<noteq> [] \<and> s \<noteq> 0 then Some (p, s) else None
      | _ \<Rightarrow> None)"

definition settle_phase :: "pausable_timer \<Rightarrow> real \<Rightarrow> phase_times result" where
  "settle_phase t now =
     (case open_phase t of
        None \<Rightarrow> Inr (tm_phase_times t)
      | Some (p, s) \<Rightarrow> phase_add (tm_phase_times t) p (now - s))"

definition enter_phase :: "pausable_timer \<Rightarrow> string \<Rightarrow> real \<Rightarrow> real \<Rightarrow> pausable_timer result" where
  "enter_phase t phase now now2 =
     (if \<not> tm_is_running t then Inr t
      else bind_result (settle_phase t now) (\<lambda>pt.
        let t' = t\<lparr>tm_phase_times := pt, tm_current_phase := Some phase,
                   tm_phase_start_time := Some now\<rparr>
        in Inr (if counted_phase (Some phase) then check_and_trigger_timeout t' now2 else t')))"

definition exit_phase :: "pausable_timer \<Rightarrow> real \<Rightarrow> pausable_timer result" where
  "exit_phase t now =
     (if \<not> tm_is_running t then Inr t
      else bind_result (settle_phase t now) (\<lambda>pt.
        Inr (t\<lparr>tm_phase_times := pt, tm_current_phase := Some ''others'',
               tm_phase_start_time := Some now\<rparr>)))"

definition is_expired :: "pausable_timer \<Rightarrow> real \<Rightarrow> bool" where
  "is_expired t now \<longleftrightarrow> get_counted_time t now \<ge> tm_timeout t \<or> tm_timeout_triggered t"

definition get_timing_info :: "pausable_timer \<Rightarrow> real \<Rightarrow> real \<Rightarrow> timing_info result" where
  "get_timing_info t now now2 =
     bind_result (if tm_is_running t then settle_phase t now else Inr (tm_phase_times t))
       (\<lambda>pt. Inr \<lparr>init_time = pt_init pt, run_time = pt_run pt, eval_time = pt_eval pt,
                  others_time = pt_others pt, counted_elapsed = get_counted_time t now2,
                  timeout_triggered = tm_timeout_triggered t\<rparr>)"

text \<open>
  The context manager \<open>phase_context\<close>: \<open>body\<close> is the block under \<^verbatim>\<open>with\<close>, run on the
  entered timer; the phase is left whether the block returns or raises. The last argument
  is the clock at the exit.
\<close>

definition phase_context ::
  "pausable_timer \<Rightarrow> string \<Rightarrow> real \<Rightarrow> real \<Rightarrow> (pausable_timer \<Rightarrow> pausable_timer \<times> 'a result)
     \<Rightarrow> real \<Rightarrow> pausable_timer \<times> 'a result" where
  "phase_context t phase now now2 body later =
     (case enter_phase t phase now now2 of
        Inl e \<Rightarrow> (t, Inl e)
      | Inr t1 \<Rightarrow>
          (case body t1 of (t2, r) \<Rightarrow>
             (case exit_phase t2 later of
                Inl e \<Rightarrow> (t2, Inl e)
              | Inr t3 \<Rightarrow> (t3, r))))"

text \<open>
  What \<open>asyncio.wait_for\<close> reports of the task within the time it is given: its value, an
  exception of its own, the expiry, or an outside cancellation.
\<close>

datatype 'a coro_outcome =
    Returned 'a
  | Raised py_error
  | WaitTimedOut
  | WaitCancelled

text \<open>
  \<open>run_with_timeout_awareness\<close>: the timer afterwards, the field \<open>current_task\<close> of the job
  afterwards (\<open>jd\<close> is \<open>None\<close> when no job is passed, otherwise its old value) and the
  result. \<open>coro\<close> gives the outcome for the time the task may take.
\<close>

definition run_with_timeout_awareness ::
  "pausable_timer \<Rightarrow> real \<Rightarrow> (real \<Rightarrow> 'a coro_outcome) \<Rightarrow> 'task option option
     \<Rightarrow> pausable_timer \<times> 'task option option \<times> 'a result" where
  "run_with_timeout_awareness t now coro jd =
     (case get_remaining_timeout t now of
        None \<Rightarrow> (trigger_timeout t, jd, Inl (TimeoutError ''Operation timed out''))
      | Some rem \<Rightarrow>
          if rem \<le> 0 then (trigger_timeout t, jd, Inl (TimeoutError ''Operation timed out''))
          else
            (let jd' = map_option (\<lambda>_. None) jd in
             case coro rem of
               Returned v \<Rightarrow> (t, jd', Inr v)
             | Raised e \<Rightarrow> (t, jd', Inl e)
             | WaitTimedOut \<Rightarrow> (trigger_timeout t, jd', Inl (TimeoutError ''Operation timed out''))
             | WaitCancelled \<Rightarrow> (trigger_timeout t, jd', Inl (TimeoutError ''Operation cancelled''))))"

section \<open>Runs of a timer\<close>

datatype timer_cmd =
    CEnter string real real
  | CExit real
  | CTrigger
  | CCheck real

fun timer_cmd_exec :: "pausable_timer \<Rightarrow> timer_cmd \<Rightarrow> pausable_timer result" where
  "timer_cmd_exec t (CEnter p now now2) = enter_phase t p now now2"
| "timer_cmd_exec t (CExit now) = exit_phase t now"
| "timer_cmd_exec t CTrigger = Inr (trigger_timeout t)"
| "timer_cmd_exec t (CCheck now) = Inr (check_and_trigger_timeout t now)"

fun timer_exec :: "pausable_timer \<Rightarrow> timer_cmd list \<Rightarrow> pausable_timer result" where
  "timer_exec t [] = Inr t"
| "timer_exec t (c # cs) = bind_result (timer_cmd_exec t c) (\<lambda>t'. timer_exec t' cs)"

definition known_phase :: "string \<Rightarrow> bool" where
  "known_phase p \<longleftrightarrow> p \<in> {''init'', ''run'', ''eval'', ''others''}"

text \<open>Commands as the server issues them: known phases, at clock readings after the epoch.\<close>

fun proper_cmd :: "timer_cmd \<Rightarrow> bool" where
  "proper_cmd (CEnter p now now2) = (known_phase p \<and> 0 < now)"
| "proper_cmd (CExit now) = (0 < now)"
| "proper_cmd CTrigger = True"
| "proper_cmd (CCheck now) = True"

section \<open>Invariant and accounting\<close>

definition timer_wf :: "pausable_timer \<Rightarrow> bool" where
  "timer_wf t \<longleftrightarrow>
     tm_is_running t \<and>
     (\<exists>p s. tm_current_phase t = Some p \<and> known_phase p \<and> tm_phase_start_time t = Some s \<and> 0 < s)"

definition phase_total :: "phase_times \<Rightarrow> real" where
  "phase_total pt = pt_init pt + pt_run pt + pt_eval pt + pt_others pt"

text \<open>All the time the timer has accounted for, read at clock \<open>x\<close>.\<close>

definition accounted :: "pausable_timer \<Rightarrow> real \<Rightarrow> real" where
  "accounted t x = phase_total (tm_phase_times t) + (x - the (tm_phase_start_time t))"

lemma trigger_timeout_fields [simp, frame_simps]:
  "tm_phase_times (trigger_timeout t) = tm_phase_times t"
  "tm_current_phase (trigger_timeout t) = tm_current_phase t"
  "tm_phase_start_time (trigger_timeout t) = tm_phase_start_time t"
  "tm_is_running (trigger_timeout t) = tm_is_running t"
  "tm_timeout (trigger_timeout t) = tm_timeout t"
  "tm_start_time (trigger_timeout t) = tm_start_time t"
  "tm_timeout_triggered (trigger_timeout t)"
  by (simp_all add: trigger_timeout_def)

lemma check_fields [simp, frame_simps]:
  "tm_phase_times (check_and_trigger_timeout t now) = tm_phase_times t"
  "tm_current_phase (check_and_trigger_timeout t now) = tm_current_phase t"
  "tm_phase_start_time (check_and_trigger_timeout t now) = tm_phase_start_time t"
  "tm_is_running (check_and_trigger_timeout t now) = tm_is_running t"
  "tm_timeout (check_and_trigger_timeout t now) = tm_timeout t"
  by (simp_all add: check_and_trigger_timeout_def)

lemma check_triggered:
  "tm_timeout_triggered (check_and_trigger_timeout t now) \<longleftrightarrow> is_expired t now"
  by (auto simp: check_and_trigger_timeout_def is_expired_def)

lemma phase_add_total:
  "known_phase p \<Longrightarrow> \<exists>pt'. phase_add pt p d = Inr pt' \<and> phase_total pt' = phase_total pt + d"
  by (auto simp: phase_add_def known_phase_def phase_total_def)

lemma known_phase_not_Nil: "known_phase p \<Longrightarrow> p \<noteq> []"
  by (auto simp: known_phase_def)

lemma settle_phase_wf:
  assumes "timer_wf t"
  shows "\<exists>pt. settle_phase t now = Inr pt \<and> phase_total pt = accounted t now"
proof -
  from assms obtain p s where ps: "tm_current_phase t = Some p" "known_phase p"
    "tm_phase_start_time t = Some s" "0 < s"
    by (auto simp: timer_wf_def)
  then have "settle_phase t now = phase_add (tm_phase_times t) p (now - s)"
    by (simp add: settle_phase_def open_phase_def known_phase_not_Nil)
  with phase_add_total [OF ps(2), of "tm_phase_times t" "now - s"] ps(3) show ?thesis
    by (auto simp: accounted_def)
qed

lemma enter_phase_ok: "timer_wf t \<Longrightarrow> \<exists>t'. enter_phase t p now now2 = Inr t'"
  using settle_phase_wf [of t now] by (auto simp: enter_phase_def timer_wf_def Let_def)

lemma exit_phase_ok: "timer_wf t \<Longrightarrow> \<exists>t'. exit_phase t now = Inr t'"
  using settle_phase_wf [of t now] by (auto simp: exit_phase_def timer_wf_def)

text \<open>One command keeps the invariant, raises nothing and loses no time.\<close>

lemma timer_cmd_accounts:
  assumes "timer_wf t" and "proper_cmd c"
  shows "\<exists>t'. timer_cmd_exec t c = Inr t' \<and> timer_wf t' \<and> (\<forall>x. accounted t' x = accounted t x)"
proof (cases c)
  case (CEnter p now now2)
  from settle_phase_wf [OF assms(1), of now] obtain pt
    where "settle_phase t now = Inr pt" "phase_total pt = accounted t now" by blast
  with CEnter assms show ?thesis
    by (auto simp: enter_phase_def timer_wf_def accounted_def Let_def)
next
  case (CExit now)
  from settle_phase_wf [OF assms(1), of now] obtain pt
    where "settle_phase t now = Inr pt" "phase_total pt = accounted t now" by blast
  with CExit assms show ?thesis
    by (auto simp: exit_phase_def timer_wf_def accounted_def known_phase_def)
next
  case CTrigger
  with assms show ?thesis by (simp add: timer_wf_def accounted_def)
next
  case (CCheck now)
  with assms show ?thesis by (simp add: timer_wf_def accounted_def)
qed

lemma timer_exec_accounts:
  "timer_wf t \<Longrightarrow> list_all proper_cmd cs \<Longrightarrow>
     \<exists>t'. timer_exec t cs = Inr t' \<and> timer_wf t' \<and> (\<forall>x. accounted t' x = accounted t x)"
proof (induction cs arbitrary: t)
  case Nil
  then show ?case by simp
next
  case (Cons c cs)
  then obtain t1 where t1: "timer_cmd_exec t c = Inr t1" "timer_wf t1"
    "\<forall>x. accounted t1 x = accounted t x"
    using timer_cmd_accounts by fastforce
  from Cons.IH [OF t1(2)] Cons.prems t1 show ?case by auto
qed

lemma timer_wf_start: "0 < t0 \<Longrightarrow> timer_wf (timer_start (timer_new T) t0)"
  by (simp add: timer_wf_def timer_start_def timer_new_def known_phase_def)

lemma accounted_start: "accounted (timer_start (timer_new T) t0) x = x - t0"
  by (simp add: accounted_def timer_start_def timer_new_def phase_total_def)

text \<open>In a well-formed timer the report splits the accounted time, and its counted part.\<close>

lemma settle_phase_counted:
  assumes "timer_wf t" and "settle_phase t now = Inr pt"
  shows "get_counted_time t now = pt_init pt + pt_run pt + pt_eval pt"
proof -
  from assms(1) obtain p s where ps: "tm_current_phase t = Some p" "known_phase p"
    "tm_phase_start_time t = Some s" "0 < s" "tm_is_running t"
    by (auto simp: timer_wf_def)
  then have "phase_add (tm_phase_times t) p (now - s) = Inr pt"
    using assms(2) by (simp add: settle_phase_def open_phase_def known_phase_not_Nil)
  with ps show ?thesis
    by (auto simp: get_counted_time_def counted_phase_def phase_add_def known_phase_def Let_def
        split: if_splits)
qed

text \<open>
  Property C1. No time is lost and none is counted twice: whatever phases a started job
  timer goes through, none of the operations raises, the four phase times reported at
  clock \<open>now\<close> add up to the time since the start, and the time counted toward the
  timeout is the time spent in init, run and eval only.
\<close>

theorem timer_conserves_time:
  assumes "0 < t0" and "list_all proper_cmd cs"
  shows "\<exists>t i. timer_exec (timer_start (timer_new T) t0) cs = Inr t \<and>
               get_timing_info t now now = Inr i \<and>
               init_time i + run_time i + eval_time i + others_time i = now - t0 \<and>
               counted_elapsed i = init_time i + run_time i + eval_time i"
proof -
  obtain t where t: "timer_exec (timer_start (timer_new T) t0) cs = Inr t" "timer_wf t"
    "accounted t now = now - t0"
    using timer_exec_accounts [OF timer_wf_start [OF assms(1)] assms(2)] accounted_start by metis
  from settle_phase_wf [OF t(2), of now] obtain pt
    where pt: "settle_phase t now = Inr pt" "phase_total pt = accounted t now" by blast
  from t(2) have "tm_is_running t" by (auto simp: timer_wf_def)
  with pt settle_phase_counted [OF t(2) pt(1)] t show ?thesis
    by (auto simp: get_timing_info_def phase_total_def)
qed

theorem timer_conserves_time_witness:
  "\<exists>t i. timer_exec (timer_start (timer_new 300) 10)
            [CEnter ''init'' 12 12, CExit 20, CEnter ''run'' 25 25] = Inr t \<and>
         get_timing_info t 30 30 = Inr i \<and>
         init_time i + run_time i + eval_time i + others_time i = 30 - 10 \<and>
         counted_elapsed i = init_time i + run_time i + eval_time i"
  by (rule timer_conserves_time) (simp_all add: known_phase_def)

definition example_timer :: pausable_timer where
  "example_timer =
     (timer_start (timer_new 300) 10)\<lparr>tm_current_phase := Some ''run'', tm_phase_start_time := Some 50\<rparr>"

text \<open>
  Property C2. The time left to a counted phase is never negative, and it is zero exactly
  when the timer has expired: a job is given no time after expiry and never denied time
  before it.
\<close>

theorem remaining_timeout_zero_iff_expired:
  assumes "get_remaining_timeout t now = Some r"
  shows "0 \<le> r \<and> (r = 0 \<longleftrightarrow> is_expired t now) \<and>
         (\<not> is_expired t now \<longrightarrow> r + get_counted_time t now = tm_timeout t)"
  using assms by (auto simp: get_remaining_timeout_def is_expired_def max_def split: if_splits)

theorem remaining_timeout_zero_iff_expired_witness:
  "get_remaining_timeout example_timer 150 = Some 200 \<and> (0::real) \<le> 200 \<and>
   \<not> is_expired example_timer 150 \<and> 200 + get_counted_time example_timer 150 = 300"
proof -
  have r: "get_remaining_timeout example_timer 150 = Some 200"
    by (simp add: get_remaining_timeout_def example_timer_def timer_start_def timer_new_def
        counted_phase_def get_counted_time_def)
  have "tm_timeout example_timer = 300"
    by (simp add: example_timer_def timer_start_def timer_new_def)
  with remaining_timeout_zero_iff_expired [OF r] r show ?thesis by simp
qed

text \<open>What the caller of the bounded runner sees of an outcome of the wait.\<close>

fun wait_result :: "'a coro_outcome \<Rightarrow> 'a result" where
  "wait_result (Returned v) = Inr v"
| "wait_result (Raised e) = Inl e"
| "wait_result WaitTimedOut = Inl (TimeoutError ''Operation timed out'')"
| "wait_result WaitCancelled = Inl (TimeoutError ''Operation cancelled'')"

text \<open>The bounded runner as a block under \<open>phase_context\<close>, its clock call at \<open>now\<close>.\<close>

definition bounded_block ::
  "real \<Rightarrow> (real \<Rightarrow> 'a coro_outcome) \<Rightarrow> pausable_timer \<Rightarrow> pausable_timer \<times> 'a result" where
  "bounded_block now coro t =
     (case run_with_timeout_awareness t now coro (None :: unit option option) of (t', _, r) \<Rightarrow> (t', r))"

lemma bounded_block_fields [frame_simps]:
  assumes "bounded_block now coro t = (t', r)"
  shows "tm_phase_times t' = tm_phase_times t" "tm_current_phase t' = tm_current_phase t"
    "tm_phase_start_time t' = tm_phase_start_time t" "tm_is_running t' = tm_is_running t"
    "tm_timeout t' = tm_timeout t"
  using assms
  by (auto simp: bounded_block_def run_with_timeout_awareness_def Let_def
      split: option.splits if_splits coro_outcome.splits)

lemma bounded_block_result:
  assumes "tm_is_running t" and "counted_phase (tm_current_phase t)"
    and "bounded_block now coro t = (t', r)"
  shows "if is_expired t now
         then r = Inl (TimeoutError ''Operation timed out'') \<and> tm_timeout_triggered t'
         else r = wait_result (coro (tm_timeout t - get_counted_time t now))"
  using assms
  by (auto simp: bounded_block_def run_with_timeout_awareness_def get_remaining_timeout_def
      is_expired_def Let_def max_def split: if_splits coro_outcome.splits)

lemma counted_after_enter:
  assumes "timer_wf t" and "counted_phase (Some p)" and "enter_phase t p now1 now2 = Inr t1"
  shows "get_counted_time t1 x = get_counted_time t now1 + (x - now1)"
    and "tm_timeout_triggered t1 \<longleftrightarrow>
           tm_timeout_triggered t \<or> tm_timeout t \<le> get_counted_time t now1 + (now2 - now1)"
    and "tm_is_running t1" "tm_current_phase t1 = Some p" "tm_timeout t1 = tm_timeout t"
    and "tm_phase_start_time t1 = Some now1"
proof -
  from settle_phase_wf [OF assms(1)] obtain pt where pt: "settle_phase t now1 = Inr pt" by blast
  have run: "tm_is_running t" using assms(1) by (auto simp: timer_wf_def)
  show c: "get_counted_time t1 x = get_counted_time t now1 + (x - now1)" for x
    using assms pt run settle_phase_counted [OF assms(1) pt]
    by (auto simp: enter_phase_def get_counted_time_def Let_def)
  show "tm_timeout_triggered t1 \<longleftrightarrow>
           tm_timeout_triggered t \<or> tm_timeout t \<le> get_counted_time t now1 + (now2 - now1)"
    using assms pt run settle_phase_counted [OF assms(1) pt]
    by (auto simp: enter_phase_def check_triggered is_expired_def get_counted_time_def Let_def)
  show "tm_is_running t1" "tm_current_phase t1 = Some p" "tm_timeout t1 = tm_timeout t"
    "tm_phase_start_time t1 = Some now1"
    using assms pt run by (auto simp: enter_phase_def Let_def)
qed

lemma counted_after_exit:
  assumes "timer_wf t" and "exit_phase t later = Inr t'"
  shows "get_counted_time t' x = get_counted_time t later" "tm_current_phase t' = Some ''others''"
    "tm_timeout_triggered t' = tm_timeout_triggered t"
proof -
  from settle_phase_wf [OF assms(1)] obtain pt where pt: "settle_phase t later = Inr pt" by blast
  have run: "tm_is_running t" using assms(1) by (auto simp: timer_wf_def)
  show "get_counted_time t' x = get_counted_time t later" "tm_current_phase t' = Some ''others''"
    "tm_timeout_triggered t' = tm_timeout_triggered t"
    using assms pt run settle_phase_counted [OF assms(1) pt]
    by (auto simp: exit_phase_def get_counted_time_def counted_phase_def Let_def)
qed

text \<open>
  Property C3. A job phase is bounded by what is left of the timeout. Entering a counted
  phase at \<open>now1\<close> (with the expiry check at \<open>now2\<close>) and starting the coroutine at \<open>now3\<close>:
  when the timer had been triggered or the counted time has reached the timeout, the
  coroutine is not started and \<open>TimeoutError\<close> is raised with the timer triggered; otherwise
  it is given exactly the rest of the timeout. On every path the timer is back in the phase
  others, and what was counted meanwhile is exactly the time until the exit at \<open>later\<close>.
\<close>

theorem bounded_phase_run:
  assumes wf: "timer_wf t" and p: "counted_phase (Some p)"
    and clock: "0 < now1" "now1 \<le> now2" "now2 \<le> now3"
    and run: "phase_context t p now1 now2 (bounded_block now3 coro) later = (t', r)"
  shows "tm_current_phase t' = Some ''others'' \<and>
         get_counted_time t' x = get_counted_time t now1 + (later - now1) \<and>
         (let used = get_counted_time t now1 + (now3 - now1) in
          if tm_timeout_triggered t \<or> tm_timeout t \<le> used
          then r = Inl (TimeoutError ''Operation timed out'') \<and> tm_timeout_triggered t'
          else r = wait_result (coro (tm_timeout t - used)))"
proof -
  from enter_phase_ok [OF wf] obtain t1 where t1: "enter_phase t p now1 now2 = Inr t1" by blast
  note e = counted_after_enter [OF wf p t1]
  obtain t2 r2 where b: "bounded_block now3 coro t1 = (t2, r2)" by fastforce
  note f = bounded_block_fields [OF b]
  have kp: "known_phase p" using p by (auto simp: counted_phase_def known_phase_def)
  then have wf2: "timer_wf t2" using e f clock by (simp add: timer_wf_def)
  from exit_phase_ok [OF wf2] obtain t3 where t3: "exit_phase t2 later = Inr t3" by blast
  note g = counted_after_exit [OF wf2 t3]
  have res: "t' = t3" "r = r2" using run t1 b t3 by (simp_all add: phase_context_def)
  have cnt: "get_counted_time t2 y = get_counted_time t1 y" for y
    using f by (simp add: get_counted_time_def Let_def split: option.split)
  have ex: "is_expired t1 now3 \<longleftrightarrow>
      tm_timeout_triggered t \<or> tm_timeout t \<le> get_counted_time t now1 + (now3 - now1)"
    using e(1,2,5) clock by (auto simp: is_expired_def)
  show ?thesis
    using bounded_block_result [OF e(3) _ b] p e ex g cnt res by (simp add: Let_def)
qed

theorem bounded_phase_run_witness:
  "case phase_context (timer_start (timer_new 300) 10) ''run'' 20 20
          (bounded_block 20 (\<lambda>rem. Returned rem)) 50 of
     (t', r) \<Rightarrow> tm_current_phase t' = Some ''others'' \<and> get_counted_time t' 60 = 30 \<and> r = Inr 300"
proof -
  let ?t = "timer_start (timer_new 300) 10"
  obtain t' r where
    e: "phase_context ?t ''run'' 20 20 (bounded_block 20 (\<lambda>rem. Returned rem)) 50 = (t', r)"
    by fastforce
  have wf: "timer_wf ?t" by (rule timer_wf_start) simp
  have c: "get_counted_time ?t 20 = 0" "tm_timeout ?t = 300" "\<not> tm_timeout_triggered ?t"
    by (simp_all add: get_counted_time_def timer_start_def timer_new_def counted_phase_def)
  have "counted_phase (Some ''run'')" by (simp add: counted_phase_def)
  from bounded_phase_run [OF wf this _ _ _ e, of 60] c e show ?thesis by simp
qed

end
