(* ===== verification/Registry.thy ===== *)
theory Registry
  imports Timer
begin

text \<open>
  \<^verbatim>\<open>openhands/nvidia/registry.py\<close> and the registrations of \<^verbatim>\<open>openhands/nvidia/__init__.py\<close>:
  the job record that the server passes between its stages, the tables of handler functions
  and the name mapping, each once for agent tasks and once for reasoning tasks.

  Callables are values of a type parameter \<open>'f\<close>. Objects of code outside this component
  (runtimes, metadata, configurations, agents, controllers, tasks) are references, numbers.
\<close>

section \<open>Job details\<close>

record llm_config =
  lc_base_url :: string
  lc_params :: jdict

definition default_agent_config :: jdict where
  "default_agent_config =
     [(''max_iterations'', JInt 2), (''ensure_thinking_end_properly'', JBool False),
      (''strict_loop_detector'', JBool False)]"

text \<open>The field \<open>event\<close> is \<open>None\<close> or \<open>Some\<close> of whether the event is set.\<close>

record job_details =
  jd_job_id :: "string option"
  jd_instance :: "jdict option"
  jd_agent_config :: jdict
  jd_llm_config :: "llm_config option"
  jd_runtime :: "nat option"
  jd_metadata :: "nat option"
  jd_config :: "nat option"
  jd_agent :: "nat option"
  jd_controller :: "nat option"
  jd_run_results :: "jdict option"
  jd_eval_results :: "json option"
  jd_results :: "jdict option"
  jd_event :: "bool option"
  jd_timeout_error :: bool
  jd_timer :: "pausable_timer option"
  jd_current_task :: "nat option"
  jd_is_reasoning_task :: bool

definition new_job_details :: job_details where
  "new_job_details =
     \<lparr>jd_job_id = None, jd_instance = None, jd_agent_config = default_agent_config,
      jd_llm_config = None, jd_runtime = None, jd_metadata = None, jd_config = None,
      jd_agent = None, jd_controller = None, jd_run_results = None, jd_eval_results = None,
      jd_results = None, jd_event = None, jd_timeout_error = False, jd_timer = None,
      jd_current_task = None, jd_is_reasoning_task = False\<rparr>"

section \<open>Handlers and tables\<close>

record 'f agent_handler =
  ah_name :: string
  ah_init :: 'f
  ah_run :: 'f
  ah_eval :: 'f
  ah_init_exception :: 'f
  ah_run_exception :: 'f
  ah_eval_exception :: 'f
  ah_final_result :: 'f

type_synonym 'f table = "(string, (string, 'f) dict) dict"

record 'f registry =
  rg_registries :: "'f table"
  rg_name_mapping :: "(string, string) dict"
  rg_registries_reasoning :: "'f table"
  rg_name_mapping_reasoning :: "(string, string) dict"

definition registry_types :: "string list" where
  "registry_types =
     [''init'', ''run'', ''eval'', ''init_exception'', ''run_exception'', ''eval_exception'',
      ''final_result'']"

definition empty_registry :: "'f registry" where
  "empty_registry =
     \<lparr>rg_registries = map (\<lambda>ty. (ty, [])) registry_types, rg_name_mapping = [],
      rg_registries_reasoning = map (\<lambda>ty. (ty, [])) registry_types,
      rg_name_mapping_reasoning = []\<rparr>"

definition get_registered_functions :: "'f registry \<Rightarrow> string \<Rightarrow> string \<Rightarrow> bool \<Rightarrow> 'f option" where
  "get_registered_functions R registry_type name reasoning =
     (let name_mapping = (if \<not> reasoning then rg_name_mapping R else rg_name_mapping_reasoning R);
          registries = (if \<not> reasoning then rg_registries R else rg_registries_reasoning R);
          mapped_name = dict_get name_mapping name;
          mapped_name = (if take 9 name = ''deepcoder'' then Some ''deepcoder'' else mapped_name)
      in case mapped_name of
           None \<Rightarrow> None
         | Some m \<Rightarrow> dict_get (dict_get_default registries registry_type []) m)"

definition is_registered_handler :: "'f registry \<Rightarrow> string \<Rightarrow> bool \<Rightarrow> bool" where
  "is_registered_handler R name reasoning =
     (let name_mapping = (if \<not> reasoning then rg_name_mapping R else rg_name_mapping_reasoning R)
      in if take 9 name = ''deepcoder'' then True else dict_get name_mapping name \<noteq> None)"

text \<open>\<open>registries[ty][name] = f\<close>\<close>

definition table_put :: "string \<Rightarrow> string \<Rightarrow> 'f \<Rightarrow> 'f table \<Rightarrow> 'f table result" where
  "table_put ty name f T =
     (case dict_get T ty of
        None \<Rightarrow> Inl (KeyError ty)
      | Some d \<Rightarrow> Inr (dict_set T ty (dict_set d name f)))"

definition register_in_table :: "'f agent_handler \<Rightarrow> 'f table \<Rightarrow> 'f table result" where
  "register_in_table h T0 =
     bind_result (table_put ''init'' (ah_name h) (ah_init h) T0) (\<lambda>T1.
     bind_result (table_put ''run'' (ah_name h) (ah_run h) T1) (\<lambda>T2.
     bind_result (table_put ''eval'' (ah_name h) (ah_eval h) T2) (\<lambda>T3.
     bind_result (table_put ''init_exception'' (ah_name h) (ah_init_exception h) T3) (\<lambda>T4.
     bind_result (table_put ''run_exception'' (ah_name h) (ah_run_exception h) T4) (\<lambda>T5.
     bind_result (table_put ''eval_exception'' (ah_name h) (ah_eval_exception h) T5) (\<lambda>T6.
     table_put ''final_result'' (ah_name h) (ah_final_result h) T6))))))"

definition register_agent_handler ::
  "'f registry \<Rightarrow> 'f agent_handler \<Rightarrow> bool \<Rightarrow> 'f registry result" where
  "register_agent_handler R h reasoning =
     (if \<not> reasoning then
        bind_result (register_in_table h (rg_registries R)) (\<lambda>T.
          Inr (R\<lparr>rg_registries := T,
                 rg_name_mapping := dict_set (rg_name_mapping R) (ah_name h) (ah_name h)\<rparr>))
      else
        bind_result (register_in_table h (rg_registries_reasoning R)) (\<lambda>T.
          Inr (R\<lparr>rg_registries_reasoning := T,
                 rg_name_mapping_reasoning :=
                   dict_set (rg_name_mapping_reasoning R) (ah_name h) (ah_name h)\<rparr>)))"

definition add_name_mapping :: "'f registry \<Rightarrow> string \<Rightarrow> string \<Rightarrow> bool \<Rightarrow> 'f registry" where
  "add_name_mapping R name mapped_name reasoning =
     (if \<not> reasoning then
        R\<lparr>rg_name_mapping := dict_set (rg_name_mapping R) name mapped_name\<rparr>
      else
        R\<lparr>rg_name_mapping_reasoning := dict_set (rg_name_mapping_reasoning R) name mapped_name\<rparr>)"

section \<open>The registrations at import time\<close>

text \<open>A bound method is its class and its name.\<close>

definition method_handler :: "string \<Rightarrow> string \<Rightarrow> (string \<times> string) agent_handler" where
  "method_handler cls name =
     \<lparr>ah_name = name, ah_init = (cls, ''init''), ah_run = (cls, ''run''), ah_eval = (cls, ''eval''),
      ah_init_exception = (cls, ''init_exception''), ah_run_exception = (cls, ''run_exception''),
      ah_eval_exception = (cls, ''eval_exception''), ah_final_result = (cls, ''final_result'')\<rparr>"

definition code_datasets :: "string list" where
  "code_datasets = [''codecontests'', ''apps'', ''codeforces'', ''taco'']"

definition prorl_datasets :: "string list" where
  "prorl_datasets =
     [''deepscaler'', ''deepcoder'', ''codecontests'', ''apps'', ''codeforces'', ''taco'', ''rStar'',
      ''tool_call'', ''if_eval'', ''llm_judge'']"

definition gui_names :: "string list" where
  "gui_names = [''gui'', ''visual_browsing'', ''browsergym'']"

definition add_mappings :: "string \<Rightarrow> bool \<Rightarrow> string list \<Rightarrow> 'f registry \<Rightarrow> 'f registry" where
  "add_mappings target reasoning names R =
     foldl (\<lambda>R n. add_name_mapping R n target reasoning) R names"

definition startup_registry :: "(string \<times> string) registry result" where
  "startup_registry =
     bind_result (register_agent_handler empty_registry (method_handler ''SweAgentHandler'' ''swebench'') False) (\<lambda>R1.
     bind_result (register_agent_handler R1 (method_handler ''MathHandler'' ''deepscaler'') False) (\<lambda>R2.
     bind_result (register_agent_handler R2 (method_handler ''CodeHandler'' ''deepcoder'') False) (\<lambda>R3.
     bind_result (register_agent_handler R3 (method_handler ''ProRLHandler'' ''prorl'') True) (\<lambda>R4.
     let R5 = add_mappings ''deepcoder'' False code_datasets R4;
         R6 = add_mappings ''prorl'' True prorl_datasets R5 in
     bind_result (register_agent_handler R6 (method_handler ''STEMHandler'' ''stem'') False) (\<lambda>R7.
     bind_result (register_agent_handler R7 (method_handler ''GuiAgentHandler'' ''gui'') False) (\<lambda>R8.
     let R9 = add_mappings ''deepcoder'' False code_datasets R8 in
     Inr (add_mappings ''gui'' False gui_names R9)))))))"

section \<open>Lemmas\<close>

text \<open>The table and the name mapping of one side.\<close>

definition side_table :: "'f registry \<Rightarrow> bool \<Rightarrow> 'f table" where
  "side_table R reasoning = (if reasoning then rg_registries_reasoning R else rg_registries R)"

definition side_mapping :: "'f registry \<Rightarrow> bool \<Rightarrow> (string, string) dict" where
  "side_mapping R reasoning = (if reasoning then rg_name_mapping_reasoning R else rg_name_mapping R)"

definition table_ok :: "'f table \<Rightarrow> bool" where
  "table_ok T \<longleftrightarrow> (\<forall>ty \<in> set registry_types. dict_get T ty \<noteq> None)"

definition registry_ok :: "'f registry \<Rightarrow> bool" where
  "registry_ok R \<longleftrightarrow> table_ok (rg_registries R) \<and> table_ok (rg_registries_reasoning R)"

text \<open>What a lookup in a table sees, as one map from the type and the name.\<close>

definition table_at :: "'f table \<Rightarrow> string \<Rightarrow> string \<Rightarrow> 'f option" where
  "table_at T ty name = dict_get (dict_get_default T ty []) name"

lemma table_put_ok:
  assumes "table_ok T" and "ty \<in> set registry_types"
  shows "\<exists>T'. table_put ty name f T = Inr T' \<and> table_ok T' \<and>
           (\<forall>ty' n. table_at T' ty' n = (if ty' = ty \<and> n = name then Some f else table_at T ty' n))"
proof -
  from assms obtain d where "dict_get T ty = Some d" by (auto simp: table_ok_def)
  with assms(1) show ?thesis
    by (simp add: table_put_def table_ok_def table_at_def dict_get_default_def)
qed

text \<open>The seven assignments as a loop over pairs of a type and a method.\<close>

fun put_all :: "string \<Rightarrow> (string \<times> 'f) list \<Rightarrow> 'f table \<Rightarrow> 'f table result" where
  "put_all name [] T = Inr T"
| "put_all name ((ty, f) # ps) T = bind_result (table_put ty name f T) (put_all name ps)"

definition handler_methods :: "'f agent_handler \<Rightarrow> (string \<times> 'f) list" where
  "handler_methods h =
     zip registry_types
       [ah_init h, ah_run h, ah_eval h, ah_init_exception h, ah_run_exception h,
        ah_eval_exception h, ah_final_result h]"

definition handler_method :: "'f agent_handler \<Rightarrow> string \<Rightarrow> 'f option" where
  "handler_method h ty = map_of (handler_methods h) ty"

lemma put_all_ok:
  "table_ok T \<Longrightarrow> fst ` set ps \<subseteq> set registry_types \<Longrightarrow> distinct (map fst ps) \<Longrightarrow>
     \<exists>T'. put_all name ps T = Inr T' \<and> table_ok T' \<and>
       (\<forall>ty n. table_at T' ty n =
          (if n = name \<and> ty \<in> fst ` set ps then map_of ps ty else table_at T ty n))"
proof (induction ps arbitrary: T)
  case Nil
  then show ?case by simp
next
  case (Cons pf ps)
  obtain ty f where pf: "pf = (ty, f)" by fastforce
  with Cons.prems obtain T1 where T1: "table_put ty name f T = Inr T1" "table_ok T1"
    "\<forall>ty' n. table_at T1 ty' n = (if ty' = ty \<and> n = name then Some f else table_at T ty' n)"
    using table_put_ok [of T ty name f] by auto
  from Cons.IH [OF T1(2)] Cons.prems obtain T' where "put_all name ps T1 = Inr T'" "table_ok T'"
    "\<forall>ty n. table_at T' ty n =
       (if n = name \<and> ty \<in> fst ` set ps then map_of ps ty else table_at T1 ty n)"
    by auto
  with T1 pf Cons.prems show ?case by auto
qed

lemma register_in_table_put_all:
  "register_in_table h T = put_all (ah_name h) (handler_methods h) T"
proof -
  have step: "put_all name ((ty, f) # ps) = (\<lambda>T. bind_result (table_put ty name f T) (put_all name ps))"
    for name ty ps and f :: 'a
    by (rule ext) simp
  have stop: "bind_result r (put_all name []) = r" for r :: "'a table result" and name
    by (cases r) simp_all
  show ?thesis
    by (simp add: register_in_table_def handler_methods_def registry_types_def step stop
        del: put_all.simps)
qed

lemma register_in_table_ok:
  assumes "table_ok T"
  shows "\<exists>T'. register_in_table h T = Inr T' \<and> table_ok T' \<and>
           (\<forall>ty n. table_at T' ty n =
              (if n = ah_name h \<and> ty \<in> set registry_types then handler_method h ty else table_at T ty n))"
proof -
  have "map fst (handler_methods h) = registry_types"
    by (simp add: handler_methods_def registry_types_def)
  then have "fst ` set (handler_methods h) = set registry_types"
    and "distinct (map fst (handler_methods h))"
    by (metis image_set) (simp add: handler_methods_def registry_types_def)
  with put_all_ok [OF assms, of "handler_methods h" "ah_name h"] show ?thesis
    unfolding register_in_table_put_all handler_method_def by simp
qed

lemma get_registered_functions_at:
  "get_registered_functions R ty name r =
     (if take 9 name = ''deepcoder'' then table_at (side_table R r) ty ''deepcoder''
      else Option.bind (dict_get (side_mapping R r) name) (table_at (side_table R r) ty))"
  by (auto simp: get_registered_functions_def table_at_def side_table_def side_mapping_def Let_def
      split: option.split)

lemma register_agent_handler_ok:
  assumes "registry_ok R"
  shows "\<exists>R'. register_agent_handler R h r = Inr R' \<and> registry_ok R' \<and>
           side_table R' (\<not> r) = side_table R (\<not> r) \<and> side_mapping R' (\<not> r) = side_mapping R (\<not> r) \<and>
           side_mapping R' r = dict_set (side_mapping R r) (ah_name h) (ah_name h) \<and>
           (\<forall>ty n. table_at (side_table R' r) ty n =
              (if n = ah_name h \<and> ty \<in> set registry_types then handler_method h ty
               else table_at (side_table R r) ty n))"
proof -
  have "table_ok (side_table R r)" using assms by (simp add: registry_ok_def side_table_def)
  from register_in_table_ok [OF this, of h] obtain T where
    T: "register_in_table h (side_table R r) = Inr T" "table_ok T"
    "\<forall>ty n. table_at T ty n =
       (if n = ah_name h \<and> ty \<in> set registry_types then handler_method h ty
        else table_at (side_table R r) ty n)" by blast
  with assms show ?thesis
    by (cases r) (auto simp: register_agent_handler_def registry_ok_def side_table_def side_mapping_def)
qed

text \<open>
  Registering a handler never fails on a registry with its seven tables, makes
  each of the seven functions of the handler the one found under the handler's name on the
  side it was registered for, and changes no lookup on the other side.
\<close>

theorem register_then_lookup:
  assumes "registry_ok R" and "take 9 (ah_name h) \<noteq> ''deepcoder'' \<or> ah_name h = ''deepcoder''"
  shows "\<exists>R'. register_agent_handler R h r = Inr R' \<and> registry_ok R' \<and>
           is_registered_handler R' (ah_name h) r \<and>
           (\<forall>ty \<in> set registry_types.
              get_registered_functions R' ty (ah_name h) r = handler_method h ty) \<and>
           (\<forall>ty n. get_registered_functions R' ty n (\<not> r) = get_registered_functions R ty n (\<not> r))"
proof -
  from register_agent_handler_ok [OF assms(1), of h r] obtain R' where
    R': "register_agent_handler R h r = Inr R'" "registry_ok R'"
    "side_table R' (\<not> r) = side_table R (\<not> r)" "side_mapping R' (\<not> r) = side_mapping R (\<not> r)"
    "side_mapping R' r = dict_set (side_mapping R r) (ah_name h) (ah_name h)"
    "\<forall>ty n. table_at (side_table R' r) ty n =
       (if n = ah_name h \<and> ty \<in> set registry_types then handler_method h ty
        else table_at (side_table R r) ty n)" by blast
  have "dict_get (side_mapping R' r) (ah_name h) = Some (ah_name h)" using R'(5) by simp
  then have "is_registered_handler R' (ah_name h) r"
    by (simp add: is_registered_handler_def side_mapping_def split: if_splits)
  with R' assms(2) show ?thesis by (auto simp: get_registered_functions_at)
qed

theorem register_then_lookup_witness:
  "\<exists>R'. register_agent_handler empty_registry (method_handler ''STEMHandler'' ''stem'') False = Inr R' \<and>
        registry_ok R' \<and> is_registered_handler R' ''stem'' False \<and>
        (\<forall>ty \<in> set registry_types. get_registered_functions R' ty ''stem'' False =
            handler_method (method_handler ''STEMHandler'' ''stem'') ty) \<and>
        (\<forall>ty n. get_registered_functions R' ty n True = get_registered_functions empty_registry ty n True)"
proof -
  have "registry_ok (empty_registry :: (string \<times> string) registry)"
    by (simp add: registry_ok_def table_ok_def empty_registry_def registry_types_def dict_get_def)
  from register_then_lookup [OF this, of "method_handler ''STEMHandler'' ''stem''" False]
  show ?thesis by (simp add: method_handler_def)
qed

section \<open>The registrations at import time are complete\<close>

text \<open>
  An abstract view of the two sides: \<open>S r\<close> is the set of handler names that have all seven
  functions; every other name has none, and the mapping leads to names in \<open>S r\<close> only.
\<close>

definition registry_view :: "'f registry \<Rightarrow> (bool \<Rightarrow> string set) \<Rightarrow> bool" where
  "registry_view R S \<longleftrightarrow>
     registry_ok R \<and>
     (\<forall>r n m. dict_get (side_mapping R r) n = Some m \<longrightarrow> m \<in> S r) \<and>
     (\<forall>r m. \<forall>ty \<in> set registry_types. table_at (side_table R r) ty m = None \<longleftrightarrow> m \<notin> S r)"

lemma handler_method_Some: "ty \<in> set registry_types \<Longrightarrow> handler_method h ty \<noteq> None"
  by (auto simp: handler_method_def handler_methods_def registry_types_def)

lemma view_empty: "registry_view empty_registry (\<lambda>_. {})"
  by (auto simp: registry_view_def registry_ok_def side_mapping_def side_table_def
      table_at_def table_ok_def empty_registry_def registry_types_def dict_get_def dict_get_default_def)

lemma view_lookup:
  "registry_view R S \<Longrightarrow> ty \<in> set registry_types \<Longrightarrow>
     table_at (side_table R r) ty m = None \<longleftrightarrow> m \<notin> S r"
  unfolding registry_view_def by blast

lemma view_register:
  assumes "registry_view R S" and "S' = S(r := insert (ah_name h) (S r))"
  shows "\<exists>R'. register_agent_handler R h r = Inr R' \<and> registry_view R' S'"
proof -
  from assms(1) register_agent_handler_ok [of R h r] obtain R' where
    R': "register_agent_handler R h r = Inr R'" "registry_ok R'"
    "side_table R' (\<not> r) = side_table R (\<not> r)" "side_mapping R' (\<not> r) = side_mapping R (\<not> r)"
    "side_mapping R' r = dict_set (side_mapping R r) (ah_name h) (ah_name h)"
    "\<forall>ty n. table_at (side_table R' r) ty n =
       (if n = ah_name h \<and> ty \<in> set registry_types then handler_method h ty
        else table_at (side_table R r) ty n)" by (auto simp: registry_view_def)
  have "dict_get (side_mapping R' q) n = Some m \<Longrightarrow> m \<in> S' q" for q n m
    using R' assms by (cases "q = r") (auto simp: registry_view_def split: if_splits)
  moreover have "table_at (side_table R' q) ty m = None \<longleftrightarrow> m \<notin> S' q"
    if ty: "ty \<in> set registry_types" for q m ty
  proof (cases "q = r")
    case True
    with R'(6) ty assms(2) handler_method_Some [OF ty, of h] view_lookup [OF assms(1) ty, of r m]
    show ?thesis by simp
  next
    case False
    then have "q = (\<not> r)" by simp
    with R'(3) assms(2) view_lookup [OF assms(1) ty, of q m] show ?thesis by simp
  qed
  ultimately show ?thesis using R' unfolding registry_view_def by blast
qed

lemma add_name_mapping_sides [simp]:
  "side_table (add_name_mapping R n target r) q = side_table R q"
  "side_mapping (add_name_mapping R n target r) q =
     (if q = r then dict_set (side_mapping R r) n target else side_mapping R q)"
  "registry_ok (add_name_mapping R n target r) = registry_ok R"
  by (auto simp: add_name_mapping_def side_table_def side_mapping_def registry_ok_def)

lemma view_add_mappings:
  "registry_view R S \<Longrightarrow> target \<in> S r \<Longrightarrow> registry_view (add_mappings target r names R) S"
proof (induction names arbitrary: R)
  case Nil
  then show ?case by (simp add: add_mappings_def)
next
  case (Cons n names)
  from Cons.prems have "registry_view (add_name_mapping R n target r) S"
    by (simp add: registry_view_def)
  from Cons.IH [OF this Cons.prems(2)] show ?case by (simp add: add_mappings_def)
qed

definition startup_names :: "bool \<Rightarrow> string set" where
  "startup_names r =
     (if r then {''prorl''} else {''swebench'', ''deepscaler'', ''deepcoder'', ''stem'', ''gui''})"

lemma startup_names_simps [simp]:
  "startup_names True = {''prorl''}"
  "startup_names False = {''swebench'', ''deepscaler'', ''deepcoder'', ''stem'', ''gui''}"
  by (simp_all add: startup_names_def)

lemma view_register_method:
  assumes "registry_view R S"
  shows "\<exists>R' S'. register_agent_handler R (method_handler c n) r = Inr R' \<and> registry_view R' S' \<and>
           S' r = insert n (S r) \<and> S' (\<not> r) = S (\<not> r)"
proof -
  from view_register [OF assms refl, of "method_handler c n" r] obtain R' where
    "register_agent_handler R (method_handler c n) r = Inr R'"
    "registry_view R' (S(r := insert n (S r)))" by (auto simp: method_handler_def)
  then show ?thesis by (intro exI [of _ R'] exI [of _ "S(r := insert n (S r))"]) simp
qed

lemma startup_view: "\<exists>R. startup_registry = Inr R \<and> registry_view R startup_names"
proof -
  note reg = view_register_method
  obtain R1 S1 where 1: "register_agent_handler empty_registry (method_handler ''SweAgentHandler'' ''swebench'') False = Inr R1"
    "registry_view R1 S1" "S1 False = {''swebench''}" "S1 True = {}"
    using reg [OF view_empty, of "''SweAgentHandler''" "''swebench''" False] by auto
  obtain R2 S2 where 2: "register_agent_handler R1 (method_handler ''MathHandler'' ''deepscaler'') False = Inr R2"
    "registry_view R2 S2" "S2 False = {''deepscaler'', ''swebench''}" "S2 True = {}"
    using reg [OF 1(2), of "''MathHandler''" "''deepscaler''" False] 1 by auto
  obtain R3 S3 where 3: "register_agent_handler R2 (method_handler ''CodeHandler'' ''deepcoder'') False = Inr R3"
    "registry_view R3 S3" "S3 False = {''deepcoder'', ''deepscaler'', ''swebench''}" "S3 True = {}"
    using reg [OF 2(2), of "''CodeHandler''" "''deepcoder''" False] 2 by auto
  obtain R4 S4 where 4: "register_agent_handler R3 (method_handler ''ProRLHandler'' ''prorl'') True = Inr R4"
    "registry_view R4 S4" "S4 False = {''deepcoder'', ''deepscaler'', ''swebench''}" "S4 True = {''prorl''}"
    using reg [OF 3(2), of "''ProRLHandler''" "''prorl''" True] 3 by auto
  define R6 where "R6 = add_mappings ''prorl'' True prorl_datasets (add_mappings ''deepcoder'' False code_datasets R4)"
  have 6: "registry_view R6 S4"
    unfolding R6_def using 4 by (intro view_add_mappings) simp_all
  obtain R7 S7 where 7: "register_agent_handler R6 (method_handler ''STEMHandler'' ''stem'') False = Inr R7"
    "registry_view R7 S7" "S7 False = {''stem'', ''deepcoder'', ''deepscaler'', ''swebench''}" "S7 True = {''prorl''}"
    using reg [OF 6, of "''STEMHandler''" "''stem''" False] 4 by auto
  obtain R8 S8 where 8: "register_agent_handler R7 (method_handler ''GuiAgentHandler'' ''gui'') False = Inr R8"
    "registry_view R8 S8" "S8 False = {''gui'', ''stem'', ''deepcoder'', ''deepscaler'', ''swebench''}" "S8 True = {''prorl''}"
    using reg [OF 7(2), of "''GuiAgentHandler''" "''gui''" False] 7 by auto
  have "S8 b = startup_names b" for b using 8 by (cases b) auto
  then have "S8 = startup_names" by (rule ext)
  then have "registry_view (add_mappings ''gui'' False gui_names (add_mappings ''deepcoder'' False code_datasets R8)) startup_names"
    using 8(2) by (intro view_add_mappings) simp_all
  then show ?thesis
    using 1 2 3 4 7 8 by (simp add: startup_registry_def R6_def)
qed

text \<open>The name mapping after the registrations.\<close>

lemma register_mapping:
  "register_agent_handler R h r = Inr R' \<Longrightarrow>
   dict_get (side_mapping R' q) n =
     (if q = r \<and> n = ah_name h then Some (ah_name h) else dict_get (side_mapping R q) n)"
  by (auto simp: register_agent_handler_def bind_result_Inr_iff side_mapping_def split: if_splits)

lemma add_mappings_mapping:
  "dict_get (side_mapping (add_mappings target r names R) q) n =
     (if q = r \<and> n \<in> set names then Some target else dict_get (side_mapping R q) n)"
proof (induction names arbitrary: R)
  case Nil
  then show ?case by (simp add: add_mappings_def)
next
  case (Cons a names)
  have "add_mappings target r (a # names) R = add_mappings target r names (add_name_mapping R a target r)"
    by (simp add: add_mappings_def)
  with Cons.IH [of "add_name_mapping R a target r"] show ?case by auto
qed

lemma method_handler_name [simp]: "ah_name (method_handler c n) = n"
  by (simp add: method_handler_def)

lemma startup_mapping_tool_call:
  assumes "startup_registry = Inr R"
  shows "dict_get (side_mapping R False) ''tool_call'' = None"
    "dict_get (side_mapping R True) ''tool_call'' = Some ''prorl''"
proof -
  from assms obtain R1 R2 R3 R4 R7 R8 where
    s: "register_agent_handler empty_registry (method_handler ''SweAgentHandler'' ''swebench'') False = Inr R1"
    "register_agent_handler R1 (method_handler ''MathHandler'' ''deepscaler'') False = Inr R2"
    "register_agent_handler R2 (method_handler ''CodeHandler'' ''deepcoder'') False = Inr R3"
    "register_agent_handler R3 (method_handler ''ProRLHandler'' ''prorl'') True = Inr R4"
    "register_agent_handler (add_mappings ''prorl'' True prorl_datasets (add_mappings ''deepcoder'' False code_datasets R4))
       (method_handler ''STEMHandler'' ''stem'') False = Inr R7"
    "register_agent_handler R7 (method_handler ''GuiAgentHandler'' ''gui'') False = Inr R8"
    "R = add_mappings ''gui'' False gui_names (add_mappings ''deepcoder'' False code_datasets R8)"
    by (auto simp: startup_registry_def bind_result_Inr_iff Let_def)
  have e: "dict_get (side_mapping (empty_registry :: (string \<times> string) registry) q) n = None" for q n
    by (simp add: side_mapping_def empty_registry_def dict_get_def)
  have ds: "''tool_call'' \<notin> set gui_names" "''tool_call'' \<notin> set code_datasets" "''tool_call'' \<in> set prorl_datasets"
    by (simp_all add: gui_names_def code_datasets_def prorl_datasets_def)
  show "dict_get (side_mapping R False) ''tool_call'' = None"
    "dict_get (side_mapping R True) ''tool_call'' = Some ''prorl''"
    by (simp_all add: s(7) add_mappings_mapping ds register_mapping [OF s(1)] register_mapping [OF s(2)]
        register_mapping [OF s(3)] register_mapping [OF s(4)] register_mapping [OF s(5)]
        register_mapping [OF s(6)] e)
qed

lemma startup_tool_call:
  assumes "startup_registry = Inr R"
  shows "get_registered_functions R ty ''tool_call'' False = None"
    and "ty \<in> set registry_types \<Longrightarrow> get_registered_functions R ty ''tool_call'' True \<noteq> None"
proof -
  obtain R' where R': "startup_registry = Inr R'" "registry_view R' startup_names" using startup_view by blast
  have "R' = R" using R'(1) assms by (metis sum.inject(2))
  with R'(2) have v: "registry_view R startup_names" by simp
  show "get_registered_functions R ty ''tool_call'' False = None"
    using startup_mapping_tool_call [OF assms] by (simp add: get_registered_functions_at)
  show "get_registered_functions R ty ''tool_call'' True \<noteq> None" if "ty \<in> set registry_types"
    using startup_mapping_tool_call [OF assms] view_lookup [OF v that, of True "''prorl''"]
    by (simp add: get_registered_functions_at)
qed

text \<open>
  After the registrations at import time, every job the server accepts has all
  seven handler functions, with one exception: a dataset whose name starts with
  \<^verbatim>\<open>deepcoder\<close> is always accepted as a reasoning task, but none of its functions is found,
  because the lookup replaces the name by \<^verbatim>\<open>deepcoder\<close>, which is registered for agent tasks
  only, whatever the mapping of \<^verbatim>\<open>deepcoder\<close> to \<^verbatim>\<open>prorl\<close> says.
\<close>

theorem startup_handlers_found:
  "\<exists>R. startup_registry = Inr R \<and>
     (\<forall>n r. is_registered_handler R n r \<longrightarrow>
        (if r \<and> take 9 n = ''deepcoder''
         then \<forall>ty \<in> set registry_types. get_registered_functions R ty n r = None
         else \<forall>ty \<in> set registry_types. get_registered_functions R ty n r \<noteq> None))"
proof -
  obtain R where R: "startup_registry = Inr R" "registry_view R startup_names"
    using startup_view by blast
  have "\<forall>ty \<in> set registry_types. get_registered_functions R ty n True = None"
    if "take 9 n = ''deepcoder''" for n
    using view_lookup [OF R(2)] that by (simp add: get_registered_functions_at)
  moreover have "\<forall>ty \<in> set registry_types. get_registered_functions R ty n r \<noteq> None"
    if "is_registered_handler R n r" "\<not> (r \<and> take 9 n = ''deepcoder'')" for n r
  proof -
    have "\<exists>m \<in> startup_names r. \<forall>ty. get_registered_functions R ty n r = table_at (side_table R r) ty m"
    proof (cases "take 9 n = ''deepcoder''")
      case True
      with that(2) show ?thesis
        by (intro bexI [of _ "''deepcoder''"]) (auto simp: get_registered_functions_at)
    next
      case False
      with that(1) obtain m where m: "dict_get (side_mapping R r) n = Some m"
        by (auto simp: is_registered_handler_def side_mapping_def split: if_splits)
      with R(2) have "m \<in> startup_names r" by (simp add: registry_view_def)
      with m False show ?thesis
        by (intro bexI [of _ m]) (simp_all add: get_registered_functions_at)
    qed
    then show ?thesis using view_lookup [OF R(2)] by metis
  qed
  ultimately show ?thesis using R(1) by auto
qed

theorem startup_handlers_found_witness:
  "\<exists>R. startup_registry = Inr R \<and>
     is_registered_handler R ''deepcoder_v2'' True \<and>
     get_registered_functions R ''run'' ''deepcoder_v2'' True = None \<and>
     get_registered_functions R ''run'' ''deepcoder_v2'' False \<noteq> None"
proof -
  obtain R where R: "startup_registry = Inr R"
    "\<forall>n r. is_registered_handler R n r \<longrightarrow>
        (if r \<and> take 9 n = ''deepcoder''
         then \<forall>ty \<in> set registry_types. get_registered_functions R ty n r = None
         else \<forall>ty \<in> set registry_types. get_registered_functions R ty n r \<noteq> None)"
    using startup_handlers_found by blast
  have acc: "is_registered_handler R ''deepcoder_v2'' q" for q by (simp add: is_registered_handler_def)
  then have "get_registered_functions R ''run'' ''deepcoder_v2'' True = None"
    and "get_registered_functions R ''run'' ''deepcoder_v2'' False \<noteq> None"
    using R(2) [rule_format, of "''deepcoder_v2''" True] R(2) [rule_format, of "''deepcoder_v2''" False]
    by (simp_all add: registry_types_def)
  with R(1) acc show ?thesis by blast
qed

end
