(* ===== verification/Heapq.thy ===== *)
theory Heapq
  imports PyPrelude
begin

text \<open>
  Python's \<^verbatim>\<open>heapq\<close>, as far as the servers use it on their list of weighted addresses:
  \<open>heapify\<close>, \<open>heappush\<close> and \<open>heapreplace\<close>, by the library's own algorithm (sift the hole
  to a leaf, then the item back up), and the contract of a list-based priority queue as the
  locale \<open>min_heap\<close>.
\<close>

section \<open>The algorithm\<close>

abbreviation parent_pos :: "nat \<Rightarrow> nat" where
  "parent_pos c \<equiv> (c - 1) div 2"

fun siftdown :: "'a::linorder list \<Rightarrow> nat \<Rightarrow> nat \<Rightarrow> 'a \<Rightarrow> 'a list" where
  "siftdown heap startpos pos newitem =
     (if startpos < pos then
        (let parent = heap ! parent_pos pos in
         if newitem < parent then siftdown (heap[pos := parent]) startpos (parent_pos pos) newitem
         else heap[pos := newitem])
      else heap[pos := newitem])"

definition smaller_child :: "'a::linorder list \<Rightarrow> nat \<Rightarrow> nat" where
  "smaller_child heap childpos =
     (let rightpos = childpos + 1 in
      if rightpos < length heap \<and> \<not> heap ! childpos < heap ! rightpos then rightpos else childpos)"

function siftup_hole :: "'a::linorder list \<Rightarrow> nat \<Rightarrow> 'a list \<times> nat" where
  "siftup_hole heap pos =
     (if 2 * pos + 1 < length heap then
        (let childpos = smaller_child heap (2 * pos + 1)
         in siftup_hole (heap[pos := heap ! childpos]) childpos)
      else (heap, pos))"
  by pat_completeness auto
termination
  by (relation "measure (\<lambda>(heap, pos). length heap - pos)") (auto simp: smaller_child_def Let_def)

definition siftup :: "'a::linorder list \<Rightarrow> nat \<Rightarrow> 'a list" where
  "siftup heap pos =
     (case siftup_hole heap pos of (heap', pos') \<Rightarrow> siftdown heap' pos pos' (heap ! pos))"

declare siftdown.simps [simp del] siftup_hole.simps [simp del]

fun heapify_from :: "nat \<Rightarrow> 'a::linorder list \<Rightarrow> 'a list" where
  "heapify_from 0 heap = heap"
| "heapify_from (Suc i) heap = heapify_from i (siftup heap i)"

definition heapify :: "'a::linorder list \<Rightarrow> 'a list" where
  "heapify heap = heapify_from (length heap div 2) heap"

definition heappush :: "'a::linorder list \<Rightarrow> 'a \<Rightarrow> 'a list" where
  "heappush heap item = siftdown (heap @ [item]) 0 (length heap) item"

text \<open>\<open>heapreplace\<close> on a heap that is not empty; the caller checks.\<close>

definition heapreplace :: "'a::linorder list \<Rightarrow> 'a \<Rightarrow> 'a list" where
  "heapreplace heap item = siftup (heap[0 := item]) 0"

section \<open>The heap order\<close>

text \<open>Every edge whose parent is at \<open>s\<close> or after it is in order.\<close>

definition heap_from :: "nat \<Rightarrow> 'a::linorder list \<Rightarrow> bool" where
  "heap_from s xs \<longleftrightarrow> (\<forall>c < length xs. 0 < c \<longrightarrow> s \<le> parent_pos c \<longrightarrow> xs ! parent_pos c \<le> xs ! c)"

abbreviation is_heap :: "'a::linorder list \<Rightarrow> bool" where
  "is_heap xs \<equiv> heap_from 0 xs"

text \<open>\<open>s\<close> is an ancestor of \<open>p\<close> or \<open>p\<close> itself.\<close>

fun descends :: "nat \<Rightarrow> nat \<Rightarrow> bool" where
  "descends s p = (if s < p then descends s (parent_pos p) else p = s)"

declare descends.simps [simp del]

lemma descends_ge: "descends s p \<Longrightarrow> s \<le> p"
  by (subst (asm) descends.simps) (auto split: if_splits)

lemma descends_parent: "descends s p \<Longrightarrow> s < p \<Longrightarrow> descends s (parent_pos p)"
  by (subst (asm) descends.simps) auto

lemma descends_child:
  assumes "descends s p" and "c = 2 * p + 1 \<or> c = 2 * p + 2"
  shows "descends s c"
proof -
  have "parent_pos c = p" "s < c" using assms descends_ge [OF assms(1)] by auto
  with assms(1) show ?thesis by (subst descends.simps) simp
qed

text \<open>
  The state of \<open>siftdown\<close>: every edge away from the hole \<open>pos\<close> is in order, the item is not
  above the children of the hole, nor is the parent of the hole.
\<close>

definition hole_ok :: "'a::linorder list \<Rightarrow> nat \<Rightarrow> nat \<Rightarrow> 'a \<Rightarrow> bool" where
  "hole_ok xs s pos x \<longleftrightarrow>
     pos < length xs \<and> descends s pos \<and>
     (\<forall>c < length xs. 0 < c \<longrightarrow> s \<le> parent_pos c \<longrightarrow> c \<noteq> pos \<longrightarrow> parent_pos c \<noteq> pos \<longrightarrow>
        xs ! parent_pos c \<le> xs ! c) \<and>
     (\<forall>c < length xs. 0 < c \<longrightarrow> parent_pos c = pos \<longrightarrow>
        x \<le> xs ! c \<and> (s < pos \<longrightarrow> xs ! parent_pos pos \<le> xs ! c))"

lemma parent_pos_less: "0 < c \<Longrightarrow> parent_pos c < c"
  by auto

lemma hole_ok_step:
  assumes ok: "hole_ok xs s pos x" and s: "s < pos" and x: "x < xs ! parent_pos pos"
  shows "hole_ok (xs[pos := xs ! parent_pos pos]) s (parent_pos pos) x"
proof -
  let ?p = "parent_pos pos" let ?ys = "xs[pos := xs ! ?p]"
  have len: "pos < length xs" and d: "descends s pos"
    and e: "\<And>c. c < length xs \<Longrightarrow> 0 < c \<Longrightarrow> s \<le> parent_pos c \<Longrightarrow> c \<noteq> pos \<Longrightarrow> parent_pos c \<noteq> pos \<Longrightarrow>
       xs ! parent_pos c \<le> xs ! c"
    and h: "\<And>c. c < length xs \<Longrightarrow> 0 < c \<Longrightarrow> parent_pos c = pos \<Longrightarrow> xs ! ?p \<le> xs ! c"
    using ok s by (auto simp: hole_ok_def)
  have pp: "?p < pos" using s by auto
  have dp: "descends s ?p" "s \<le> ?p" using descends_parent [OF d s] descends_ge by auto
  have up: "xs ! parent_pos ?p \<le> xs ! ?p" if "s < ?p"
    using e [of ?p] that pp len descends_ge [OF descends_parent [OF dp(1) that]]
      parent_pos_less [of ?p] by fastforce
  have edges: "?ys ! parent_pos c \<le> ?ys ! c"
    if "c < length xs" "0 < c" "s \<le> parent_pos c" "c \<noteq> ?p" "parent_pos c \<noteq> ?p" for c
    using that e h len by (cases "parent_pos c = pos") (auto simp: nth_list_update)
  have below: "xs ! ?p \<le> ?ys ! c" if "c < length xs" "0 < c" "parent_pos c = ?p" for c
    using that e [of c] dp pp len by (cases "c = pos") auto
  have "x \<le> ?ys ! c \<and> (s < ?p \<longrightarrow> ?ys ! parent_pos ?p \<le> ?ys ! c)"
    if "c < length xs" "0 < c" "parent_pos c = ?p" for c
    using below [OF that] x up pp by fastforce
  with edges pp len dp(1) show ?thesis unfolding hole_ok_def by simp
qed

lemma hole_ok_stop:
  assumes "hole_ok xs s pos x" and "s < pos \<Longrightarrow> xs ! parent_pos pos \<le> x"
  shows "heap_from s (xs[pos := x])"
  unfolding heap_from_def
proof (intro allI impI)
  fix c assume c: "c < length (xs[pos := x])" "0 < c" "s \<le> parent_pos c"
  then show "xs[pos := x] ! parent_pos c \<le> xs[pos := x] ! c"
    using assms parent_pos_less [OF c(2)]
    by (cases "c = pos"; cases "parent_pos c = pos") (auto simp: hole_ok_def)
qed

lemma mset_fill_move:
  assumes "i < length xs" "j < length xs" "i \<noteq> j"
  shows "mset ((xs[i := xs ! j])[j := x]) = mset (xs[i := x])"
proof -
  have "(xs[i := xs ! j])[j := x] = (xs[i := x])[i := (xs[i := x]) ! j, j := (xs[i := x]) ! i]"
    using assms by (simp add: list_update_swap)
  then show ?thesis using mset_swap [of j "xs[i := x]" i] assms by (simp add: list_update_swap)
qed

lemma siftdown_correct:
  "hole_ok xs s pos x \<Longrightarrow>
     heap_from s (siftdown xs s pos x) \<and> mset (siftdown xs s pos x) = mset (xs[pos := x])"
proof (induction xs s pos x rule: siftdown.induct)
  case (1 xs s pos x)
  show ?case
  proof (cases "s < pos \<and> x < xs ! parent_pos pos")
    case True
    then have pp: "parent_pos pos < pos" by auto
    have len: "pos < length xs" using "1.prems" by (simp add: hole_ok_def)
    have "siftdown xs s pos x = siftdown (xs[pos := xs ! parent_pos pos]) s (parent_pos pos) x"
      using True by (simp add: siftdown.simps [of xs s pos x])
    moreover have "heap_from s (siftdown (xs[pos := xs ! parent_pos pos]) s (parent_pos pos) x) \<and>
        mset (siftdown (xs[pos := xs ! parent_pos pos]) s (parent_pos pos) x) =
        mset ((xs[pos := xs ! parent_pos pos])[parent_pos pos := x])"
      using "1.IH" hole_ok_step [OF "1.prems"] True by simp
    moreover have "mset ((xs[pos := xs ! parent_pos pos])[parent_pos pos := x]) = mset (xs[pos := x])"
      using len pp by (intro mset_fill_move) auto
    ultimately show ?thesis by simp
  next
    case False
    then have "siftdown xs s pos x = xs[pos := x]"
      by (auto simp: siftdown.simps [of xs s pos x] Let_def)
    with hole_ok_stop [OF "1.prems"] False show ?thesis by (auto simp: not_less)
  qed
qed

lemma length_siftdown [simp]: "length (siftdown xs s pos x) = length xs"
  by (induction xs s pos x rule: siftdown.induct) (subst siftdown.simps, simp add: Let_def)

text \<open>
  The state of \<open>siftup_hole\<close>: the hole descends from the start, and with the value still in
  the hole all edges from \<open>s\<close> on are in order, but those leaving the hole when it is at \<open>s\<close>.
\<close>

definition up_ok :: "'a::linorder list \<Rightarrow> nat \<Rightarrow> nat \<Rightarrow> bool" where
  "up_ok xs s pos \<longleftrightarrow> pos < length xs \<and> descends s pos \<and> heap_from (if pos = s then Suc s else s) xs"

lemma smaller_child_props:
  assumes "2 * pos + 1 < length xs" and "c = smaller_child xs (2 * pos + 1)"
  shows "c < length xs" "parent_pos c = pos" "pos < c" "c = 2 * pos + 1 \<or> c = 2 * pos + 2"
    and "\<And>d. d < length xs \<Longrightarrow> 0 < d \<Longrightarrow> parent_pos d = pos \<Longrightarrow> xs ! c \<le> xs ! d"
proof -
  show "c < length xs" "parent_pos c = pos" "pos < c" "c = 2 * pos + 1 \<or> c = 2 * pos + 2"
    using assms by (auto simp: smaller_child_def Let_def split: if_splits)
  show "xs ! c \<le> xs ! d" if "d < length xs" "0 < d" "parent_pos d = pos" for d
  proof -
    have "d = 2 * pos + 1 \<or> d = 2 * pos + 2" using that by auto
    with that assms show ?thesis
      by (auto simp: smaller_child_def Let_def not_less split: if_splits)
  qed
qed

lemma up_ok_step:
  assumes ok: "up_ok xs s pos" and len: "2 * pos + 1 < length xs"
    and c: "c = smaller_child xs (2 * pos + 1)"
  shows "up_ok (xs[pos := xs ! c]) s c"
proof -
  note sc = smaller_child_props [OF len c]
  have d: "descends s pos" and sp: "s \<le> pos" and pl: "pos < length xs"
    using ok descends_ge by (auto simp: up_ok_def)
  have e: "xs ! parent_pos k \<le> xs ! k"
    if "k < length xs" "0 < k" "s \<le> parent_pos k" "parent_pos k \<noteq> pos" for k
    using ok that by (fastforce simp: up_ok_def heap_from_def split: if_splits)
  have up: "xs ! parent_pos pos \<le> xs ! c" if "s \<le> parent_pos pos" "0 < pos"
  proof -
    have "pos \<noteq> s" using that by auto
    then have hp: "heap_from s xs" using ok by (simp add: up_ok_def)
    then have "xs ! pos \<le> xs ! c" using sc sp by (auto simp: heap_from_def)
    moreover have "xs ! parent_pos pos \<le> xs ! pos" using hp that pl by (auto simp: heap_from_def)
    ultimately show ?thesis by (rule order_trans [rotated])
  qed
  have "heap_from s (xs[pos := xs ! c])"
    unfolding heap_from_def
  proof (intro allI impI)
    fix k assume k: "k < length (xs[pos := xs ! c])" "0 < k" "s \<le> parent_pos k"
    show "xs[pos := xs ! c] ! parent_pos k \<le> xs[pos := xs ! c] ! k"
      using k e [of k] up sc(5) [of k] pl parent_pos_less [OF k(2)]
      by (cases "parent_pos k = pos"; cases "k = pos") auto
  qed
  with sc d descends_child [OF d, of c] sp show ?thesis by (auto simp: up_ok_def)
qed

lemma siftup_hole_correct:
  "up_ok xs s pos \<Longrightarrow> siftup_hole xs pos = (ys, q) \<Longrightarrow>
     up_ok ys s q \<and> length ys = length xs \<and> length ys \<le> 2 * q + 1 \<and>
     mset (ys[q := x]) = mset (xs[pos := x])"
proof (induction xs pos arbitrary: ys q rule: siftup_hole.induct)
  case (1 xs pos)
  show ?case
  proof (cases "2 * pos + 1 < length xs")
    case True
    define c where "c = smaller_child xs (2 * pos + 1)"
    note sc = smaller_child_props [OF True c_def]
    have "siftup_hole (xs[pos := xs ! c]) c = (ys, q)"
      using "1.prems"(2) True by (simp add: siftup_hole.simps [of xs pos] c_def Let_def)
    with "1.IH" [OF True c_def up_ok_step [OF "1.prems"(1) True c_def]]
    have "up_ok ys s q \<and> length ys = length (xs[pos := xs ! c]) \<and> length ys \<le> 2 * q + 1 \<and>
        mset (ys[q := x]) = mset ((xs[pos := xs ! c])[c := x])" by blast
    moreover have "mset ((xs[pos := xs ! c])[c := x]) = mset (xs[pos := x])"
      using sc True by (intro mset_fill_move) auto
    ultimately show ?thesis by simp
  next
    case False
    with "1.prems" show ?thesis by (auto simp: siftup_hole.simps [of xs pos])
  qed
qed

lemma siftup_correct:
  assumes "heap_from (Suc s) xs" and "s < length xs"
  shows "heap_from s (siftup xs s)" "mset (siftup xs s) = mset xs" "length (siftup xs s) = length xs"
proof -
  obtain ys q where h: "siftup_hole xs s = (ys, q)" by fastforce
  have up: "up_ok xs s s" using assms by (simp add: up_ok_def descends.simps)
  from siftup_hole_correct [OF up h, of "xs ! s"]
  have r: "up_ok ys s q" "length ys = length xs" "length ys \<le> 2 * q + 1"
    "mset (ys[q := xs ! s]) = mset xs" using assms(2) by simp_all
  have "\<not> (c < length ys \<and> 0 < c \<and> parent_pos c = q)" for c using r(3) by auto
  then have "hole_ok ys s q (xs ! s)"
    using r(1) by (auto simp: up_ok_def hole_ok_def heap_from_def split: if_splits)
  from siftdown_correct [OF this] r h show "heap_from s (siftup xs s)"
    "mset (siftup xs s) = mset xs" "length (siftup xs s) = length xs"
    by (simp_all add: siftup_def)
qed

lemma heapify_from_correct:
  "heap_from k xs \<Longrightarrow> k \<le> length xs \<Longrightarrow> is_heap (heapify_from k xs) \<and> mset (heapify_from k xs) = mset xs"
proof (induction k arbitrary: xs)
  case 0
  then show ?case by simp
next
  case (Suc k)
  with siftup_correct [of k xs] Suc.IH [of "siftup xs k"] show ?case by simp
qed

lemma heapify_correct: "is_heap (heapify xs) \<and> mset (heapify xs) = mset xs"
  unfolding heapify_def by (rule heapify_from_correct) (auto simp: heap_from_def)

lemma heappush_correct:
  assumes "is_heap xs"
  shows "is_heap (heappush xs x)" "mset (heappush xs x) = add_mset x (mset xs)"
proof -
  have d: "descends 0 p" for p
  proof (induction p rule: less_induct)
    case (less p)
    then show ?case by (cases p) (subst descends.simps, auto)+
  qed
  have "hole_ok (xs @ [x]) 0 (length xs) x"
    using assms d by (auto simp: hole_ok_def heap_from_def nth_append)
  from siftdown_correct [OF this] show "is_heap (heappush xs x)"
    "mset (heappush xs x) = add_mset x (mset xs)" by (simp_all add: heappush_def)
qed

lemma heapreplace_correct:
  assumes "is_heap xs" and "xs \<noteq> []"
  shows "is_heap (heapreplace xs x)" "mset (heapreplace xs x) = add_mset x (mset xs - {# hd xs #})"
proof -
  have h: "heap_from (Suc 0) (xs[0 := x])"
    using assms by (auto simp: heap_from_def nth_list_update)
  have "mset (xs[0 := x]) = add_mset x (mset xs - {# hd xs #})"
    using assms(2) by (cases xs) simp_all
  with siftup_correct [OF h] assms(2) show "is_heap (heapreplace xs x)"
    "mset (heapreplace xs x) = add_mset x (mset xs - {# hd xs #})"
    by (simp_all add: heapreplace_def)
qed

lemma heap_root_least: "is_heap xs \<Longrightarrow> i < length xs \<Longrightarrow> xs ! 0 \<le> xs ! i"
proof (induction i rule: less_induct)
  case (less i)
  show ?case
  proof (cases i)
    case (Suc j)
    then have "parent_pos i < i" by simp
    with less have "xs ! 0 \<le> xs ! parent_pos i" by simp
    also have "\<dots> \<le> xs ! i" using less.prems Suc by (auto simp: heap_from_def)
    finally show ?thesis .
  qed simp
qed

section \<open>The contract\<close>

locale min_heap =
  fixes invar :: "'a::linorder list \<Rightarrow> bool"
    and build :: "'a list \<Rightarrow> 'a list"
    and push :: "'a list \<Rightarrow> 'a \<Rightarrow> 'a list"
    and replace_min :: "'a list \<Rightarrow> 'a \<Rightarrow> 'a list"
  assumes invar_build: "invar (build xs)"
    and mset_build: "mset (build xs) = mset xs"
    and invar_push: "invar xs \<Longrightarrow> invar (push xs x)"
    and mset_push: "invar xs \<Longrightarrow> mset (push xs x) = add_mset x (mset xs)"
    and invar_replace: "invar xs \<Longrightarrow> xs \<noteq> [] \<Longrightarrow> invar (replace_min xs x)"
    and mset_replace: "invar xs \<Longrightarrow> xs \<noteq> [] \<Longrightarrow>
           mset (replace_min xs x) = add_mset x (mset xs - {# hd xs #})"
    and hd_least: "invar xs \<Longrightarrow> y \<in> set xs \<Longrightarrow> hd xs \<le> y"
begin

lemma set_push: "invar xs \<Longrightarrow> set (push xs x) = insert x (set xs)"
  by (metis mset_push set_mset_add_mset_insert set_mset_mset)

lemma length_replace: "invar xs \<Longrightarrow> xs \<noteq> [] \<Longrightarrow> length (replace_min xs x) = length xs"
  by (metis add.commute add_mset_add_single hd_in_set insert_DiffM2 mset_replace set_mset_mset
      size_add_mset size_mset)

lemma size_push: "invar xs \<Longrightarrow> length (push xs x) = Suc (length xs)"
  by (metis mset_push size_add_mset size_mset)

text \<open>Mapping a function over the multiset: one occurrence of the root's image is exchanged.\<close>

lemma image_replace:
  "invar xs \<Longrightarrow> xs \<noteq> [] \<Longrightarrow>
     image_mset f (mset (replace_min xs x)) = add_mset (f x) (image_mset f (mset xs) - {# f (hd xs) #})"
  by (simp add: mset_replace image_mset_Diff)

end

interpretation hq: min_heap is_heap heapify heappush heapreplace
proof unfold_locales
  fix xs :: "'a list" and y
  assume "is_heap xs" "y \<in> set xs"
  then show "hd xs \<le> y"
    using heap_root_least [of xs] by (metis hd_conv_nth in_set_conv_nth length_pos_if_in_set list.size(3) nless_le)
qed (simp_all add: heapify_correct heappush_correct heapreplace_correct)

end
