(* ===== verification/Balancer.thy ===== *)
theory Balancer
  imports Heapq Registry
begin

text \<open>
  The list of weighted LLM server addresses of both servers
  (\<^verbatim>\<open>openhands/nvidia/async_server.py\<close> and \<^verbatim>\<open>openhands/nvidia/async_server_process.py\<close>):
  a heap of pairs of a weight and an address, compared as Python compares the lists
  \<open>[weight, address]\<close>. Each job takes the first address and adds one to its weight.
\<close>

type_synonym weighted_addresses = "(int \<times> string) list"

section \<open>Operations\<close>

definition new_addresses :: "string list option \<Rightarrow> weighted_addresses" where
  "new_addresses llm_server_addresses =
     heapify (map (\<lambda>a. (0, a)) (case llm_server_addresses of None \<Rightarrow> [] | Some l \<Rightarrow> l))"

fun address_exists :: "weighted_addresses \<Rightarrow> string \<Rightarrow> bool" where
  "address_exists [] a = False"
| "address_exists ((weight, addr) # W) a = (if addr = a then True else address_exists W a)"

definition add_llm_server_address :: "weighted_addresses \<Rightarrow> string \<Rightarrow> weighted_addresses" where
  "add_llm_server_address W a = (if address_exists W a then W else heappush W (0, a))"

definition clear_llm_server_addresses :: "weighted_addresses \<Rightarrow> weighted_addresses" where
  "clear_llm_server_addresses W = []"

text \<open>
  The locked block of \<open>create_llm_config\<close>, which is also all of \<open>get_llm_server_addresses\<close>:
  the root's weight is increased in place, then \<open>heapreplace\<close> takes the root as its item.
\<close>

definition get_llm_server_addresses :: "weighted_addresses \<Rightarrow> (string \<times> weighted_addresses) result" where
  "get_llm_server_addresses W =
     (case W of
        [] \<Rightarrow> Inl (ValueError ''No LLM server addresses added'')
      | (w, a) # rest \<Rightarrow>
          (let W1 = (w + 1, a) # rest in Inr (a, heapreplace W1 (hd W1))))"

text \<open>
  \<open>create_llm_config\<close>: the new list and the configuration or the error. The constructor of
  \<open>LLMConfig\<close> validates its keywords in a third-party library: it is the argument \<open>mk\<close>. It
  runs after the weight has been increased.
\<close>

definition create_llm_config ::
  "(string \<Rightarrow> jdict \<Rightarrow> llm_config result) \<Rightarrow> weighted_addresses \<Rightarrow> jdict
     \<Rightarrow> weighted_addresses \<times> llm_config result" where
  "create_llm_config mk W sampling_params =
     (case get_llm_server_addresses W of
        Inl e \<Rightarrow> (W, Inl e)
      | Inr (address, W') \<Rightarrow> (W', mk address sampling_params))"

text \<open>The addresses given to \<open>n\<close> jobs in a row.\<close>

fun pick_many :: "nat \<Rightarrow> weighted_addresses \<Rightarrow> (string list \<times> weighted_addresses) result" where
  "pick_many 0 W = Inr ([], W)"
| "pick_many (Suc n) W =
     bind_result (get_llm_server_addresses W) (\<lambda>(a, W1).
     bind_result (pick_many n W1) (\<lambda>(as, W2). Inr (a # as, W2)))"

section \<open>Lemmas\<close>

text \<open>The invariant of the list: a heap, each address once.\<close>

definition addresses_ok :: "weighted_addresses \<Rightarrow> bool" where
  "addresses_ok W \<longleftrightarrow> is_heap W \<and> distinct (map snd W)"

lemma distinct_image_mset:
  "mset (map snd W) = mset (map snd W') \<Longrightarrow> distinct (map snd W) \<longleftrightarrow> distinct (map snd W')"
  by (metis mset_eq_imp_distinct_iff)

lemma address_exists_iff: "address_exists W a \<longleftrightarrow> a \<in> snd ` set W"
  by (induction W a rule: address_exists.induct) auto

lemma new_addresses_ok [inv_intros]:
  "distinct as \<Longrightarrow> addresses_ok (new_addresses (Some as)) \<and> mset (new_addresses (Some as)) = mset (map (\<lambda>a. (0, a)) as)"
proof -
  assume d: "distinct as"
  have m: "mset (new_addresses (Some as)) = mset (map (\<lambda>a. (0, a)) as)"
    by (simp add: new_addresses_def hq.mset_build)
  then have "mset (map snd (new_addresses (Some as))) = mset (map snd (map (\<lambda>a. (0::int, a)) as))"
    by (metis mset_map)
  then have "distinct (map snd (new_addresses (Some as))) = distinct (map snd (map (\<lambda>a. (0::int, a)) as))"
    by (rule mset_eq_imp_distinct_iff)
  with d have "distinct (map snd (new_addresses (Some as)))" by (simp add: comp_def)
  with m show ?thesis by (simp add: addresses_ok_def new_addresses_def hq.invar_build)
qed

lemma add_address_ok [inv_intros]:
  assumes "addresses_ok W"
  shows "addresses_ok (add_llm_server_address W a)"
proof (cases "address_exists W a")
  case False
  then have "mset (map snd (heappush W (0, a))) = mset (a # map snd W)"
    using assms by (simp add: addresses_ok_def hq.mset_push)
  then have "distinct (map snd (heappush W (0, a))) = distinct (a # map snd W)"
    by (rule mset_eq_imp_distinct_iff)
  with False assms show ?thesis
    by (simp add: addresses_ok_def add_llm_server_address_def hq.invar_push address_exists_iff)
qed (use assms in \<open>simp add: add_llm_server_address_def\<close>)

text \<open>One pick: the least pair gives its address and goes up by one; nothing else changes.\<close>

lemma pick_spec:
  assumes "addresses_ok W" and "W \<noteq> []"
  obtains w a W' where "get_llm_server_addresses W = Inr (a, W')" "addresses_ok W'"
    "(w, a) \<in> set W" "\<forall>x \<in> set W. (w, a) \<le> x"
    "mset W' = add_mset (w + 1, a) (mset W - {# (w, a) #})"
proof -
  obtain w a rest where W: "W = (w, a) # rest" using assms(2) by (cases W) auto
  let ?W' = "heapreplace W (w + 1, a)"
  have "get_llm_server_addresses W = Inr (a, ?W')"
    by (simp add: W get_llm_server_addresses_def heapreplace_def)
  moreover have ms: "mset ?W' = add_mset (w + 1, a) (mset W - {# (w, a) #})"
    using assms hq.mset_replace [of W] by (simp add: addresses_ok_def W)
  moreover have "mset (map snd ?W') = mset (map snd W)"
    using ms by (simp add: W)
  then have "addresses_ok ?W'"
    using assms distinct_image_mset hq.invar_replace [of W] by (auto simp: addresses_ok_def)
  moreover have "\<forall>x \<in> set W. (w, a) \<le> x"
    using assms hq.hd_least [of W] by (simp add: addresses_ok_def W)
  moreover have "(w, a) \<in> set W" by (simp add: W)
  ultimately show ?thesis using that by blast
qed

text \<open>The load view: the weight of each address, and how far weights are apart.\<close>

definition weight_of :: "weighted_addresses \<Rightarrow> string \<Rightarrow> int" where
  "weight_of W a = (case find (\<lambda>x. snd x = a) W of Some x \<Rightarrow> fst x | None \<Rightarrow> 0)"

lemma weight_of_eq:
  assumes "distinct (map snd W)" and "(w, a) \<in> set W"
  shows "weight_of W a = w"
  using assms by (induction W) (auto simp: weight_of_def image_iff)

lemma weight_of_pick:
  assumes "addresses_ok W" "addresses_ok W'" "(w, a) \<in> set W"
    and "mset W' = add_mset (w + 1, a) (mset W - {# (w, a) #})"
  shows "snd ` set W' = snd ` set W"
    and "b \<in> snd ` set W \<Longrightarrow> weight_of W' b = weight_of W b + (if b = a then 1 else 0)"
proof -
  have d: "distinct (map snd W)" "distinct (map snd W')" "distinct W"
    using assms by (auto simp: addresses_ok_def distinct_map)
  have "mset W - {# (w, a) #} = mset (remove1 (w, a) W)" by simp
  then have s: "set W' = insert (w + 1, a) (set W - {(w, a)})"
    using assms(4) d(3) by (metis set_mset_add_mset_insert set_mset_mset set_remove1_eq)
  then show "snd ` set W' = snd ` set W" using assms(3) by force
  assume "b \<in> snd ` set W"
  then obtain v where v: "(v, b) \<in> set W" by auto
  have wb: "weight_of W b = v" by (rule weight_of_eq [OF d(1) v])
  show "weight_of W' b = weight_of W b + (if b = a then 1 else 0)"
  proof (cases "b = a")
    case True
    then have "v = w" using weight_of_eq [OF d(1) v] weight_of_eq [OF d(1) assms(3)] by simp
    moreover have "weight_of W' a = w + 1" by (rule weight_of_eq [OF d(2)]) (simp add: s)
    ultimately show ?thesis using True wb by simp
  next
    case False
    then have "(v, b) \<in> set W'" using v s by simp
    then show ?thesis using weight_of_eq [OF d(2)] wb False by simp
  qed
qed

definition level :: "weighted_addresses \<Rightarrow> bool" where
  "level W \<longleftrightarrow> (\<forall>a \<in> snd ` set W. \<forall>b \<in> snd ` set W. weight_of W a \<le> weight_of W b + 1)"

lemma level_pick:
  assumes ok: "addresses_ok W" "addresses_ok W'" and a: "(w, a) \<in> set W"
    and least: "\<forall>x \<in> set W. (w, a) \<le> x"
    and m: "mset W' = add_mset (w + 1, a) (mset W - {# (w, a) #})" and l: "level W"
  shows "level W'"
proof -
  have d: "distinct (map snd W)" using ok(1) by (simp add: addresses_ok_def)
  have wa: "weight_of W a = w" by (rule weight_of_eq [OF d a])
  have min: "w \<le> weight_of W b" if "b \<in> snd ` set W" for b
    using that least weight_of_eq [OF d] by (fastforce simp: less_eq_prod_def)
  have up: "weight_of W b \<le> w + 1" if "b \<in> snd ` set W" for b
    using l that a wa by (force simp: level_def)
  show ?thesis
    unfolding level_def
  proof (intro ballI)
    fix b c assume "b \<in> snd ` set W'" "c \<in> snd ` set W'"
    then have bc: "b \<in> snd ` set W" "c \<in> snd ` set W" using weight_of_pick(1) [OF ok a m] by auto
    show "weight_of W' b \<le> weight_of W' c + 1"
      using weight_of_pick(2) [OF ok a m bc(1)] weight_of_pick(2) [OF ok a m bc(2)]
        min [OF bc(2)] up [OF bc(1)] wa by auto
  qed
qed

lemma pick_many_spec:
  "addresses_ok W \<Longrightarrow> W \<noteq> [] \<Longrightarrow> level W \<Longrightarrow>
     \<exists>as W'. pick_many n W = Inr (as, W') \<and> length as = n \<and> addresses_ok W' \<and> level W' \<and>
       set as \<subseteq> snd ` set W \<and> snd ` set W' = snd ` set W \<and>
       (\<forall>b \<in> snd ` set W. weight_of W' b = weight_of W b + int (count_list as b))"
proof (induction n arbitrary: W)
  case 0
  then show ?case by simp
next
  case (Suc n)
  obtain w a W1 where p:
    "get_llm_server_addresses W = Inr (a, W1)" "addresses_ok W1" "(w, a) \<in> set W"
    "\<forall>x \<in> set W. (w, a) \<le> x" "mset W1 = add_mset (w + 1, a) (mset W - {# (w, a) #})"
    by (rule pick_spec [OF Suc.prems(1,2)])
  note wp = weight_of_pick [OF Suc.prems(1) p(2,3,5)]
  have "W1 \<noteq> []" using p(5) by auto
  from Suc.IH [OF p(2) this level_pick [OF Suc.prems(1) p(2-5) Suc.prems(3)]] obtain as W' where
    "pick_many n W1 = Inr (as, W')" "length as = n" "addresses_ok W'" "level W'"
    "set as \<subseteq> snd ` set W1" "snd ` set W' = snd ` set W1"
    "\<forall>b \<in> snd ` set W1. weight_of W' b = weight_of W1 b + int (count_list as b)" by blast
  moreover have "a \<in> snd ` set W" using p(3) by force
  ultimately show ?case using p(1) wp by (intro exI [of _ "a # as"] exI [of _ W']) auto
qed

text \<open>Numbers that differ by at most one are the quotient of their sum or one more.\<close>

lemma near_average:
  fixes f :: "'a \<Rightarrow> nat"
  assumes "finite A" and "a \<in> A" and near: "\<forall>x \<in> A. \<forall>y \<in> A. f x \<le> f y + 1"
  shows "sum f A div card A \<le> f a \<and> f a \<le> sum f A div card A + 1"
proof -
  have c: "0 < card A" using assms by (auto simp: card_gt_0_iff)
  have "sum f A \<le> (\<Sum>x\<in>A. f a + 1) - 1"
  proof -
    have "sum f A = f a + sum f (A - {a})" using assms by (simp add: sum.remove)
    also have "sum f (A - {a}) \<le> card (A - {a}) * (f a + 1)"
      using near assms(2) sum_bounded_above [of "A - {a}" f "f a + 1"] by simp
    finally have "sum f A \<le> f a + (card A - 1) * (f a + 1)" using assms by simp
    also have "\<dots> = card A * (f a + 1) - 1" using c by (cases "card A") auto
    finally show ?thesis by simp
  qed
  then have "sum f A < card A * (f a + 1)" using c by auto
  then have 1: "sum f A div card A \<le> f a"
    using c by (simp add: div_less_iff_less_mult less_Suc_eq_le [symmetric] mult.commute)
  have "(\<Sum>x\<in>A. f a - 1) \<le> sum f A" using near assms(2) by (intro sum_mono) fastforce
  then have "card A * (f a - 1) \<le> sum f A" by simp
  then have "f a - 1 \<le> sum f A div card A"
    using c by (simp add: less_eq_div_iff_mult_less_eq mult.commute)
  with 1 show ?thesis by simp
qed

lemma sum_count_list: "finite A \<Longrightarrow> set as \<subseteq> A \<Longrightarrow> (\<Sum>b\<in>A. count_list as b) = length as"
proof (induction as)
  case Nil
  then show ?case by simp
next
  case (Cons a as)
  then have "(\<Sum>b\<in>A. count_list (a # as) b) = (\<Sum>b\<in>A. count_list as b + (if b = a then 1 else 0))"
    by (intro sum.cong) auto
  with Cons show ?case by (simp add: sum.distrib)
qed

text \<open>
  Property C4. The load on the LLM servers is balanced: a server started on distinct addresses
  can hand out an address to every one of \<open>n\<close> jobs, and then each of the \<open>k\<close> addresses has
  been handed out \<open>n div k\<close> times or once more, two of them never differing by more than one.
\<close>

theorem jobs_balanced:
  assumes "distinct as" and "as \<noteq> []"
  shows "\<exists>picks W. pick_many n (new_addresses (Some as)) = Inr (picks, W) \<and> length picks = n \<and>
           set picks \<subseteq> set as \<and>
           (\<forall>a \<in> set as. n div length as \<le> count_list picks a \<and>
                         count_list picks a \<le> n div length as + 1 \<and>
                         (\<forall>b \<in> set as. count_list picks a \<le> count_list picks b + 1))"
proof -
  let ?W = "new_addresses (Some as)"
  have ok: "addresses_ok ?W" and ms: "mset ?W = mset (map (\<lambda>a. (0, a)) as)"
    using new_addresses_ok [OF assms(1)] by auto
  have set: "set ?W = (\<lambda>a. (0, a)) ` set as" by (metis ms mset_eq_setD set_map)
  then have ne: "?W \<noteq> []" using assms(2) by auto
  have zero: "weight_of ?W a = 0" if "a \<in> set as" for a
    using that ok set by (intro weight_of_eq) (auto simp: addresses_ok_def)
  have snd: "snd ` set ?W = set as" by (auto simp: set image_iff)
  then have "level ?W" using zero by (simp add: level_def)
  from pick_many_spec [OF ok ne this, of n] obtain picks W where p:
    "pick_many n ?W = Inr (picks, W)" "length picks = n" "level W" "set picks \<subseteq> set as"
    "snd ` set W = set as" "\<forall>b \<in> set as. weight_of W b = int (count_list picks b)"
    using snd zero by auto
  have near: "\<forall>a \<in> set as. \<forall>b \<in> set as. count_list picks a \<le> count_list picks b + 1"
    using p(3,5,6) by (force simp: level_def)
  have "card (set as) = length as" using assms(1) by (rule distinct_card)
  with near_average [OF finite_set _ near] sum_count_list [OF finite_set p(4)] p near
  show ?thesis by (intro exI [of _ picks] exI [of _ W]) auto
qed

theorem jobs_balanced_witness:
  "\<exists>picks W. pick_many 7 (new_addresses (Some [''http://a/v1'', ''http://b/v1'', ''http://c/v1''])) = Inr (picks, W) \<and>
     length picks = 7 \<and> 2 \<le> count_list picks ''http://b/v1'' \<and> count_list picks ''http://b/v1'' \<le> 3"
  using jobs_balanced [of "[''http://a/v1'', ''http://b/v1'', ''http://c/v1'']" 7] by auto

text \<open>
  Whatever addresses were added before (a duplicate is ignored), the next job is
  given an address with the least weight, its weight alone goes up by one, and the list stays
  a heap with each address once. An empty list is refused and left as it is.
\<close>

theorem create_llm_config_least_loaded:
  assumes "addresses_ok W" and "create_llm_config mk W params = (W', r)"
  shows "if W = [] then W' = [] \<and> r = Inl (ValueError ''No LLM server addresses added'')
         else addresses_ok W' \<and> snd ` set W' = snd ` set W \<and>
              (\<exists>a \<in> snd ` set W. r = mk a params \<and>
                 (\<forall>b \<in> snd ` set W. weight_of W a \<le> weight_of W b \<and>
                    weight_of W' b = weight_of W b + (if b = a then 1 else 0)))"
proof (cases "W = []")
  case True
  with assms(2) show ?thesis by (simp add: create_llm_config_def get_llm_server_addresses_def)
next
  case False
  obtain w a W1 where p:
    "get_llm_server_addresses W = Inr (a, W1)" "addresses_ok W1" "(w, a) \<in> set W"
    "\<forall>x \<in> set W. (w, a) \<le> x" "mset W1 = add_mset (w + 1, a) (mset W - {# (w, a) #})"
    by (rule pick_spec [OF assms(1) False])
  have res: "W' = W1" "r = mk a params" using assms(2) p(1) by (simp_all add: create_llm_config_def)
  have d: "distinct (map snd W)" using assms(1) by (simp add: addresses_ok_def)
  have min: "weight_of W a \<le> weight_of W b" if "b \<in> snd ` set W" for b
    using that p(4) weight_of_eq [OF d] weight_of_eq [OF d p(3)] by (fastforce simp: less_eq_prod_def)
  have "a \<in> snd ` set W" using p(3) by force
  with False weight_of_pick [OF assms(1) p(2,3,5)] min p(2) res show ?thesis by auto
qed

theorem create_llm_config_least_loaded_witness:
  "\<exists>W' c. create_llm_config (\<lambda>a p. Inr \<lparr>lc_base_url = a, lc_params = p\<rparr>)
            (add_llm_server_address (new_addresses None) ''http://a/v1'') [] = (W', Inr c) \<and>
          lc_base_url c = ''http://a/v1'' \<and> weight_of W' ''http://a/v1'' = 1"
proof -
  let ?W = "add_llm_server_address (new_addresses None) ''http://a/v1''"
  let ?mk = "\<lambda>a p. Inr \<lparr>lc_base_url = a, lc_params = p\<rparr>"
  have W: "?W = [(0, ''http://a/v1'')]"
    by (simp add: add_llm_server_address_def new_addresses_def heapify_def heappush_def siftdown.simps)
  have ok: "addresses_ok ?W" by (simp add: W addresses_ok_def heap_from_def)
  obtain W' r where c: "create_llm_config ?mk ?W [] = (W', r)" by fastforce
  from create_llm_config_least_loaded [OF ok c] c show ?thesis
    by (auto simp: W weight_of_def)
qed

end
