(* ===== verification/JobResults.thy ===== *)
theory JobResults
  imports Registry
begin

text \<open>
  \<^verbatim>\<open>openhands/nvidia/utils.py\<close>: the identifier of an instance, the results the handlers
  report for a failed stage, the final result of a job with the flag that filters it from
  training, and the repetition penalty on token n-grams.

  What comes from other components is an argument: \<open>gs\<close> is \<open>controller.get_state\<close>, \<open>psm\<close>
  is \<open>process_messages_from_agent_state\<close> on the agent and that state, \<open>estr\<close> and \<open>tb\<close> are
  the texts of the exception and of its traceback, and \<open>rp\<close> is Python's rendering of floats,
  lists and dictionaries in a format string.
\<close>

section \<open>Instances\<close>

definition fallback_instance_id :: "(json \<Rightarrow> string) \<Rightarrow> jdict \<Rightarrow> json result" where
  "fallback_instance_id rp instance =
     (let data_source = dict_get_default instance ''data_source'' (JStr ''unknown'');
          render = (\<lambda>split index name.
            JStr (py_str rp data_source @ ''_'' @ py_str rp name @ ''_'' @ py_str rp split @ ''_'' @
                  py_str rp index))
      in case dict_get instance ''extra_info'' of
           Some ei \<Rightarrow>
             bind_result (json_get ei ''split'' (JStr ''unknown'')) (\<lambda>split.
             bind_result (json_get ei ''index'' (JStr ''unknown'')) (\<lambda>index.
             bind_result (json_get ei ''name'' (JStr ''unknown'')) (\<lambda>name.
             Inr (render split index name))))
         | None \<Rightarrow> Inr (render (JStr ''unknown'') (JStr ''unknown'') (JStr ''unknown'')))"

definition get_instance_id :: "(json \<Rightarrow> string) \<Rightarrow> jdict \<Rightarrow> json result" where
  "get_instance_id rp instance =
     (case dict_get instance ''instance_id'' of
        Some v \<Rightarrow> if v \<noteq> JNull then Inr v else fallback_instance_id rp instance
      | None \<Rightarrow> fallback_instance_id rp instance)"

section \<open>Results of failed stages\<close>

record partial_result =
  pr_messages :: json
  pr_tools :: json
  pr_end_properly :: json

definition get_messages_from_partial_result ::
  "(nat \<Rightarrow> 'st option) \<Rightarrow> (nat \<Rightarrow> 'st \<Rightarrow> partial_result result) \<Rightarrow> job_details
     \<Rightarrow> partial_result result" where
  "get_messages_from_partial_result gs psm jd =
     (case (jd_agent jd, jd_controller jd) of
        (Some agent, Some controller) \<Rightarrow>
          (case gs controller of
             None \<Rightarrow> Inl (AssertionError ''Error in get_messages_from_partial_result: state is None.'')
           | Some state \<Rightarrow> psm agent state)
      | _ \<Rightarrow> Inr \<lparr>pr_messages = JList [], pr_tools = JList [], pr_end_properly = JBool True\<rparr>)"

text \<open>\<open>d.get(k, dflt) if d is not None else dflt\<close>\<close>

definition opt_get :: "jdict option \<Rightarrow> string \<Rightarrow> json \<Rightarrow> json" where
  "opt_get d k dflt = (case d of None \<Rightarrow> dflt | Some m \<Rightarrow> dict_get_default m k dflt)"

definition initialize_exception :: "job_details \<Rightarrow> string \<Rightarrow> string \<Rightarrow> jdict" where
  "initialize_exception jd estr tb =
     [(''instance_id'', opt_get (jd_instance jd) ''instance_id'' JNull),
      (''trajectory_id'', opt_get (jd_instance jd) ''trajectory_id'' JNull),
      (''git_patch'', JNull),
      (''success'', JBool False),
      (''error'', JStr (''Error in init: '' @ estr)),
      (''traceback'', JStr tb),
      (''finish'', JBool False),
      (''messages'', JList []),
      (''tools'', JList []),
      (''end_properly'', JBool False),
      (''resolved'', JBool False),
      (''critical_error'', JStr ''init'')]"

text \<open>
  The messages, tools and end flag of a failed run: those of the run results, or of the
  unfinished conversation when the run left no message.
\<close>

definition conversation_of ::
  "(nat \<Rightarrow> 'st option) \<Rightarrow> (nat \<Rightarrow> 'st \<Rightarrow> partial_result result) \<Rightarrow> job_details
     \<Rightarrow> partial_result result" where
  "conversation_of gs psm jd =
     (let messages = opt_get (jd_run_results jd) ''messages'' (JList []);
          tools = opt_get (jd_run_results jd) ''tools'' (JList []);
          end_properly = opt_get (jd_run_results jd) ''end_properly'' (JBool True)
      in bind_result (json_len messages) (\<lambda>n.
         if n = 0 then get_messages_from_partial_result gs psm jd
         else Inr \<lparr>pr_messages = messages, pr_tools = tools, pr_end_properly = end_properly\<rparr>))"

definition stage_exception ::
  "string \<Rightarrow> string \<Rightarrow> (nat \<Rightarrow> 'st option) \<Rightarrow> (nat \<Rightarrow> 'st \<Rightarrow> partial_result result)
     \<Rightarrow> job_details \<Rightarrow> string \<Rightarrow> string \<Rightarrow> jdict result" where
  "stage_exception label stage gs psm jd estr tb =
     bind_result (conversation_of gs psm jd) (\<lambda>c. Inr
       [(''instance_id'', opt_get (jd_instance jd) ''instance_id'' JNull),
        (''trajectory_id'', opt_get (jd_instance jd) ''trajectory_id'' JNull),
        (''git_patch'', opt_get (jd_run_results jd) ''git_patch'' JNull),
        (''success'', opt_get (jd_run_results jd) ''success'' (JBool False)),
        (''error'', JStr (label @ estr)),
        (''traceback'', JStr tb),
        (''finish'', opt_get (jd_run_results jd) ''finish'' (JBool False)),
        (''messages'', pr_messages c),
        (''tools'', pr_tools c),
        (''end_properly'', pr_end_properly c),
        (''resolved'', JBool False),
        (''critical_error'', JStr stage)])"

definition run_exception ::
  "(nat \<Rightarrow> 'st option) \<Rightarrow> (nat \<Rightarrow> 'st \<Rightarrow> partial_result result) \<Rightarrow> job_details \<Rightarrow> string \<Rightarrow> string
     \<Rightarrow> jdict result" where
  "run_exception = stage_exception ''Error in run agent: '' ''run''"

definition eval_exception ::
  "(nat \<Rightarrow> 'st option) \<Rightarrow> (nat \<Rightarrow> 'st \<Rightarrow> partial_result result) \<Rightarrow> job_details \<Rightarrow> string \<Rightarrow> string
     \<Rightarrow> jdict result" where
  "eval_exception = stage_exception ''Error in eval: '' ''eval''"

section \<open>The final result\<close>

definition resolved_of :: "job_details \<Rightarrow> json result" where
  "resolved_of jd =
     (case jd_eval_results jd of None \<Rightarrow> Inr (JBool False) | Some v \<Rightarrow> json_item v ''resolved'')"

definition timeout_mark :: "job_details \<Rightarrow> json" where
  "timeout_mark jd = (if jd_timeout_error jd then JStr ''timeout'' else JNull)"

definition base_result ::
  "(nat \<Rightarrow> 'st option) \<Rightarrow> (nat \<Rightarrow> 'st \<Rightarrow> partial_result result) \<Rightarrow> job_details \<Rightarrow> jdict result" where
  "base_result gs psm jd =
     (case jd_results jd of
        None \<Rightarrow>
          (case jd_run_results jd of
             None \<Rightarrow>
               bind_result (get_messages_from_partial_result gs psm jd) (\<lambda>c.
               bind_result (resolved_of jd) (\<lambda>resolved. Inr
                 [(''resolved'', resolved), (''critical_error'', timeout_mark jd),
                  (''messages'', pr_messages c), (''tools'', pr_tools c),
                  (''end_properly'', pr_end_properly c)]))
           | Some run_results \<Rightarrow>
               bind_result (resolved_of jd) (\<lambda>resolved. Inr
                 (dict_set (dict_set run_results ''resolved'' resolved) ''critical_error''
                   (timeout_mark jd))))
      | Some results \<Rightarrow>
          Inr (if jd_timeout_error jd then dict_set results ''critical_error'' (JStr ''timeout'')
               else results))"

text \<open>\<open>if k not in result: result[k] = job_details.instance.get(k, None) ...\<close>\<close>

definition fill_from_instance :: "job_details \<Rightarrow> string \<Rightarrow> jdict \<Rightarrow> jdict" where
  "fill_from_instance jd k r =
     (if dict_get r k = None then dict_set r k (opt_get (jd_instance jd) k JNull) else r)"

definition determine_filter :: "jdict \<Rightarrow> bool result" where
  "determine_filter r =
     (if dict_get r ''critical_error'' \<notin> {None, Some JNull} then Inr True
      else if (case dict_get r ''success'' of None \<Rightarrow> False | Some v \<Rightarrow> truthy v) then Inr False
      else
        (case dict_get r ''error'' of
           None \<Rightarrow> Inr True
         | Some err \<Rightarrow>
             bind_result (json_in ''AgentToolCallError'' err) (\<lambda>b. Inr (\<not> b))))"

definition final_result ::
  "(nat \<Rightarrow> 'st option) \<Rightarrow> (nat \<Rightarrow> 'st \<Rightarrow> partial_result result) \<Rightarrow> job_details \<Rightarrow> jdict result" where
  "final_result gs psm jd =
     bind_result (base_result gs psm jd) (\<lambda>r0.
       let r = fill_from_instance jd ''trajectory_id'' (fill_from_instance jd ''instance_id'' r0) in
       bind_result (determine_filter r) (\<lambda>b. Inr (dict_set r ''filter'' (JBool b))))"

section \<open>Repetition penalty\<close>

definition sliding_windows :: "nat \<Rightarrow> int list \<Rightarrow> int list list" where
  "sliding_windows n xs = map (\<lambda>i. take n (drop i xs)) [0..<length xs - n + 1]"

text \<open>\<open>for i, ng in enumerate(ngram_tuples): positions_by_ngram[ng].append(i)\<close>\<close>

fun group_positions :: "nat \<Rightarrow> int list list \<Rightarrow> (int list, nat list) dict \<Rightarrow> (int list, nat list) dict" where
  "group_positions i [] d = d"
| "group_positions i (ng # ngs) d =
     group_positions (Suc i) ngs (dict_set d ng (dict_get_default d ng [] @ [i]))"

definition penalize :: "real \<Rightarrow> real list \<Rightarrow> nat list \<Rightarrow> real list" where
  "penalize penalty reward positions =
     (if length positions > 1 then foldl (\<lambda>r pos. r[pos := penalty]) reward (drop 1 positions)
      else reward)"

definition ngram_repetition_reward :: "int list \<Rightarrow> int \<Rightarrow> real \<Rightarrow> real list result" where
  "ngram_repetition_reward xs ngram_size penalty =
     (let L = length xs in
      if ngram_size \<le> 0 then Inl (ValueError ''ngram_size must be >= 1'')
      else if int L < ngram_size then Inr (replicate L 0)
      else
        (let d = group_positions 0 (sliding_windows (nat ngram_size) xs) []
         in Inr (foldl (penalize penalty) (replicate L 0) (map snd d))))"

section \<open>Lemmas on results\<close>

text \<open>What an entry of a result says: a critical error, and whether it is kept for training.\<close>

definition critical :: "jdict \<Rightarrow> bool" where
  "critical r \<longleftrightarrow> dict_get r ''critical_error'' \<notin> {None, Some JNull}"

definition succeeded :: "jdict \<Rightarrow> bool" where
  "succeeded r \<longleftrightarrow> (\<exists>v. dict_get r ''success'' = Some v \<and> truthy v)"

definition waived :: "jdict \<Rightarrow> bool" where
  "waived r \<longleftrightarrow> (\<exists>e. dict_get r ''error'' = Some e \<and> json_in ''AgentToolCallError'' e = Inr True)"

text \<open>The dictionary the stages left for the final result: the results, else the run results.\<close>

definition stage_report :: "job_details \<Rightarrow> jdict option" where
  "stage_report jd = (case jd_results jd of Some d \<Rightarrow> Some d | None \<Rightarrow> jd_run_results jd)"

lemma dict_get_fill:
  "dict_get (fill_from_instance jd k r) k' =
     (if k' = k \<and> dict_get r k = None then Some (opt_get (jd_instance jd) k JNull) else dict_get r k')"
  by (simp add: fill_from_instance_def)

lemma determine_filter_iff:
  "determine_filter r = Inr b \<Longrightarrow> b \<longleftrightarrow> critical r \<or> \<not> succeeded r \<and> \<not> waived r"
  by (auto simp: determine_filter_def critical_def succeeded_def waived_def bind_result_Inr_iff
      split: option.splits if_splits)

lemma determine_filter_critical: "critical r \<Longrightarrow> determine_filter r = Inr True"
  by (simp add: determine_filter_def critical_def)

lemma critical_cong:
  "dict_get r ''critical_error'' = dict_get r' ''critical_error'' \<Longrightarrow> critical r = critical r'"
  by (simp add: critical_def)

lemma base_result_critical:
  assumes "base_result gs psm jd = Inr r"
  shows "jd_timeout_error jd \<Longrightarrow> dict_get r ''critical_error'' = Some (JStr ''timeout'')"
    and "\<not> jd_timeout_error jd \<Longrightarrow> jd_results jd = None \<Longrightarrow> dict_get r ''critical_error'' = Some JNull"
    and "\<not> jd_timeout_error jd \<Longrightarrow> jd_results jd = Some res \<Longrightarrow> r = res"
  using assms
  by (auto simp: base_result_def bind_result_Inr_iff timeout_mark_def dict_get_def [of "_ # _"]
      split: option.splits)

lemma base_result_other:
  assumes "base_result gs psm jd = Inr r"
    and "k \<notin> {''resolved'', ''critical_error'', ''messages'', ''tools'', ''end_properly''}"
  shows "dict_get r k = Option.bind (stage_report jd) (\<lambda>d. dict_get d k)"
proof (cases "jd_results jd")
  case None
  show ?thesis
  proof (cases "jd_run_results jd")
    case None
    with \<open>jd_results jd = None\<close> assms show ?thesis
      by (auto simp: base_result_def bind_result_Inr_iff stage_report_def dict_get_def)
  next
    case (Some d)
    with \<open>jd_results jd = None\<close> assms show ?thesis
      by (auto simp: base_result_def bind_result_Inr_iff stage_report_def)
  qed
next
  case (Some d)
  with assms show ?thesis by (auto simp: base_result_def stage_report_def split: if_splits)
qed

lemma final_resultE:
  assumes "final_result gs psm jd = Inr r"
  obtains r0 b where "base_result gs psm jd = Inr r0"
    "determine_filter (fill_from_instance jd ''trajectory_id'' (fill_from_instance jd ''instance_id'' r0)) = Inr b"
    "r = dict_set (fill_from_instance jd ''trajectory_id'' (fill_from_instance jd ''instance_id'' r0))
           ''filter'' (JBool b)"
  using assms by (auto simp: final_result_def bind_result_Inr_iff Let_def)

lemma final_result_get:
  assumes "base_result gs psm jd = Inr r0"
    and "r = dict_set (fill_from_instance jd ''trajectory_id'' (fill_from_instance jd ''instance_id'' r0))
           ''filter'' v" and "k \<notin> {''trajectory_id'', ''instance_id'', ''filter''}"
  shows "dict_get r k = dict_get r0 k"
  using assms by (simp add: dict_get_fill)

text \<open>
  Property C8. The flag that drops a trajectory from training: the final result of a job
  carries the identifiers of its instance unless the results bring their own, a job whose
  timeout fired carries the critical error \<^verbatim>\<open>timeout\<close>, whatever the stages reported, and the
  result is kept exactly when no critical error is recorded and the run succeeded or failed
  by a tool-call error of the agent.
\<close>

theorem final_result_filter:
  assumes "final_result gs psm jd = Inr r"
  shows "(jd_timeout_error jd \<longrightarrow> dict_get r ''critical_error'' = Some (JStr ''timeout'')) \<and>
         dict_get r ''filter'' = Some (JBool (critical r \<or> \<not> succeeded r \<and> \<not> waived r)) \<and>
         (\<forall>k \<in> {''instance_id'', ''trajectory_id''}.
            dict_get r k =
              (case Option.bind (stage_report jd) (\<lambda>d. dict_get d k) of
                 Some v \<Rightarrow> Some v
               | None \<Rightarrow> Some (opt_get (jd_instance jd) k JNull)))"
proof -
  from final_resultE [OF assms] obtain r0 b where b: "base_result gs psm jd = Inr r0"
    "determine_filter (fill_from_instance jd ''trajectory_id'' (fill_from_instance jd ''instance_id'' r0)) = Inr b"
    "r = dict_set (fill_from_instance jd ''trajectory_id'' (fill_from_instance jd ''instance_id'' r0))
           ''filter'' (JBool b)" by blast
  note keep = final_result_get [OF b(1) b(3)]
  have "b \<longleftrightarrow> critical r \<or> \<not> succeeded r \<and> \<not> waived r"
    using determine_filter_iff [OF b(2)] b(3)
    by (simp add: critical_def succeeded_def waived_def dict_get_fill)
  moreover have "dict_get r ''filter'' = Some (JBool b)" using b(3) by simp
  moreover have "jd_timeout_error jd \<longrightarrow> dict_get r ''critical_error'' = Some (JStr ''timeout'')"
    using keep [of "''critical_error''"] base_result_critical(1) [OF b(1)] by simp
  moreover have "dict_get r k = (case dict_get r0 k of Some v \<Rightarrow> Some v | None \<Rightarrow> Some (opt_get (jd_instance jd) k JNull))"
    if "k \<in> {''instance_id'', ''trajectory_id''}" for k
  proof -
    from that consider "k = ''instance_id''" | "k = ''trajectory_id''" by blast
    then show ?thesis unfolding b(3) by cases (simp_all add: dict_get_fill split: option.split)
  qed
  moreover have "dict_get r0 k = Option.bind (stage_report jd) (\<lambda>d. dict_get d k)"
    if "k \<in> {''instance_id'', ''trajectory_id''}" for k
    using that base_result_other [OF b(1), of k] by auto
  ultimately show ?thesis by simp
qed

definition example_job :: job_details where
  "example_job = new_job_details\<lparr>jd_instance := Some [(''instance_id'', JStr ''a'')],
     jd_run_results := Some [(''success'', JBool True), (''messages'', JList [])],
     jd_timeout_error := True\<rparr>"

definition no_state :: "nat \<Rightarrow> nat option" where
  "no_state c = None"

definition no_messages :: "nat \<Rightarrow> nat \<Rightarrow> partial_result result" where
  "no_messages a s = Inr \<lparr>pr_messages = JList [], pr_tools = JList [], pr_end_properly = JBool True\<rparr>"

theorem final_result_filter_witness:
  "\<exists>r. final_result no_state no_messages example_job = Inr r \<and>
       dict_get r ''critical_error'' = Some (JStr ''timeout'') \<and>
       dict_get r ''filter'' = Some (JBool True) \<and> dict_get r ''instance_id'' = Some (JStr ''a'')"
proof -
  obtain r where r: "final_result no_state no_messages example_job = Inr r"
    by (simp add: final_result_def base_result_def example_job_def new_job_details_def resolved_of_def
        timeout_mark_def fill_from_instance_def determine_filter_def dict_get_def opt_get_def
        dict_get_default_def)
  have j: "jd_timeout_error example_job" "jd_results example_job = None"
    "jd_run_results example_job = Some [(''success'', JBool True), (''messages'', JList [])]"
    "jd_instance example_job = Some [(''instance_id'', JStr ''a'')]"
    by (simp_all add: example_job_def new_job_details_def)
  from final_result_filter [OF r] j have "dict_get r ''critical_error'' = Some (JStr ''timeout'')"
    "dict_get r ''filter'' = Some (JBool (critical r \<or> \<not> succeeded r \<and> \<not> waived r))"
    "dict_get r ''instance_id'' = Some (JStr ''a'')"
    by (simp_all add: stage_report_def dict_get_def opt_get_def dict_get_default_def)
  with r show ?thesis by (auto simp: critical_def)
qed

lemma initialize_exception_gets:
  "dict_get (initialize_exception jd estr tb) ''critical_error'' = Some (JStr ''init'')"
  "dict_get (initialize_exception jd estr tb) ''resolved'' = Some (JBool False)"
  "dict_get (initialize_exception jd estr tb) ''messages'' = Some (JList [])"
  by (simp_all add: initialize_exception_def dict_get_def)

lemma stage_exception_gets:
  assumes "stage_exception label stage gs psm jd estr tb = Inr res"
  shows "dict_get res ''critical_error'' = Some (JStr stage)"
    "dict_get res ''resolved'' = Some (JBool False)"
    "\<exists>c. conversation_of gs psm jd = Inr c \<and> dict_get res ''messages'' = Some (pr_messages c)"
  using assms by (auto simp: stage_exception_def bind_result_Inr_iff dict_get_def)

text \<open>A critical result never reaches the tests that may raise.\<close>

lemma final_result_of_results:
  assumes "critical res"
  shows "\<exists>r. final_result gs psm (jd\<lparr>jd_results := Some res\<rparr>) = Inr r \<and>
           dict_get r ''filter'' = Some (JBool True) \<and>
           dict_get r ''critical_error'' =
             (if jd_timeout_error jd then Some (JStr ''timeout'') else dict_get res ''critical_error'') \<and>
           (\<forall>k \<in> {''resolved'', ''messages''}. dict_get r k = dict_get res k)"
proof -
  let ?jd = "jd\<lparr>jd_results := Some res\<rparr>"
  define r0 where
    "r0 = (if jd_timeout_error jd then dict_set res ''critical_error'' (JStr ''timeout'') else res)"
  define r1 where
    "r1 = fill_from_instance ?jd ''trajectory_id'' (fill_from_instance ?jd ''instance_id'' r0)"
  have b: "base_result gs psm ?jd = Inr r0" by (simp add: base_result_def r0_def)
  have c: "dict_get r1 ''critical_error'' = dict_get r0 ''critical_error''"
    by (simp add: r1_def dict_get_fill)
  have "critical r0" using assms by (simp add: critical_def r0_def)
  with c have "critical r1" by (simp add: critical_def)
  then have "determine_filter r1 = Inr True" by (rule determine_filter_critical)
  with b have f: "final_result gs psm ?jd = Inr (dict_set r1 ''filter'' (JBool True))"
    by (simp add: final_result_def r1_def)
  have "dict_get r1 k = dict_get res k" if "k \<in> {''resolved'', ''messages''}" for k
  proof -
    from that consider "k = ''resolved''" | "k = ''messages''" by blast
    then show ?thesis by cases (simp_all add: r1_def r0_def dict_get_fill)
  qed
  with f c show ?thesis by (auto simp: r0_def)
qed

text \<open>
  Property C9. A stage that failed is reported as such and never trained on: when the job's
  results are those of one of the three exception functions, the final result exists (its
  computation does not raise), is marked with the failed stage (or with the timeout, when
  that fired), is filtered, is not resolved, and still holds the conversation: empty for a
  failed initialisation, otherwise the messages of the run or of the unfinished agent.
\<close>

theorem failed_stage_result:
  assumes "(stage = ''init'' \<and> res = initialize_exception jd estr tb) \<or>
           (stage = ''run'' \<and> run_exception gs psm jd estr tb = Inr res) \<or>
           (stage = ''eval'' \<and> eval_exception gs psm jd estr tb = Inr res)"
  shows "\<exists>r. final_result gs psm (jd\<lparr>jd_results := Some res\<rparr>) = Inr r \<and>
           dict_get r ''critical_error'' =
             Some (JStr (if jd_timeout_error jd then ''timeout'' else stage)) \<and>
           dict_get r ''filter'' = Some (JBool True) \<and>
           dict_get r ''resolved'' = Some (JBool False) \<and>
           (if stage = ''init'' then dict_get r ''messages'' = Some (JList [])
            else \<exists>c. conversation_of gs psm jd = Inr c \<and> dict_get r ''messages'' = Some (pr_messages c))"
proof -
  have res: "dict_get res ''critical_error'' = Some (JStr stage)"
    "dict_get res ''resolved'' = Some (JBool False)"
    "if stage = ''init'' then dict_get res ''messages'' = Some (JList [])
     else \<exists>c. conversation_of gs psm jd = Inr c \<and> dict_get res ''messages'' = Some (pr_messages c)"
    using assms stage_exception_gets [of _ _ gs psm jd estr tb res]
    unfolding run_exception_def eval_exception_def
    by (auto simp: initialize_exception_gets)
  then have "critical res" by (simp add: critical_def)
  from final_result_of_results [OF this, of gs psm jd] obtain r where r:
    "final_result gs psm (jd\<lparr>jd_results := Some res\<rparr>) = Inr r"
    "dict_get r ''filter'' = Some (JBool True)"
    "dict_get r ''critical_error'' =
       (if jd_timeout_error jd then Some (JStr ''timeout'') else dict_get res ''critical_error'')"
    "dict_get r ''resolved'' = dict_get res ''resolved''"
    "dict_get r ''messages'' = dict_get res ''messages''" by auto
  show ?thesis
    by (rule exI [of _ r]) (use r res in \<open>simp split: if_splits\<close>)
qed

theorem failed_stage_result_witness:
  "\<exists>res r. run_exception no_state no_messages example_job ''boom'' ''tb'' = Inr res \<and>
     final_result no_state no_messages (example_job\<lparr>jd_results := Some res\<rparr>) = Inr r \<and>
     dict_get r ''critical_error'' = Some (JStr ''timeout'') \<and>
     dict_get r ''filter'' = Some (JBool True) \<and> dict_get r ''resolved'' = Some (JBool False)"
proof -
  obtain res where res: "run_exception no_state no_messages example_job ''boom'' ''tb'' = Inr res"
    by (simp add: run_exception_def stage_exception_def conversation_of_def example_job_def
        get_messages_from_partial_result_def new_job_details_def opt_get_def dict_get_default_def
        dict_get_def Let_def)
  have "jd_timeout_error example_job" by (simp add: example_job_def)
  with failed_stage_result [of "''run''" res example_job "''boom''" "''tb''" no_state no_messages] res
  show ?thesis by auto
qed

section \<open>The repetition penalty against its specification\<close>

lemma group_positions_get:
  "dict_get_default (group_positions i ngs d) ng [] =
     dict_get_default d ng [] @ filter (\<lambda>k. ngs ! (k - i) = ng) [i..<i + length ngs]"
proof (induction i ngs d rule: group_positions.induct)
  case (1 i d)
  then show ?case by simp
next
  case (2 i x ngs d)
  have u: "[i..<i + length (x # ngs)] = i # [Suc i..<Suc i + length ngs]"
    by (simp add: upt_conv_Cons del: upt_Suc)
  have "filter (\<lambda>k. (x # ngs) ! (k - i) = ng) [i..<i + length (x # ngs)] =
      (if x = ng then [i] else []) @ filter (\<lambda>k. (x # ngs) ! (k - i) = ng) [Suc i..<Suc i + length ngs]"
    unfolding u by simp
  also have "filter (\<lambda>k. (x # ngs) ! (k - i) = ng) [Suc i..<Suc i + length ngs] =
      filter (\<lambda>k. ngs ! (k - Suc i) = ng) [Suc i..<Suc i + length ngs]"
    by (rule filter_cong) (auto simp: nth_Cons')
  finally show ?case
    using 2 by (simp add: dict_get_default_def del: upt_Suc)
qed

lemma group_positions_distinct:
  "distinct (dict_keys d) \<Longrightarrow> distinct (dict_keys (group_positions i ngs d))"
  by (induction i ngs d rule: group_positions.induct) (auto intro: distinct_dict_set)

lemma group_positions_values:
  assumes "m = length ngs"
  shows "(\<exists>ps \<in> set (map snd (group_positions 0 ngs [])). i \<in> set (drop 1 ps)) \<longleftrightarrow>
         (\<exists>ng. i \<in> set (drop 1 (filter (\<lambda>k. ngs ! k = ng) [0..<m])))"
proof -
  let ?d = "group_positions 0 ngs []"
  have d: "distinct (dict_keys ?d)" by (rule group_positions_distinct) simp
  have get: "dict_get_default ?d ng [] = filter (\<lambda>k. ngs ! k = ng) [0..<m]" for ng
    using group_positions_get [of 0 ngs "[]" ng] assms by (simp add: dict_get_default_def dict_get_def)
  show ?thesis
  proof
    assume "\<exists>ps \<in> set (map snd ?d). i \<in> set (drop 1 ps)"
    then obtain ng ps where ps: "(ng, ps) \<in> set ?d" "i \<in> set (drop 1 ps)" by auto
    with d have "dict_get_default ?d ng [] = ps" by (simp add: dict_get_default_def dict_get_def)
    with ps get show "\<exists>ng. i \<in> set (drop 1 (filter (\<lambda>k. ngs ! k = ng) [0..<m]))" by metis
  next
    assume "\<exists>ng. i \<in> set (drop 1 (filter (\<lambda>k. ngs ! k = ng) [0..<m]))"
    then obtain ng where i: "i \<in> set (drop 1 (dict_get_default ?d ng []))" using get by metis
    then have "(ng, dict_get_default ?d ng []) \<in> set ?d"
      by (cases "map_of ?d ng") (auto simp: dict_get_default_def dict_get_def dest: map_of_SomeD)
    with i show "\<exists>ps \<in> set (map snd ?d). i \<in> set (drop 1 ps)" by force
  qed
qed

lemma in_drop_1_filter:
  "i \<in> set (drop 1 (filter P [0..<m])) \<longleftrightarrow> i < m \<and> P i \<and> (\<exists>j < i. P j)"
proof (induction m)
  case 0
  then show ?case by simp
next
  case (Suc m)
  have "filter P [0..<m] = [] \<longleftrightarrow> \<not> (\<exists>j < m. P j)" by (auto simp: filter_empty_conv)
  with Suc show ?case
    by (cases "filter P [0..<m]") (auto simp: less_Suc_eq)
qed

lemma foldl_update:
  "length (foldl (\<lambda>r pos. r[pos := p]) r ps) = length r"
  "i < length r \<Longrightarrow> foldl (\<lambda>r pos. r[pos := p]) r ps ! i = (if i \<in> set ps then p else r ! i)"
  by (induction ps arbitrary: r) (auto simp: nth_list_update)

lemma penalize_nth:
  "length (penalize p r ps) = length r"
  "i < length r \<Longrightarrow> penalize p r ps ! i = (if i \<in> set (drop 1 ps) then p else r ! i)"
  by (auto simp: penalize_def foldl_update)

lemma foldl_penalize:
  "length (foldl (penalize p) r pss) = length r"
  "i < length r \<Longrightarrow>
     foldl (penalize p) r pss ! i = (if \<exists>ps \<in> set pss. i \<in> set (drop 1 ps) then p else r ! i)"
  by (induction pss arbitrary: r) (auto simp: penalize_nth simp del: One_nat_def drop_Suc)

text \<open>
  The repetition penalty against its specification: for a positive n-gram
  size the reward has one entry per token, and the entry at a position is the penalty exactly
  when a whole n-gram starts there that already started at an earlier position; every other
  entry is zero. A size that is not positive is refused.
\<close>

theorem ngram_repetition_reward_spec:
  "if n \<le> 0 then ngram_repetition_reward xs n p = Inl (ValueError ''ngram_size must be >= 1'')
   else \<exists>r. ngram_repetition_reward xs n p = Inr r \<and> length r = length xs \<and>
          (\<forall>i < length xs. r ! i =
             (if i + nat n \<le> length xs \<and>
                 (\<exists>j < i. take (nat n) (drop j xs) = take (nat n) (drop i xs)) then p else 0))"
proof (cases "n \<le> 0 \<or> int (length xs) < n")
  case True
  then show ?thesis by (auto simp: ngram_repetition_reward_def Let_def)
next
  case False
  define m where "m = nat n"
  have m: "0 < m" "m \<le> length xs" using False by (auto simp: m_def)
  define r where "r = foldl (penalize p) (replicate (length xs) 0)
    (map snd (group_positions 0 (sliding_windows m xs) []))"
  have e: "ngram_repetition_reward xs n p = Inr r"
    using False by (simp add: ngram_repetition_reward_def r_def m_def Let_def)
  have l: "length (sliding_windows m xs) = length xs - m + 1" by (simp add: sliding_windows_def)
  have w: "sliding_windows m xs ! k = take m (drop k xs)" if "k < length xs - m + 1" for k
    using that by (simp add: sliding_windows_def del: upt_Suc)
  have "r ! i = (if i + m \<le> length xs \<and> (\<exists>j < i. take m (drop j xs) = take m (drop i xs)) then p else 0)"
    if i: "i < length xs" for i
  proof -
    have "(\<exists>ps \<in> set (map snd (group_positions 0 (sliding_windows m xs) [])). i \<in> set (drop 1 ps)) \<longleftrightarrow>
      i < length xs - m + 1 \<and> (\<exists>j < i. sliding_windows m xs ! j = sliding_windows m xs ! i)"
      unfolding group_positions_values [OF l [symmetric]] in_drop_1_filter by auto
    also have "\<dots> \<longleftrightarrow> i + m \<le> length xs \<and> (\<exists>j < i. take m (drop j xs) = take m (drop i xs))"
      using m w by (auto simp: less_Suc_eq_le)
    finally have iff: "(\<exists>ps \<in> set (map snd (group_positions 0 (sliding_windows m xs) [])). i \<in> set (drop 1 ps)) \<longleftrightarrow>
      i + m \<le> length xs \<and> (\<exists>j < i. take m (drop j xs) = take m (drop i xs))" .
    have "i < length (replicate (length xs) (0::real))" using i by simp
    note foldl_penalize(2) [OF this, of p "map snd (group_positions 0 (sliding_windows m xs) [])", unfolded iff]
    then show ?thesis unfolding r_def by (simp only: nth_replicate [OF i])
  qed
  moreover have "length r = length xs" by (simp add: r_def foldl_penalize)
  ultimately show ?thesis using e False by (auto simp: m_def)
qed

theorem ngram_repetition_reward_spec_witness:
  "\<exists>r. ngram_repetition_reward [1, 2, 1, 2, 7] 2 (- 1) = Inr r \<and> length r = 5 \<and>
       r ! 0 = 0 \<and> r ! 2 = - 1 \<and> r ! 4 = 0"
proof -
  from ngram_repetition_reward_spec [of 2 "[1, 2, 1, 2, 7]" "- 1"] obtain r where
    r: "ngram_repetition_reward [1, 2, 1, 2, 7] 2 (- 1) = Inr r" "length r = 5"
    "\<And>i. i < 5 \<Longrightarrow> r ! i =
       (if i + 2 \<le> 5 \<and> (\<exists>j < i. take 2 (drop j [1, 2, 1, 2, 7 :: int]) = take 2 (drop i [1, 2, 1, 2, 7]))
        then - 1 else 0)" by auto
  have "\<exists>j < 2. take 2 (drop j [1, 2, 1, 2, 7 :: int]) = take 2 (drop 2 [1, 2, 1, 2, 7])"
    by (rule exI [of _ 0]) simp
  then show ?thesis using r(1,2) r(3) [of 0] r(3) [of 2] r(3) [of 4] by simp
qed

end
