(* ===== verification/Server.thy ===== *)
theory Server
  imports Balancer JobResults
begin

text \<open>
  \<^verbatim>\<open>openhands/nvidia/async_server.py\<close>: the job server with its three worker pools (init, run,
  eval), its queues, the dictionary of job objects and the calls that submit, cancel, await
  and stop jobs.

  Python shares each job object between the dictionary, the waiting call and a worker, and a
  worker keeps its reference after the dictionary has lost it: job objects live in a store and
  are named by references. Threads interleave between the blocks below; each block is what a
  thread does between two points where another thread can observe or change the state: a lock,
  a queue operation, an \<^verbatim>\<open>await\<close>, the end of a phase. Handler functions are code behind
  the registry: what they return is an argument. Workers that are Python threads are a list of
  program counters per pool.
\<close>

section \<open>State\<close>

datatype job_type = INIT | RUN | EVAL

text \<open>A \<open>queue.Queue\<close>: the items and the count of unfinished tasks.\<close>

record py_queue =
  q_items :: "string list"
  q_unfinished :: nat

definition q_new :: py_queue where
  "q_new = \<lparr>q_items = [], q_unfinished = 0\<rparr>"

definition q_put :: "string \<Rightarrow> py_queue \<Rightarrow> py_queue" where
  "q_put j q = q\<lparr>q_items := q_items q @ [j], q_unfinished := q_unfinished q + 1\<rparr>"

definition q_task_done :: "py_queue \<Rightarrow> py_queue result" where
  "q_task_done q =
     (if q_unfinished q = 0 then Inl (ValueError ''task_done() called too many times'')
      else Inr (q\<lparr>q_unfinished := q_unfinished q - 1\<rparr>))"

record server =
  sv_running :: bool
  sv_max :: "job_type \<Rightarrow> nat"
  sv_queue :: "job_type \<Rightarrow> py_queue"
  sv_active :: "job_type \<Rightarrow> string set"
  sv_discarded :: "string set"
  sv_details :: "string \<rightharpoonup> nat"
  sv_store :: "nat \<Rightarrow> job_details"
  sv_next :: nat
  sv_addresses :: weighted_addresses
  sv_closed :: "(nat \<times> string) list"
  sv_cancelled_tasks :: "nat list"

text \<open>What the server calls and does not define: handler functions and renderings.\<close>

record 'f env =
  ev_registry :: "'f registry"
  ev_exception :: "'f \<Rightarrow> job_details \<Rightarrow> py_error \<Rightarrow> jdict result"
  ev_final :: "'f \<Rightarrow> job_details \<Rightarrow> jdict result"
  ev_str :: "py_error \<Rightarrow> string"
  ev_llm :: "string \<Rightarrow> jdict \<Rightarrow> llm_config result"
  ev_render :: "json \<Rightarrow> string"
  ev_hash :: "string \<Rightarrow> string"

definition new_server :: "string list option \<Rightarrow> nat \<Rightarrow> nat \<Rightarrow> nat option \<Rightarrow> server" where
  "new_server llm_server_addresses max_init_workers max_run_workers max_eval_workers =
     \<lparr>sv_running = False,
      sv_max = (\<lambda>k. case k of INIT \<Rightarrow> max_init_workers | RUN \<Rightarrow> max_run_workers
                  | EVAL \<Rightarrow> (case max_eval_workers of None \<Rightarrow> max_run_workers | Some n \<Rightarrow> n)),
      sv_queue = (\<lambda>_. q_new), sv_active = (\<lambda>_. {}), sv_discarded = {}, sv_details = Map.empty,
      sv_store = (\<lambda>_. new_job_details), sv_next = 0,
      sv_addresses = new_addresses llm_server_addresses, sv_closed = [], sv_cancelled_tasks = []\<rparr>"

definition upd_job :: "nat \<Rightarrow> (job_details \<Rightarrow> job_details) \<Rightarrow> server \<Rightarrow> server" where
  "upd_job r f s = s\<lparr>sv_store := (sv_store s)(r := f (sv_store s r))\<rparr>"

definition upd_queue :: "job_type \<Rightarrow> (py_queue \<Rightarrow> py_queue) \<Rightarrow> server \<Rightarrow> server" where
  "upd_queue k f s = s\<lparr>sv_queue := (sv_queue s)(k := f (sv_queue s k))\<rparr>"

definition upd_active :: "job_type \<Rightarrow> (string set \<Rightarrow> string set) \<Rightarrow> server \<Rightarrow> server" where
  "upd_active k f s = s\<lparr>sv_active := (sv_active s)(k := f (sv_active s k))\<rparr>"

text \<open>\<open>if job.event is not None: job.event.set()\<close>\<close>

definition set_event :: "job_details \<Rightarrow> job_details" where
  "set_event jd = jd\<lparr>jd_event := map_option (\<lambda>_. True) (jd_event jd)\<rparr>"

text \<open>
  \<open>if job.runtime: self._cleanup_job_runtime(...); job.runtime = None\<close>. The background thread
  that closes the runtime is recorded by the runtime and the job it was started for.
\<close>

definition close_runtime :: "nat \<Rightarrow> string \<Rightarrow> server \<Rightarrow> server" where
  "close_runtime r j s =
     (case jd_runtime (sv_store s r) of
        None \<Rightarrow> s
      | Some rt \<Rightarrow> upd_job r (\<lambda>jd. jd\<lparr>jd_runtime := None\<rparr>) (s\<lparr>sv_closed := sv_closed s @ [(rt, j)]\<rparr>))"

section \<open>Submitting, cancelling and awaiting a job\<close>

fun first_free :: "(string \<rightharpoonup> nat) \<Rightarrow> string \<Rightarrow> string list \<Rightarrow> string result" where
  "first_free d base_hash [] = Inl (ValueError ''Failed to get unique id'')"
| "first_free d base_hash (rand # rands) =
     (let uid = base_hash @ ''_'' @ rand
      in if d uid = None then Inr uid else first_free d base_hash rands)"

text \<open>\<open>rands\<close> are the random suffixes drawn, one per attempt.\<close>

definition get_unique_id :: "'f env \<Rightarrow> server \<Rightarrow> jdict \<Rightarrow> string list \<Rightarrow> string result" where
  "get_unique_id E s instance rands =
     bind_result (get_instance_id (ev_render E) instance) (\<lambda>iid.
       case dict_get instance ''trajectory_id'' of
         None \<Rightarrow> Inl (KeyError ''trajectory_id'')
       | Some tid \<Rightarrow>
           first_free (sv_details s)
             (take 16 (ev_hash E (py_str (ev_render E) iid @ ''_'' @ py_str (ev_render E) tid)))
             (take 10 rands))"

text \<open>\<open>d.pop(k, default)\<close>\<close>

definition dict_pop :: "jdict \<Rightarrow> string \<Rightarrow> json \<Rightarrow> json \<times> jdict" where
  "dict_pop d k dflt = (dict_get_default d k dflt, dict_del d k)"

text \<open>\<open>for key in agent_config: if key in sampling_params: agent_config[key] = sampling_params.pop(key)\<close>\<close>

fun take_agent_config :: "string list \<Rightarrow> jdict \<Rightarrow> jdict \<Rightarrow> jdict \<times> jdict" where
  "take_agent_config [] config sampling_params = (config, sampling_params)"
| "take_agent_config (k # ks) config sampling_params =
     (case dict_get sampling_params k of
        None \<Rightarrow> take_agent_config ks config sampling_params
      | Some v \<Rightarrow> take_agent_config ks (dict_set config k v) (dict_del sampling_params k))"

definition dataset_type :: "jdict \<Rightarrow> string result" where
  "dataset_type instance =
     (case dict_get_default instance ''data_source'' (JStr ''swebench'') of
        JStr n \<Rightarrow> Inr n
      | _ \<Rightarrow> Inl (TypeError ''data_source''))"

text \<open>
  \<open>process\<close> up to the wait: the new state, and the job's identifier with the reference of its
  object, or the error. \<open>now\<close> is the clock when the timer starts.
\<close>

definition submitted_job ::
  "string \<Rightarrow> jdict \<Rightarrow> bool \<Rightarrow> jdict \<Rightarrow> llm_config \<Rightarrow> real \<Rightarrow> real \<Rightarrow> job_details" where
  "submitted_job job_id instance is_reasoning_task agent_config llm_config timeout now =
     new_job_details\<lparr>jd_job_id := Some job_id, jd_instance := Some instance,
       jd_is_reasoning_task := is_reasoning_task, jd_agent_config := agent_config,
       jd_llm_config := Some llm_config, jd_event := Some False,
       jd_timer := Some (timer_start (timer_new timeout) now)\<rparr>"

definition submit_checked ::
  "'f env \<Rightarrow> jdict \<Rightarrow> jdict \<Rightarrow> bool \<Rightarrow> string \<Rightarrow> real \<Rightarrow> real \<Rightarrow> server
     \<Rightarrow> server \<times> (string \<times> nat) result" where
  "submit_checked E instance sampling_params is_reasoning_task job_id timeout now s =
     (let (agent_config, params) =
            take_agent_config (dict_keys default_agent_config) default_agent_config sampling_params
      in case create_llm_config (ev_llm E) (sv_addresses s) params of
           (W, Inl e) \<Rightarrow> (s\<lparr>sv_addresses := W\<rparr>, Inl e)
         | (W, Inr llm_config) \<Rightarrow>
             (let jd = submitted_job job_id instance is_reasoning_task agent_config llm_config timeout now;
                  r = sv_next s
              in (upd_queue INIT (q_put job_id)
                    (s\<lparr>sv_addresses := W, sv_store := (sv_store s)(r := jd), sv_next := Suc r,
                       sv_details := (sv_details s)(job_id \<mapsto> r)\<rparr>),
                  Inr (job_id, r))))"

definition process_submit ::
  "'f env \<Rightarrow> jdict \<Rightarrow> jdict \<Rightarrow> string option \<Rightarrow> string list \<Rightarrow> real \<Rightarrow> real \<Rightarrow> server
     \<Rightarrow> server \<times> (string \<times> nat) result" where
  "process_submit E instance sampling_params job_id rands timeout now s =
     (if \<not> sv_running s then (s, Inl (RuntimeError ''Server is not running''))
      else if sv_addresses s = [] then (s, Inl (ValueError ''No LLM server addresses added''))
      else
        (let (reasoning, params) = dict_pop sampling_params ''is_reasoning_task'' (JBool False)
         in case dataset_type instance of
              Inl e \<Rightarrow> (s, Inl e)
            | Inr name \<Rightarrow>
                if \<not> is_registered_handler (ev_registry E) name (truthy reasoning)
                then (s, Inl (FunctionNotRegisteredError
                       (''Dataset type '' @ name @ '' is not registered'')))
                else
                  (case (case job_id of Some j \<Rightarrow> Inr j | None \<Rightarrow> get_unique_id E s instance rands) of
                     Inl e \<Rightarrow> (s, Inl e)
                   | Inr j \<Rightarrow> submit_checked E instance params (truthy reasoning) j timeout now s)))"

definition timing_json :: "timing_info \<Rightarrow> json" where
  "timing_json i = JObj
     [(''init_time'', JFloat (init_time i)), (''run_time'', JFloat (run_time i)),
      (''eval_time'', JFloat (eval_time i)), (''others_time'', JFloat (others_time i)),
      (''counted_elapsed'', JFloat (counted_elapsed i)),
      (''timeout_triggered'', JBool (timeout_triggered i))]"

text \<open>
  \<open>process\<close> after the wait, for the call that submitted job \<open>j\<close> with object \<open>r\<close>. The clock
  is read twice for the timing. The runtime is closed without clearing the field.
\<close>

definition final_of :: "'f env \<Rightarrow> string \<Rightarrow> job_details \<Rightarrow> jdict result" where
  "final_of E name jd =
     (case get_registered_functions (ev_registry E) ''final_result'' name (jd_is_reasoning_task jd) of
        None \<Rightarrow> Inr [(''critical_error'', JStr ''final_result''),
                  (''error'', JStr (''Function not found in registry type final_result for dataset type '' @ name))]
      | Some f \<Rightarrow> ev_final E f jd)"

definition process_finish ::
  "'f env \<Rightarrow> string \<Rightarrow> nat \<Rightarrow> real \<Rightarrow> real \<Rightarrow> server \<Rightarrow> server \<times> jdict result" where
  "process_finish E j r now now2 s =
     (let jd = sv_store s r in
      case bind_result (dataset_type (case jd_instance jd of None \<Rightarrow> [] | Some d \<Rightarrow> d)) (\<lambda>name.
           bind_result (final_of E name jd) (\<lambda>result.
             case jd_timer jd of
               None \<Rightarrow> Inr result
             | Some t \<Rightarrow> bind_result (get_timing_info t now now2) (\<lambda>i.
                 Inr (dict_set result ''timing'' (timing_json i))))) of
        Inl e \<Rightarrow> (s, Inl e)
      | Inr result \<Rightarrow>
          (let s1 = (case jd_runtime jd of
                       None \<Rightarrow> s | Some rt \<Rightarrow> s\<lparr>sv_closed := sv_closed s @ [(rt, j)]\<rparr>)
           in if sv_details s j = None then (s1, Inl (KeyError j))
              else (s1\<lparr>sv_details := (sv_details s)(j := None)\<rparr>, Inr result)))"

text \<open>\<open>cancel_job\<close>; \<open>task_done\<close> tells whether a task has finished.\<close>

definition cancel_object :: "(nat \<Rightarrow> bool) \<Rightarrow> string \<Rightarrow> nat \<Rightarrow> server \<Rightarrow> server" where
  "cancel_object task_done j r s =
     (let s1 = upd_job r (\<lambda>jd. set_event (jd\<lparr>jd_timeout_error := True\<rparr>)) s;
          s2 = close_runtime r j s1
      in case jd_current_task (sv_store s2 r) of
           Some tk \<Rightarrow> if task_done tk then s2
                     else s2\<lparr>sv_cancelled_tasks := sv_cancelled_tasks s2 @ [tk]\<rparr>
         | None \<Rightarrow> s2)"

definition cancel_job :: "(nat \<Rightarrow> bool) \<Rightarrow> string \<Rightarrow> server \<Rightarrow> server \<times> bool result" where
  "cancel_job task_done j s =
     (if \<not> sv_running s then (s, Inl (RuntimeError ''Server is not running''))
      else
        (case sv_details s j of
           None \<Rightarrow> (s, Inl (ValueError (''Job '' @ j @ '' not found'')))
         | Some r \<Rightarrow>
             (let s1 = cancel_object task_done j r s
              in (s1\<lparr>sv_details := (sv_details s1)(j := None),
                     sv_active := (\<lambda>k. sv_active s1 k - {j}),
                     sv_discarded := insert j (sv_discarded s1)\<rparr>,
                  Inr True))))"

section \<open>Workers\<close>

text \<open>
  The points of \<open>_worker\<close> at which another thread may run: waiting for the queue; with a job
  identifier; with the job object; with the job marked active; inside the phase, before the
  time left is read; awaiting the handler; about to leave the phase, with the exception if one
  is on its way; handling the exception; in the \<^verbatim>\<open>finally\<close> block, which may be passed by an
  exception of the exception function; ended by the sentinel or by an exception.
\<close>

datatype worker_pc =
    WIdle
  | WGot string
  | WFound string nat
  | WClaimed string nat
  | WEntered string nat
  | WRunning string nat
  | WLeaving string nat "py_error option"
  | WHandling string nat py_error
  | WFinally string bool
  | WExited
  | WDied

fun function_type :: "job_type \<Rightarrow> string" where
  "function_type INIT = ''init''"
| "function_type RUN = ''run''"
| "function_type EVAL = ''eval''"

definition exception_type :: "job_type \<Rightarrow> string" where
  "exception_type k = function_type k @ ''_exception''"

definition stop_sentinel :: string where
  "stop_sentinel = ''__STOP__''"

text \<open>\<open>queue_obj.task_done()\<close>; its exception ends the worker.\<close>

definition finish_task :: "job_type \<Rightarrow> worker_pc \<Rightarrow> server \<Rightarrow> server \<times> worker_pc" where
  "finish_task k next_pc s =
     (case q_task_done (sv_queue s k) of
        Inl e \<Rightarrow> (s, WDied)
      | Inr q \<Rightarrow> (s\<lparr>sv_queue := (sv_queue s)(k := q)\<rparr>, next_pc))"

definition worker_get :: "job_type \<Rightarrow> server \<Rightarrow> (server \<times> worker_pc) option" where
  "worker_get k s =
     (case q_items (sv_queue s k) of
        [] \<Rightarrow> None
      | j # js \<Rightarrow>
          (let s1 = upd_queue k (\<lambda>q. q\<lparr>q_items := js\<rparr>) s
           in Some (if j = stop_sentinel then finish_task k WExited s1 else (s1, WGot j))))"

definition worker_lookup :: "job_type \<Rightarrow> string \<Rightarrow> server \<Rightarrow> server \<times> worker_pc" where
  "worker_lookup k j s =
     (case sv_details s j of
        None \<Rightarrow> finish_task k WIdle s
      | Some r \<Rightarrow> (s, WFound j r))"

definition worker_claim :: "job_type \<Rightarrow> string \<Rightarrow> nat \<Rightarrow> server \<Rightarrow> server \<times> worker_pc" where
  "worker_claim k j r s =
     (if j \<in> sv_discarded s then
        (case finish_task k WIdle s of
           (s1, WDied) \<Rightarrow> (s1, WDied)
         | (s1, pc) \<Rightarrow> (s1\<lparr>sv_discarded := sv_discarded s1 - {j}\<rparr>, pc))
      else (upd_active k (insert j) s, WClaimed j r))"

text \<open>\<open>dataset_type\<close> and \<open>func\<close> are read, then the phase is entered (clock \<open>now\<close> and \<open>now2\<close>).\<close>

definition worker_begin ::
  "'f env \<Rightarrow> job_type \<Rightarrow> string \<Rightarrow> nat \<Rightarrow> real \<Rightarrow> real \<Rightarrow> server \<Rightarrow> server \<times> worker_pc" where
  "worker_begin E k j r now now2 s =
     (let jd = sv_store s r in
      case jd_instance jd of
        None \<Rightarrow> (s, WDied)
      | Some instance \<Rightarrow>
          (case dataset_type instance of
             Inl e \<Rightarrow> (s, WDied)
           | Inr name \<Rightarrow>
               (case get_registered_functions (ev_registry E) (function_type k) name
                       (jd_is_reasoning_task jd) of
                  None \<Rightarrow> (s, WHandling j r (FunctionNotRegisteredError
                            (''Function '' @ name @ '' not found in registry type '' @ function_type k)))
                | Some func \<Rightarrow>
                    (case jd_timer jd of
                       None \<Rightarrow> (s, WHandling j r (RuntimeError ''Timer is not initialized''))
                     | Some t \<Rightarrow>
                         (case enter_phase t (function_type k) now now2 of
                            Inl e \<Rightarrow> (s, WHandling j r e)
                          | Inr t' \<Rightarrow> (upd_job r (\<lambda>jd. jd\<lparr>jd_timer := Some t'\<rparr>) s, WEntered j r))))))"

text \<open>
  \<open>run_with_timeout_awareness\<close> up to its \<^verbatim>\<open>await\<close>: without time left it raises, otherwise
  the task \<open>tk\<close> is started and recorded in the job.
\<close>

definition worker_start :: "string \<Rightarrow> nat \<Rightarrow> nat \<Rightarrow> real \<Rightarrow> server \<Rightarrow> server \<times> worker_pc" where
  "worker_start j r tk now s =
     (case jd_timer (sv_store s r) of
        None \<Rightarrow> (s, WLeaving j r (Some (AttributeError ''get_remaining_timeout'')))
      | Some t \<Rightarrow>
          (case get_remaining_timeout t now of
             Some rem \<Rightarrow>
               if rem > 0 then (upd_job r (\<lambda>jd. jd\<lparr>jd_current_task := Some tk\<rparr>) s, WRunning j r)
               else (upd_job r (\<lambda>jd. jd\<lparr>jd_timer := Some (trigger_timeout t)\<rparr>) s,
                     WLeaving j r (Some (TimeoutError ''Operation timed out'')))
           | None \<Rightarrow> (upd_job r (\<lambda>jd. jd\<lparr>jd_timer := Some (trigger_timeout t)\<rparr>) s,
                     WLeaving j r (Some (TimeoutError ''Operation timed out'')))))"

text \<open>While it runs, a handler may store its agent and controller in the job.\<close>

definition handler_stores :: "nat \<Rightarrow> nat option \<Rightarrow> nat option \<Rightarrow> server \<Rightarrow> server" where
  "handler_stores r agent controller s =
     upd_job r (\<lambda>jd. jd\<lparr>jd_agent := agent, jd_controller := controller\<rparr>) s"

text \<open>The value a handler returns: a triple for init, a dictionary for run, any value for eval.\<close>

datatype stage_value =
    VInit "nat option" "nat option" "nat option"
  | VRun "jdict option"
  | VEval json

definition report_of :: "json \<Rightarrow> json option" where
  "report_of v =
     (let w = (case v of
                 JObj d \<Rightarrow> (case dict_get d ''report'' of Some rep \<Rightarrow> rep | None \<Rightarrow> v)
               | _ \<Rightarrow> v)
      in if w = JNull then None else Some w)"

text \<open>The statements after the \<^verbatim>\<open>await\<close>, still inside the phase.\<close>

definition stage_done ::
  "job_type \<Rightarrow> string \<Rightarrow> nat \<Rightarrow> stage_value \<Rightarrow> server \<Rightarrow> server \<times> worker_pc" where
  "stage_done k j r v s =
     (case (k, v) of
        (INIT, VInit runtime metadata config) \<Rightarrow>
          (upd_queue RUN (q_put j)
             (upd_job r (\<lambda>jd. jd\<lparr>jd_runtime := runtime, jd_metadata := metadata, jd_config := config\<rparr>) s),
           WLeaving j r None)
      | (RUN, VRun run_results) \<Rightarrow>
          (upd_queue EVAL (q_put j)
             (close_runtime r j (upd_job r (\<lambda>jd. jd\<lparr>jd_run_results := run_results\<rparr>) s)),
           WLeaving j r None)
      | (EVAL, VEval eval_report) \<Rightarrow>
          (upd_job r (\<lambda>jd. set_event (jd\<lparr>jd_eval_results := report_of eval_report\<rparr>)) s,
           WLeaving j r None)
      | _ \<Rightarrow> (s, WLeaving j r (Some (TypeError ''unexpected value of the handler''))))"

text \<open>The \<^verbatim>\<open>await\<close> ends: the \<open>except\<close> and \<open>finally\<close> parts of \<open>run_with_timeout_awareness\<close>.\<close>

definition trigger_job_timer :: "job_details \<Rightarrow> job_details" where
  "trigger_job_timer jd = jd\<lparr>jd_timer := map_option trigger_timeout (jd_timer jd)\<rparr>"

definition worker_complete ::
  "job_type \<Rightarrow> string \<Rightarrow> nat \<Rightarrow> stage_value coro_outcome \<Rightarrow> server \<Rightarrow> server \<times> worker_pc" where
  "worker_complete k j r out s =
     (let s1 = upd_job r (\<lambda>jd. jd\<lparr>jd_current_task := None\<rparr>) s in
      case out of
        Returned v \<Rightarrow> stage_done k j r v s1
      | Raised e \<Rightarrow> (s1, WLeaving j r (Some e))
      | WaitTimedOut \<Rightarrow>
          (upd_job r trigger_job_timer s1, WLeaving j r (Some (TimeoutError ''Operation timed out'')))
      | WaitCancelled \<Rightarrow>
          (upd_job r trigger_job_timer s1, WLeaving j r (Some (TimeoutError ''Operation cancelled''))))"

text \<open>The end of \<open>phase_context\<close>, at clock \<open>later\<close>.\<close>

definition worker_leave ::
  "string \<Rightarrow> nat \<Rightarrow> py_error option \<Rightarrow> real \<Rightarrow> server \<Rightarrow> server \<times> worker_pc" where
  "worker_leave j r err later s =
     (case jd_timer (sv_store s r) of
        None \<Rightarrow> (s, WHandling j r (AttributeError ''exit_phase''))
      | Some t \<Rightarrow>
          (case exit_phase t later of
             Inl e \<Rightarrow> (s, WHandling j r e)
           | Inr t' \<Rightarrow>
               (upd_job r (\<lambda>jd. jd\<lparr>jd_timer := Some t'\<rparr>) s,
                case err of None \<Rightarrow> WFinally j False | Some e \<Rightarrow> WHandling j r e)))"

fun is_timeout_error :: "py_error \<Rightarrow> bool" where
  "is_timeout_error (TimeoutError _) = True"
| "is_timeout_error _ = False"

text \<open>
  The two \<^verbatim>\<open>except\<close> clauses: they differ in the timeout flag and the default results. The
  data set was readable when the function was looked up.
\<close>

definition failure_results :: "'f env \<Rightarrow> job_type \<Rightarrow> job_details \<Rightarrow> py_error \<Rightarrow> jdict result" where
  "failure_results E k jd e =
     (let name = (case bind_result (case jd_instance jd of None \<Rightarrow> Inl (RuntimeError []) | Some d \<Rightarrow> Inr d)
                         dataset_type of Inl _ \<Rightarrow> [] | Inr n \<Rightarrow> n)
      in case get_registered_functions (ev_registry E) (exception_type k) name
                (jd_is_reasoning_task jd) of
           Some f \<Rightarrow> ev_exception E f jd e
         | None \<Rightarrow>
             if is_timeout_error e
             then Inr [(''error'', JStr (''Timeout during '' @ function_type k @ '': '' @ ev_str E e)),
                       (''timeout'', JBool True)]
             else Inr [(''error'', JStr (''Exception during '' @ function_type k @ '': '' @ ev_str E e))])"

definition worker_handle ::
  "'f env \<Rightarrow> job_type \<Rightarrow> string \<Rightarrow> nat \<Rightarrow> py_error \<Rightarrow> server \<Rightarrow> server \<times> worker_pc" where
  "worker_handle E k j r e s =
     (let s1 = (if is_timeout_error e then upd_job r (\<lambda>jd. jd\<lparr>jd_timeout_error := True\<rparr>) s else s);
          s2 = (if k = RUN then close_runtime r j s1 else s1)
      in case failure_results E k (sv_store s2 r) e of
           Inl e' \<Rightarrow> (s2, WFinally j True)
         | Inr results \<Rightarrow>
             (upd_job r (\<lambda>jd. set_event (jd\<lparr>jd_results := Some results\<rparr>)) s2, WFinally j False))"

definition worker_finally :: "job_type \<Rightarrow> string \<Rightarrow> bool \<Rightarrow> server \<Rightarrow> server \<times> worker_pc" where
  "worker_finally k j dying s =
     finish_task k (if dying then WDied else WIdle) (upd_active k (\<lambda>A. A - {j}) s)"

section \<open>Starting, stopping, status\<close>

text \<open>The threads: the program counters of each pool, and the calls of \<open>process\<close> that wait.\<close>

record system =
  sy_server :: server
  sy_pcs :: "job_type \<Rightarrow> worker_pc list"
  sy_calls :: "(string \<times> nat) list"

text \<open>\<open>start\<close>; the pools of an earlier run may still hold threads that have not ended.\<close>

definition start :: "system \<Rightarrow> system result" where
  "start s =
     (if sv_running (sy_server s) then Inl (RuntimeError ''Server is already running'')
      else Inr (s\<lparr>sy_server := (sy_server s)\<lparr>sv_running := True\<rparr>,
                  sy_pcs := (\<lambda>k. sy_pcs s k @ replicate (sv_max (sy_server s) k) WIdle)\<rparr>))"

text \<open>\<open>stop\<close>, step 1 and the snapshot of step 2; then one block per job of the snapshot.\<close>

definition stop_begin :: "server \<Rightarrow> server" where
  "stop_begin s = s\<lparr>sv_running := False\<rparr>"

definition stop_signal :: "string \<Rightarrow> server \<Rightarrow> server" where
  "stop_signal j s =
     (case sv_details s j of
        None \<Rightarrow> s
      | Some r \<Rightarrow> close_runtime r j (upd_job r (\<lambda>jd. set_event (jd\<lparr>jd_timeout_error := True\<rparr>)) s))"

text \<open>Step 3: one sentinel per worker.\<close>

definition stop_sentinels :: "server \<Rightarrow> server" where
  "stop_sentinels s =
     s\<lparr>sv_queue := (\<lambda>k. (q_put stop_sentinel ^^ sv_max s k) (sv_queue s k))\<rparr>"

text \<open>Step 4, and step 5 with \<open>clear_queue\<close>, whose \<open>task_done\<close> errors are caught.\<close>

definition stop_clear :: "server \<Rightarrow> server" where
  "stop_clear s = s\<lparr>sv_active := (\<lambda>_. {}), sv_discarded := {}, sv_details := Map.empty\<rparr>"

fun clear_items :: "string list \<Rightarrow> nat \<Rightarrow> nat" where
  "clear_items [] n = n"
| "clear_items (j # js) n = clear_items js (if n = 0 then 0 else n - 1)"

definition clear_queue :: "py_queue \<Rightarrow> py_queue" where
  "clear_queue q = \<lparr>q_items = [], q_unfinished = clear_items (q_items q) (q_unfinished q)\<rparr>"

definition stop_queues :: "server \<Rightarrow> server" where
  "stop_queues s = s\<lparr>sv_queue := (\<lambda>k. clear_queue (sv_queue s k))\<rparr>"

record server_status =
  st_init_queue :: nat
  st_run_queue :: nat
  st_eval_queue :: nat
  st_active_init :: nat
  st_active_run :: nat
  st_active_eval :: nat
  st_total :: nat

definition status :: "server \<Rightarrow> server_status" where
  "status s =
     (let init_queue_count = length (q_items (sv_queue s INIT));
          run_queue_count = length (q_items (sv_queue s RUN));
          eval_queue_count = length (q_items (sv_queue s EVAL));
          active_init_count = card (sv_active s INIT);
          active_run_count = card (sv_active s RUN);
          active_eval_count = card (sv_active s EVAL)
      in \<lparr>st_init_queue = init_queue_count, st_run_queue = run_queue_count,
          st_eval_queue = eval_queue_count, st_active_init = active_init_count,
          st_active_run = active_run_count, st_active_eval = active_eval_count,
          st_total = init_queue_count + run_queue_count + eval_queue_count + active_init_count +
            active_run_count + active_eval_count\<rparr>)"

text \<open>\<open>cleanup_timed_out_job\<close> of \<^verbatim>\<open>utils.py\<close>, called when the awaited call failed.\<close>

definition cleanup_timed_out_job :: "string option \<Rightarrow> server \<Rightarrow> server" where
  "cleanup_timed_out_job job_id s =
     (case job_id of
        None \<Rightarrow> s
      | Some j \<Rightarrow>
          (case sv_details s j of
             None \<Rightarrow> s
           | Some r \<Rightarrow>
               (let s1 = upd_job r (\<lambda>jd. set_event (jd\<lparr>jd_timeout_error := True\<rparr>)) s;
                    s2 = s1\<lparr>sv_active := (\<lambda>k. if k = EVAL then sv_active s1 k else sv_active s1 k - {j})\<rparr>;
                    s3 = (case jd_runtime (sv_store s2 r) of
                            None \<Rightarrow> s2 | Some rt \<Rightarrow> s2\<lparr>sv_closed := sv_closed s2 @ [(rt, j)]\<rparr>)
                in s3\<lparr>sv_details := (sv_details s3)(j := None)\<rparr>)))"

section \<open>Steps of the system\<close>

text \<open>One block of a worker of pool \<open>k\<close>; clocks, task names and handler outcomes are arbitrary.\<close>

inductive block ::
  "'f env \<Rightarrow> job_type \<Rightarrow> server \<times> worker_pc \<Rightarrow> server \<times> worker_pc \<Rightarrow> bool" for E k where
  block_get: "worker_get k s = Some x \<Longrightarrow> block E k (s, WIdle) x"
| block_lookup: "block E k (s, WGot j) (worker_lookup k j s)"
| block_claim: "block E k (s, WFound j r) (worker_claim k j r s)"
| block_begin: "block E k (s, WClaimed j r) (worker_begin E k j r now now2 s)"
| block_start: "block E k (s, WEntered j r) (worker_start j r tk now s)"
| block_complete: "block E k (s, WRunning j r) (worker_complete k j r out s)"
| block_leave: "block E k (s, WLeaving j r err) (worker_leave j r err later s)"
| block_handle: "block E k (s, WHandling j r e) (worker_handle E k j r e s)"
| block_finally: "block E k (s, WFinally j dying) (worker_finally k j dying s)"

inductive worker_step :: "'f env \<Rightarrow> system \<Rightarrow> system \<Rightarrow> bool" for E where
  worker_stepI:
    "w < length (sy_pcs \<sigma> k) \<Longrightarrow> block E k (sy_server \<sigma>, sy_pcs \<sigma> k ! w) (s', pc') \<Longrightarrow>
     worker_step E \<sigma> (\<sigma>\<lparr>sy_server := s', sy_pcs := (sy_pcs \<sigma>)(k := (sy_pcs \<sigma> k)[w := pc'])\<rparr>)"

text \<open>The steps of clients and handlers; a client that waits returns once its event is set.\<close>

inductive client_step :: "'f env \<Rightarrow> system \<Rightarrow> system \<Rightarrow> bool" for E where
  submit_ok:
    "process_submit E instance params job_id rands timeout now (sy_server \<sigma>) = (s', Inr (j, r)) \<Longrightarrow>
     client_step E \<sigma> (\<sigma>\<lparr>sy_server := s', sy_calls := sy_calls \<sigma> @ [(j, r)]\<rparr>)"
| submit_refused:
    "process_submit E instance params job_id rands timeout now (sy_server \<sigma>) = (s', Inl e) \<Longrightarrow>
     client_step E \<sigma> (\<sigma>\<lparr>sy_server := s'\<rparr>)"
| finish:
    "(j, r) \<in> set (sy_calls \<sigma>) \<Longrightarrow> jd_event (sv_store (sy_server \<sigma>) r) = Some True \<Longrightarrow>
     process_finish E j r now now2 (sy_server \<sigma>) = (s', res) \<Longrightarrow>
     client_step E \<sigma> (\<sigma>\<lparr>sy_server := s', sy_calls := remove1 (j, r) (sy_calls \<sigma>)\<rparr>)"
| cancel:
    "cancel_job task_done j (sy_server \<sigma>) = (s', res) \<Longrightarrow>
     client_step E \<sigma> (\<sigma>\<lparr>sy_server := s'\<rparr>)"
| add_address:
    "client_step E \<sigma> (\<sigma>\<lparr>sy_server := (sy_server \<sigma>)\<lparr>sv_addresses :=
       add_llm_server_address (sv_addresses (sy_server \<sigma>)) a\<rparr>\<rparr>)"
| clear_addresses:
    "client_step E \<sigma> (\<sigma>\<lparr>sy_server := (sy_server \<sigma>)\<lparr>sv_addresses :=
       clear_llm_server_addresses (sv_addresses (sy_server \<sigma>))\<rparr>\<rparr>)"
| store_agent:
    "WRunning j r \<in> set (sy_pcs \<sigma> k) \<Longrightarrow>
     client_step E \<sigma> (\<sigma>\<lparr>sy_server := handler_stores r agent controller (sy_server \<sigma>)\<rparr>)"

text \<open>
  A fresh identifier: not the sentinel, and not the identifier of an earlier job. Those that
  \<open>get_unique_id\<close> draws are fresh up to collisions of its random part.
\<close>

definition fresh_id :: "server \<Rightarrow> string \<Rightarrow> bool" where
  "fresh_id s j \<longleftrightarrow> j \<noteq> stop_sentinel \<and> (\<forall>r < sv_next s. jd_job_id (sv_store s r) \<noteq> Some j)"

definition started :: "string list option \<Rightarrow> nat \<Rightarrow> nat \<Rightarrow> nat option \<Rightarrow> system" where
  "started addrs mi mr me =
     (let s = new_server addrs mi mr me in
      \<lparr>sy_server = s\<lparr>sv_running := True\<rparr>, sy_pcs = (\<lambda>k. replicate (sv_max s k) WIdle), sy_calls = []\<rparr>)"

inductive reachable :: "'f env \<Rightarrow> system \<Rightarrow> bool" for E where
  reach_start: "reachable E (started addrs mi mr me)"
| reach_worker: "reachable E \<sigma> \<Longrightarrow> worker_step E \<sigma> \<sigma>' \<Longrightarrow> reachable E \<sigma>'"
| reach_client:
    "reachable E \<sigma> \<Longrightarrow> client_step E \<sigma> \<sigma>' \<Longrightarrow>
     \<forall>(j, r) \<in> set (sy_calls \<sigma>') - set (sy_calls \<sigma>). fresh_id (sy_server \<sigma>) j \<Longrightarrow> reachable E \<sigma>'"

section \<open>What a block leaves unchanged\<close>

text \<open>A timer whose operations do not raise: its phase is one of its four.\<close>

definition timer_safe :: "pausable_timer \<Rightarrow> bool" where
  "timer_safe t \<longleftrightarrow> (\<forall>p. tm_current_phase t = Some p \<longrightarrow> known_phase p)"

lemma timer_safe_trigger [simp]: "timer_safe (trigger_timeout t) = timer_safe t"
  by (simp add: timer_safe_def)

lemma timer_safe_start [simp]: "timer_safe (timer_start (timer_new T) now)"
  by (simp add: timer_safe_def timer_start_def timer_new_def known_phase_def)

lemma settle_phase_safe: "timer_safe t \<Longrightarrow> \<exists>pt. settle_phase t now = Inr pt"
  by (auto simp: settle_phase_def open_phase_def timer_safe_def known_phase_def phase_add_def
      split: option.splits)

lemma enter_phase_safe:
  "timer_safe t \<Longrightarrow> known_phase p \<Longrightarrow> \<exists>t'. enter_phase t p now now2 = Inr t' \<and> timer_safe t'"
  using settle_phase_safe [of t now] by (auto simp: enter_phase_def timer_safe_def Let_def)

lemma exit_phase_safe: "timer_safe t \<Longrightarrow> \<exists>t'. exit_phase t later = Inr t' \<and> timer_safe t'"
  using settle_phase_safe [of t later] by (auto simp: exit_phase_def timer_safe_def known_phase_def)

lemma known_function_type [simp]: "known_phase (function_type k)"
  by (cases k) (simp_all add: known_phase_def)

definition job_timer_ok :: "job_details \<Rightarrow> bool" where
  "job_timer_ok jd \<longleftrightarrow> (\<exists>t. jd_timer jd = Some t \<and> timer_safe t)"

text \<open>The part of a job object that never changes, and the event, which is never reset.\<close>

definition job_evolves :: "job_details \<Rightarrow> job_details \<Rightarrow> bool" where
  "job_evolves jd jd' \<longleftrightarrow>
     jd_job_id jd' = jd_job_id jd \<and> jd_instance jd' = jd_instance jd \<and>
     (jd_event jd' = None \<longleftrightarrow> jd_event jd = None) \<and>
     (jd_event jd = Some True \<longrightarrow> jd_event jd' = Some True) \<and>
     (job_timer_ok jd \<longrightarrow> job_timer_ok jd')"

definition evolves :: "server \<Rightarrow> server \<Rightarrow> bool" where
  "evolves s s' \<longleftrightarrow>
     sv_next s' = sv_next s \<and> sv_details s' = sv_details s \<and> sv_max s' = sv_max s \<and>
     sv_running s' = sv_running s \<and> (\<forall>r. job_evolves (sv_store s r) (sv_store s' r))"

lemma job_evolves_refl [simp]: "job_evolves jd jd"
  by (simp add: job_evolves_def)

lemma evolves_refl [simp]: "evolves s s"
  by (simp add: evolves_def)

lemma evolves_trans: "evolves s s1 \<Longrightarrow> evolves s1 s2 \<Longrightarrow> evolves s s2"
  unfolding evolves_def job_evolves_def by auto

lemma evolves_upd_job:
  "job_evolves (sv_store s r) (f (sv_store s r)) \<Longrightarrow> evolves s (upd_job r f s)"
  by (simp add: evolves_def upd_job_def)

lemma upd_fields [simp, frame_simps]:
  "sv_queue (upd_job r f s) = sv_queue s" "sv_active (upd_job r f s) = sv_active s"
  "sv_discarded (upd_job r f s) = sv_discarded s" "sv_details (upd_job r f s) = sv_details s"
  "sv_next (upd_job r f s) = sv_next s" "sv_max (upd_job r f s) = sv_max s"
  "sv_store (upd_job r f s) = (sv_store s)(r := f (sv_store s r))"
  "sv_queue (upd_queue k g s) = (sv_queue s)(k := g (sv_queue s k))"
  "sv_active (upd_queue k g s) = sv_active s" "sv_discarded (upd_queue k g s) = sv_discarded s"
  "sv_store (upd_queue k g s) = sv_store s" "sv_details (upd_queue k g s) = sv_details s"
  "sv_next (upd_queue k g s) = sv_next s" "sv_max (upd_queue k g s) = sv_max s"
  "sv_queue (upd_active k h s) = sv_queue s" "sv_store (upd_active k h s) = sv_store s"
  "sv_active (upd_active k h s) = (sv_active s)(k := h (sv_active s k))"
  "sv_discarded (upd_active k h s) = sv_discarded s" "sv_details (upd_active k h s) = sv_details s"
  "sv_next (upd_active k h s) = sv_next s" "sv_max (upd_active k h s) = sv_max s"
  by (simp_all add: upd_job_def upd_queue_def upd_active_def)

lemma evolves_upd_queue [simp]: "evolves s (upd_queue k g s)"
  by (simp add: evolves_def upd_queue_def)

lemma evolves_upd_active [simp]: "evolves s (upd_active k h s)"
  by (simp add: evolves_def upd_active_def)

lemma close_runtime_fields [simp, frame_simps]:
  "sv_queue (close_runtime r j s) = sv_queue s" "sv_active (close_runtime r j s) = sv_active s"
  "sv_discarded (close_runtime r j s) = sv_discarded s" "sv_details (close_runtime r j s) = sv_details s"
  "sv_next (close_runtime r j s) = sv_next s"
  by (simp_all add: close_runtime_def split: option.split)

lemma job_timer_ok_upd [simp]:
  "job_timer_ok (jd\<lparr>jd_current_task := tk\<rparr>) = job_timer_ok jd"
  "job_timer_ok (jd\<lparr>jd_timeout_error := te\<rparr>) = job_timer_ok jd"
  "job_timer_ok (jd\<lparr>jd_runtime := rt\<rparr>) = job_timer_ok jd"
  "job_timer_ok (jd\<lparr>jd_metadata := md\<rparr>) = job_timer_ok jd"
  "job_timer_ok (jd\<lparr>jd_config := cf\<rparr>) = job_timer_ok jd"
  "job_timer_ok (jd\<lparr>jd_run_results := rr\<rparr>) = job_timer_ok jd"
  "job_timer_ok (jd\<lparr>jd_eval_results := er\<rparr>) = job_timer_ok jd"
  "job_timer_ok (jd\<lparr>jd_results := res\<rparr>) = job_timer_ok jd"
  "job_timer_ok (jd\<lparr>jd_event := ev\<rparr>) = job_timer_ok jd"
  "job_timer_ok (jd\<lparr>jd_agent := ag\<rparr>) = job_timer_ok jd"
  "job_timer_ok (jd\<lparr>jd_controller := ct\<rparr>) = job_timer_ok jd"
  "job_timer_ok (jd\<lparr>jd_timer := Some t\<rparr>) = timer_safe t"
  by (simp_all add: job_timer_ok_def)

lemma evolves_close_runtime [simp]: "evolves s (close_runtime r j s)"
  by (auto simp: close_runtime_def evolves_def upd_job_def job_evolves_def split: option.split)

lemma set_event_evolves [simp]: "job_evolves jd (set_event jd)"
  by (auto simp: job_evolves_def set_event_def)

lemma finish_task_fields:
  assumes "finish_task k pc s = (s', pc')"
  shows "sv_store s' = sv_store s" "sv_details s' = sv_details s" "sv_active s' = sv_active s"
    "sv_discarded s' = sv_discarded s" "evolves s s'"
    "q_items (sv_queue s' k') = q_items (sv_queue s k')"
  using assms
  by (auto simp: finish_task_def q_task_done_def evolves_def split: sum.splits if_splits)

lemma evolvesI_job:
  "job_evolves (sv_store s r) jd \<Longrightarrow> sv_store s' = (sv_store s)(r := jd) \<Longrightarrow> sv_next s' = sv_next s \<Longrightarrow>
   sv_details s' = sv_details s \<Longrightarrow> sv_max s' = sv_max s \<Longrightarrow> sv_running s' = sv_running s \<Longrightarrow> evolves s s'"
  by (simp add: evolves_def)

lemma stage_done_evolves: "stage_done k j r v s = (s', pc') \<Longrightarrow> evolves s s'"
  unfolding stage_done_def
  by (cases k; cases v)
    (auto intro!: evolves_trans [OF _ evolves_upd_queue] evolves_trans [OF _ evolves_close_runtime]
      evolves_upd_job simp: job_evolves_def set_event_def)

lemma worker_begin_evolves:
  assumes "worker_begin E k j r now now2 s = (s', pc')"
  shows "evolves s s'"
proof -
  have "timer_safe t'" if "timer_safe t" "enter_phase t (function_type k) now now2 = Inr t'" for t t'
    using enter_phase_safe [OF that(1), of "function_type k" now now2] that(2) by auto
  then show ?thesis using assms
    by (auto simp: worker_begin_def Let_def job_evolves_def job_timer_ok_def intro!: evolves_upd_job
        split: option.splits sum.splits)
qed

lemma worker_start_evolves: "worker_start j r tk now s = (s', pc') \<Longrightarrow> evolves s s'"
  by (auto simp: worker_start_def job_evolves_def job_timer_ok_def intro!: evolves_upd_job
      split: option.splits if_splits)

lemma trigger_job_timer_evolves [simp]: "job_evolves jd (trigger_job_timer jd)"
  by (auto simp: trigger_job_timer_def job_evolves_def job_timer_ok_def)

lemma worker_complete_evolves: "worker_complete k j r out s = (s', pc') \<Longrightarrow> evolves s s'"
proof -
  assume "worker_complete k j r out s = (s', pc')"
  moreover have "evolves s (upd_job r (\<lambda>jd. jd\<lparr>jd_current_task := None\<rparr>) s)"
    by (rule evolves_upd_job) (simp add: job_evolves_def)
  ultimately show ?thesis
    by (auto simp: worker_complete_def Let_def
        intro: evolves_trans stage_done_evolves evolves_trans [OF _ evolves_upd_job]
        split: coro_outcome.splits)
qed

lemma worker_leave_evolves:
  assumes "worker_leave j r err later s = (s', pc')"
  shows "evolves s s'"
proof -
  have "timer_safe t'" if "timer_safe t" "exit_phase t later = Inr t'" for t t'
    using exit_phase_safe [OF that(1), of later] that(2) by auto
  then show ?thesis using assms
    by (auto simp: worker_leave_def job_evolves_def job_timer_ok_def intro!: evolves_upd_job
        split: option.splits sum.splits)
qed

lemma worker_handle_evolves: "worker_handle E k j r e s = (s', pc') \<Longrightarrow> evolves s s'"
proof -
  assume h: "worker_handle E k j r e s = (s', pc')"
  define s1 where "s1 = (if is_timeout_error e then upd_job r (\<lambda>jd. jd\<lparr>jd_timeout_error := True\<rparr>) s else s)"
  define s2 where "s2 = (if k = RUN then close_runtime r j s1 else s1)"
  have "evolves s s1" unfolding s1_def
    by (auto intro!: evolves_upd_job simp: job_evolves_def)
  then have "evolves s s2" unfolding s2_def by (auto intro: evolves_trans)
  moreover have "evolves s2 (upd_job r (\<lambda>jd. set_event (jd\<lparr>jd_results := Some res\<rparr>)) s2)" for res
    by (rule evolves_upd_job) (simp add: job_evolves_def set_event_def)
  ultimately show ?thesis
    using h by (auto simp: worker_handle_def Let_def s1_def [symmetric] s2_def [symmetric]
        intro: evolves_trans split: sum.splits)
qed

lemma worker_claim_evolves: "worker_claim k j r s = (s', pc') \<Longrightarrow> evolves s s'"
proof (cases "j \<in> sv_discarded s")
  case True
  assume c: "worker_claim k j r s = (s', pc')"
  obtain s1 pc where f: "finish_task k WIdle s = (s1, pc)" by fastforce
  with True c have "s' = s1 \<or> s' = s1\<lparr>sv_discarded := sv_discarded s1 - {j}\<rparr>"
    by (auto simp: worker_claim_def split: worker_pc.splits)
  with finish_task_fields(5) [OF f] show ?thesis by (auto simp: evolves_def)
qed (auto simp: worker_claim_def)

lemma block_evolves: "block E k (s, pc) (s', pc') \<Longrightarrow> evolves s s'"
proof (induction "(s, pc)" "(s', pc')" rule: block.induct)
  case (block_get)
  then show ?case
    by (auto simp: worker_get_def Let_def split: list.splits if_splits
        dest!: finish_task_fields(5) intro: evolves_trans [OF evolves_upd_queue])
next
  case (block_lookup j)
  then show ?case
    by (auto simp: worker_lookup_def split: option.splits dest: finish_task_fields(5))
next
  case (block_finally j dying)
  then show ?case
    by (auto simp: worker_finally_def dest!: finish_task_fields(5)
        intro: evolves_trans [OF evolves_upd_active])
qed (metis worker_claim_evolves worker_begin_evolves worker_start_evolves worker_complete_evolves
    worker_leave_evolves worker_handle_evolves)+

section \<open>Where a job is\<close>

text \<open>
  A job is at most at one place: in one queue, or with one worker that still has to pass it on
  or to signal its end. \<open>tok\<close> is the identifier a worker holds in this sense.
\<close>

fun tok :: "worker_pc \<Rightarrow> string list" where
  "tok (WGot j) = [j]"
| "tok (WFound j r) = [j]"
| "tok (WClaimed j r) = [j]"
| "tok (WEntered j r) = [j]"
| "tok (WRunning j r) = [j]"
| "tok (WLeaving j r (Some e)) = [j]"
| "tok (WHandling j r e) = [j]"
| "tok _ = []"

definition queued :: "server \<Rightarrow> string multiset" where
  "queued s = mset (q_items (sv_queue s INIT)) + mset (q_items (sv_queue s RUN)) +
     mset (q_items (sv_queue s EVAL))"

definition held :: "system \<Rightarrow> job_type \<Rightarrow> string multiset" where
  "held \<sigma> k = mset (concat (map tok (sy_pcs \<sigma> k)))"

definition tokens :: "system \<Rightarrow> string multiset" where
  "tokens \<sigma> = queued (sy_server \<sigma>) + held \<sigma> INIT + held \<sigma> RUN + held \<sigma> EVAL"

text \<open>A worker that has taken a task from its queue and not yet reported it done.\<close>

fun busy :: "worker_pc \<Rightarrow> nat" where
  "busy WIdle = 0"
| "busy WExited = 0"
| "busy WDied = 0"
| "busy _ = 1"

text \<open>The identifier and the object a worker works on.\<close>

fun pc_ref :: "worker_pc \<Rightarrow> (string \<times> nat) option" where
  "pc_ref (WFound j r) = Some (j, r)"
| "pc_ref (WClaimed j r) = Some (j, r)"
| "pc_ref (WEntered j r) = Some (j, r)"
| "pc_ref (WRunning j r) = Some (j, r)"
| "pc_ref (WLeaving j r e) = Some (j, r)"
| "pc_ref (WHandling j r e) = Some (j, r)"
| "pc_ref _ = None"

lemma job_type_UNIV: "(k :: job_type) \<in> {INIT, RUN, EVAL}"
  by (cases k) auto

lemma held_update:
  assumes "w < length (sy_pcs \<sigma> k)"
  shows "held (\<sigma>\<lparr>sy_server := s', sy_pcs := (sy_pcs \<sigma>)(k := (sy_pcs \<sigma> k)[w := pc'])\<rparr>) k +
           mset (tok (sy_pcs \<sigma> k ! w)) = held \<sigma> k + mset (tok pc')"
proof -
  let ?xs = "sy_pcs \<sigma> k"
  have "?xs = take w ?xs @ ?xs ! w # drop (Suc w) ?xs" using assms by (rule id_take_nth_drop)
  then have "held \<sigma> k = mset (concat (map tok (take w ?xs @ ?xs ! w # drop (Suc w) ?xs)))"
    by (metis held_def)
  then show ?thesis using assms by (simp add: held_def upd_conv_take_nth_drop)
qed

lemma held_other:
  "k' \<noteq> k \<Longrightarrow> held (\<sigma>\<lparr>sy_server := s', sy_pcs := (sy_pcs \<sigma>)(k := xs)\<rparr>) k' = held \<sigma> k'"
  by (simp add: held_def)

lemma tokens_update:
  assumes "w < length (sy_pcs \<sigma> k)"
  shows "tokens (\<sigma>\<lparr>sy_server := s', sy_pcs := (sy_pcs \<sigma>)(k := (sy_pcs \<sigma> k)[w := pc'])\<rparr>) +
           (queued (sy_server \<sigma>) + mset (tok (sy_pcs \<sigma> k ! w))) =
         tokens \<sigma> + (queued s' + mset (tok pc'))"
  using held_update [OF assms, where s' = s' and pc' = pc']
    held_other [where k = k and \<sigma> = \<sigma> and s' = s' and xs = "(sy_pcs \<sigma> k)[w := pc']"]
  by (cases k) (auto simp: tokens_def algebra_simps)

section \<open>Effect of a block on tokens, tasks and active jobs\<close>

text \<open>The conditions on the object a worker holds that keep it from dying outside its handlers.\<close>

definition object_ok :: "job_details \<Rightarrow> bool" where
  "object_ok jd \<longleftrightarrow> jd_event jd \<noteq> None \<and> job_timer_ok jd \<and> (\<exists>d n. jd_instance jd = Some d \<and> dataset_type d = Inr n)"

definition exceptions_total :: "'f env \<Rightarrow> bool" where
  "exceptions_total E \<longleftrightarrow> (\<forall>f jd e. \<exists>res. ev_exception E f jd e = Inr res)"

definition signalled :: "server \<Rightarrow> nat \<Rightarrow> bool" where
  "signalled s r \<longleftrightarrow> jd_event (sv_store s r) = Some True"

text \<open>What a block may do with the token of the job \<open>j\<close>: pass it on, or drop it.\<close>

inductive token_move :: "server \<Rightarrow> worker_pc \<Rightarrow> server \<Rightarrow> worker_pc \<Rightarrow> bool" for s pc s' pc' where
  keep: "queued s' + mset (tok pc') = queued s + mset (tok pc) \<Longrightarrow> token_move s pc s' pc'"
| drop_missing:
    "queued s + mset (tok pc) = add_mset j (queued s' + mset (tok pc')) \<Longrightarrow> sv_details s j = None \<Longrightarrow>
     token_move s pc s' pc'"
| drop_discarded:
    "queued s + mset (tok pc) = add_mset j (queued s' + mset (tok pc')) \<Longrightarrow> j \<in> sv_discarded s \<Longrightarrow>
     token_move s pc s' pc'"
| drop_signalled:
    "queued s + mset (tok pc) = add_mset j (queued s' + mset (tok pc')) \<Longrightarrow> pc_ref pc = Some (j, r) \<Longrightarrow>
     signalled s' r \<Longrightarrow> token_move s pc s' pc'"

lemma queued_upd [simp]:
  "queued (upd_job r f s) = queued s" "queued (upd_active k h s) = queued s"
  "queued (close_runtime r j s) = queued s"
  "queued (upd_queue k (q_put j) s) = add_mset j (queued s)"
  by (simp_all add: queued_def) (cases k; simp add: q_put_def)

lemma queued_finish_task: "finish_task k pc s = (s', pc') \<Longrightarrow> queued s' = queued s"
  using finish_task_fields(6) by (simp add: queued_def)

text \<open>With an unfinished task in the queue, reporting it done succeeds.\<close>

lemma finish_task_ok:
  "0 < q_unfinished (sv_queue s k) \<Longrightarrow>
   finish_task k pc s = (s\<lparr>sv_queue := (sv_queue s)(k :=
     (sv_queue s k)\<lparr>q_unfinished := q_unfinished (sv_queue s k) - 1\<rparr>)\<rparr>, pc)"
  by (simp add: finish_task_def q_task_done_def)

lemma signalled_set_event:
  "jd_event (sv_store s r) \<noteq> None \<Longrightarrow> jd_event jd = jd_event (sv_store s r) \<Longrightarrow>
   jd_event (set_event jd) = Some True"
  by (auto simp: set_event_def)

lemma object_ok_evolves: "job_evolves jd jd' \<Longrightarrow> object_ok jd \<Longrightarrow> object_ok jd'"
  by (simp add: object_ok_def job_evolves_def)

lemma failure_results_total: "exceptions_total E \<Longrightarrow> \<exists>res. failure_results E k jd e = Inr res"
  by (auto simp: failure_results_def exceptions_total_def Let_def split: option.split)

lemma worker_handle_signals:
  assumes "exceptions_total E" and "object_ok (sv_store s r)" and "worker_handle E k j r e s = (s', pc')"
  shows "pc' = WFinally j False \<and> signalled s' r \<and> queued s' = queued s \<and>
         sv_queue s' = sv_queue s \<and> sv_active s' = sv_active s \<and> sv_discarded s' = sv_discarded s"
proof -
  define s1 where "s1 = (if is_timeout_error e then upd_job r (\<lambda>jd. jd\<lparr>jd_timeout_error := True\<rparr>) s else s)"
  define s2 where "s2 = (if k = RUN then close_runtime r j s1 else s1)"
  have "evolves s s1" unfolding s1_def
    by (auto intro!: evolves_upd_job simp: job_evolves_def)
  then have e2: "evolves s s2" unfolding s2_def by (auto intro: evolves_trans)
  then have ev: "jd_event (sv_store s2 r) \<noteq> None"
    using assms(2) unfolding object_ok_def evolves_def job_evolves_def by metis
  have same: "queued s2 = queued s" "sv_queue s2 = sv_queue s" "sv_active s2 = sv_active s"
    "sv_discarded s2 = sv_discarded s"
    by (auto simp: s2_def s1_def)
  obtain res where "failure_results E k (sv_store s2 r) e = Inr res"
    using failure_results_total [OF assms(1)] by blast
  with assms(3) have "s' = upd_job r (\<lambda>jd. set_event (jd\<lparr>jd_results := Some res\<rparr>)) s2" "pc' = WFinally j False"
    by (simp_all add: worker_handle_def Let_def s1_def [symmetric] s2_def [symmetric])
  with ev same show ?thesis by (auto simp: signalled_def set_event_def)
qed

fun healthy :: "worker_pc \<Rightarrow> bool" where
  "healthy WDied = False"
| "healthy WExited = False"
| "healthy (WFinally j dying) = (\<not> dying)"
| "healthy _ = True"

text \<open>The jobs a worker has marked active.\<close>

fun claimed :: "worker_pc \<Rightarrow> string set" where
  "claimed (WClaimed j r) = {j}"
| "claimed (WEntered j r) = {j}"
| "claimed (WRunning j r) = {j}"
| "claimed (WLeaving j r e) = {j}"
| "claimed (WHandling j r e) = {j}"
| "claimed (WFinally j dying) = {j}"
| "claimed _ = {}"

definition tasks_kept :: "job_type \<Rightarrow> server \<Rightarrow> worker_pc \<Rightarrow> server \<Rightarrow> worker_pc \<Rightarrow> bool" where
  "tasks_kept k s pc s' pc' \<longleftrightarrow>
     (\<forall>k'. q_unfinished (sv_queue s' k') + length (q_items (sv_queue s k')) + (if k' = k then busy pc else 0) =
           q_unfinished (sv_queue s k') + length (q_items (sv_queue s' k')) + (if k' = k then busy pc' else 0))"

definition active_kept :: "job_type \<Rightarrow> server \<Rightarrow> worker_pc \<Rightarrow> server \<Rightarrow> worker_pc \<Rightarrow> bool" where
  "active_kept k s pc s' pc' \<longleftrightarrow>
     (\<forall>k'. k' \<noteq> k \<longrightarrow> sv_active s' k' = sv_active s k') \<and>
     sv_active s' k \<subseteq> sv_active s k \<union> claimed pc' \<and>
     (claimed pc \<subseteq> claimed pc' \<or> sv_active s' k \<inter> claimed pc = {})"

definition block_ok :: "job_type \<Rightarrow> server \<Rightarrow> worker_pc \<Rightarrow> server \<Rightarrow> worker_pc \<Rightarrow> bool" where
  "block_ok k s pc s' pc' \<longleftrightarrow>
     token_move s pc s' pc' \<and> tasks_kept k s pc s' pc' \<and> active_kept k s pc s' pc' \<and> healthy pc' \<and>
     (\<forall>j r. pc_ref pc' = Some (j, r) \<longrightarrow> pc_ref pc = Some (j, r) \<or> sv_details s j = Some r) \<and>
     sv_discarded s' \<subseteq> sv_discarded s"

text \<open>What the invariant of the system gives about the worker that moves.\<close>

definition block_pre :: "'f env \<Rightarrow> job_type \<Rightarrow> server \<Rightarrow> worker_pc \<Rightarrow> bool" where
  "block_pre E k s pc \<longleftrightarrow>
     exceptions_total E \<and> healthy pc \<and>
     (busy pc = 1 \<longrightarrow> 0 < q_unfinished (sv_queue s k)) \<and>
     stop_sentinel \<notin> set (q_items (sv_queue s k)) \<and>
     (\<forall>j r. pc_ref pc = Some (j, r) \<longrightarrow> object_ok (sv_store s r))"

text \<open>Blocks that change the worker's point and its job object only.\<close>

lemma block_ok_local:
  assumes "sv_queue s' = sv_queue s" "sv_active s' = sv_active s" "sv_discarded s' = sv_discarded s"
    and "busy pc = 1" "busy pc' = 1" "claimed pc' = claimed pc" "healthy pc'"
    and "pc_ref pc = Some (j, r)" "pc_ref pc' = Some (j, r) \<or> pc_ref pc' = None"
    and "tok pc' = tok pc \<or> tok pc = [j] \<and> tok pc' = [] \<and> signalled s' r"
  shows "block_ok k s pc s' pc'"
proof -
  have q: "queued s' = queued s" using assms(1) by (simp add: queued_def)
  have "token_move s pc s' pc'"
    using assms(10) q by (auto intro: token_move.keep token_move.drop_signalled [OF _ assms(8)])
  then show ?thesis
    using assms by (auto simp: block_ok_def tasks_kept_def active_kept_def)
qed

lemma queued_get:
  "q_items (sv_queue s k) = j # js \<Longrightarrow>
   queued s = add_mset j (queued (upd_queue k (\<lambda>q. q\<lparr>q_items := js\<rparr>) s))"
  by (cases k) (simp_all add: queued_def)

lemma get_ok:
  assumes "block_pre E k s WIdle" and "worker_get k s = Some (s', pc')"
  shows "block_ok k s WIdle s' pc'"
proof -
  from assms obtain j js where q: "q_items (sv_queue s k) = j # js" "j \<noteq> stop_sentinel"
    "s' = upd_queue k (\<lambda>q. q\<lparr>q_items := js\<rparr>) s" "pc' = WGot j"
    by (auto simp: worker_get_def block_pre_def Let_def split: list.splits)
  then show ?thesis using queued_get [OF q(1)]
    by (auto simp: block_ok_def tasks_kept_def active_kept_def intro!: token_move.keep)
qed

text \<open>A block that ends with the worker idle again and its task reported done.\<close>

lemma block_ok_done:
  assumes "0 < q_unfinished (sv_queue s k)" "busy pc = 1"
    and "sv_queue s' = (sv_queue s)(k := (sv_queue s k)\<lparr>q_unfinished := q_unfinished (sv_queue s k) - 1\<rparr>)"
    and "sv_discarded s' \<subseteq> sv_discarded s" "\<forall>k'. k' \<noteq> k \<longrightarrow> sv_active s' k' = sv_active s k'"
    and "sv_active s' k \<subseteq> sv_active s k - claimed pc"
    and "tok pc = [] \<or> tok pc = [j] \<and> (sv_details s j = None \<or> j \<in> sv_discarded s)"
  shows "block_ok k s pc s' WIdle"
proof -
  have q: "queued s' = queued s" using assms(3) by (cases k) (simp_all add: queued_def)
  have "token_move s pc s' WIdle"
    using assms(7) q
    by (auto intro: token_move.keep token_move.drop_missing [where j = j]
        token_move.drop_discarded [where j = j])
  then show ?thesis
    using assms by (auto simp: block_ok_def tasks_kept_def active_kept_def)
qed

lemma lookup_ok:
  assumes "block_pre E k s (WGot j)" and "worker_lookup k j s = (s', pc')"
  shows "block_ok k s (WGot j) s' pc'"
proof (cases "sv_details s j")
  case None
  have u: "0 < q_unfinished (sv_queue s k)" using assms(1) by (simp add: block_pre_def)
  with None assms(2) have "pc' = WIdle"
    "s' = s\<lparr>sv_queue := (sv_queue s)(k := (sv_queue s k)\<lparr>q_unfinished := q_unfinished (sv_queue s k) - 1\<rparr>)\<rparr>"
    by (simp_all add: worker_lookup_def finish_task_ok [OF u])
  with u None show ?thesis by (auto intro!: block_ok_done [where j = j])
next
  case (Some r)
  with assms(2) show ?thesis
    by (auto simp: worker_lookup_def block_ok_def tasks_kept_def active_kept_def intro!: token_move.keep)
qed

lemma claim_ok:
  assumes "block_pre E k s (WFound j r)" and "worker_claim k j r s = (s', pc')"
  shows "block_ok k s (WFound j r) s' pc'"
proof (cases "j \<in> sv_discarded s")
  case True
  have u: "0 < q_unfinished (sv_queue s k)" using assms(1) by (simp add: block_pre_def)
  with True assms(2) have "pc' = WIdle"
    "s' = s\<lparr>sv_queue := (sv_queue s)(k := (sv_queue s k)\<lparr>q_unfinished := q_unfinished (sv_queue s k) - 1\<rparr>),
            sv_discarded := sv_discarded s - {j}\<rparr>"
    by (auto simp: worker_claim_def finish_task_ok [OF u])
  with u True show ?thesis by (auto intro!: block_ok_done [where j = j])
next
  case False
  with assms(2) show ?thesis
    by (auto simp: worker_claim_def block_ok_def tasks_kept_def active_kept_def intro!: token_move.keep)
qed

lemma begin_ok:
  assumes "block_pre E k s (WClaimed j r)" and "worker_begin E k j r now now2 s = (s', pc')"
  shows "block_ok k s (WClaimed j r) s' pc'"
proof -
  from assms(1) obtain d n where "jd_instance (sv_store s r) = Some d" "dataset_type d = Inr n"
    by (auto simp: block_pre_def object_ok_def)
  with assms(2) have "(\<exists>e. pc' = WHandling j r e \<and> s' = s) \<or>
    (pc' = WEntered j r \<and> (\<exists>f. s' = upd_job r f s))"
    by (auto simp: worker_begin_def Let_def split: option.splits sum.splits)
  then show ?thesis by (auto intro!: block_ok_local [where j = j and r = r])
qed

lemma start_ok:
  assumes "worker_start j r tk now s = (s', pc')"
  shows "block_ok k s (WEntered j r) s' pc'"
proof -
  from assms have "(pc' = WRunning j r \<or> (\<exists>e. pc' = WLeaving j r (Some e))) \<and> (s' = s \<or> (\<exists>f. s' = upd_job r f s))"
    by (auto simp: worker_start_def split: option.splits if_splits)
  then show ?thesis by (auto intro!: block_ok_local [where j = j and r = r])
qed

lemma passed_on_ok:
  assumes "sv_queue s' = (sv_queue s)(k' := q_put j (sv_queue s k'))" "sv_active s' = sv_active s"
    "sv_discarded s' = sv_discarded s"
  shows "block_ok k s (WRunning j r) s' (WLeaving j r None)"
proof -
  have "queued s' = add_mset j (queued s)"
    using assms(1) by (cases k') (simp_all add: queued_def q_put_def)
  then have "token_move s (WRunning j r) s' (WLeaving j r None)" by (auto intro: token_move.keep)
  with assms show ?thesis
    by (auto simp: block_ok_def tasks_kept_def active_kept_def q_put_def)
qed

lemma stage_done_ok:
  assumes "object_ok (sv_store s r)" and "stage_done k j r v s = (s', pc')"
  shows "block_ok k s (WRunning j r) s' pc'"
proof -
  have "(k = INIT \<and> sv_queue s' = (sv_queue s)(RUN := q_put j (sv_queue s RUN)) \<and> pc' = WLeaving j r None) \<or>
      (k = RUN \<and> sv_queue s' = (sv_queue s)(EVAL := q_put j (sv_queue s EVAL)) \<and> pc' = WLeaving j r None) \<or>
      (sv_queue s' = sv_queue s \<and> (pc' = WLeaving j r None \<and> signalled s' r \<or> (\<exists>e. pc' = WLeaving j r (Some e))))"
    and act: "sv_active s' = sv_active s" "sv_discarded s' = sv_discarded s"
    using assms
    by (cases k; cases v; auto simp: stage_done_def signalled_def object_ok_def set_event_def)+
  then consider (passed) k' where "sv_queue s' = (sv_queue s)(k' := q_put j (sv_queue s k'))" "pc' = WLeaving j r None"
    | (ended) "sv_queue s' = sv_queue s" "pc' = WLeaving j r None \<and> signalled s' r \<or> (\<exists>e. pc' = WLeaving j r (Some e))"
    by blast
  then show ?thesis
  proof cases
    case passed
    with act show ?thesis by (simp add: passed_on_ok)
  next
    case ended
    with act show ?thesis by (auto intro!: block_ok_local [where j = j and r = r])
  qed
qed

lemma block_ok_same:
  assumes "block_ok k s1 pc s' pc'"
    and "sv_queue s1 = sv_queue s" "sv_active s1 = sv_active s" "sv_discarded s1 = sv_discarded s"
    "sv_details s1 = sv_details s"
  shows "block_ok k s pc s' pc'"
proof -
  have "queued s1 = queued s" using assms(2) by (simp add: queued_def)
  moreover have "token_move s1 pc s' pc'" using assms(1) by (simp add: block_ok_def)
  ultimately have "token_move s pc s' pc'"
    using assms(4,5) by (auto elim!: token_move.cases intro: token_move.intros)
  with assms show ?thesis by (simp add: block_ok_def tasks_kept_def active_kept_def)
qed

lemma complete_ok:
  assumes "block_pre E k s (WRunning j r)" and "worker_complete k j r out s = (s', pc')"
  shows "block_ok k s (WRunning j r) s' pc'"
proof -
  let ?s1 = "upd_job r (\<lambda>jd. jd\<lparr>jd_current_task := None\<rparr>) s"
  have ok: "object_ok (sv_store ?s1 r)"
    using assms(1) by (simp add: block_pre_def object_ok_def)
  show ?thesis
  proof (cases "\<exists>v. out = Returned v")
    case True
    with assms(2) obtain v where "stage_done k j r v ?s1 = (s', pc')" by (auto simp: worker_complete_def)
    then have "block_ok k ?s1 (WRunning j r) s' pc'" by (rule stage_done_ok [OF ok])
    then show ?thesis by (rule block_ok_same) simp_all
  next
    case False
    with assms(2) have "(\<exists>e. pc' = WLeaving j r (Some e)) \<and> (\<exists>f. s' = upd_job r f ?s1 \<or> s' = ?s1)"
      by (auto simp: worker_complete_def Let_def split: coro_outcome.splits)
    then show ?thesis by (auto intro!: block_ok_local [where j = j and r = r])
  qed
qed

lemma leave_ok:
  assumes "block_pre E k s (WLeaving j r err)" and "worker_leave j r err later s = (s', pc')"
  shows "block_ok k s (WLeaving j r err) s' pc'"
proof -
  from assms(1) obtain t where t: "jd_timer (sv_store s r) = Some t" "timer_safe t"
    by (auto simp: block_pre_def object_ok_def job_timer_ok_def)
  from exit_phase_safe [OF t(2), of later] assms(2) t(1)
  have "\<exists>f. s' = upd_job r f s" "pc' = (case err of None \<Rightarrow> WFinally j False | Some e \<Rightarrow> WHandling j r e)"
    by (auto simp: worker_leave_def)
  then show ?thesis
    by (cases err) (auto intro!: block_ok_local [where j = j and r = r])
qed

lemma handle_ok:
  assumes "block_pre E k s (WHandling j r e)" and "worker_handle E k j r e s = (s', pc')"
  shows "block_ok k s (WHandling j r e) s' pc'"
  using worker_handle_signals [of E s r k j e s' pc'] assms
  by (auto simp: block_pre_def intro!: block_ok_local [where j = j and r = r])

lemma finally_ok:
  assumes "block_pre E k s (WFinally j dying)" and "worker_finally k j dying s = (s', pc')"
  shows "block_ok k s (WFinally j dying) s' pc'"
proof -
  let ?s1 = "upd_active k (\<lambda>A. A - {j}) s"
  have u: "0 < q_unfinished (sv_queue s k)" "\<not> dying" using assms(1) by (simp_all add: block_pre_def)
  then have u1: "0 < q_unfinished (sv_queue ?s1 k)" by simp
  from assms(2) u(2) have "pc' = WIdle"
    "s' = ?s1\<lparr>sv_queue := (sv_queue ?s1)(k := (sv_queue ?s1 k)\<lparr>q_unfinished := q_unfinished (sv_queue ?s1 k) - 1\<rparr>)\<rparr>"
    by (simp_all add: worker_finally_def finish_task_ok [OF u1])
  with u show ?thesis by (auto intro!: block_ok_done)
qed

lemma block_effect:
  "block E k (s, pc) (s', pc') \<Longrightarrow> block_pre E k s pc \<Longrightarrow> block_ok k s pc s' pc'"
proof (induction "(s, pc)" "(s', pc')" rule: block.induct)
  case block_get
  then show ?case by (metis get_ok)
next
  case (block_start j r tk now)
  then show ?case by (metis start_ok)
qed (metis lookup_ok claim_ok begin_ok complete_ok leave_ok handle_ok finally_ok)+

section \<open>The invariant\<close>

definition known_id :: "server \<Rightarrow> string \<Rightarrow> bool" where
  "known_id s j \<longleftrightarrow> (\<exists>r < sv_next s. jd_job_id (sv_store s r) = Some j)"

text \<open>Each job object is complete, its identifier is its own and is not the sentinel.\<close>

definition objects_inv :: "server \<Rightarrow> bool" where
  "objects_inv s \<longleftrightarrow>
     (\<forall>r < sv_next s. object_ok (sv_store s r) \<and> (\<exists>j. jd_job_id (sv_store s r) = Some j \<and> j \<noteq> stop_sentinel)) \<and>
     (\<forall>r < sv_next s. \<forall>r' < sv_next s. jd_job_id (sv_store s r) = jd_job_id (sv_store s r') \<longrightarrow> r = r') \<and>
     (\<forall>j r. sv_details s j = Some r \<longrightarrow> r < sv_next s \<and> jd_job_id (sv_store s r) = Some j) \<and>
     (\<forall>j \<in> sv_discarded s. \<exists>r < sv_next s. jd_job_id (sv_store s r) = Some j \<and> signalled s r)"

text \<open>Each worker holds objects of the store, under their identifiers, and none has ended.\<close>

definition workers_inv :: "system \<Rightarrow> bool" where
  "workers_inv \<sigma> \<longleftrightarrow>
     (\<forall>k. length (sy_pcs \<sigma> k) = sv_max (sy_server \<sigma>) k) \<and>
     (\<forall>k. \<forall>pc \<in> set (sy_pcs \<sigma> k). healthy pc \<and>
        (\<forall>j r. pc_ref pc = Some (j, r) \<longrightarrow>
           r < sv_next (sy_server \<sigma>) \<and> jd_job_id (sv_store (sy_server \<sigma>) r) = Some j)) \<and>
     (\<forall>k. q_unfinished (sv_queue (sy_server \<sigma>) k) =
        length (q_items (sv_queue (sy_server \<sigma>) k)) + sum_list (map busy (sy_pcs \<sigma> k))) \<and>
     (\<forall>k. sv_active (sy_server \<sigma>) k \<subseteq> \<Union> (claimed ` set (sy_pcs \<sigma> k)))"

text \<open>Each token is there once, of a known job; a job without a token has been signalled.\<close>

definition tokens_inv :: "system \<Rightarrow> bool" where
  "tokens_inv \<sigma> \<longleftrightarrow>
     (\<forall>j. count (tokens \<sigma>) j \<le> 1) \<and>
     (\<forall>j \<in># tokens \<sigma>. known_id (sy_server \<sigma>) j) \<and>
     (\<forall>r < sv_next (sy_server \<sigma>). signalled (sy_server \<sigma>) r \<or>
        (\<exists>j. jd_job_id (sv_store (sy_server \<sigma>) r) = Some j \<and> j \<in># tokens \<sigma> \<and>
             sv_details (sy_server \<sigma>) j = Some r)) \<and>
     (\<forall>(j, r) \<in> set (sy_calls \<sigma>). r < sv_next (sy_server \<sigma>) \<and>
        jd_job_id (sv_store (sy_server \<sigma>) r) = Some j)"

definition system_inv :: "system \<Rightarrow> bool" where
  "system_inv \<sigma> \<longleftrightarrow> objects_inv (sy_server \<sigma>) \<and> workers_inv \<sigma> \<and> tokens_inv \<sigma>"

lemma started_inv: "system_inv (started addrs mi mr me)"
  by (auto simp: system_inv_def objects_inv_def workers_inv_def tokens_inv_def started_def
      new_server_def Let_def q_new_def tokens_def queued_def held_def map_replicate_const
      sum_list_replicate split: job_type.splits)

section \<open>Workers keep the invariant\<close>

lemma evolvesD:
  assumes "evolves s s'"
  shows "sv_next s' = sv_next s" "sv_details s' = sv_details s" "sv_max s' = sv_max s"
    "jd_job_id (sv_store s' r) = jd_job_id (sv_store s r)" "signalled s r \<Longrightarrow> signalled s' r"
    "object_ok (sv_store s r) \<Longrightarrow> object_ok (sv_store s' r)"
  using assms by (auto simp: evolves_def job_evolves_def signalled_def object_ok_def)

lemma known_id_evolves: "evolves s s' \<Longrightarrow> known_id s' j = known_id s j"
  by (simp add: known_id_def evolvesD)

lemma objects_inv_evolves:
  assumes "objects_inv s" and "evolves s s'" and "sv_discarded s' \<subseteq> sv_discarded s"
  shows "objects_inv s'"
proof -
  note e = evolvesD [OF assms(2)]
  have "\<forall>j \<in> sv_discarded s'. \<exists>r < sv_next s. jd_job_id (sv_store s r) = Some j \<and> signalled s' r"
    using assms e(5) unfolding objects_inv_def by blast
  moreover have "object_ok (sv_store s' r)" if "r < sv_next s" for r
    using assms(1) e(6) that unfolding objects_inv_def by blast
  ultimately show ?thesis using assms(1) by (simp add: objects_inv_def e)
qed

lemma sum_list_busy_update:
  "w < length xs \<Longrightarrow> sum_list (map busy (xs[w := pc'])) + busy (xs ! w) = sum_list (map busy xs) + busy pc'"
proof (induction xs arbitrary: w)
  case (Cons x xs)
  then show ?case by (cases w) (auto simp: algebra_simps)
qed simp

lemma busy_le_sum: "w < length xs \<Longrightarrow> busy (xs ! w) \<le> sum_list (map busy xs)"
  by (metis elem_le_sum_list length_map nth_map)

lemma queued_in_tokens: "j \<in> set (q_items (sv_queue (sy_server \<sigma>) k)) \<Longrightarrow> j \<in># tokens \<sigma>"
  by (cases k) (auto simp: tokens_def queued_def)

lemma block_pre_inv:
  assumes "exceptions_total E" "system_inv \<sigma>" "w < length (sy_pcs \<sigma> k)"
  shows "block_pre E k (sy_server \<sigma>) (sy_pcs \<sigma> k ! w)"
proof -
  let ?s = "sy_server \<sigma>" and ?pc = "sy_pcs \<sigma> k ! w"
  have inv: "objects_inv ?s" "workers_inv \<sigma>" "tokens_inv \<sigma>" using assms(2) by (simp_all add: system_inv_def)
  have pc: "healthy ?pc" "\<And>j r. pc_ref ?pc = Some (j, r) \<Longrightarrow> r < sv_next ?s"
    using inv(2) assms(3) nth_mem unfolding workers_inv_def by blast+
  have "stop_sentinel \<notin># tokens \<sigma>"
    using inv(1,3) unfolding tokens_inv_def objects_inv_def known_id_def by fastforce
  then have "stop_sentinel \<notin> set (q_items (sv_queue ?s k))" using queued_in_tokens by blast
  moreover have "q_unfinished (sv_queue ?s k) = length (q_items (sv_queue ?s k)) + sum_list (map busy (sy_pcs \<sigma> k))"
    using inv(2) by (simp add: workers_inv_def)
  moreover have "object_ok (sv_store ?s r)" if "pc_ref ?pc = Some (j, r)" for j r
    using inv(1) pc(2) [OF that] by (simp add: objects_inv_def)
  ultimately show ?thesis
    using assms(1) pc(1) busy_le_sum [OF assms(3)] by (auto simp: block_pre_def)
qed

lemma workers_inv_update:
  assumes inv: "workers_inv \<sigma>" "objects_inv (sy_server \<sigma>)" and w: "w < length (sy_pcs \<sigma> k)"
    and ev: "evolves (sy_server \<sigma>) s'" and ok: "block_ok k (sy_server \<sigma>) (sy_pcs \<sigma> k ! w) s' pc'"
  shows "workers_inv (\<sigma>\<lparr>sy_server := s', sy_pcs := (sy_pcs \<sigma>)(k := (sy_pcs \<sigma> k)[w := pc'])\<rparr>)"
    (is "workers_inv ?\<sigma>'")
proof -
  let ?s = "sy_server \<sigma>" and ?pc = "sy_pcs \<sigma> k ! w" and ?xs = "(sy_pcs \<sigma> k)[w := pc']"
  note e = evolvesD [OF ev]
  have refs: "healthy pc' \<and> (\<forall>j r. pc_ref pc' = Some (j, r) \<longrightarrow> r < sv_next ?s \<and> jd_job_id (sv_store ?s r) = Some j)"
  proof -
    have "r < sv_next ?s \<and> jd_job_id (sv_store ?s r) = Some j" if "pc_ref pc' = Some (j, r)" for j r
    proof -
      from ok that consider "pc_ref ?pc = Some (j, r)" | "sv_details ?s j = Some r"
        unfolding block_ok_def by blast
      then show ?thesis
        using inv w nth_mem unfolding workers_inv_def objects_inv_def by cases blast+
    qed
    with ok show ?thesis by (simp add: block_ok_def)
  qed
  have "q_unfinished (sv_queue s' k') = length (q_items (sv_queue s' k')) + sum_list (map busy (sy_pcs ?\<sigma>' k'))" for k'
  proof -
    have t: "q_unfinished (sv_queue s' k') + length (q_items (sv_queue ?s k')) + (if k' = k then busy ?pc else 0) =
           q_unfinished (sv_queue ?s k') + length (q_items (sv_queue s' k')) + (if k' = k then busy pc' else 0)"
      using ok by (simp add: block_ok_def tasks_kept_def)
    have "q_unfinished (sv_queue ?s k') = length (q_items (sv_queue ?s k')) + sum_list (map busy (sy_pcs \<sigma> k'))"
      using inv(1) by (simp add: workers_inv_def)
    with t sum_list_busy_update [OF w, of pc'] show ?thesis by (cases "k' = k") auto
  qed
  moreover have "sv_active s' k' \<subseteq> \<Union> (claimed ` set (sy_pcs ?\<sigma>' k'))" for k'
  proof (cases "k' = k")
    case False
    with ok inv(1) show ?thesis by (simp add: block_ok_def active_kept_def workers_inv_def)
  next
    case True
    have a: "sv_active s' k \<subseteq> sv_active ?s k \<union> claimed pc'"
      "claimed ?pc \<subseteq> claimed pc' \<or> sv_active s' k \<inter> claimed ?pc = {}"
      using ok by (simp_all add: block_ok_def active_kept_def)
    have "\<exists>pc \<in> set ?xs. j \<in> claimed pc" if j: "j \<in> sv_active s' k" for j
    proof (cases "j \<in> claimed pc'")
      case True
      with w show ?thesis by (meson set_update_memI)
    next
      case False
      with a(1) j have "j \<in> sv_active ?s k" by blast
      moreover have "sv_active ?s k \<subseteq> \<Union> (claimed ` set (sy_pcs \<sigma> k))"
        using inv(1) by (simp add: workers_inv_def)
      ultimately obtain pc where "pc \<in> set (sy_pcs \<sigma> k)" "j \<in> claimed pc" by blast
      then obtain v where v: "v < length (sy_pcs \<sigma> k)" "j \<in> claimed (sy_pcs \<sigma> k ! v)"
        by (metis in_set_conv_nth)
      with False a j have "v \<noteq> w" by auto
      with v have "sy_pcs \<sigma> k ! v \<in> set ?xs" by (metis length_list_update nth_list_update_neq nth_mem)
      with v show ?thesis by blast
    qed
    with True show ?thesis by auto
  qed
  moreover have "healthy pc \<and> (\<forall>j r. pc_ref pc = Some (j, r) \<longrightarrow> r < sv_next s' \<and> jd_job_id (sv_store s' r) = Some j)"
    if "pc \<in> set (sy_pcs ?\<sigma>' k')" for k' pc
  proof -
    have "pc = pc' \<or> pc \<in> set (sy_pcs \<sigma> k')"
      using that by (cases "k' = k") (auto dest: set_update_subset_insert [THEN subsetD])
    with refs inv(1) show ?thesis by (auto simp: workers_inv_def e)
  qed
  ultimately show ?thesis using inv(1) by (simp add: workers_inv_def e)
qed

lemma dropped_signalled:
  assumes inv: "objects_inv s" "evolves s s'"
    and tok: "\<forall>r < sv_next s. signalled s r \<or> (\<exists>j. jd_job_id (sv_store s r) = Some j \<and> sv_details s j = Some r)"
    and j: "sv_details s j = None \<or> j \<in> sv_discarded s \<or>
            (\<exists>r < sv_next s. jd_job_id (sv_store s r) = Some j \<and> signalled s' r)"
    and r: "r < sv_next s" "jd_job_id (sv_store s r) = Some j"
  shows "signalled s' r"
proof -
  have uniq: "r' = r" if "r' < sv_next s" "jd_job_id (sv_store s r') = Some j" for r'
    using inv(1) r that unfolding objects_inv_def by metis
  from j consider "sv_details s j = None" | "j \<in> sv_discarded s"
    | r' where "r' < sv_next s" "jd_job_id (sv_store s r') = Some j" "signalled s' r'"
    by (elim disjE exE conjE)
  then show ?thesis
  proof cases
    case 1
    with tok r have "signalled s r" by (metis option.distinct(1) option.sel)
    then show ?thesis by (rule evolvesD(5) [OF inv(2)])
  next
    case 2
    with inv(1) uniq have "signalled s r" unfolding objects_inv_def by blast
    then show ?thesis by (rule evolvesD(5) [OF inv(2)])
  next
    case 3
    with uniq show ?thesis by blast
  qed
qed

lemma tokens_inv_evolves:
  assumes inv: "tokens_inv \<sigma>" and ev: "evolves (sy_server \<sigma>) (sy_server \<sigma>')"
    and calls: "sy_calls \<sigma>' = sy_calls \<sigma>"
    and tok: "tokens \<sigma>' = tokens \<sigma> \<or>
      (\<exists>j. tokens \<sigma> = add_mset j (tokens \<sigma>') \<and>
         (\<forall>r < sv_next (sy_server \<sigma>). jd_job_id (sv_store (sy_server \<sigma>) r) = Some j \<longrightarrow> signalled (sy_server \<sigma>') r))"
  shows "tokens_inv \<sigma>'"
proof -
  note e = evolvesD [OF ev]
  have sub: "tokens \<sigma>' \<subseteq># tokens \<sigma>" using tok by auto
  then have "count (tokens \<sigma>') j \<le> 1" for j
    using inv mset_subset_eq_count [OF sub, of j] unfolding tokens_inv_def by (meson le_trans)
  moreover have "known_id (sy_server \<sigma>') j" if "j \<in># tokens \<sigma>'" for j
    using inv that mset_subset_eqD [OF sub] by (auto simp: tokens_inv_def known_id_evolves [OF ev])
  moreover have "signalled (sy_server \<sigma>') r \<or>
      (\<exists>j. jd_job_id (sv_store (sy_server \<sigma>) r) = Some j \<and> j \<in># tokens \<sigma>' \<and> sv_details (sy_server \<sigma>) j = Some r)"
    if r: "r < sv_next (sy_server \<sigma>)" for r
  proof -
    from inv r consider "signalled (sy_server \<sigma>) r"
      | j where "jd_job_id (sv_store (sy_server \<sigma>) r) = Some j" "j \<in># tokens \<sigma>" "sv_details (sy_server \<sigma>) j = Some r"
      unfolding tokens_inv_def by blast
    then show ?thesis
    proof cases
      case 1
      with e(5) show ?thesis by blast
    next
      case 2
      with tok r show ?thesis by auto
    qed
  qed
  ultimately show ?thesis using inv calls by (auto simp: tokens_inv_def e)
qed

lemma worker_step_inv:
  assumes "exceptions_total E" "system_inv \<sigma>" "worker_step E \<sigma> \<sigma>'"
  shows "system_inv \<sigma>'"
  using assms(3)
proof cases
  case (worker_stepI w k s' pc')
  let ?s = "sy_server \<sigma>" and ?pc = "sy_pcs \<sigma> k ! w"
  have inv: "objects_inv ?s" "workers_inv \<sigma>" "tokens_inv \<sigma>" using assms(2) by (simp_all add: system_inv_def)
  note ev = block_evolves [OF worker_stepI(3)]
  have ok: "block_ok k ?s ?pc s' pc'"
    by (rule block_effect [OF worker_stepI(3) block_pre_inv [OF assms(1,2) worker_stepI(2)]])
  have o: "objects_inv s'" using objects_inv_evolves [OF inv(1) ev] ok by (simp add: block_ok_def)
  have wi: "workers_inv \<sigma>'"
    unfolding worker_stepI(1) by (rule workers_inv_update [OF inv(2,1) worker_stepI(2) ev ok])
  have t: "tokens \<sigma>' + (queued ?s + mset (tok ?pc)) = tokens \<sigma> + (queued s' + mset (tok pc'))"
    unfolding worker_stepI(1) by (rule tokens_update [OF worker_stepI(2)])
  have tokD: "\<forall>r < sv_next ?s. signalled ?s r \<or> (\<exists>j. jd_job_id (sv_store ?s r) = Some j \<and> sv_details ?s j = Some r)"
    using inv(3) unfolding tokens_inv_def by blast
  have "token_move ?s ?pc s' pc'" using ok by (simp add: block_ok_def)
  then have "tokens \<sigma>' = tokens \<sigma> \<or> (\<exists>j. tokens \<sigma> = add_mset j (tokens \<sigma>') \<and>
      (sv_details ?s j = None \<or> j \<in> sv_discarded ?s \<or>
       (\<exists>r < sv_next ?s. jd_job_id (sv_store ?s r) = Some j \<and> signalled s' r)))"
  proof cases
    case keep
    with t show ?thesis by simp
  next
    case (drop_missing j)
    with t show ?thesis by (intro disjI2 exI [of _ j]) simp
  next
    case (drop_discarded j)
    with t show ?thesis by (intro disjI2 exI [of _ j]) simp
  next
    case (drop_signalled j r)
    then have "r < sv_next ?s \<and> jd_job_id (sv_store ?s r) = Some j"
      using inv(2) nth_mem [OF worker_stepI(2)] unfolding workers_inv_def by blast
    with drop_signalled t show ?thesis by (intro disjI2 exI [of _ j]) auto
  qed
  then have "tokens \<sigma>' = tokens \<sigma> \<or> (\<exists>j. tokens \<sigma> = add_mset j (tokens \<sigma>') \<and>
      (\<forall>r < sv_next ?s. jd_job_id (sv_store ?s r) = Some j \<longrightarrow> signalled s' r))"
    using dropped_signalled [OF inv(1) ev tokD] by blast
  then have "tokens_inv \<sigma>'"
    using ev worker_stepI(1) by (intro tokens_inv_evolves [OF inv(3)]) simp_all
  with o wi show ?thesis using worker_stepI(1) by (simp add: system_inv_def)
qed

section \<open>Clients keep the invariant\<close>

text \<open>
  A client step that submits nothing: the queues stay, jobs evolve, and a job may only be
  forgotten or discarded once it has been signalled.
\<close>

definition client_ok :: "server \<Rightarrow> server \<Rightarrow> bool" where
  "client_ok s s' \<longleftrightarrow>
     sv_next s' = sv_next s \<and> sv_max s' = sv_max s \<and> sv_queue s' = sv_queue s \<and>
     (\<forall>r. job_evolves (sv_store s r) (sv_store s' r)) \<and>
     (\<forall>k. sv_active s' k \<subseteq> sv_active s k) \<and>
     (\<forall>j. sv_details s' j = sv_details s j \<or>
        sv_details s' j = None \<and> (\<forall>r. sv_details s j = Some r \<longrightarrow> signalled s' r)) \<and>
     (\<forall>j \<in> sv_discarded s'. j \<in> sv_discarded s \<or> (\<exists>r. sv_details s j = Some r \<and> signalled s' r))"

lemma client_okD:
  assumes "client_ok s s'"
  shows "sv_next s' = sv_next s" "sv_max s' = sv_max s" "sv_queue s' = sv_queue s"
    "jd_job_id (sv_store s' r) = jd_job_id (sv_store s r)" "signalled s r \<Longrightarrow> signalled s' r"
    "object_ok (sv_store s r) \<Longrightarrow> object_ok (sv_store s' r)" "queued s' = queued s"
  using assms by (auto simp: client_ok_def job_evolves_def signalled_def object_ok_def queued_def)

lemma objects_inv_client:
  assumes "objects_inv s" "client_ok s s'"
  shows "objects_inv s'"
proof -
  note e = client_okD [OF assms(2)]
  have "\<exists>r < sv_next s. jd_job_id (sv_store s r) = Some j \<and> signalled s' r" if "j \<in> sv_discarded s'" for j
    using assms e(5) that unfolding objects_inv_def client_ok_def by blast
  moreover have "r < sv_next s \<and> jd_job_id (sv_store s r) = Some j" if "sv_details s' j = Some r" for j r
    using assms that unfolding objects_inv_def client_ok_def by (metis option.distinct(1))
  moreover have "object_ok (sv_store s' r)" if "r < sv_next s" for r
    using assms(1) e(6) that unfolding objects_inv_def by blast
  ultimately show ?thesis using assms(1) by (simp add: objects_inv_def e)
qed

lemma system_inv_client:
  assumes inv: "system_inv \<sigma>" and ok: "client_ok (sy_server \<sigma>) (sy_server \<sigma>')"
    and "sy_pcs \<sigma>' = sy_pcs \<sigma>" "set (sy_calls \<sigma>') \<subseteq> set (sy_calls \<sigma>)"
  shows "system_inv \<sigma>'"
proof -
  let ?s = "sy_server \<sigma>" and ?s' = "sy_server \<sigma>'"
  note e = client_okD [OF ok]
  have i: "objects_inv ?s" "workers_inv \<sigma>" "tokens_inv \<sigma>" using inv by (simp_all add: system_inv_def)
  have t: "tokens \<sigma>' = tokens \<sigma>" using e assms(3) by (simp add: tokens_def held_def)
  have "sv_active ?s' k \<subseteq> \<Union> (claimed ` set (sy_pcs \<sigma> k))" for k
    using i(2) ok unfolding workers_inv_def client_ok_def by blast
  then have w: "workers_inv \<sigma>'" using i(2) e assms(3) by (simp add: workers_inv_def)
  have "signalled ?s' r \<or> (\<exists>j. jd_job_id (sv_store ?s r) = Some j \<and> j \<in># tokens \<sigma> \<and> sv_details ?s' j = Some r)"
    if "r < sv_next ?s" for r
  proof -
    from i(3) that consider "signalled ?s r"
      | j where "jd_job_id (sv_store ?s r) = Some j" "j \<in># tokens \<sigma>" "sv_details ?s j = Some r"
      unfolding tokens_inv_def by blast
    then show ?thesis
    proof cases
      case 1
      with e(5) show ?thesis by blast
    next
      case (2 j)
      moreover have "sv_details ?s' j = sv_details ?s j \<or> (\<forall>r. sv_details ?s j = Some r \<longrightarrow> signalled ?s' r)"
        using ok unfolding client_ok_def by blast
      ultimately show ?thesis by auto
    qed
  qed
  then have "tokens_inv \<sigma>'" using i(3) t e assms(4) by (auto simp: tokens_inv_def known_id_def)
  with w objects_inv_client [OF i(1) ok] show ?thesis by (simp add: system_inv_def)
qed

lemma client_ok_addresses [simp]: "client_ok s (s\<lparr>sv_addresses := W\<rparr>)"
  by (simp add: client_ok_def)

lemma client_ok_handler_stores [simp]: "client_ok s (handler_stores r agent controller s)"
  by (simp add: client_ok_def handler_stores_def job_evolves_def)

lemma process_submit_refused:
  assumes "process_submit E instance params job_id rands timeout now s = (s', Inl e)"
  shows "\<exists>W. s' = s\<lparr>sv_addresses := W\<rparr>"
proof -
  have s: "\<exists>W. s = s\<lparr>sv_addresses := W\<rparr>" by (rule exI [of _ "sv_addresses s"]) simp
  show ?thesis
    using assms s
    by (auto simp: process_submit_def submit_checked_def Let_def
        split: if_splits prod.splits sum.splits)
qed

lemma submit_checked_ok:
  assumes "submit_checked E instance params reasoning job_id timeout now s = (s', Inr (j, r))"
  shows "j = job_id \<and> r = sv_next s \<and> (\<exists>W agent_config llm_config. s' = upd_queue INIT (q_put j)
           (s\<lparr>sv_addresses := W,
              sv_store := (sv_store s)(r := submitted_job j instance reasoning agent_config llm_config timeout now),
              sv_next := Suc r, sv_details := (sv_details s)(j \<mapsto> r)\<rparr>))"
  using assms
  by (fastforce simp: submit_checked_def Let_def split: prod.splits sum.splits)

lemma submitted_job_ok:
  "dataset_type instance = Inr n \<Longrightarrow>
   jd_job_id (submitted_job j instance reasoning cfg llm timeout now) = Some j \<and>
   object_ok (submitted_job j instance reasoning cfg llm timeout now) \<and>
   jd_event (submitted_job j instance reasoning cfg llm timeout now) = Some False"
  by (simp add: submitted_job_def object_ok_def)

lemma process_submit_ok:
  assumes "process_submit E instance params job_id rands timeout now s = (s', Inr (j, r))"
  obtains W jd where "r = sv_next s" "s' = upd_queue INIT (q_put j)
           (s\<lparr>sv_addresses := W, sv_store := (sv_store s)(r := jd), sv_next := Suc r,
              sv_details := (sv_details s)(j \<mapsto> r)\<rparr>)"
    "jd_job_id jd = Some j" "object_ok jd" "jd_event jd = Some False"
proof -
  from assms obtain n params' reasoning j' where
    "dataset_type instance = Inr n" "submit_checked E instance params' reasoning j' timeout now s = (s', Inr (j, r))"
    by (auto simp: process_submit_def Let_def split: if_splits prod.splits sum.splits)
  with submit_checked_ok [OF this(2)] submitted_job_ok [OF this(1), of j] that show ?thesis by blast
qed

lemma cancel_object_fields:
  assumes "jd_event (sv_store s r) \<noteq> None"
  shows "sv_queue (cancel_object td j r s) = sv_queue s" "sv_active (cancel_object td j r s) = sv_active s"
    "sv_discarded (cancel_object td j r s) = sv_discarded s" "evolves s (cancel_object td j r s)"
    "signalled (cancel_object td j r s) r"
proof -
  define s1 where "s1 = upd_job r (\<lambda>jd. set_event (jd\<lparr>jd_timeout_error := True\<rparr>)) s"
  define s2 where "s2 = close_runtime r j s1"
  have "evolves s s1" unfolding s1_def
    by (rule evolves_upd_job) (simp add: job_evolves_def set_event_def)
  then have e: "evolves s s2" unfolding s2_def by (rule evolves_trans) simp
  have "signalled s1 r" using assms by (auto simp: s1_def signalled_def set_event_def)
  then have sg: "signalled s2 r" unfolding s2_def by (rule evolvesD(5) [OF evolves_close_runtime])
  have c: "\<exists>T. cancel_object td j r s = s2\<lparr>sv_cancelled_tasks := T\<rparr>"
    by (cases "jd_current_task (sv_store s2 r)")
      (auto simp: cancel_object_def Let_def s1_def [symmetric] s2_def [symmetric]
        intro: exI [of _ "sv_cancelled_tasks s2"])
  then show "sv_queue (cancel_object td j r s) = sv_queue s" "sv_active (cancel_object td j r s) = sv_active s"
    "sv_discarded (cancel_object td j r s) = sv_discarded s" "evolves s (cancel_object td j r s)"
    "signalled (cancel_object td j r s) r"
    using e sg by (auto simp: s2_def s1_def evolves_def signalled_def)
qed

lemma client_ok_cancel:
  assumes "objects_inv s" "cancel_job td j s = (s', res)"
  shows "client_ok s s'"
proof (cases "sv_running s \<and> sv_details s j \<noteq> None")
  case False
  with assms(2) have "s' = s" by (auto simp: cancel_job_def split: if_splits)
  then show ?thesis by (simp add: client_ok_def)
next
  case True
  then obtain r where r: "sv_details s j = Some r" by blast
  with assms(1) have "jd_event (sv_store s r) \<noteq> None" unfolding objects_inv_def object_ok_def by blast
  note f = cancel_object_fields [OF this, where td = td and j = j]
  let ?s1 = "cancel_object td j r s"
  have s': "s' = ?s1\<lparr>sv_details := (sv_details ?s1)(j := None),
      sv_active := (\<lambda>k. sv_active ?s1 k - {j}), sv_discarded := insert j (sv_discarded ?s1)\<rparr>"
    using assms(2) True r by (simp add: cancel_job_def Let_def)
  show ?thesis unfolding client_ok_def s' using f r
    by (auto simp: evolves_def signalled_def)
qed

lemma client_ok_finish:
  assumes "process_finish E j r now now2 s = (s', res)"
    and "jd_event (sv_store s r) = Some True" "\<forall>r'. sv_details s j = Some r' \<longrightarrow> r' = r"
  shows "client_ok s s'"
proof -
  define s1 where "s1 = (case jd_runtime (sv_store s r) of
    None \<Rightarrow> s | Some rt \<Rightarrow> s\<lparr>sv_closed := sv_closed s @ [(rt, j)]\<rparr>)"
  have "s' = s \<or> s' = s1 \<or> s' = s1\<lparr>sv_details := (sv_details s)(j := None)\<rparr>"
    using assms(1)
    by (auto simp: process_finish_def Let_def s1_def [symmetric] split: sum.splits if_splits)
  then show ?thesis
    using assms(2,3) by (auto simp: client_ok_def signalled_def s1_def split: option.splits if_splits)
qed

lemma submit_inv:
  assumes inv: "system_inv \<sigma>" and fresh: "fresh_id (sy_server \<sigma>) j"
    and sub: "process_submit E instance params job_id rands timeout now (sy_server \<sigma>) = (s', Inr (j, r))"
  shows "system_inv (\<sigma>\<lparr>sy_server := s', sy_calls := sy_calls \<sigma> @ [(j, r)]\<rparr>)" (is "system_inv ?\<sigma>'")
proof -
  let ?s = "sy_server \<sigma>"
  obtain W jd where n: "r = sv_next ?s" "s' = upd_queue INIT (q_put j)
           (?s\<lparr>sv_addresses := W, sv_store := (sv_store ?s)(r := jd), sv_next := Suc r,
              sv_details := (sv_details ?s)(j \<mapsto> r)\<rparr>)"
    "jd_job_id jd = Some j" "object_ok jd" "jd_event jd = Some False"
    by (rule process_submit_ok [OF sub])
  have i: "objects_inv ?s" "workers_inv \<sigma>" "tokens_inv \<sigma>" using inv by (simp_all add: system_inv_def)
  have f: "j \<noteq> stop_sentinel" "\<And>r'. r' < r \<Longrightarrow> jd_job_id (sv_store ?s r') \<noteq> Some j"
    using fresh n(1) by (simp_all add: fresh_id_def)
  have s': "sv_next s' = Suc r" "sv_max s' = sv_max ?s" "sv_details s' = (sv_details ?s)(j \<mapsto> r)"
    "sv_store s' = (sv_store ?s)(r := jd)" "sv_discarded s' = sv_discarded ?s" "sv_active s' = sv_active ?s"
    "sv_queue s' = (sv_queue ?s)(INIT := q_put j (sv_queue ?s INIT))"
    using n(2) by (simp_all add: upd_queue_def)
  have sg: "signalled s' r' = (if r' = r then False else signalled ?s r')" for r'
    using n(5) by (simp add: signalled_def s')
  have "\<exists>r' < Suc r. jd_job_id (sv_store s' r') = Some i \<and> signalled s' r'" if "i \<in> sv_discarded ?s" for i
  proof -
    from i(1) that obtain r' where "r' < sv_next ?s" "jd_job_id (sv_store ?s r') = Some i" "signalled ?s r'"
      unfolding objects_inv_def by blast
    with n(1) show ?thesis by (intro exI [of _ r']) (simp add: sg s')
  qed
  then have o: "objects_inv s'"
    using i(1) f n unfolding objects_inv_def s' by (auto simp: less_Suc_eq)
  have refs: "r' < Suc r \<and> jd_job_id (sv_store s' r') = Some i"
    if "pc \<in> set (sy_pcs \<sigma> k)" "pc_ref pc = Some (i, r')" for k pc i r'
  proof -
    have "r' < r \<and> jd_job_id (sv_store ?s r') = Some i"
      using i(2) n(1) that unfolding workers_inv_def by blast
    then show ?thesis by (simp add: s')
  qed
  have w: "workers_inv ?\<sigma>'"
  proof -
    have a: "\<forall>k. \<forall>pc \<in> set (sy_pcs \<sigma> k). healthy pc \<and>
        (\<forall>j r'. pc_ref pc = Some (j, r') \<longrightarrow> r' < Suc r \<and> jd_job_id (sv_store s' r') = Some j)"
      using refs i(2) unfolding workers_inv_def by blast
    have b: "\<forall>k. q_unfinished (sv_queue s' k) = length (q_items (sv_queue s' k)) + sum_list (map busy (sy_pcs \<sigma> k))"
      using i(2) by (simp add: workers_inv_def s' q_put_def)
    have c: "sy_pcs ?\<sigma>' = sy_pcs \<sigma>" "sy_server ?\<sigma>' = s'" by simp_all
    have d: "\<forall>k. length (sy_pcs \<sigma> k) = sv_max ?s k" "\<forall>k. sv_active ?s k \<subseteq> \<Union> (claimed ` set (sy_pcs \<sigma> k))"
      using i(2) unfolding workers_inv_def by blast+
    show ?thesis
      unfolding workers_inv_def c s'(1,2,6) by (intro conjI d a b)
  qed
  have "tokens_inv ?\<sigma>'"
  proof -
    have t: "tokens ?\<sigma>' = add_mset j (tokens \<sigma>)"
      by (simp add: tokens_def held_def queued_def s' q_put_def)
    have nt: "j \<notin># tokens \<sigma>" using i(3) f n(1) by (auto simp: tokens_inv_def known_id_def)
    then have "count (tokens ?\<sigma>') i \<le> 1" for i
      using i(3) by (auto simp: t tokens_inv_def not_in_iff)
    moreover have "known_id s' i" if "i \<in># tokens ?\<sigma>'" for i
    proof (cases "i = j")
      case True
      with n(3) show ?thesis by (auto simp: known_id_def s')
    next
      case False
      with that t have "i \<in># tokens \<sigma>" by simp
      with i(3) have "known_id ?s i" by (simp add: tokens_inv_def)
      then obtain r' where "r' < r" "jd_job_id (sv_store ?s r') = Some i" using n(1) by (auto simp: known_id_def)
      then show ?thesis by (auto simp: known_id_def s' intro!: exI [of _ r'])
    qed
    moreover have "signalled s' r' \<or> (\<exists>i. jd_job_id (sv_store s' r') = Some i \<and> i \<in># tokens ?\<sigma>' \<and> sv_details s' i = Some r')"
      if "r' < sv_next s'" for r'
    proof (cases "r' = r")
      case True
      with n t s' show ?thesis by simp
    next
      case False
      with that n(1) have r': "r' < sv_next ?s" by (simp add: s')
      with i(3) consider "signalled ?s r'" | i where "jd_job_id (sv_store ?s r') = Some i" "i \<in># tokens \<sigma>" "sv_details ?s i = Some r'"
        unfolding tokens_inv_def by blast
      then show ?thesis
      proof cases
        case 1
        with False show ?thesis by (simp add: sg)
      next
        case (2 i)
        with nt have "i \<noteq> j" by blast
        with 2 False t show ?thesis by (simp add: s')
      qed
    qed
    moreover have "\<forall>(i, r') \<in> set (sy_calls ?\<sigma>'). r' < sv_next s' \<and> jd_job_id (sv_store s' r') = Some i"
      using i(3) n(1,3) by (auto simp: tokens_inv_def s')
    ultimately show ?thesis by (simp add: tokens_inv_def)
  qed
  with o w show ?thesis by (simp add: system_inv_def)
qed

lemma client_step_inv:
  assumes "system_inv \<sigma>" "client_step E \<sigma> \<sigma>'"
    and "\<forall>(j, r) \<in> set (sy_calls \<sigma>') - set (sy_calls \<sigma>). fresh_id (sy_server \<sigma>) j"
  shows "system_inv \<sigma>'"
  using assms(2)
proof cases
  case (submit_ok "instance" params job_id rands timeout now s' j r)
  have "r = sv_next (sy_server \<sigma>)" by (rule process_submit_ok [OF submit_ok(2)]) simp
  then have "(j, r) \<notin> set (sy_calls \<sigma>)"
    using assms(1) by (auto simp: system_inv_def tokens_inv_def)
  then have "fresh_id (sy_server \<sigma>) j" using assms(3) submit_ok(1) by auto
  then show ?thesis unfolding submit_ok(1) by (rule submit_inv [OF assms(1) _ submit_ok(2)])
next
  case (submit_refused "instance" params job_id rands timeout now s' e)
  with process_submit_refused [OF submit_refused(2)] show ?thesis
    by (auto intro!: system_inv_client [OF assms(1)])
next
  case (finish j r now now2 s' res)
  have "\<forall>r'. sv_details (sy_server \<sigma>) j = Some r' \<longrightarrow> r' = r"
    using assms(1) finish(2) unfolding system_inv_def objects_inv_def tokens_inv_def by fastforce
  from client_ok_finish [OF finish(4,3) this] finish(1) show ?thesis
    by (auto intro!: system_inv_client [OF assms(1)] dest: set_remove1_subset [THEN subsetD])
next
  case (cancel task_done j s' res)
  have "client_ok (sy_server \<sigma>) s'"
    using client_ok_cancel [OF _ cancel(2)] assms(1) by (simp add: system_inv_def)
  with cancel(1) show ?thesis by (auto intro!: system_inv_client [OF assms(1)])
qed (auto intro!: system_inv_client [OF assms(1)])

lemma reachable_inv: "reachable E \<sigma> \<Longrightarrow> exceptions_total E \<Longrightarrow> system_inv \<sigma>"
  by (induction rule: reachable.induct)
    (auto intro: started_inv worker_step_inv client_step_inv)

section \<open>Progress\<close>

text \<open>
  The work left: a job costs nine blocks per stage still to run and the blocks left in its
  stage, a worker that has passed its job on the blocks until it is idle.
\<close>

fun later_stages :: "job_type \<Rightarrow> nat" where
  "later_stages INIT = 20"
| "later_stages RUN = 10"
| "later_stages EVAL = 0"

fun pc_work :: "job_type \<Rightarrow> worker_pc \<Rightarrow> nat" where
  "pc_work k (WGot j) = later_stages k + 8"
| "pc_work k (WFound j r) = later_stages k + 7"
| "pc_work k (WClaimed j r) = later_stages k + 6"
| "pc_work k (WEntered j r) = later_stages k + 5"
| "pc_work k (WRunning j r) = later_stages k + 4"
| "pc_work k (WLeaving j r e) = 3"
| "pc_work k (WHandling j r e) = 2"
| "pc_work k (WFinally j d) = 1"
| "pc_work k _ = 0"

definition queue_work :: "server \<Rightarrow> nat" where
  "queue_work s = 29 * length (q_items (sv_queue s INIT)) + 19 * length (q_items (sv_queue s RUN)) +
     9 * length (q_items (sv_queue s EVAL))"

definition work :: "system \<Rightarrow> nat" where
  "work \<sigma> = queue_work (sy_server \<sigma>) + sum_list (map (pc_work INIT) (sy_pcs \<sigma> INIT)) +
     sum_list (map (pc_work RUN) (sy_pcs \<sigma> RUN)) + sum_list (map (pc_work EVAL) (sy_pcs \<sigma> EVAL))"

lemma queue_work_upd [simp]:
  "queue_work (upd_job r f s) = queue_work s" "queue_work (upd_active k h s) = queue_work s"
  "queue_work (close_runtime r j s) = queue_work s"
  "queue_work (upd_queue RUN (q_put j) s) = queue_work s + 19"
  "queue_work (upd_queue EVAL (q_put j) s) = queue_work s + 9"
  by (simp_all add: queue_work_def q_put_def)

lemma finish_task_work:
  "finish_task k pc s = (s', pc') \<Longrightarrow> queue_work s' = queue_work s \<and> (pc' = pc \<or> pc' = WDied)"
  using finish_task_fields(6) [of k pc s s' pc']
  by (auto simp: queue_work_def finish_task_def split: sum.splits)

lemma get_work:
  assumes "worker_get k s = Some (s', pc')"
  shows "queue_work s' + pc_work k pc' < queue_work s"
proof -
  from assms obtain j js where q: "q_items (sv_queue s k) = j # js" by (auto simp: worker_get_def split: list.splits)
  let ?s1 = "upd_queue k (\<lambda>q. q\<lparr>q_items := js\<rparr>) s"
  have "queue_work ?s1 + later_stages k + 9 = queue_work s"
    using q by (cases k) (simp_all add: queue_work_def)
  with assms q finish_task_work [of k WExited ?s1 s' pc'] show ?thesis
    by (auto simp: worker_get_def Let_def split: if_splits)
qed

lemma stage_done_work:
  "stage_done k j r v s = (s', pc') \<Longrightarrow> queue_work s' + pc_work k pc' < queue_work s + later_stages k + 4"
  by (cases k; cases v) (auto simp: stage_done_def)

lemma complete_work:
  "worker_complete k j r out s = (s', pc') \<Longrightarrow>
   queue_work s' + pc_work k pc' < queue_work s + pc_work k (WRunning j r)"
  by (auto simp: worker_complete_def Let_def split: coro_outcome.splits dest!: stage_done_work)

lemma claim_work:
  assumes "worker_claim k j r s = (s', pc')"
  shows "queue_work s' + pc_work k pc' < queue_work s + pc_work k (WFound j r)"
proof (cases "j \<in> sv_discarded s")
  case True
  obtain s1 pc where f: "finish_task k WIdle s = (s1, pc)" by fastforce
  with finish_task_work [OF f] True assms show ?thesis
    by (auto simp: worker_claim_def queue_work_def)
next
  case False
  with assms show ?thesis by (auto simp: worker_claim_def)
qed

lemma block_work:
  "block E k (s, pc) (s', pc') \<Longrightarrow> queue_work s' + pc_work k pc' < queue_work s + pc_work k pc"
proof (induction "(s, pc)" "(s', pc')" rule: block.induct)
  case block_get
  then show ?case by (metis add.right_neutral get_work pc_work.simps(9))
next
  case (block_lookup j)
  then show ?case
    using finish_task_work [of k WIdle s s' pc'] by (auto simp: worker_lookup_def split: option.splits)
next
  case (block_claim j r)
  then show ?case by (metis claim_work)
next
  case (block_begin j r now now2)
  then show ?case
    by (auto simp: worker_begin_def Let_def split: option.splits sum.splits)
next
  case (block_start j r tk now)
  then show ?case by (auto simp: worker_start_def split: option.splits if_splits)
next
  case (block_complete j r out)
  then show ?case by (metis complete_work)
next
  case (block_leave j r err later)
  then show ?case by (auto simp: worker_leave_def split: option.splits sum.splits)
next
  case (block_handle j r e)
  then show ?case by (auto simp: worker_handle_def Let_def split: sum.splits)
next
  case (block_finally j dying)
  then show ?case
    using finish_task_work [of k "if dying then WDied else WIdle" "upd_active k (\<lambda>A. A - {j}) s" s' pc']
    by (auto simp: worker_finally_def)
qed

lemma sum_list_work_update:
  "w < length xs \<Longrightarrow>
   sum_list (map (pc_work k) (xs[w := pc'])) + pc_work k (xs ! w) = sum_list (map (pc_work k) xs) + pc_work k pc'"
proof (induction xs arbitrary: w)
  case (Cons x xs)
  then show ?case by (cases w) (auto simp: algebra_simps)
qed simp

lemma worker_step_work: "worker_step E \<sigma> \<sigma>' \<Longrightarrow> work \<sigma>' < work \<sigma>"
proof (induction rule: worker_step.induct)
  case (worker_stepI w \<sigma> k s' pc')
  from block_work [OF worker_stepI(2)] sum_list_work_update [OF worker_stepI(1), of k pc'] show ?case
    by (cases k) (auto simp: work_def)
qed

lemma worker_steps_bounded: "(worker_step E ^^ n) \<sigma> \<sigma>' \<Longrightarrow> n + work \<sigma>' \<le> work \<sigma>"
proof (induction n arbitrary: \<sigma>')
  case (Suc n)
  then obtain \<sigma>1 where "(worker_step E ^^ n) \<sigma> \<sigma>1" "worker_step E \<sigma>1 \<sigma>'" by auto
  with Suc.IH [of \<sigma>1] worker_step_work [of E \<sigma>1 \<sigma>'] show ?case by simp
qed simp

lemma worker_steps_reachable: "(worker_step E ^^ n) \<sigma> \<sigma>' \<Longrightarrow> reachable E \<sigma> \<Longrightarrow> reachable E \<sigma>'"
  by (induction n arbitrary: \<sigma>') (auto intro: reach_worker)

lemma healthy_moves:
  assumes "healthy pc" "pc \<noteq> WIdle"
  shows "\<exists>x. block E k (s, pc) x"
proof (cases pc)
  case (WGot j)
  then show ?thesis using block.block_lookup by blast
next
  case (WFound j r)
  then show ?thesis using block.block_claim by blast
next
  case (WClaimed j r)
  then show ?thesis using block.block_begin by blast
next
  case (WEntered j r)
  then show ?thesis using block.block_start by blast
next
  case (WRunning j r)
  then show ?thesis using block.block_complete by blast
next
  case (WLeaving j r e)
  then show ?thesis using block.block_leave by blast
next
  case (WHandling j r e)
  then show ?thesis using block.block_handle by blast
next
  case (WFinally j d)
  then show ?thesis using block.block_finally by blast
qed (use assms in auto)

lemma idle_gets: "q_items (sv_queue s k) \<noteq> [] \<Longrightarrow> \<exists>x. block E k (s, WIdle) x"
proof -
  assume "q_items (sv_queue s k) \<noteq> []"
  then have "worker_get k s \<noteq> None"
    by (cases "q_items (sv_queue s k)") (simp_all add: worker_get_def Let_def)
  then show ?thesis using block.block_get by blast
qed

lemma stuck_no_tokens:
  assumes inv: "system_inv \<sigma>" and stuck: "\<nexists>\<sigma>'. worker_step E \<sigma> \<sigma>'"
    and max: "\<forall>k. 0 < sv_max (sy_server \<sigma>) k"
  shows "tokens \<sigma> = {#}"
proof -
  have no: "\<not> block E k (sy_server \<sigma>, sy_pcs \<sigma> k ! w) x" if "w < length (sy_pcs \<sigma> k)" for k w x
    using stuck worker_stepI [OF that] by (cases x) blast
  have idle: "pc = WIdle" if "pc \<in> set (sy_pcs \<sigma> k)" for k pc
  proof -
    from that obtain w where w: "w < length (sy_pcs \<sigma> k)" "pc = sy_pcs \<sigma> k ! w" by (metis in_set_conv_nth)
    moreover have "healthy pc" using inv that unfolding system_inv_def workers_inv_def by blast
    ultimately show ?thesis using no healthy_moves by metis
  qed
  have "q_items (sv_queue (sy_server \<sigma>) k) = []" for k
  proof -
    have "length (sy_pcs \<sigma> k) = sv_max (sy_server \<sigma>) k"
      using inv by (simp add: system_inv_def workers_inv_def)
    with max have l: "0 < length (sy_pcs \<sigma> k)" by simp
    then have "sy_pcs \<sigma> k ! 0 = WIdle" using idle nth_mem by blast
    with no [OF l] idle_gets [where E = E] show ?thesis by metis
  qed
  moreover have "held \<sigma> k = {#}" for k
  proof -
    have "tok pc = []" if "pc \<in> set (sy_pcs \<sigma> k)" for pc using idle [OF that] by simp
    then show ?thesis by (simp add: held_def)
  qed
  ultimately show ?thesis by (simp add: tokens_def queued_def)
qed

lemma worker_steps_max:
  "(worker_step E ^^ n) \<sigma> \<sigma>' \<Longrightarrow> sv_max (sy_server \<sigma>') = sv_max (sy_server \<sigma>)"
proof (induction n arbitrary: \<sigma>')
  case (Suc n)
  then obtain \<sigma>1 where "(worker_step E ^^ n) \<sigma> \<sigma>1" "worker_step E \<sigma>1 \<sigma>'" by auto
  moreover from this(2) have "sv_max (sy_server \<sigma>') = sv_max (sy_server \<sigma>1)"
    by (auto elim!: worker_step.cases dest: block_evolves simp: evolves_def)
  ultimately show ?case using Suc.IH by simp
qed simp

lemma finite_claimed [simp]: "finite (claimed pc)"
  by (cases pc) simp_all

lemma card_claimed: "card (claimed pc) \<le> 1"
  by (cases pc) simp_all

text \<open>A concrete system: one worker per pool and one submitted job.\<close>

definition demo_env :: "nat env" where
  "demo_env =
     \<lparr>ev_registry = empty_registry, ev_exception = (\<lambda>f jd e. Inr []), ev_final = (\<lambda>f jd. Inr []),
      ev_str = (\<lambda>e. []), ev_llm = (\<lambda>a p. Inr \<lparr>lc_base_url = a, lc_params = p\<rparr>),
      ev_render = (\<lambda>v. []), ev_hash = (\<lambda>x. x)\<rparr>"

definition demo_start :: system where
  "demo_start = started (Some [''http://a'']) 1 1 None"

definition demo_submit :: "server \<times> (string \<times> nat) result" where
  "demo_submit = process_submit demo_env [(''data_source'', JStr ''deepcoder'')] [] (Some ''j1'') [] 300 10
     (sy_server demo_start)"

definition demo_system :: system where
  "demo_system = demo_start\<lparr>sy_server := fst demo_submit, sy_calls := [(''j1'', 0)]\<rparr>"

lemma demo_total: "exceptions_total demo_env"
  by (simp add: exceptions_total_def demo_env_def)

lemma demo_submit_ok: "snd demo_submit = Inr (''j1'', 0)"
proof -
  have "new_addresses (Some [''http://a'']) = [(0, ''http://a'')]"
    by (simp add: new_addresses_def heapify_def)
  then show ?thesis
    by (simp add: demo_submit_def demo_start_def started_def new_server_def process_submit_def
        submit_checked_def create_llm_config_def get_llm_server_addresses_def dict_pop_def
        dataset_type_def dict_get_default_def dict_get_def is_registered_handler_def demo_env_def
        default_agent_config_def dict_del_def Let_def)
qed

lemma demo_reachable: "reachable demo_env demo_system"
proof -
  have "process_submit demo_env [(''data_source'', JStr ''deepcoder'')] [] (Some ''j1'') [] 300 10
     (sy_server demo_start) = (fst demo_submit, Inr (''j1'', 0))"
    using demo_submit_ok by (metis demo_submit_def prod.collapse)
  from submit_ok [OF this] have "client_step demo_env demo_start demo_system"
    by (simp add: demo_system_def demo_start_def started_def Let_def)
  moreover have "fresh_id (sy_server demo_start) ''j1''" "sy_calls demo_system = [(''j1'', 0)]"
    by (simp_all add: fresh_id_def demo_start_def started_def new_server_def stop_sentinel_def Let_def
        demo_system_def)
  ultimately show ?thesis
    unfolding demo_start_def by (auto intro: reach_client [OF reach_start])
qed

lemma demo_max_all: "sv_max (sy_server demo_system) k = 1"
proof -
  have "process_submit demo_env [(''data_source'', JStr ''deepcoder'')] [] (Some ''j1'') [] 300 10
     (sy_server demo_start) = (fst demo_submit, Inr (''j1'', 0))"
    using demo_submit_ok by (metis demo_submit_def prod.collapse)
  then have "sv_max (fst demo_submit) = sv_max (sy_server demo_start)"
    by (rule process_submit_ok) (simp add: upd_queue_def)
  then show ?thesis
    by (auto simp: demo_system_def demo_start_def started_def new_server_def Let_def split: job_type.splits)
qed

lemma demo_max: "\<forall>k. 0 < sv_max (sy_server demo_system) k"
  by (simp add: demo_max_all)

lemma demo_step: "\<exists>\<sigma>'. worker_step demo_env demo_system \<sigma>'"
proof -
  have "q_items (sv_queue (sy_server demo_system) INIT) \<noteq> []"
  proof -
    have "process_submit demo_env [(''data_source'', JStr ''deepcoder'')] [] (Some ''j1'') [] 300 10
       (sy_server demo_start) = (fst demo_submit, Inr (''j1'', 0))"
      using demo_submit_ok by (metis demo_submit_def prod.collapse)
    then have "q_items (sv_queue (fst demo_submit) INIT) \<noteq> []"
      by (rule process_submit_ok) (simp add: q_put_def)
    then show ?thesis by (simp add: demo_system_def)
  qed
  from idle_gets [OF this] obtain s' pc' where "block demo_env INIT (sy_server demo_system, WIdle) (s', pc')"
    by (metis surj_pair)
  moreover have "sy_pcs demo_system INIT = [WIdle]"
    by (simp add: demo_system_def demo_start_def started_def new_server_def Let_def)
  ultimately show ?thesis using worker_stepI [of 0 demo_system INIT] by fastforce
qed

section \<open>Properties\<close>





text \<open>
  Property C7. The pools bound the jobs in progress: in every reachable state the jobs marked
  active in a stage are all held by a worker of that stage, so that the active counts of the
  status report are at most the sizes of the pools, and the unfinished tasks of each queue are
  its items and the tasks its workers have taken.
\<close>

theorem active_jobs_bounded:
  assumes "reachable E \<sigma>" and "exceptions_total E"
  shows "st_active_init (status (sy_server \<sigma>)) \<le> sv_max (sy_server \<sigma>) INIT \<and>
         st_active_run (status (sy_server \<sigma>)) \<le> sv_max (sy_server \<sigma>) RUN \<and>
         st_active_eval (status (sy_server \<sigma>)) \<le> sv_max (sy_server \<sigma>) EVAL \<and>
         (\<forall>k. sv_active (sy_server \<sigma>) k \<subseteq> \<Union> (claimed ` set (sy_pcs \<sigma> k)) \<and>
            q_unfinished (sv_queue (sy_server \<sigma>) k) =
              length (q_items (sv_queue (sy_server \<sigma>) k)) + sum_list (map busy (sy_pcs \<sigma> k)))"
proof -
  have inv: "workers_inv \<sigma>" using reachable_inv [OF assms] by (simp add: system_inv_def)
  have "card (sv_active (sy_server \<sigma>) k) \<le> sv_max (sy_server \<sigma>) k" for k
  proof -
    have "card (sv_active (sy_server \<sigma>) k) \<le> card (\<Union> (claimed ` set (sy_pcs \<sigma> k)))"
      using inv by (intro card_mono finite_UN_I) (auto simp: workers_inv_def finite_claimed)
    also have "\<dots> \<le> (\<Sum>pc \<in> set (sy_pcs \<sigma> k). card (claimed pc))" by (rule card_UN_le) simp
    also have "\<dots> \<le> (\<Sum>pc \<in> set (sy_pcs \<sigma> k). 1)" by (rule sum_mono) (rule card_claimed)
    also have "\<dots> \<le> length (sy_pcs \<sigma> k)" by (simp add: card_length)
    finally show ?thesis using inv by (simp add: workers_inv_def)
  qed
  with inv show ?thesis by (simp add: status_def workers_inv_def Let_def)
qed

theorem active_jobs_bounded_witness:
  "st_active_init (status (sy_server demo_system)) \<le> 1"
proof -
  have "sv_max (sy_server demo_system) INIT = 1" by (simp add: demo_max_all)
  with active_jobs_bounded [OF demo_reachable demo_total] show ?thesis by simp
qed

section \<open>Cancellation, resubmission, stopping, and the hand-over between phases\<close>

text \<open>
  A cancelled job is signalled, marked as timed out and forgotten at once, is
  active nowhere, and its runtime is handed to the clean-up; but the call that waits for it does
  not return the result it computes: deleting the entry that the cancellation has deleted
  raises.
\<close>

theorem cancelled_call_fails:
  assumes "sv_running s" and "sv_details s j = Some r" and "jd_event (sv_store s r) \<noteq> None"
  shows "\<exists>s'. cancel_job task_done j s = (s', Inr True) \<and>
           signalled s' r \<and> jd_timeout_error (sv_store s' r) \<and> jd_runtime (sv_store s' r) = None \<and>
           sv_details s' j = None \<and> (\<forall>k. j \<notin> sv_active s' k) \<and> j \<in> sv_discarded s' \<and>
           (\<forall>rt. jd_runtime (sv_store s r) = Some rt \<longrightarrow> (rt, j) \<in> set (sv_closed s')) \<and>
           (\<forall>now now2. \<exists>e. snd (process_finish E j r now now2 s') = Inl e)"
proof -
  let ?s1 = "cancel_object task_done j r s"
  define s' where "s' = ?s1\<lparr>sv_details := (sv_details ?s1)(j := None),
      sv_active := (\<lambda>k. sv_active ?s1 k - {j}), sv_discarded := insert j (sv_discarded ?s1)\<rparr>"
  have c: "cancel_job task_done j s = (s', Inr True)"
    using assms by (simp add: cancel_job_def s'_def Let_def)
  have sg: "signalled s' r"
    using cancel_object_fields(5) [OF assms(3)] by (simp add: s'_def signalled_def)
  have obj: "jd_timeout_error (sv_store ?s1 r) \<and> jd_runtime (sv_store ?s1 r) = None \<and>
      (\<forall>rt. jd_runtime (sv_store s r) = Some rt \<longrightarrow> (rt, j) \<in> set (sv_closed ?s1))"
    by (auto simp: cancel_object_def close_runtime_def upd_job_def set_event_def Let_def
        split: option.split)
  have f: "\<exists>e. snd (process_finish E j r now now2 s') = Inl e" for now now2
    by (auto simp: process_finish_def s'_def Let_def split: sum.split)
  show ?thesis
    by (rule exI [of _ s']) (use c sg obj f in \<open>simp add: s'_def\<close>)
qed

definition demo_server :: server where
  "demo_server = (new_server None 1 1 None)\<lparr>sv_running := True, sv_details := [''j1'' \<mapsto> 0],
     sv_store := (\<lambda>_. new_job_details\<lparr>jd_event := Some False, jd_runtime := Some 7\<rparr>), sv_next := 1\<rparr>"

theorem cancelled_call_fails_witness:
  "\<exists>s'. cancel_job (\<lambda>_. False) ''j1'' demo_server = (s', Inr True) \<and> (7, ''j1'') \<in> set (sv_closed s') \<and>
     (\<exists>e. snd (process_finish demo_env ''j1'' 0 20 20 s') = Inl e)"
proof -
  have d: "sv_running demo_server" "sv_details demo_server ''j1'' = Some 0"
    "jd_event (sv_store demo_server 0) \<noteq> None" "jd_runtime (sv_store demo_server 0) = Some 7"
    by (simp_all add: demo_server_def)
  from cancelled_call_fails [OF d(1-3), of "\<lambda>_. False" demo_env] d(4) show ?thesis by auto
qed

text \<open>
  An identifier cannot be used again after a cancellation: the set of discarded
  jobs keeps it, so that the worker that takes the resubmitted job drops it in silence: the
  object is unchanged, its event is not set, and the job is in no queue and with no worker.
\<close>

theorem resubmitted_job_dropped:
  assumes "sv_details s j = Some r" and "j \<in> sv_discarded s" and "0 < q_unfinished (sv_queue s k)"
  shows "\<exists>s'. block E k (s, WGot j) (s, WFound j r) \<and> block E k (s, WFound j r) (s', WIdle) \<and>
           sv_store s' = sv_store s \<and> sv_details s' j = Some r \<and> queued s' = queued s"
proof -
  obtain s1 where f: "finish_task k WIdle s = (s1, WIdle)"
    using finish_task_ok [OF assms(3)] by metis
  let ?s' = "s1\<lparr>sv_discarded := sv_discarded s1 - {j}\<rparr>"
  have "worker_lookup k j s = (s, WFound j r)" "worker_claim k j r s = (?s', WIdle)"
    using assms f by (simp_all add: worker_lookup_def worker_claim_def)
  then have "block E k (s, WGot j) (s, WFound j r)" "block E k (s, WFound j r) (?s', WIdle)"
    using block_lookup [of E k s j] block_claim [of E k s j r] by simp_all
  moreover have "queued ?s' = queued s" using queued_finish_task [OF f] by (simp add: queued_def)
  ultimately show ?thesis
    using finish_task_fields(1,2) [OF f] assms(1) by (intro exI [of _ ?s']) simp
qed

theorem resubmitted_job_dropped_witness:
  "\<exists>s'. block demo_env INIT
      (demo_server\<lparr>sv_discarded := {''j1''}, sv_queue := (\<lambda>_. \<lparr>q_items = [], q_unfinished = 1\<rparr>)\<rparr>, WFound ''j1'' 0)
      (s', WIdle) \<and> jd_event (sv_store s' 0) = Some False"
proof -
  let ?s = "demo_server\<lparr>sv_discarded := {''j1''}, sv_queue := (\<lambda>_. \<lparr>q_items = [], q_unfinished = 1\<rparr>)\<rparr>"
  have "sv_details ?s ''j1'' = Some 0" "''j1'' \<in> sv_discarded ?s" "0 < q_unfinished (sv_queue ?s INIT)"
    "jd_event (sv_store ?s 0) = Some False"
    by (simp_all add: demo_server_def)
  with resubmitted_job_dropped [of ?s "''j1''" 0 INIT demo_env] show ?thesis by metis
qed

text \<open>The blocks of \<open>stop\<close> in order, with no worker moving between them.\<close>

definition stop_server :: "string list \<Rightarrow> server \<Rightarrow> server" where
  "stop_server active_jobs s =
     stop_queues (stop_clear (stop_sentinels (fold stop_signal active_jobs (stop_begin s))))"

lemma stop_signal_other:
  "sv_details s j = Some r \<Longrightarrow> r \<noteq> r' \<Longrightarrow> sv_store (stop_signal j s) r' = sv_store s r'"
  "sv_details (stop_signal j s) = sv_details s"
  "sv_details s j = None \<Longrightarrow> stop_signal j s = s"
  by (auto simp: stop_signal_def close_runtime_def split: option.split)

lemma fold_stop_signal_other:
  assumes "\<forall>i. sv_details s i = Some r' \<longrightarrow> i \<notin> set js"
  shows "sv_store (fold stop_signal js s) r' = sv_store s r'"
  using assms
proof (induction js arbitrary: s)
  case (Cons i js)
  have a: "sv_store (stop_signal i s) r' = sv_store s r'"
  proof (cases "sv_details s i")
    case (Some r)
    with Cons.prems have "r \<noteq> r'" by auto
    with Some show ?thesis by (rule stop_signal_other(1))
  qed (simp add: stop_signal_other(3))
  have "\<forall>i'. sv_details (stop_signal i s) i' = Some r' \<longrightarrow> i' \<notin> set js"
    unfolding stop_signal_other(2) using Cons.prems by auto
  from Cons.IH [OF this] a show ?case by simp
qed simp

text \<open>
  Stopping the server forgets every job and empties every queue, but signals only
  the jobs that are active at that moment: a job that waits in a queue, all workers being busy,
  is removed without a signal, so that its event is as before and its caller waits for good.
\<close>

theorem stop_abandons_queued_jobs:
  assumes "sv_details s j = Some r" and "\<forall>i. sv_details s i = Some r \<longrightarrow> i = j"
    and "set active_jobs = sv_active s INIT \<union> sv_active s RUN \<union> sv_active s EVAL"
    and "\<forall>k. j \<notin> sv_active s k"
  shows "sv_store (stop_server active_jobs s) r = sv_store s r \<and>
         sv_details (stop_server active_jobs s) = Map.empty \<and> queued (stop_server active_jobs s) = {#} \<and>
         \<not> sv_running (stop_server active_jobs s)"
proof -
  have "sv_details (stop_begin s) = sv_details s" by (simp add: stop_begin_def)
  then have "\<forall>i. sv_details (stop_begin s) i = Some r \<longrightarrow> i \<notin> set active_jobs"
    using assms(2-4) by (metis UnE)
  from fold_stop_signal_other [OF this]
  have "sv_store (fold stop_signal active_jobs (stop_begin s)) r = sv_store s r"
    by (simp add: stop_begin_def)
  moreover have "sv_running (fold stop_signal js s1) = sv_running s1" for js s1
    by (induction js arbitrary: s1)
      (auto simp: stop_signal_def close_runtime_def upd_job_def split: option.split)
  ultimately show ?thesis
    by (simp add: stop_server_def stop_queues_def stop_clear_def stop_sentinels_def clear_queue_def
        queued_def stop_begin_def)
qed

theorem stop_abandons_queued_jobs_witness:
  "jd_event (sv_store (stop_server [] demo_server) 0) = Some False \<and>
   sv_details (stop_server [] demo_server) = Map.empty"
proof -
  have d: "sv_details demo_server ''j1'' = Some 0" "\<forall>i. sv_details demo_server i = Some 0 \<longrightarrow> i = ''j1''"
    "set ([] :: string list) = sv_active demo_server INIT \<union> sv_active demo_server RUN \<union> sv_active demo_server EVAL"
    "\<forall>k. ''j1'' \<notin> sv_active demo_server k" "jd_event (sv_store demo_server 0) = Some False"
    by (auto simp: demo_server_def new_server_def split: if_splits)
  from stop_abandons_queued_jobs [OF d(1-4)] d(5) show ?thesis by metis
qed

text \<open>
  The two halves of a stage around its \<^verbatim>\<open>await\<close> are \<open>run_with_timeout_awareness\<close>: the timer
  afterwards, the cleared task, and the exception on its way agree.
\<close>

lemma worker_await_refines:
  assumes "jd_timer (sv_store s r) = Some t"
    and "run_with_timeout_awareness t now coro (Some (jd_current_task (sv_store s r))) = (t', jd', res)"
  shows "case worker_start j r tk now s of
           (s1, WRunning j1 r1) \<Rightarrow>
             (j1, r1) = (j, r) \<and>
             (\<exists>rem s2 pc. get_remaining_timeout t now = Some rem \<and> 0 < rem \<and>
                worker_complete k j r (coro rem) s1 = (s2, pc) \<and>
                jd_timer (sv_store s2 r) = Some t' \<and> jd_current_task (sv_store s2 r) = None \<and>
                (\<forall>e. res = Inl e \<longrightarrow> pc = WLeaving j r (Some e)))
         | (s1, pc) \<Rightarrow> jd_timer (sv_store s1 r) = Some t' \<and> (\<exists>e. res = Inl e \<and> pc = WLeaving j r (Some e))"
proof (cases "\<exists>rem. get_remaining_timeout t now = Some rem \<and> 0 < rem")
  case False
  with assms show ?thesis
    by (auto simp: worker_start_def run_with_timeout_awareness_def split: option.splits if_splits)
next
  case True
  then obtain rem where rem: "get_remaining_timeout t now = Some rem" "0 < rem" by blast
  let ?s1 = "upd_job r (\<lambda>jd. jd\<lparr>jd_current_task := Some tk\<rparr>) s"
  obtain s2 pc where c: "worker_complete k j r (coro rem) ?s1 = (s2, pc)" by fastforce
  have keep: "jd_timer (sv_store (fst (stage_done k j r v s0)) r) = jd_timer (sv_store s0 r) \<and>
      jd_current_task (sv_store (fst (stage_done k j r v s0)) r) = jd_current_task (sv_store s0 r)" for v s0
    by (cases k; cases v)
      (auto simp: stage_done_def close_runtime_def upd_job_def upd_queue_def set_event_def split: option.split)
  have "jd_timer (sv_store s2 r) = Some t' \<and> jd_current_task (sv_store s2 r) = None \<and>
      (\<forall>e. res = Inl e \<longrightarrow> pc = WLeaving j r (Some e))"
    using assms rem c keep [of _ "upd_job r (\<lambda>jd. jd\<lparr>jd_current_task := None\<rparr>) ?s1"]
    by (auto simp: worker_complete_def run_with_timeout_awareness_def trigger_job_timer_def Let_def
        upd_job_def fst_conv split: coro_outcome.splits) (metis fst_conv)+
  with assms rem c show ?thesis by (auto simp: worker_start_def)
qed

lemma exit_then_no_time:
  assumes "timer_safe t" and "exit_phase t later = Inr t'" and "tm_is_running t"
  shows "get_remaining_timeout t' now = None"
  using assms settle_phase_safe [OF assms(1), of later]
  by (auto simp: exit_phase_def get_remaining_timeout_def counted_phase_def)

lemma enter_phase_running: "enter_phase t p now now2 = Inr t' \<Longrightarrow> tm_is_running t' = tm_is_running t"
  by (auto simp: enter_phase_def bind_result_Inr_iff Let_def split: if_splits)

text \<open>
  Property C10. The hand-over between two stages races with the timer: the job enters the next
  queue before its worker has left the phase. When the next worker is quick, it enters its own
  phase first, the late exit of the previous worker then puts the timer into the phase others,
  and the next stage is ended as timed out, at whatever clock readings and however much of the
  timeout is left.
\<close>

theorem hand_over_race:
  assumes "sv_details s j = Some r" "j \<notin> sv_discarded s" "j \<noteq> stop_sentinel"
    and "q_items (sv_queue s RUN) = []"
    and "jd_instance (sv_store s r) = Some d" "dataset_type d = Inr n"
    and "get_registered_functions (ev_registry E) ''run'' n (jd_is_reasoning_task (sv_store s r)) = Some f"
    and "jd_timer (sv_store s r) = Some t" "timer_safe t" "tm_is_running t"
  shows "\<exists>s1 s2 s3 s4 s5 s6.
           worker_complete INIT j r (Returned (VInit runtime metadata config)) s = (s1, WLeaving j r None) \<and>
           worker_get RUN s1 = Some (s2, WGot j) \<and> worker_lookup RUN j s2 = (s2, WFound j r) \<and>
           worker_claim RUN j r s2 = (s3, WClaimed j r) \<and>
           worker_begin E RUN j r now1 now2 s3 = (s4, WEntered j r) \<and>
           worker_leave j r None later s4 = (s5, WFinally j False) \<and>
           worker_start j r tk now3 s5 = (s6, WLeaving j r (Some (TimeoutError ''Operation timed out'')))"
proof -
  define s1 where "s1 = fst (worker_complete INIT j r (Returned (VInit runtime metadata config)) s)"
  define s2 where "s2 = upd_queue RUN (\<lambda>q. q\<lparr>q_items := []\<rparr>) s1"
  define s3 where "s3 = upd_active RUN (insert j) s2"
  have 1: "worker_complete INIT j r (Returned (VInit runtime metadata config)) s = (s1, WLeaving j r None)"
    by (simp add: s1_def worker_complete_def stage_done_def)
  have f1: "q_items (sv_queue s1 RUN) = [j]" "sv_details s1 = sv_details s" "sv_discarded s1 = sv_discarded s"
    "jd_instance (sv_store s1 r) = Some d" "jd_timer (sv_store s1 r) = Some t"
    "jd_is_reasoning_task (sv_store s1 r) = jd_is_reasoning_task (sv_store s r)"
    using assms(4,5,8) by (simp_all add: s1_def worker_complete_def stage_done_def q_put_def)
  have 2: "worker_get RUN s1 = Some (s2, WGot j)" using f1(1) assms(3) by (simp add: worker_get_def s2_def)
  have 3: "worker_lookup RUN j s2 = (s2, WFound j r)" "worker_claim RUN j r s2 = (s3, WClaimed j r)"
    using f1 assms(1,2) by (simp_all add: worker_lookup_def worker_claim_def s2_def s3_def)
  have f3: "jd_instance (sv_store s3 r) = Some d" "jd_timer (sv_store s3 r) = Some t"
    "jd_is_reasoning_task (sv_store s3 r) = jd_is_reasoning_task (sv_store s r)"
    using f1 by (simp_all add: s3_def s2_def)
  obtain t1 where t1: "enter_phase t ''run'' now1 now2 = Inr t1" "timer_safe t1"
    using enter_phase_safe [OF assms(9), of "''run''" now1 now2] by (auto simp: known_phase_def)
  define s4 where "s4 = upd_job r (\<lambda>jd. jd\<lparr>jd_timer := Some t1\<rparr>) s3"
  have 4: "worker_begin E RUN j r now1 now2 s3 = (s4, WEntered j r)"
    using f3 assms(6,7) t1 by (simp add: worker_begin_def s4_def)
  obtain t2 where t2: "exit_phase t1 later = Inr t2" using exit_phase_safe [OF t1(2), of later] by blast
  define s5 where "s5 = upd_job r (\<lambda>jd. jd\<lparr>jd_timer := Some t2\<rparr>) s4"
  have 5: "worker_leave j r None later s4 = (s5, WFinally j False)"
    using t2 by (simp add: worker_leave_def s4_def s5_def)
  have "get_remaining_timeout t2 now3 = None"
    using exit_then_no_time [OF t1(2) t2] enter_phase_running [OF t1(1)] assms(10) by simp
  then have "\<exists>s6. worker_start j r tk now3 s5 = (s6, WLeaving j r (Some (TimeoutError ''Operation timed out'')))"
    by (simp add: worker_start_def s5_def)
  with 1 2 3 4 5 show ?thesis by blast
qed

definition race_registry :: "nat registry" where
  "race_registry = empty_registry\<lparr>rg_registries := [(''run'', [(''deepcoder'', 5)])]\<rparr>"

definition race_server :: server where
  "race_server = demo_server\<lparr>sv_store := (\<lambda>_. new_job_details\<lparr>jd_event := Some False,
     jd_instance := Some [(''data_source'', JStr ''deepcoder'')],
     jd_timer := Some (timer_start (timer_new 300) 10)\<rparr>)\<rparr>"

theorem hand_over_race_witness:
  "\<exists>s4 s5 s6. worker_leave ''j1'' 0 None 13 s4 = (s5, WFinally ''j1'' False) \<and>
     worker_start ''j1'' 0 1 14 s5 =
       (s6, WLeaving ''j1'' 0 (Some (TimeoutError ''Operation timed out'')))"
proof -
  let ?E = "demo_env\<lparr>ev_registry := race_registry\<rparr>" and ?d = "[(''data_source'', JStr ''deepcoder'')]"
  have a: "sv_details race_server ''j1'' = Some 0" "''j1'' \<notin> sv_discarded race_server" "''j1'' \<noteq> stop_sentinel"
    "q_items (sv_queue race_server RUN) = []" "jd_instance (sv_store race_server 0) = Some ?d"
    "dataset_type ?d = Inr ''deepcoder''"
    by (simp_all add: race_server_def demo_server_def new_server_def stop_sentinel_def q_new_def
        dataset_type_def dict_get_default_def dict_get_def)
  have b: "get_registered_functions (ev_registry ?E) ''run'' ''deepcoder''
      (jd_is_reasoning_task (sv_store race_server 0)) = Some 5"
    by (simp add: get_registered_functions_def race_registry_def race_server_def new_job_details_def
        dict_get_def dict_get_default_def)
  have c: "jd_timer (sv_store race_server 0) = Some (timer_start (timer_new 300) 10)"
    "timer_safe (timer_start (timer_new 300) 10)" "tm_is_running (timer_start (timer_new 300) 10)"
    by (simp_all add: race_server_def timer_start_def timer_new_def timer_safe_def known_phase_def)
  from hand_over_race [OF a b c, where ?now1.0 = 12 and ?now2.0 = 12 and later = 13 and tk = 1 and ?now3.0 = 14
      and runtime = None and metadata = None and config = None] show ?thesis by blast
qed

end
