(* ===== verification/ProcServer.thy ===== *)
theory ProcServer
  imports Server
begin

text \<open>
  \<^verbatim>\<open>openhands/nvidia/async_server_process.py\<close>: the server that runs each job in a process of its
  own. A worker process takes its job through the three stages under three semaphores; a
  dictionary shared between the processes says which stage a job holds; results come back
  through a queue to a thread of the server.

  The first part is the life of one worker as a function; the second is the shared state with
  the operations of the server; the third interleaves worker processes, which may be killed.
\<close>

section \<open>One worker\<close>

text \<open>The clock readings of one stage: entering the phase (two), starting, leaving.\<close>

record stage_clock =
  ck_enter :: real
  ck_check :: real
  ck_start :: real
  ck_leave :: real

text \<open>\<open>initialize\<close>: the job object, or the error of the configuration.\<close>

definition initialize ::
  "(string \<Rightarrow> jdict \<Rightarrow> llm_config result) \<Rightarrow> string \<Rightarrow> jdict \<Rightarrow> jdict \<Rightarrow> real \<Rightarrow> string \<Rightarrow> real
     \<Rightarrow> job_details result" where
  "initialize mk job_id instance sampling_params timeout llm_server_addresses now =
     (let (reasoning, params) = dict_pop sampling_params ''is_reasoning_task'' (JBool False);
          (agent_config, params2) =
            take_agent_config (dict_keys default_agent_config) default_agent_config params
      in bind_result (mk llm_server_addresses params2) (\<lambda>llm_config. Inr
           (new_job_details\<lparr>jd_job_id := Some job_id, jd_instance := Some instance,
              jd_is_reasoning_task := truthy reasoning, jd_agent_config := agent_config,
              jd_llm_config := Some llm_config, jd_event := Some False,
              jd_timer := Some (timer_start (timer_new timeout) now)\<rparr>)))"

text \<open>
  The statements of a stage after its \<^verbatim>\<open>await\<close>: the job object and the runtimes handed to
  the clean-up.
\<close>

definition drop_runtime :: "job_details \<Rightarrow> job_details \<times> nat list" where
  "drop_runtime jd =
     (case jd_runtime jd of None \<Rightarrow> (jd, []) | Some rt \<Rightarrow> (jd\<lparr>jd_runtime := None\<rparr>, [rt]))"

definition stage_values ::
  "job_type \<Rightarrow> stage_value \<Rightarrow> job_details \<Rightarrow> (job_details \<times> nat list) \<times> unit result" where
  "stage_values k v jd =
     (case (k, v) of
        (INIT, VInit runtime metadata config) \<Rightarrow>
          ((jd\<lparr>jd_runtime := runtime, jd_metadata := metadata, jd_config := config\<rparr>, []), Inr ())
      | (RUN, VRun run_results) \<Rightarrow> (drop_runtime (jd\<lparr>jd_run_results := run_results\<rparr>), Inr ())
      | (EVAL, VEval eval_report) \<Rightarrow>
          ((set_event (jd\<lparr>jd_eval_results := report_of eval_report\<rparr>), []), Inr ())
      | _ \<Rightarrow> ((jd, []), Inl (TypeError ''unexpected value of the handler'')))"

text \<open>
  The \<^verbatim>\<open>try\<close> block of \<open>run_step\<close>. \<open>coro\<close> is what the handler does within the time it is given.
\<close>

definition step_body ::
  "'f env \<Rightarrow> job_type \<Rightarrow> string \<Rightarrow> stage_clock \<Rightarrow> (real \<Rightarrow> stage_value coro_outcome) \<Rightarrow> job_details
     \<Rightarrow> (job_details \<times> nat list) \<times> unit result" where
  "step_body E k name c coro jd =
     (case get_registered_functions (ev_registry E) (function_type k) name (jd_is_reasoning_task jd) of
        None \<Rightarrow> ((jd, []), Inl (FunctionNotRegisteredError
                  (''Function '' @ name @ '' not found in registry type '' @ function_type k)))
      | Some func \<Rightarrow>
          (case jd_timer jd of
             None \<Rightarrow> ((jd, []), Inl (RuntimeError ''Timer is not initialized''))
           | Some t \<Rightarrow>
               (case enter_phase t (function_type k) (ck_enter c) (ck_check c) of
                  Inl e \<Rightarrow> ((jd, []), Inl e)
                | Inr t1 \<Rightarrow>
                    (case run_with_timeout_awareness t1 (ck_start c) coro (Some (jd_current_task jd)) of
                       (t2, task, r) \<Rightarrow>
                         (let jd1 = jd\<lparr>jd_timer := Some t2,
                                       jd_current_task := (case task of Some tk \<Rightarrow> tk | None \<Rightarrow> None)\<rparr>;
                              ((jd2, cls), r2) =
                                (case r of Inl e \<Rightarrow> ((jd1, []), Inl e) | Inr v \<Rightarrow> stage_values k v jd1)
                          in case exit_phase t2 (ck_leave c) of
                               Inl e \<Rightarrow> ((jd2, cls), Inl e)
                             | Inr t3 \<Rightarrow> ((jd2\<lparr>jd_timer := Some t3\<rparr>, cls), r2))))))"

text \<open>The \<^verbatim>\<open>except\<close> clauses; an exception of the exception function is passed on.\<close>

definition step_failed ::
  "'f env \<Rightarrow> job_type \<Rightarrow> py_error \<Rightarrow> job_details \<Rightarrow> (job_details \<times> nat list) \<times> unit result" where
  "step_failed E k e jd =
     (let jd1 = (if is_timeout_error e then jd\<lparr>jd_timeout_error := True\<rparr> else jd);
          (jd2, cls) = (if k = RUN then drop_runtime jd1 else (jd1, []))
      in case failure_results E k jd2 e of
           Inl e' \<Rightarrow> ((jd2, cls), Inl e')
         | Inr results \<Rightarrow> ((set_event (jd2\<lparr>jd_results := Some results\<rparr>), cls), Inr ()))"

definition run_step ::
  "'f env \<Rightarrow> job_type \<Rightarrow> stage_clock \<Rightarrow> (real \<Rightarrow> stage_value coro_outcome) \<Rightarrow> job_details
     \<Rightarrow> (job_details \<times> nat list) \<times> unit result" where
  "run_step E k c coro jd =
     (case jd_instance jd of
        None \<Rightarrow> ((jd, []), Inl (RuntimeError ''Instance is not initialized''))
      | Some instance \<Rightarrow>
          (case dataset_type instance of
             Inl e \<Rightarrow> ((jd, []), Inl e)
           | Inr name \<Rightarrow>
               (case step_body E k name c coro jd of
                  ((jd1, cls), Inr u) \<Rightarrow> ((jd1, cls), Inr u)
                | ((jd1, cls), Inl e) \<Rightarrow>
                    (case step_failed E k e jd1 of
                       ((jd2, cls2), r) \<Rightarrow> ((jd2, cls @ cls2), r)))))"

text \<open>\<open>get_results\<close>: the lookup is without the flag of reasoning tasks.\<close>

definition get_results :: "'f env \<Rightarrow> real \<Rightarrow> real \<Rightarrow> job_details \<Rightarrow> jdict result" where
  "get_results E now now2 jd =
     bind_result (case jd_instance jd of None \<Rightarrow> Inl (AttributeError ''get'') | Some d \<Rightarrow> dataset_type d) (\<lambda>name.
     bind_result (case get_registered_functions (ev_registry E) ''final_result'' name False of
                    None \<Rightarrow> Inr [(''critical_error'', JStr ''final_result''),
                      (''error'', JStr (''Function not found in registry type final_result for dataset type '' @ name))]
                  | Some f \<Rightarrow> ev_final E f jd) (\<lambda>result.
     case jd_timer jd of
       None \<Rightarrow> Inr result
     | Some t \<Rightarrow> bind_result (get_timing_info t now now2) (\<lambda>i.
         Inr (dict_set result ''timing'' (timing_json i)))))"

definition event_is_set :: "job_details \<Rightarrow> bool" where
  "event_is_set jd \<longleftrightarrow> jd_event jd = Some True"

text \<open>
  \<open>run\<close> without the semaphores: the stages in order, each only while the event is not set. The
  clocks and handlers are given per stage; the result is \<open>get_results\<close>'s or the exception.
\<close>

fun next_stage :: "job_type \<Rightarrow> job_type option" where
  "next_stage INIT = Some RUN"
| "next_stage RUN = Some EVAL"
| "next_stage EVAL = None"

definition run_stages ::
  "'f env \<Rightarrow> (job_type \<Rightarrow> stage_clock) \<Rightarrow> (job_type \<Rightarrow> real \<Rightarrow> stage_value coro_outcome)
     \<Rightarrow> job_details \<Rightarrow> job_details \<times> unit result" where
  "run_stages E c coro jd =
     (case run_step E INIT (c INIT) (coro INIT) jd of
        ((jd1, _), Inl e) \<Rightarrow> (jd1, Inl e)
      | ((jd1, _), Inr _) \<Rightarrow>
          if event_is_set jd1 then (jd1, Inr ())
          else
            (case run_step E RUN (c RUN) (coro RUN) jd1 of
               ((jd2, _), Inl e) \<Rightarrow> (jd2, Inl e)
             | ((jd2, _), Inr _) \<Rightarrow>
                 if event_is_set jd2 then (jd2, Inr ())
                 else
                   (case run_step E EVAL (c EVAL) (coro EVAL) jd2 of
                      ((jd3, _), Inl e) \<Rightarrow> (jd3, Inl e)
                    | ((jd3, _), Inr _) \<Rightarrow> (jd3, Inr ()))))"

definition worker_run ::
  "'f env \<Rightarrow> (job_type \<Rightarrow> stage_clock) \<Rightarrow> (job_type \<Rightarrow> real \<Rightarrow> stage_value coro_outcome) \<Rightarrow> real \<Rightarrow> real
     \<Rightarrow> job_details \<Rightarrow> jdict result" where
  "worker_run E c coro now now2 jd =
     (case run_stages E c coro jd of
        (jd', Inl e) \<Rightarrow> Inl e
      | (jd', Inr _) \<Rightarrow> get_results E now now2 jd')"

text \<open>\<open>process_job\<close>: what is put into the result queue.\<close>

definition process_job_result :: "'f env \<Rightarrow> jdict result \<Rightarrow> jdict" where
  "process_job_result E r = (case r of Inr result \<Rightarrow> result | Inl e \<Rightarrow> [(''error'', JStr (ev_str E e))])"

section \<open>Both servers run a stage alike\<close>

text \<open>The blocks of a thread worker from the claim of a job to its \<^verbatim>\<open>finally\<close>, undisturbed.\<close>

definition blocks_handle :: "'f env \<Rightarrow> job_type \<Rightarrow> string \<Rightarrow> nat \<Rightarrow> server \<times> worker_pc \<Rightarrow> server \<times> worker_pc" where
  "blocks_handle E k j r x =
     (case x of (s, WHandling _ _ e) \<Rightarrow> worker_handle E k j r e s | _ \<Rightarrow> x)"

definition blocks_leave ::
  "'f env \<Rightarrow> job_type \<Rightarrow> string \<Rightarrow> nat \<Rightarrow> real \<Rightarrow> server \<times> worker_pc \<Rightarrow> server \<times> worker_pc" where
  "blocks_leave E k j r later x =
     (case x of
        (s, WLeaving _ _ err) \<Rightarrow> blocks_handle E k j r (worker_leave j r err later s)
      | _ \<Rightarrow> x)"

definition blocks_await ::
  "job_type \<Rightarrow> string \<Rightarrow> nat \<Rightarrow> nat \<Rightarrow> real \<Rightarrow> (real \<Rightarrow> stage_value coro_outcome) \<Rightarrow> server
     \<Rightarrow> server \<times> worker_pc" where
  "blocks_await k j r tk now coro s =
     (case worker_start j r tk now s of
        (s1, WRunning _ _) \<Rightarrow>
          (case Option.bind (jd_timer (sv_store s r)) (\<lambda>t. get_remaining_timeout t now) of
             Some rem \<Rightarrow> worker_complete k j r (coro rem) s1
           | None \<Rightarrow> (s1, WRunning j r))
      | x \<Rightarrow> x)"

definition stage_blocks ::
  "'f env \<Rightarrow> job_type \<Rightarrow> string \<Rightarrow> nat \<Rightarrow> nat \<Rightarrow> stage_clock \<Rightarrow> (real \<Rightarrow> stage_value coro_outcome) \<Rightarrow> server
     \<Rightarrow> server \<times> worker_pc" where
  "stage_blocks E k j r tk c coro s =
     (case worker_begin E k j r (ck_enter c) (ck_check c) s of
        (s1, WEntered _ _) \<Rightarrow> blocks_leave E k j r (ck_leave c) (blocks_await k j r tk (ck_start c) coro s1)
      | x \<Rightarrow> blocks_handle E k j r x)"

text \<open>The effect of blocks on the job object and on the runtimes handed to the clean-up.\<close>

definition job_effect :: "string \<Rightarrow> nat \<Rightarrow> server \<Rightarrow> job_details \<Rightarrow> nat list \<Rightarrow> server \<Rightarrow> bool" where
  "job_effect j r s jd cls s' \<longleftrightarrow>
     sv_store s' = (sv_store s)(r := jd) \<and> sv_closed s' = sv_closed s @ map (\<lambda>rt. (rt, j)) cls"

lemma job_effect_trans:
  "job_effect j r s jd cls s1 \<Longrightarrow> job_effect j r s1 jd2 cls2 s2 \<Longrightarrow> job_effect j r s jd2 (cls @ cls2) s2"
  by (simp add: job_effect_def)

lemma job_effect_upd: "job_effect j r s (f (sv_store s r)) [] (upd_job r f s)"
  by (simp add: job_effect_def upd_job_def)

lemma job_effect_refl: "job_effect j r s (sv_store s r) [] s"
  by (simp add: job_effect_def)

lemma job_effect_at: "job_effect j r s jd cls s' \<Longrightarrow> sv_store s' r = jd"
  by (simp add: job_effect_def)

lemma close_runtime_effect:
  "drop_runtime (sv_store s r) = (jd, cls) \<Longrightarrow> job_effect j r s jd cls (close_runtime r j s)"
  by (auto simp: drop_runtime_def close_runtime_def job_effect_def upd_job_def split: option.splits)

lemma upd_job_same: "upd_job r f (upd_job r g s) = upd_job r (\<lambda>jd. f (g jd)) s"
  by (simp add: upd_job_def)

lemma handle_refines:
  assumes "step_failed E k e (sv_store s r) = ((jd, cls), res)"
  shows "\<exists>s'. worker_handle E k j r e s = (s', WFinally j (\<exists>e'. res = Inl e')) \<and> job_effect j r s jd cls s'"
proof -
  define s1 where "s1 = (if is_timeout_error e then upd_job r (\<lambda>jd. jd\<lparr>jd_timeout_error := True\<rparr>) s else s)"
  define s2 where "s2 = (if k = RUN then close_runtime r j s1 else s1)"
  obtain jd2 cls2 where d: "(if k = RUN then drop_runtime (sv_store s1 r) else (sv_store s1 r, [])) = (jd2, cls2)"
    by fastforce
  have e1: "job_effect j r s (sv_store s1 r) [] s1"
    by (simp add: s1_def job_effect_def upd_job_def)
  have "job_effect j r s1 jd2 cls2 s2"
    using d close_runtime_effect [of s1 r jd2 cls2 j] by (auto simp: s2_def job_effect_refl split: if_splits)
  from job_effect_trans [OF e1 this] have e2: "job_effect j r s jd2 cls2 s2" by simp
  then have at: "sv_store s2 r = jd2" by (rule job_effect_at)
  have sf: "step_failed E k e (sv_store s r) = (case failure_results E k jd2 e of
      Inl e' \<Rightarrow> ((jd2, cls2), Inl e') | Inr results \<Rightarrow> ((set_event (jd2\<lparr>jd_results := Some results\<rparr>), cls2), Inr ()))"
  proof -
    have "sv_store s1 r = (if is_timeout_error e then (sv_store s r)\<lparr>jd_timeout_error := True\<rparr> else sv_store s r)"
      by (simp add: s1_def)
    then show ?thesis unfolding step_failed_def Let_def using d by (simp only: prod.case)
  qed
  have wh: "worker_handle E k j r e s = (case failure_results E k jd2 e of
      Inl e' \<Rightarrow> (s2, WFinally j True)
    | Inr results \<Rightarrow> (upd_job r (\<lambda>jd. set_event (jd\<lparr>jd_results := Some results\<rparr>)) s2, WFinally j False))"
    unfolding worker_handle_def Let_def s1_def [symmetric] s2_def [symmetric] at ..
  show ?thesis
  proof (cases "failure_results E k jd2 e")
    case (Inl e')
    with assms sf wh e2 show ?thesis by auto
  next
    case (Inr results)
    from job_effect_trans [OF e2 job_effect_upd [of j r s2 "\<lambda>jd. set_event (jd\<lparr>jd_results := Some results\<rparr>)"]]
    show ?thesis using assms sf wh Inr at by auto
  qed
qed

lemma stage_refines:
  assumes "stage_values k v (sv_store s r) = ((jd, cls), res)"
  shows "\<exists>s'. stage_done k j r v s = (s', WLeaving j r (case res of Inl e \<Rightarrow> Some e | Inr _ \<Rightarrow> None)) \<and>
           job_effect j r s jd cls s'"
proof (cases "k = RUN \<and> (\<exists>rr. v = VRun rr)")
  case True
  then obtain rr where v: "k = RUN" "v = VRun rr" by blast
  let ?s1 = "upd_job r (\<lambda>jd. jd\<lparr>jd_run_results := rr\<rparr>) s"
  have e1: "job_effect j r s (sv_store ?s1 r) [] ?s1" by (simp add: job_effect_def upd_job_def)
  have "drop_runtime (sv_store ?s1 r) = (jd, cls)" "res = Inr ()" using assms v by (simp_all add: stage_values_def)
  with job_effect_trans [OF e1 close_runtime_effect [of ?s1 r jd cls j]] v show ?thesis
    by (auto simp: stage_done_def job_effect_def upd_queue_def)
next
  case False
  with assms show ?thesis
    by (cases k; cases v)
      (auto simp: stage_values_def stage_done_def job_effect_def upd_job_def upd_queue_def)
qed

lemma await_refines:
  assumes t: "jd_timer (sv_store s r) = Some t"
    and run: "run_with_timeout_awareness t now coro (Some (jd_current_task (sv_store s r))) = (t2, task, res)"
    and jd1: "jd1 = (sv_store s r)\<lparr>jd_timer := Some t2,
               jd_current_task := (case task of Some tk \<Rightarrow> tk | None \<Rightarrow> None)\<rparr>"
    and out: "(case res of Inl e \<Rightarrow> ((jd1, []), Inl e) | Inr v \<Rightarrow> stage_values k v jd1) = ((jd2, cls), r2)"
  shows "\<exists>s'. blocks_await k j r tk now coro s = (s', WLeaving j r (case r2 of Inl e \<Rightarrow> Some e | Inr _ \<Rightarrow> None)) \<and>
           job_effect j r s jd2 cls s'"
proof (cases "\<exists>rem. get_remaining_timeout t now = Some rem \<and> 0 < rem")
  case False
  then have "t2 = trigger_timeout t" "task = Some (jd_current_task (sv_store s r))"
    "res = Inl (TimeoutError ''Operation timed out'')"
    using run by (auto simp: run_with_timeout_awareness_def split: option.splits if_splits)
  moreover have "blocks_await k j r tk now coro s =
      (upd_job r (\<lambda>jd. jd\<lparr>jd_timer := Some (trigger_timeout t)\<rparr>) s,
       WLeaving j r (Some (TimeoutError ''Operation timed out'')))"
    using False t by (auto simp: blocks_await_def worker_start_def split: option.splits)
  ultimately show ?thesis using jd1 out by (auto simp: job_effect_def upd_job_def)
next
  case True
  then obtain rem where rem: "get_remaining_timeout t now = Some rem" "0 < rem" by blast
  let ?s1 = "upd_job r (\<lambda>jd. jd\<lparr>jd_current_task := Some tk\<rparr>) s"
  let ?s2 = "upd_job r (\<lambda>jd. jd\<lparr>jd_current_task := None\<rparr>) ?s1"
  have b: "blocks_await k j r tk now coro s = worker_complete k j r (coro rem) ?s1"
    using rem t by (simp add: blocks_await_def worker_start_def)
  have task: "task = Some None" using run rem
    by (auto simp: run_with_timeout_awareness_def Let_def split: coro_outcome.splits)
  show ?thesis
  proof (cases "coro rem")
    case (Returned v)
    then have "res = Inr v" "t2 = t" using run rem by (simp_all add: run_with_timeout_awareness_def)
    moreover have "(sv_store s r)\<lparr>jd_timer := Some t\<rparr> = sv_store s r"
      by (rule job_details.equality) (simp_all add: t)
    ultimately have "stage_values k v (sv_store ?s2 r) = ((jd2, cls), r2)"
      using out jd1 task by (simp add: upd_job_def)
    from stage_refines [OF this] obtain s' where
      "stage_done k j r v ?s2 = (s', WLeaving j r (case r2 of Inl e \<Rightarrow> Some e | Inr _ \<Rightarrow> None))"
      "job_effect j r ?s2 jd2 cls s'" by blast
    with b Returned show ?thesis by (auto simp: worker_complete_def job_effect_def upd_job_def)
  next
    case (Raised e)
    then have "res = Inl e" "t2 = t" using run rem by (simp_all add: run_with_timeout_awareness_def)
    with b Raised out jd1 task t show ?thesis
      by (auto simp: worker_complete_def job_effect_def upd_job_def)
  next
    case WaitTimedOut
    then have "res = Inl (TimeoutError ''Operation timed out'')" "t2 = trigger_timeout t"
      using run rem by (simp_all add: run_with_timeout_awareness_def)
    with b WaitTimedOut out jd1 task t show ?thesis
      by (auto simp: worker_complete_def job_effect_def upd_job_def trigger_job_timer_def)
  next
    case WaitCancelled
    then have "res = Inl (TimeoutError ''Operation cancelled'')" "t2 = trigger_timeout t"
      using run rem by (simp_all add: run_with_timeout_awareness_def)
    with b WaitCancelled out jd1 task t show ?thesis
      by (auto simp: worker_complete_def job_effect_def upd_job_def trigger_job_timer_def)
  qed
qed

lemma leave_refines:
  assumes "exit_phase t2 later = Inr t3" "jd_timer (sv_store s r) = Some t2"
  shows "worker_leave j r err later s =
    (upd_job r (\<lambda>jd. jd\<lparr>jd_timer := Some t3\<rparr>) s, case err of None \<Rightarrow> WFinally j False | Some e \<Rightarrow> WHandling j r e)"
  using assms by (simp add: worker_leave_def)

lemma stage_values_timer: "stage_values k v jd = ((jd2, cls), res) \<Longrightarrow> jd_timer jd2 = jd_timer jd"
  by (cases k; cases v) (auto simp: stage_values_def drop_runtime_def set_event_def split: option.splits)

lemma run_with_timeout_safe:
  "run_with_timeout_awareness t now coro task = (t2, task2, res) \<Longrightarrow> timer_safe t \<Longrightarrow> timer_safe t2"
  by (auto simp: run_with_timeout_awareness_def Let_def
      split: option.splits if_splits coro_outcome.splits)

text \<open>A stage with a handler up to the handling of its exception.\<close>

lemma body_refines:
  assumes o: "jd_instance (sv_store s r) = Some d" "dataset_type d = Inr n" "jd_timer (sv_store s r) = Some t" "timer_safe t"
    and f: "get_registered_functions (ev_registry E) (function_type k) n (jd_is_reasoning_task (sv_store s r)) = Some f"
  shows "\<exists>s3 jd3 cls3 r2. step_body E k n c coro (sv_store s r) = ((jd3, cls3), r2) \<and> job_effect j r s jd3 cls3 s3 \<and>
    stage_blocks E k j r tk c coro s = blocks_handle E k j r (s3, case r2 of Inl e \<Rightarrow> WHandling j r e | Inr _ \<Rightarrow> WFinally j False)"
proof -
  obtain t1 where t1: "enter_phase t (function_type k) (ck_enter c) (ck_check c) = Inr t1" "timer_safe t1"
    using enter_phase_safe [OF o(4) known_function_type] by blast
  define s1 where "s1 = upd_job r (\<lambda>jd. jd\<lparr>jd_timer := Some t1\<rparr>) s"
  have b: "worker_begin E k j r (ck_enter c) (ck_check c) s = (s1, WEntered j r)"
    using o f t1 by (simp add: worker_begin_def s1_def)
  have s1: "jd_timer (sv_store s1 r) = Some t1" "sv_store s1 r = (sv_store s r)\<lparr>jd_timer := Some t1\<rparr>"
    by (simp_all add: s1_def)
  obtain t2 task rw where rw: "run_with_timeout_awareness t1 (ck_start c) coro
      (Some (jd_current_task (sv_store s1 r))) = (t2, task, rw)" by (metis prod_cases3)
  define jd1 where "jd1 = (sv_store s1 r)\<lparr>jd_timer := Some t2,
      jd_current_task := (case task of Some tk \<Rightarrow> tk | None \<Rightarrow> None)\<rparr>"
  obtain jd2 cls2 r2 where out: "(case rw of Inl e \<Rightarrow> ((jd1, []), Inl e) | Inr v \<Rightarrow> stage_values k v jd1) = ((jd2, cls2), r2)"
    by (metis prod.collapse)
  from await_refines [OF s1(1) rw jd1_def out, where tk = tk and j = j] obtain s2 where
    s2: "blocks_await k j r tk (ck_start c) coro s1 = (s2, WLeaving j r (case r2 of Inl e \<Rightarrow> Some e | Inr _ \<Rightarrow> None))"
    "job_effect j r s1 jd2 cls2 s2" by blast
  have "jd_timer jd2 = Some t2" using out by (auto simp: jd1_def dest: stage_values_timer split: sum.splits)
  then have tm2: "jd_timer (sv_store s2 r) = Some t2" using job_effect_at [OF s2(2)] by simp
  obtain t3 where t3: "exit_phase t2 (ck_leave c) = Inr t3"
    using exit_phase_safe [OF run_with_timeout_safe [OF rw t1(2)]] by blast
  define s3 where "s3 = upd_job r (\<lambda>jd. jd\<lparr>jd_timer := Some t3\<rparr>) s2"
  have e3: "job_effect j r s (jd2\<lparr>jd_timer := Some t3\<rparr>) cls2 s3"
    using s2(2) by (simp add: s3_def s1_def job_effect_def upd_job_def)
  have sb: "stage_blocks E k j r tk c coro s = blocks_handle E k j r
      (s3, case r2 of Inl e \<Rightarrow> WHandling j r e | Inr _ \<Rightarrow> WFinally j False)"
    using b s2(1) leave_refines [OF t3 tm2]
    by (simp add: stage_blocks_def blocks_leave_def s3_def split: sum.split)
  have jd1': "(sv_store s r)\<lparr>jd_timer := Some t2, jd_current_task := (case task of Some tk \<Rightarrow> tk | None \<Rightarrow> None)\<rparr> = jd1"
    by (simp add: jd1_def s1)
  have sbody: "step_body E k n c coro (sv_store s r) = ((jd2\<lparr>jd_timer := Some t3\<rparr>, cls2), r2)"
    using o(3) f t1(1) rw out t3 jd1' s1(2) by (cases rw) (auto simp: step_body_def Let_def)
  show ?thesis using sbody e3 sb by blast
qed

text \<open>
  Property C11. Both servers run a stage alike: for a job object with its instance and timer,
  the blocks of a thread worker, undisturbed, and the step of a worker process change the job
  object in the same way, hand the same runtimes to the clean-up, and fail together, on every
  path: a missing handler, no time left, a value, an exception, an expiry, a cancellation, and
  an exception function that raises.
\<close>

theorem stages_agree:
  assumes obj: "object_ok (sv_store s r)"
    and step: "run_step E k c coro (sv_store s r) = ((jd, cls), res)"
  shows "\<exists>s'. stage_blocks E k j r tk c coro s = (s', WFinally j (\<exists>e. res = Inl e)) \<and>
           sv_store s' = (sv_store s)(r := jd) \<and>
           sv_closed s' = sv_closed s @ map (\<lambda>rt. (rt, j)) cls"
proof -
  from obj obtain d n t where o: "jd_instance (sv_store s r) = Some d" "dataset_type d = Inr n"
    "jd_timer (sv_store s r) = Some t" "timer_safe t"
    by (auto simp: object_ok_def job_timer_ok_def)
  show ?thesis
  proof (cases "get_registered_functions (ev_registry E) (function_type k) n (jd_is_reasoning_task (sv_store s r))")
    case None
    let ?e = "FunctionNotRegisteredError (''Function '' @ n @ '' not found in registry type '' @ function_type k)"
    have "step_failed E k ?e (sv_store s r) = ((jd, cls), res)"
      using step o None by (auto simp: run_step_def step_body_def split: prod.splits)
    from handle_refines [OF this, of j] None o show ?thesis
      by (auto simp: stage_blocks_def blocks_handle_def worker_begin_def job_effect_def)
  next
    case (Some f)
    obtain s3 jd3 cls3 r2 where sbody: "step_body E k n c coro (sv_store s r) = ((jd3, cls3), r2)"
      and e3: "job_effect j r s jd3 cls3 s3" and sb: "stage_blocks E k j r tk c coro s = blocks_handle E k j r
        (s3, case r2 of Inl e \<Rightarrow> WHandling j r e | Inr _ \<Rightarrow> WFinally j False)"
      using body_refines [OF o Some, of c coro j tk] by blast
    show ?thesis
    proof (cases r2)
      case (Inr u)
      with step o sbody have "jd = jd3" "cls = cls3" "res = Inr u"
        by (simp_all add: run_step_def)
      with sb Inr e3 show ?thesis by (simp add: blocks_handle_def job_effect_def)
    next
      case (Inl e)
      obtain jd4 cls4 where f: "step_failed E k e jd3 = ((jd4, cls4), res)"
        and r: "jd = jd4" "cls = cls3 @ cls4"
        using step o sbody Inl by (auto simp: run_step_def split: prod.splits)
      have "step_failed E k e (sv_store s3 r) = ((jd4, cls4), res)" using f job_effect_at [OF e3] by simp
      from handle_refines [OF this, of j] obtain s4 where
        "worker_handle E k j r e s3 = (s4, WFinally j (\<exists>e'. res = Inl e'))" "job_effect j r s3 jd4 cls4 s4" by blast
      with sb Inl job_effect_trans [OF e3] r show ?thesis
        by (auto simp: blocks_handle_def job_effect_def)
    qed
  qed
qed

theorem stages_agree_witness:
  "\<exists>s' jd cls res.
     run_step (demo_env\<lparr>ev_registry := race_registry\<rparr>) RUN
       \<lparr>ck_enter = 12, ck_check = 12, ck_start = 13, ck_leave = 20\<rparr> (\<lambda>rem. Returned (VRun (Some [])))
       (sv_store race_server 0) = ((jd, cls), res) \<and>
     stage_blocks (demo_env\<lparr>ev_registry := race_registry\<rparr>) RUN ''j1'' 0 5
       \<lparr>ck_enter = 12, ck_check = 12, ck_start = 13, ck_leave = 20\<rparr> (\<lambda>rem. Returned (VRun (Some [])))
       race_server = (s', WFinally ''j1'' (\<exists>e. res = Inl e)) \<and> sv_store s' 0 = jd"
proof -
  let ?E = "demo_env\<lparr>ev_registry := race_registry\<rparr>" and ?coro = "\<lambda>rem. Returned (VRun (Some []))"
    and ?c = "\<lparr>ck_enter = 12, ck_check = 12, ck_start = 13, ck_leave = 20\<rparr>"
  obtain jd cls res where r: "run_step ?E RUN ?c ?coro (sv_store race_server 0) = ((jd, cls), res)"
    by (metis prod.collapse)
  have "object_ok (sv_store race_server 0)"
    by (simp add: race_server_def object_ok_def dataset_type_def dict_get_default_def dict_get_def)
  from stages_agree [OF this r, where j = "''j1''" and tk = 5] r show ?thesis by auto
qed

text \<open>
  The process server computes final results by the table of agent tasks only. For
  a data set that is registered for reasoning tasks alone, such as \<^verbatim>\<open>tool_call\<close>, the final
  function exists and is used by the thread server, but a worker process returns the critical
  error that no function was found, whatever the job achieved.
\<close>

theorem reasoning_results_lost:
  assumes "startup_registry = Inr (ev_registry E)" and "jd_instance jd = Some d"
    and "dataset_type d = Inr ''tool_call''" and "jd_is_reasoning_task jd" and "job_timer_ok jd"
  shows "(\<exists>f. final_of E ''tool_call'' jd = ev_final E f jd) \<and>
         (\<exists>r. get_results E now now2 jd = Inr r \<and>
            dict_get r ''critical_error'' = Some (JStr ''final_result''))"
proof -
  obtain f where g: "get_registered_functions (ev_registry E) ''final_result'' ''tool_call'' False = None"
    "get_registered_functions (ev_registry E) ''final_result'' ''tool_call'' True = Some f"
    using startup_tool_call [OF assms(1), of "''final_result''"] by (auto simp: registry_types_def)
  from assms(5) obtain t where t: "jd_timer jd = Some t" "timer_safe t" by (auto simp: job_timer_ok_def)
  obtain i where "get_timing_info t now now2 = Inr i"
    using settle_phase_safe [OF t(2), of now] by (cases "tm_is_running t") (auto simp: get_timing_info_def)
  with g t assms show ?thesis
    by (intro conjI exI [of _ f]) (auto simp: final_of_def get_results_def dict_get_def)
qed

theorem reasoning_results_lost_witness:
  "\<exists>R r. startup_registry = Inr R \<and>
     get_results \<lparr>ev_registry = R, ev_exception = (\<lambda>f jd e. Inr []), ev_final = (\<lambda>f jd. Inr []), ev_str = (\<lambda>e. []),
        ev_llm = (\<lambda>a p. Inr \<lparr>lc_base_url = a, lc_params = p\<rparr>), ev_render = (\<lambda>v. []), ev_hash = (\<lambda>x. x)\<rparr> 20 20
       (new_job_details\<lparr>jd_instance := Some [(''data_source'', JStr ''tool_call'')], jd_is_reasoning_task := True,
          jd_timer := Some (timer_start (timer_new 300) 10)\<rparr>) = Inr r \<and>
     dict_get r ''critical_error'' = Some (JStr ''final_result'')"
proof -
  obtain R where R: "startup_registry = Inr R" using startup_view by blast
  let ?E = "\<lparr>ev_registry = R, ev_exception = (\<lambda>f jd e. Inr []), ev_final = (\<lambda>f jd. Inr []), ev_str = (\<lambda>e. []),
        ev_llm = (\<lambda>a p. Inr \<lparr>lc_base_url = a, lc_params = p\<rparr>), ev_render = (\<lambda>v. []), ev_hash = (\<lambda>x. x)\<rparr>"
  let ?d = "[(''data_source'', JStr ''tool_call'')]"
  let ?jd = "new_job_details\<lparr>jd_instance := Some ?d, jd_is_reasoning_task := True,
          jd_timer := Some (timer_start (timer_new 300) 10)\<rparr>"
  have a: "startup_registry = Inr (ev_registry ?E)" "jd_instance ?jd = Some ?d"
    "dataset_type ?d = Inr ''tool_call''" "jd_is_reasoning_task ?jd" "job_timer_ok ?jd"
    using R by (simp_all add: dataset_type_def dict_get_default_def dict_get_def)
  from reasoning_results_lost [OF a, of 20 20] R show ?thesis by blast
qed

section \<open>The shared state and the operations of the server\<close>

text \<open>A job as the server tracks it; the process is known by whether it is alive.\<close>

record job_state =
  js_finished :: bool
  js_alive :: bool
  js_result :: "jdict option"

record proc_server =
  pv_running :: bool
  pv_manager :: bool
  pv_max :: "job_type \<Rightarrow> nat"
  pv_addresses :: weighted_addresses
  pv_cpu_groups :: "nat list list"
  pv_rr :: nat
  pv_jobs :: "(string, job_state) dict"
  pv_sem :: "job_type \<Rightarrow> nat"
  pv_status :: "(string, job_type) dict"
  pv_results :: "(string \<times> jdict) list"
  pv_dead :: "(string, real) dict"

text \<open>\<open>for idx, cpu in enumerate(cpus): groups[idx % n].append(cpu)\<close>\<close>

definition group_of :: "nat \<Rightarrow> nat list \<Rightarrow> nat \<Rightarrow> nat list" where
  "group_of n cpus g = map (\<lambda>i. cpus ! i) (filter (\<lambda>i. i mod n = g) [0..<length cpus])"

text \<open>
  The processor groups of \<open>__init__\<close>: with isolation the processors are dealt out in turn to one
  group per run worker and one more, which stays idle; without it, four are kept idle when
  there are enough.
\<close>

definition cpu_groups :: "bool \<Rightarrow> nat \<Rightarrow> nat list \<Rightarrow> nat list list" where
  "cpu_groups isolate_cpu max_run_workers available_cpus =
     (if isolate_cpu then
        (let num_groups = max 1 (min max_run_workers (length available_cpus)) + 1;
             groups = map (group_of num_groups available_cpus) [0..<num_groups]
         in if length groups > 1 then butlast groups else groups)
      else if length available_cpus > max 4 max_run_workers then [drop 4 available_cpus]
      else [available_cpus])"

definition new_proc_server ::
  "string list option \<Rightarrow> nat \<Rightarrow> nat \<Rightarrow> nat option \<Rightarrow> bool \<Rightarrow> nat list \<Rightarrow> proc_server" where
  "new_proc_server llm_server_addresses max_init max_run max_eval isolate_cpu cpus =
     \<lparr>pv_running = False, pv_manager = False,
      pv_max = (\<lambda>k. case k of INIT \<Rightarrow> max_init | RUN \<Rightarrow> max_run
                  | EVAL \<Rightarrow> (case max_eval of None \<Rightarrow> max_run | Some n \<Rightarrow> n)),
      pv_addresses = new_addresses llm_server_addresses,
      pv_cpu_groups = cpu_groups isolate_cpu max_run cpus, pv_rr = 0, pv_jobs = [],
      pv_sem = (\<lambda>_. 0), pv_status = [], pv_results = [], pv_dead = []\<rparr>"

definition release :: "job_type \<Rightarrow> proc_server \<Rightarrow> proc_server" where
  "release k s = s\<lparr>pv_sem := (pv_sem s)(k := pv_sem s k + 1)\<rparr>"

text \<open>\<open>release_all\<close>: one release per worker of each stage.\<close>

definition release_all :: "proc_server \<Rightarrow> proc_server" where
  "release_all s = s\<lparr>pv_sem := (\<lambda>k. pv_sem s k + pv_max s k)\<rparr>"

text \<open>
  \<open>if job_id in job_status: status = job_status.pop(job_id); release the semaphore of status\<close>,
  as \<open>cancel_job\<close>, \<open>process\<close>, \<open>process_job\<close> and \<open>_cleanup_dead_job\<close> do it.
\<close>

definition pop_status :: "string \<Rightarrow> proc_server \<Rightarrow> proc_server" where
  "pop_status j s =
     (case dict_get (pv_status s) j of
        None \<Rightarrow> s
      | Some k \<Rightarrow> release k (s\<lparr>pv_status := dict_del (pv_status s) j\<rparr>))"

text \<open>\<open>JobState.close\<close>: the process is killed and the event set.\<close>

definition close_state :: "job_state \<Rightarrow> job_state" where
  "close_state js = js\<lparr>js_alive := False, js_finished := True\<rparr>"

definition proc_start :: "proc_server \<Rightarrow> proc_server" where
  "proc_start s =
     (if pv_running s then s
      else
        (let s1 = s\<lparr>pv_running := True\<rparr>;
             s2 = (if pv_manager s1 then s1
                   else s1\<lparr>pv_manager := True, pv_status := [], pv_sem := pv_max s1, pv_results := []\<rparr>)
         in s2\<lparr>pv_dead := []\<rparr>))"

text \<open>One turn of the thread that reads the results.\<close>

definition result_check :: "proc_server \<Rightarrow> proc_server option" where
  "result_check s =
     (case pv_results s of
        [] \<Rightarrow> None
      | (j, result) # rest \<Rightarrow>
          Some (case dict_get (pv_jobs s) j of
                  None \<Rightarrow> s\<lparr>pv_results := rest\<rparr>
                | Some js \<Rightarrow> s\<lparr>pv_results := rest, pv_jobs :=
                    dict_set (pv_jobs s) j (js\<lparr>js_result := Some result, js_finished := True\<rparr>)\<rparr>))"

definition cleanup_dead_job :: "string \<Rightarrow> proc_server \<Rightarrow> proc_server" where
  "cleanup_dead_job j s =
     (let s1 = pop_status j s in s1\<lparr>pv_jobs := dict_del (pv_jobs s1) j\<rparr>)"

text \<open>
  \<open>_monitor_dead_processes\<close>: dead processes are noted with the time, and cleaned up when they
  have been dead for more than ten seconds. \<open>now j\<close> is the clock when job \<open>j\<close> is looked at.
\<close>

fun scan_dead ::
  "(string \<Rightarrow> real) \<Rightarrow> (string, job_state) dict \<Rightarrow> (string, real) dict \<Rightarrow> string list \<Rightarrow> (string, real) dict \<times> string list" where
  "scan_dead now [] dead acc = (dead, acc)"
| "scan_dead now ((j, js) # jobs) dead acc =
     (if js_alive js then scan_dead now jobs dead acc
      else
        (case dict_get dead j of
           None \<Rightarrow> scan_dead now jobs (dict_set dead j (now j)) acc
         | Some since \<Rightarrow>
             if now j - since > 10 then scan_dead now jobs (dict_del dead j) (acc @ [j])
             else scan_dead now jobs dead acc))"

definition monitor_dead_processes :: "(string \<Rightarrow> real) \<Rightarrow> proc_server \<Rightarrow> proc_server" where
  "monitor_dead_processes now s =
     (let dead0 = filter (\<lambda>(j, _). dict_get (pv_jobs s) j \<noteq> None) (pv_dead s);
          (dead1, dead_jobs) = scan_dead now (pv_jobs s) dead0 []
      in fold cleanup_dead_job dead_jobs (s\<lparr>pv_dead := dead1\<rparr>))"

definition proc_cancel_job :: "string \<Rightarrow> proc_server \<Rightarrow> proc_server \<times> unit result" where
  "proc_cancel_job j s =
     (if \<not> pv_running s then (s, Inl (RuntimeError ''Server is not running''))
      else
        (case dict_get (pv_jobs s) j of
           None \<Rightarrow> (s, Inl (ValueError (''Job '' @ j @ '' not found'')))
         | Some js \<Rightarrow>
             (pop_status j (s\<lparr>pv_jobs := dict_set (pv_jobs s) j (js\<lparr>js_finished := True\<rparr>)\<rparr>), Inr ())))"

text \<open>\<open>get_unique_id\<close> with the dictionary of this server.\<close>

definition proc_unique_id :: "'f env \<Rightarrow> proc_server \<Rightarrow> jdict \<Rightarrow> string list \<Rightarrow> string result" where
  "proc_unique_id E s instance rands =
     bind_result (get_instance_id (ev_render E) instance) (\<lambda>iid.
       case dict_get instance ''trajectory_id'' of
         None \<Rightarrow> Inl (KeyError ''trajectory_id'')
       | Some tid \<Rightarrow>
           first_free (\<lambda>uid. map_option (\<lambda>_. 0) (dict_get (pv_jobs s) uid))
             (take 16 (ev_hash E (py_str (ev_render E) iid @ ''_'' @ py_str (ev_render E) tid)))
             (take 10 rands))"

text \<open>The round robin over the processor groups.\<close>

definition assign_cpus :: "proc_server \<Rightarrow> nat list option \<times> proc_server" where
  "assign_cpus s =
     (if length (pv_cpu_groups s) > 0 then
        (let group_index = pv_rr s mod length (pv_cpu_groups s)
         in (Some (pv_cpu_groups s ! group_index), s\<lparr>pv_rr := group_index + 1\<rparr>))
      else (None, s))"

text \<open>
  \<open>process\<close> up to the start of the process: the job, its address and its processors; then the
  registration of the job, which happens after the process has been started; then the part
  after the wait.
\<close>

definition proc_launch ::
  "'f env \<Rightarrow> jdict \<Rightarrow> jdict \<Rightarrow> string option \<Rightarrow> string list \<Rightarrow> (string \<Rightarrow> real) \<Rightarrow> proc_server
     \<Rightarrow> proc_server \<times> (string \<times> string \<times> nat list option) result" where
  "proc_launch E instance sampling_params job_id rands now s0 =
     (if \<not> pv_running s0 then (s0, Inl (RuntimeError ''Server is not running''))
      else
        (let s = monitor_dead_processes now s0 in
         if pv_addresses s = [] then (s, Inl (ValueError ''No LLM server addresses added''))
         else
           (case dataset_type instance of
              Inl e \<Rightarrow> (s, Inl e)
            | Inr name \<Rightarrow>
                if \<not> is_registered_handler (ev_registry E) name
                      (truthy (dict_get_default sampling_params ''is_reasoning_task'' (JBool False)))
                then (s, Inl (FunctionNotRegisteredError (''Dataset type '' @ name @ '' is not registered'')))
                else
                  (case (case job_id of Some j \<Rightarrow> Inr j | None \<Rightarrow> proc_unique_id E s instance rands) of
                     Inl e \<Rightarrow> (s, Inl e)
                   | Inr j \<Rightarrow>
                       (case get_llm_server_addresses (pv_addresses s) of
                          Inl e \<Rightarrow> (s, Inl e)
                        | Inr (address, W) \<Rightarrow>
                            (case assign_cpus (s\<lparr>pv_addresses := W\<rparr>) of
                               (cpus, s1) \<Rightarrow> (s1, Inr (j, address, cpus))))))))"

definition proc_register :: "string \<Rightarrow> proc_server \<Rightarrow> proc_server" where
  "proc_register j s =
     s\<lparr>pv_jobs := dict_set (pv_jobs s) j \<lparr>js_finished = False, js_alive = True, js_result = None\<rparr>\<rparr>"

definition proc_finish :: "'f env \<Rightarrow> string \<Rightarrow> proc_server \<Rightarrow> proc_server \<times> jdict result" where
  "proc_finish E j s =
     (let result = (case dict_get (pv_jobs s) j of
                      None \<Rightarrow> [(''error'', JStr (ev_str E (KeyError j)))]
                    | Some js \<Rightarrow>
                        (case js_result js of
                           Some d \<Rightarrow> d
                         | None \<Rightarrow> [(''error'', JStr (ev_str E (TypeError ''NoneType object is not iterable'')))]))
      in if \<not> pv_manager s then (s, Inl (TypeError ''NoneType object is no context manager''))
         else
           (let s1 = pop_status j s
            in (s1\<lparr>pv_jobs := dict_del (pv_jobs s1) j\<rparr>, Inr result)))"

text \<open>\<open>status\<close> with a running manager.\<close>

definition proc_status :: "proc_server \<Rightarrow> (string, json) dict" where
  "proc_status s =
     (let count = (\<lambda>k. JInt (int (length (filter (\<lambda>(_, k'). k' = k) (pv_status s)))))
      in [(''running'', JBool (pv_running s)), (''jobs'', JInt (int (length (pv_jobs s))))] @
         (if pv_manager s then [(''init'', count INIT), (''run'', count RUN), (''eval'', count EVAL)] else []))"

definition proc_stop :: "proc_server \<Rightarrow> proc_server" where
  "proc_stop s =
     (if \<not> pv_running s then s
      else
        (let s1 = s\<lparr>pv_running := False, pv_jobs := [], pv_results := []\<rparr>;
             s2 = (if pv_manager s1
                   then (release_all s1)\<lparr>pv_manager := False, pv_status := [], pv_sem := (\<lambda>_. 0)\<rparr>
                   else s1)
         in s2\<lparr>pv_dead := []\<rparr>))"

section \<open>Processor groups\<close>

lemma set_group_of: "distinct cpus \<Longrightarrow> set (group_of n cpus g) = {cpus ! i |i. i < length cpus \<and> i mod n = g}"
  by (auto simp: group_of_def)

lemma distinct_group_of: "distinct cpus \<Longrightarrow> distinct (group_of n cpus g)"
  by (auto simp: group_of_def distinct_map inj_on_def nth_eq_iff_index_eq)

lemma length_filter_mod:
  "0 < n \<Longrightarrow> g < n \<Longrightarrow>
   length (filter (\<lambda>i. i mod n = g) [0..<m]) = m div n + (if g < m mod n then 1 else 0)"
proof (induction m)
  case (Suc m)
  then show ?case
    by (cases "Suc (m mod n) = n") (auto simp: mod_Suc div_Suc)
qed simp

lemma length_group_of:
  "0 < n \<Longrightarrow> g < n \<Longrightarrow>
   length (group_of n cpus g) = length cpus div n + (if g < length cpus mod n then 1 else 0)"
  by (simp add: group_of_def length_filter_mod)

lemma cpu_groups_isolated:
  "cpu_groups True m cpus = map (group_of (max 1 (min m (length cpus)) + 1) cpus) [0..<max 1 (min m (length cpus))]"
  by (auto simp: cpu_groups_def Let_def)

text \<open>
  With isolation the processors are dealt out fairly: there is a group for each run
  worker (as far as there are processors), no processor is in two groups or twice in one, every
  group holds available processors only, the sizes of any two groups differ by at most one, and
  no group is empty when there is a processor at all.
\<close>

theorem cpu_groups_fair:
  assumes "distinct cpus" and "cpus \<noteq> []"
  shows "length (cpu_groups True m cpus) = max 1 (min m (length cpus)) \<and>
         distinct (concat (cpu_groups True m cpus)) \<and>
         set (concat (cpu_groups True m cpus)) \<subseteq> set cpus \<and>
         (\<forall>g \<in> set (cpu_groups True m cpus). g \<noteq> [] \<and>
            (\<forall>g' \<in> set (cpu_groups True m cpus). length g \<le> length g' + 1))"
proof -
  define n where "n = max 1 (min m (length cpus))"
  have n: "0 < n" "n \<le> length cpus" using assms(2) by (auto simp: n_def Suc_le_eq)
  have e: "cpu_groups True m cpus = map (group_of (n + 1) cpus) [0..<n]"
    by (simp add: cpu_groups_isolated n_def)
  have disj: "set (group_of (n + 1) cpus g) \<inter> set (group_of (n + 1) cpus g') = {}" if "g \<noteq> g'" for g g'
    using that assms(1) by (auto simp: set_group_of nth_eq_iff_index_eq)
  have ne: "group_of (n + 1) cpus g \<noteq> []" if "g < n" for g
  proof -
    have "cpus ! g \<in> set (group_of (n + 1) cpus g)" using that n assms(1) by (auto simp: set_group_of)
    then show ?thesis by auto
  qed
  have "distinct (concat (map (group_of (n + 1) cpus) [0..<l]))" for l
  proof (induction l)
    case (Suc l)
    have "x \<notin> set (group_of (n + 1) cpus l)" if "g < l" "x \<in> set (group_of (n + 1) cpus g)" for g x
      using disj [of g l] that by auto
    then have "set (concat (map (group_of (n + 1) cpus) [0..<l])) \<inter> set (group_of (n + 1) cpus l) = {}"
      unfolding set_concat by (auto simp del: One_nat_def add_Suc_right)
    with Suc show ?case using distinct_group_of [OF assms(1)] by simp
  qed simp
  moreover have "set (concat (cpu_groups True m cpus)) \<subseteq> set cpus"
    using assms(1) by (auto simp: e set_group_of)
  moreover have "length (group_of (n + 1) cpus g) \<le> length (group_of (n + 1) cpus g') + 1" if "g < n" "g' < n" for g g'
    using that by (simp add: length_group_of)
  ultimately show ?thesis
    unfolding e n_def [symmetric] using ne by simp
qed

theorem cpu_groups_fair_witness:
  "distinct (concat (cpu_groups True 2 [0, 1, 2, 3, 4])) \<and> length (cpu_groups True 2 [0, 1, 2, 3, 4]) = 2"
  using cpu_groups_fair [of "[0, 1, 2, 3, 4]" 2] by auto

text \<open>The groups given to the next \<open>n\<close> jobs.\<close>

fun assign_many :: "nat \<Rightarrow> proc_server \<Rightarrow> nat list option list" where
  "assign_many 0 s = []"
| "assign_many (Suc n) s = (case assign_cpus s of (c, s') \<Rightarrow> c # assign_many n s')"

lemma assign_many_nth:
  "pv_cpu_groups s \<noteq> [] \<Longrightarrow> i < n \<Longrightarrow>
   assign_many n s ! i = Some (pv_cpu_groups s ! ((pv_rr s + i) mod length (pv_cpu_groups s)))"
proof (induction n arbitrary: s i)
  case (Suc n)
  let ?l = "length (pv_cpu_groups s)"
  let ?s' = "s\<lparr>pv_rr := pv_rr s mod ?l + 1\<rparr>"
  have a: "assign_cpus s = (Some (pv_cpu_groups s ! (pv_rr s mod ?l)), ?s')"
    using Suc.prems by (simp add: assign_cpus_def Let_def)
  show ?case
  proof (cases i)
    case 0
    with a show ?thesis by simp
  next
    case (Suc i')
    have "assign_many n ?s' ! i' = Some (pv_cpu_groups s ! ((pv_rr s mod ?l + 1 + i') mod ?l))"
      using Suc.IH [of ?s' i'] Suc.prems Suc by simp
    also have "(pv_rr s mod ?l + 1 + i') mod ?l = (pv_rr s + i) mod ?l"
      using Suc by (metis add.assoc mod_add_left_eq plus_1_eq_Suc)
    finally show ?thesis using a Suc by simp
  qed
qed simp

section \<open>Worker processes and semaphores\<close>

text \<open>
  The points of \<open>Worker.run\<close> and \<open>process_job\<close>: before the semaphore of a stage, with it, listed
  in the shared dictionary (the stage runs), before and between the release and the removal from
  the dictionary (with whether the stage raised), before the result is put, in the last
  \<^verbatim>\<open>finally\<close>, ended, killed.
\<close>

datatype proc_pc =
    PWait job_type
  | PAcquired job_type
  | PListed job_type
  | PRelease job_type bool
  | PUnlist job_type bool
  | PDeliver
  | PFinal
  | PDone
  | PKilled

text \<open>One block of the process of job \<open>j\<close>; \<open>raised\<close> and \<open>stop\<close> say how the stage ended.\<close>

inductive proc_block :: "string \<Rightarrow> proc_server \<times> proc_pc \<Rightarrow> proc_server \<times> proc_pc \<Rightarrow> bool" for j where
  acquire: "0 < pv_sem s k \<Longrightarrow>
     proc_block j (s, PWait k) (s\<lparr>pv_sem := (pv_sem s)(k := pv_sem s k - 1)\<rparr>, PAcquired k)"
| enlist: "proc_block j (s, PAcquired k) (s\<lparr>pv_status := dict_set (pv_status s) j k\<rparr>, PListed k)"
| stage_end: "proc_block j (s, PListed k) (s, PRelease k raised)"
| release_stage: "proc_block j (s, PRelease k raised) (release k s, PUnlist k raised)"
| unlist: "proc_block j (s, PUnlist k raised) (s\<lparr>pv_status := dict_del (pv_status s) j\<rparr>,
     if raised \<or> stop then PDeliver
     else case next_stage k of Some k' \<Rightarrow> PWait k' | None \<Rightarrow> PDeliver)"
| deliver: "proc_block j (s, PDeliver) (s\<lparr>pv_results := pv_results s @ [(j, result)]\<rparr>, PFinal)"
| final: "proc_block j (s, PFinal) (pop_status j s, PDone)"

record proc_system =
  px_server :: proc_server
  px_procs :: "(string \<times> proc_pc) list"

text \<open>The steps of a system in which no job is cancelled and no process is killed.\<close>

inductive proc_step :: "proc_system \<Rightarrow> proc_system \<Rightarrow> bool" where
  proc_move:
    "w < length (px_procs \<sigma>) \<Longrightarrow> px_procs \<sigma> ! w = (j, pc) \<Longrightarrow>
     proc_block j (px_server \<sigma>, pc) (s', pc') \<Longrightarrow>
     proc_step \<sigma> (\<sigma>\<lparr>px_server := s', px_procs := (px_procs \<sigma>)[w := (j, pc')]\<rparr>)"
| proc_spawn:
    "j \<notin> fst ` set (px_procs \<sigma>) \<Longrightarrow>
     proc_step \<sigma> (\<sigma>\<lparr>px_procs := px_procs \<sigma> @ [(j, PWait INIT)]\<rparr>)"
| proc_read: "result_check (px_server \<sigma>) = Some s' \<Longrightarrow> proc_step \<sigma> (\<sigma>\<lparr>px_server := s'\<rparr>)"
| proc_registers: "proc_step \<sigma> (\<sigma>\<lparr>px_server := proc_register j (px_server \<sigma>)\<rparr>)"

inductive proc_reachable :: "proc_system \<Rightarrow> bool" where
  proc_init: "proc_reachable \<lparr>px_server = proc_start (new_proc_server addrs mi mr me isolate cpus), px_procs = []\<rparr>"
| proc_next: "proc_reachable \<sigma> \<Longrightarrow> proc_step \<sigma> \<sigma>' \<Longrightarrow> proc_reachable \<sigma>'"

text \<open>A process holds a permit of stage \<open>k\<close>; the dictionary lists it under \<open>k\<close>.\<close>

fun holds :: "job_type \<Rightarrow> proc_pc \<Rightarrow> nat" where
  "holds k (PAcquired k') = (if k' = k then 1 else 0)"
| "holds k (PListed k') = (if k' = k then 1 else 0)"
| "holds k (PRelease k' raised) = (if k' = k then 1 else 0)"
| "holds k _ = 0"

fun listed :: "proc_pc \<Rightarrow> job_type option" where
  "listed (PListed k) = Some k"
| "listed (PRelease k raised) = Some k"
| "listed (PUnlist k raised) = Some k"
| "listed _ = None"

definition permits_inv :: "proc_system \<Rightarrow> bool" where
  "permits_inv \<sigma> \<longleftrightarrow>
     distinct (map fst (px_procs \<sigma>)) \<and>
     (\<forall>k. pv_sem (px_server \<sigma>) k + sum_list (map (holds k \<circ> snd) (px_procs \<sigma>)) = pv_max (px_server \<sigma>) k) \<and>
     (\<forall>(j, pc) \<in> set (px_procs \<sigma>). dict_get (pv_status (px_server \<sigma>)) j = listed pc) \<and>
     (\<forall>j. j \<notin> fst ` set (px_procs \<sigma>) \<longrightarrow> dict_get (pv_status (px_server \<sigma>)) j = None)"

lemma proc_block_effect:
  assumes "proc_block j (s, pc) (s', pc')" and "dict_get (pv_status s) j = listed pc"
  shows "pv_max s' = pv_max s \<and> dict_get (pv_status s') j = listed pc' \<and>
         (\<forall>i. i \<noteq> j \<longrightarrow> dict_get (pv_status s') i = dict_get (pv_status s) i) \<and>
         (\<forall>k. pv_sem s' k + holds k pc' = pv_sem s k + holds k pc)"
  using assms
proof cases
  case (unlist k raised stop)
  then show ?thesis by (cases k) auto
next
  case final
  with assms show ?thesis by (auto simp: pop_status_def)
qed (auto simp: release_def)

lemma sum_list_holds_update:
  "w < length xs \<Longrightarrow> xs ! w = (j, pc) \<Longrightarrow>
   sum_list (map (holds k \<circ> snd) (xs[w := (j, pc')])) + holds k pc = sum_list (map (holds k \<circ> snd) xs) + holds k pc'"
proof (induction xs arbitrary: w)
  case (Cons x xs)
  then show ?case by (cases w) (auto simp: algebra_simps)
qed simp

lemma permits_inv_move:
  assumes inv: "permits_inv \<sigma>" and w: "w < length (px_procs \<sigma>)" "px_procs \<sigma> ! w = (j, pc)"
    and b: "proc_block j (px_server \<sigma>, pc) (s', pc')"
  shows "permits_inv (\<sigma>\<lparr>px_server := s', px_procs := (px_procs \<sigma>)[w := (j, pc')]\<rparr>)"
proof -
  let ?xs = "px_procs \<sigma>" and ?ys = "(px_procs \<sigma>)[w := (j, pc')]"
  have mem: "(j, pc) \<in> set ?xs" using w nth_mem by metis
  then have "dict_get (pv_status (px_server \<sigma>)) j = listed pc" using inv by (auto simp: permits_inv_def)
  note e = proc_block_effect [OF b this]
  have keys: "map fst ?ys = map fst ?xs" using w by (simp add: map_update) (metis fst_conv list_update_id map_update)
  have "pv_sem s' k + sum_list (map (holds k \<circ> snd) ?ys) = pv_max s' k" for k
  proof -
    have "pv_sem (px_server \<sigma>) k + sum_list (map (holds k \<circ> snd) ?xs) = pv_max (px_server \<sigma>) k"
      using inv by (simp add: permits_inv_def)
    moreover have "pv_sem s' k + holds k pc' = pv_sem (px_server \<sigma>) k + holds k pc" "pv_max s' = pv_max (px_server \<sigma>)"
      using e by auto
    ultimately show ?thesis using sum_list_holds_update [OF w, of k pc'] by simp
  qed
  moreover have "dict_get (pv_status s') i = listed q" if "(i, q) \<in> set ?ys" for i q
  proof (cases "i = j")
    case True
    have d: "distinct (map fst ?ys)" using inv keys by (simp add: permits_inv_def)
    have "(j, pc') \<in> set ?ys" using w by (simp add: set_update_memI)
    with d that True have "q = pc'" by (metis eq_key_imp_eq_value)
    with True e show ?thesis by simp
  next
    case False
    with that have "(i, q) \<in> set ?xs" by (meson in_set_insert insertE set_update_subset_insert subsetD old.prod.inject)
    with inv e False show ?thesis by (auto simp: permits_inv_def)
  qed
  moreover have "dict_get (pv_status s') i = None" if "i \<notin> fst ` set ?ys" for i
  proof -
    have i: "i \<notin> fst ` set ?xs" using that keys by (metis list.set_map)
    with mem have "i \<noteq> j" by force
    with e inv i show ?thesis by (auto simp: permits_inv_def)
  qed
  ultimately show ?thesis using inv keys by (auto simp: permits_inv_def)
qed

lemma proc_reachable_inv: "proc_reachable \<sigma> \<Longrightarrow> permits_inv \<sigma>"
proof (induction rule: proc_reachable.induct)
  case (proc_init addrs mi mr me isolate cpus)
  then show ?case
    by (simp add: permits_inv_def proc_start_def new_proc_server_def Let_def dict_get_def)
next
  case (proc_next \<sigma> \<sigma>')
  from proc_next.hyps(2) show ?case
  proof cases
    case (proc_move w j pc s' pc')
    with permits_inv_move [OF proc_next.IH] show ?thesis by blast
  next
    case (proc_spawn j)
    with proc_next.IH show ?thesis by (auto simp: permits_inv_def)
  next
    case (proc_read s')
    then have "pv_sem s' = pv_sem (px_server \<sigma>)" "pv_max s' = pv_max (px_server \<sigma>)" "pv_status s' = pv_status (px_server \<sigma>)"
      by (auto simp: result_check_def split: list.splits prod.splits option.splits)
    with proc_read proc_next.IH show ?thesis by (simp add: permits_inv_def)
  next
    case (proc_registers j)
    with proc_next.IH show ?thesis by (simp add: permits_inv_def proc_register_def)
  qed
qed

lemma sum_holds_listed: "length (filter (\<lambda>(_, pc). pc = PListed k) xs) \<le> sum_list (map (holds k \<circ> snd) xs)"
  by (induction xs) auto


definition demo_proc_server :: proc_server where
  "demo_proc_server = proc_start (new_proc_server (Some [''http://a'']) 1 1 None False [0])"

lemma demo_proc_reachable:
  "proc_reachable \<lparr>px_server = demo_proc_server, px_procs = [(''j1'', PWait INIT)]\<rparr>"
proof -
  have "proc_step \<lparr>px_server = demo_proc_server, px_procs = []\<rparr>
      (\<lparr>px_server = demo_proc_server, px_procs = []\<rparr>\<lparr>px_procs := px_procs \<lparr>px_server = demo_proc_server, px_procs = []\<rparr> @ [(''j1'', PWait INIT)]\<rparr>)"
    by (rule proc_step.proc_spawn) simp
  then show ?thesis
    using proc_next [OF proc_init] unfolding demo_proc_server_def by fastforce
qed


text \<open>
  Property C13. Cancelling breaks the bound: the call releases the permit of the stage the job is
  listed in while its process still runs, so that another process can enter the stage at
  once; and when the process reaches its own release before it is killed, the permit is returned
  a second time: the permits left and held are one more than the pool for good.
\<close>

theorem cancel_releases_twice:
  assumes "pv_running s" and "dict_get (pv_jobs s) j = Some js" and "dict_get (pv_status s) j = Some k"
  shows "\<exists>s1 s2 s3. proc_cancel_job j s = (s1, Inr ()) \<and> pv_sem s1 k = pv_sem s k + 1 \<and>
           proc_block i (s1, PWait k) (s1\<lparr>pv_sem := (pv_sem s1)(k := pv_sem s k)\<rparr>, PAcquired k) \<and>
           proc_block j (s1, PListed k) (s1, PRelease k False) \<and>
           proc_block j (s1, PRelease k False) (s2, PUnlist k False) \<and>
           proc_block j (s2, PUnlist k False) (s3, PDeliver) \<and> pv_sem s3 k = pv_sem s k + 2"
proof -
  let ?s0 = "s\<lparr>pv_jobs := dict_set (pv_jobs s) j (js\<lparr>js_finished := True\<rparr>)\<rparr>"
  let ?s1 = "pop_status j ?s0"
  have c: "proc_cancel_job j s = (?s1, Inr ())" using assms by (simp add: proc_cancel_job_def)
  have v: "pv_sem ?s1 k = pv_sem s k + 1" using assms(3) by (simp add: pop_status_def release_def)
  have a: "proc_block i (?s1, PWait k) (?s1\<lparr>pv_sem := (pv_sem ?s1)(k := pv_sem s k)\<rparr>, PAcquired k)"
    using proc_block.acquire [of ?s1 k i] v by simp
  have u: "proc_block j (release k ?s1, PUnlist k False)
      ((release k ?s1)\<lparr>pv_status := dict_del (pv_status (release k ?s1)) j\<rparr>, PDeliver)"
    using proc_block.unlist [of j "release k ?s1" k False True] by simp
  have "pv_sem ((release k ?s1)\<lparr>pv_status := dict_del (pv_status (release k ?s1)) j\<rparr>) k = pv_sem s k + 2"
    using v by (simp add: release_def)
  with c v a u proc_block.stage_end [of j ?s1 k False] proc_block.release_stage [of j ?s1 k False]
  show ?thesis by blast
qed

theorem cancel_releases_twice_witness:
  "\<exists>s1. proc_cancel_job ''j1'' (demo_proc_server\<lparr>pv_jobs := [(''j1'', \<lparr>js_finished = False, js_alive = True, js_result = None\<rparr>)],
      pv_status := [(''j1'', RUN)], pv_sem := (\<lambda>_. 0)\<rparr>) = (s1, Inr ()) \<and> pv_sem s1 RUN = 1"
proof -
  let ?s = "demo_proc_server\<lparr>pv_jobs := [(''j1'', \<lparr>js_finished = False, js_alive = True, js_result = None\<rparr>)],
      pv_status := [(''j1'', RUN)], pv_sem := (\<lambda>_. 0)\<rparr>"
  have s: "pv_running ?s" "dict_get (pv_jobs ?s) ''j1'' = Some \<lparr>js_finished = False, js_alive = True, js_result = None\<rparr>"
    "dict_get (pv_status ?s) ''j1'' = Some RUN"
    by (simp_all add: dict_get_def demo_proc_server_def proc_start_def new_proc_server_def Let_def)
  from cancel_releases_twice [OF s, of "''j2''"] show ?thesis by auto
qed

text \<open>
  A result that arrives before its job is registered is lost: \<open>process\<close> starts the
  process first and enters the job afterwards, and the reading thread drops a result without an
  entry; the job registered then has no result, its event is not set, and the queue holds no
  other message for it. In the right order the result is stored, the event is set and the call
  returns it; but a call that is woken by \<open>stop\<close> and continues after it raises, since the
  lock of the shared dictionary is gone.
\<close>

theorem result_delivery:
  assumes "pv_results s = [(j, result)]" and "pv_running s" and "pv_manager s"
  shows "(dict_get (pv_jobs s) j = None \<longrightarrow>
            (\<exists>s1. result_check s = Some s1 \<and> pv_results (proc_register j s1) = [] \<and>
               dict_get (pv_jobs (proc_register j s1)) j =
                 Some \<lparr>js_finished = False, js_alive = True, js_result = None\<rparr>)) \<and>
         (\<exists>s2. result_check (proc_register j s) = Some s2 \<and>
            dict_get (pv_jobs s2) j = Some \<lparr>js_finished = True, js_alive = True, js_result = Some result\<rparr> \<and>
            snd (proc_finish E j s2) = Inr result \<and>
            snd (proc_finish E j (proc_stop s2)) = Inl (TypeError ''NoneType object is no context manager''))"
  using assms by (auto simp: result_check_def proc_register_def proc_finish_def proc_stop_def Let_def)

theorem result_delivery_witness:
  "\<exists>s1. result_check (demo_proc_server\<lparr>pv_results := [(''j1'', [])]\<rparr>) = Some s1 \<and> pv_results (proc_register ''j1'' s1) = []"
proof -
  have r: "pv_results (demo_proc_server\<lparr>pv_results := [(''j1'', [])]\<rparr>) = [(''j1'', [])]"
    "dict_get (pv_jobs (demo_proc_server\<lparr>pv_results := [(''j1'', [])]\<rparr>)) ''j1'' = None"
    "pv_running (demo_proc_server\<lparr>pv_results := [(''j1'', [])]\<rparr>)" "pv_manager (demo_proc_server\<lparr>pv_results := [(''j1'', [])]\<rparr>)"
    by (simp_all add: demo_proc_server_def proc_start_def new_proc_server_def Let_def dict_get_def)
  from result_delivery [OF r(1) r(3) r(4), of demo_env] r(2) show ?thesis by blast
qed

end
