(* ===== verification/Events.thy ===== *)
theory Events
  imports PyPrelude
begin

text \<open>
  \<^verbatim>\<open>openhands/events\<close>: events with their bookkeeping attributes and the data classes of actions and
  observations, the condensation action, the event filter and the pairing of actions with
  observations.

  A data class is a constructor with its fields in order; the field that names the type
  (\<open>action\<close>, \<open>observation\<close>) is the same for all objects of a class and left out. Fields that no
  modelled code reads are grouped as \<open>rest\<close> for the two largest classes. The values of
  dictionary fields are in a canonical form (keys in order), so that Python's comparison of data
  objects, which compares class and fields and not the attributes set later, is equality of
  payloads.
\<close>

section \<open>Events\<close>

datatype event_source = AGENT | USER | ENVIRONMENT

record condensation =
  forgotten_event_ids :: "int list option"
  forgotten_events_start_id :: "int option"
  forgotten_events_end_id :: "int option"
  summary :: "string option"
  summary_offset :: "int option"

record cmd_metadata =
  md_exit_code :: int
  md_pid :: int
  md_rest :: jdict

text \<open>Security risk and confirmation are given by their values.\<close>

datatype payload =
    BrowseURLAction string string "int option"
  | BrowseInteractiveAction string string string "int option"
  | CmdRunAction string bool string bool bool "string option" bool string "int option"
  | IPythonRunCellAction string string bool string "int option" string
  | NullAction
  | FileReadAction string int int string "int option" string "int list option"
  | FileWriteAction string string int int string "int option"
  | FileEditAction string string "string option" "string option" "string option" "int option" string int int string "int option" string
  | MCPAction string jdict string "int option"
  | MessageAction string "string list option" bool "int option"
  | SystemMessageAction string "json list option" "string option" "string option"
  | ChangeAgentStateAction string string
  | AgentFinishAction string "string option" jdict string
  | AgentThinkAction string
  | AgentRejectAction jdict string
  | AgentDelegateAction string jdict string
  | RecallAction string string string
  | CondensationAction condensation
  | AgentStateChangedObservation string string string
  | AgentCondensationObservation string
  | AgentThinkObservation string
  | RecallObservation string string jdict
  | BrowserOutputObservation string string jdict
  | CmdOutputObservation string string cmd_metadata bool
  | IPythonRunCellObservation string string "string list option"
  | AgentDelegateObservation string jdict
  | NullObservation string
  | ErrorObservation string string
  | FileReadObservation string string string
  | FileWriteObservation string string
  | FileEditObservation string string bool "string option" "string option" string "string option" "string option"
  | MCPObservation string string jdict
  | UserRejectObservation string
  | SuccessObservation string

text \<open>An unset identifier is \<open>INVALID_ID\<close>.\<close>

definition INVALID_ID :: int where
  "INVALID_ID = - 1"

record event =
  ev_id :: int
  ev_source :: "event_source option"
  ev_cause :: "int option"
  ev_timestamp :: "string option"
  ev_tool_call :: "json option"
  ev_llm_metrics :: "json option"
  ev_timeout :: "real option"
  ev_payload :: payload

definition new_event :: "payload \<Rightarrow> event" where
  "new_event p =
     \<lparr>ev_id = INVALID_ID, ev_source = None, ev_cause = None, ev_timestamp = None, ev_tool_call = None,
      ev_llm_metrics = None, ev_timeout = None, ev_payload = p\<rparr>"

text \<open>Python's \<open>==\<close> on events.\<close>

definition event_eq :: "event \<Rightarrow> event \<Rightarrow> bool" where
  "event_eq e e' \<longleftrightarrow> ev_payload e = ev_payload e'"

section \<open>Classes\<close>

fun observation_payload :: "payload \<Rightarrow> bool" where
  "observation_payload (AgentStateChangedObservation _ _ _) = True"
| "observation_payload (AgentCondensationObservation _) = True"
| "observation_payload (AgentThinkObservation _) = True"
| "observation_payload (RecallObservation _ _ _) = True"
| "observation_payload (BrowserOutputObservation _ _ _) = True"
| "observation_payload (CmdOutputObservation _ _ _ _) = True"
| "observation_payload (IPythonRunCellObservation _ _ _) = True"
| "observation_payload (AgentDelegateObservation _ _) = True"
| "observation_payload (NullObservation _) = True"
| "observation_payload (ErrorObservation _ _) = True"
| "observation_payload (FileReadObservation _ _ _) = True"
| "observation_payload (FileWriteObservation _ _) = True"
| "observation_payload (FileEditObservation _ _ _ _ _ _ _ _) = True"
| "observation_payload (MCPObservation _ _ _) = True"
| "observation_payload (UserRejectObservation _) = True"
| "observation_payload (SuccessObservation _) = True"
| "observation_payload _ = False"

definition is_observation :: "event \<Rightarrow> bool" where
  "is_observation e = observation_payload (ev_payload e)"

definition is_action :: "event \<Rightarrow> bool" where
  "is_action e = (\<not> observation_payload (ev_payload e))"

definition is_message :: "event \<Rightarrow> bool" where
  "is_message e = (case ev_payload e of MessageAction _ _ _ _ \<Rightarrow> True | _ \<Rightarrow> False)"

definition is_think :: "event \<Rightarrow> bool" where
  "is_think e = (case ev_payload e of AgentThinkAction _ \<Rightarrow> True | _ \<Rightarrow> False)"

definition is_null :: "event \<Rightarrow> bool" where
  "is_null e = (case ev_payload e of NullAction \<Rightarrow> True | NullObservation _ \<Rightarrow> True | _ \<Rightarrow> False)"

definition is_null_observation :: "event \<Rightarrow> bool" where
  "is_null_observation e = (case ev_payload e of NullObservation _ \<Rightarrow> True | _ \<Rightarrow> False)"

definition is_error :: "event \<Rightarrow> bool" where
  "is_error e = (case ev_payload e of ErrorObservation _ _ \<Rightarrow> True | _ \<Rightarrow> False)"

definition is_condensation_obs :: "event \<Rightarrow> bool" where
  "is_condensation_obs e = (case ev_payload e of AgentCondensationObservation _ \<Rightarrow> True | _ \<Rightarrow> False)"

definition is_browser_output :: "event \<Rightarrow> bool" where
  "is_browser_output e = (case ev_payload e of BrowserOutputObservation _ _ _ \<Rightarrow> True | _ \<Rightarrow> False)"

text \<open>The content of an \<open>IPythonRunCellObservation\<close>; \<open>None\<close> for other events.\<close>

definition ipython_content :: "event \<Rightarrow> string option" where
  "ipython_content e = (case ev_payload e of IPythonRunCellObservation c _ _ \<Rightarrow> Some c | _ \<Rightarrow> None)"

lemma action_or_observation: "is_action e \<longleftrightarrow> \<not> is_observation e"
  by (simp add: is_action_def is_observation_def)

lemma null_observation_null: "is_null_observation e \<Longrightarrow> is_null e"
  by (simp add: is_null_observation_def is_null_def split: payload.splits)

lemma error_is_observation: "is_error e \<Longrightarrow> is_observation e"
  by (simp add: is_error_def is_observation_def split: payload.splits)

lemma condensation_obs_is_observation: "is_condensation_obs e \<Longrightarrow> is_observation e"
  by (simp add: is_condensation_obs_def is_observation_def split: payload.splits)

lemma message_is_action: "is_message e \<Longrightarrow> is_action e"
  by (simp add: is_message_def is_action_def split: payload.splits)

section \<open>Condensation actions\<close>

definition validate_field_polymorphism :: "condensation \<Rightarrow> bool" where
  "validate_field_polymorphism c =
     (let using_event_ids = (forgotten_event_ids c \<noteq> None);
          using_event_range = (forgotten_events_start_id c \<noteq> None \<and> forgotten_events_end_id c \<noteq> None);
          summary_configuration = ((summary c = None \<and> summary_offset c = None) \<or>
            (summary c \<noteq> None \<and> summary_offset c \<noteq> None))
      in (using_event_ids \<noteq> using_event_range) \<and> summary_configuration)"

text \<open>The constructor with its check.\<close>

definition new_condensation :: "condensation \<Rightarrow> condensation result" where
  "new_condensation c =
     (if validate_field_polymorphism c then Inr c
      else Inl (ValueError ''Invalid configuration of the optional fields.''))"

definition forgotten :: "condensation \<Rightarrow> int list result" where
  "forgotten c =
     (if \<not> validate_field_polymorphism c then Inl (ValueError ''Invalid configuration of the optional fields.'')
      else
        (case forgotten_event_ids c of
           Some ids \<Rightarrow> Inr ids
         | None \<Rightarrow>
             (case (forgotten_events_start_id c, forgotten_events_end_id c) of
                (Some a, Some b) \<Rightarrow> Inr [a..b]
              | _ \<Rightarrow> Inl (AssertionError []))))"

lemma forgotten_ok: "validate_field_polymorphism c \<Longrightarrow> \<exists>ids. forgotten c = Inr ids"
  by (auto simp: forgotten_def validate_field_polymorphism_def Let_def split: option.split)

section \<open>Filters\<close>

text \<open>
  \<open>isinstance\<close> against a tuple of classes is an argument; so are the serialised text of an event
  and the lower-case conversion for the text query, which serialise all fields.
\<close>

record event_filter =
  ef_exclude_hidden :: bool
  ef_query :: "string option"
  ef_include_types :: "(event \<Rightarrow> bool) option"
  ef_exclude_types :: "(event \<Rightarrow> bool) option"
  ef_source :: "string option"
  ef_start_date :: "string option"
  ef_end_date :: "string option"

fun source_value :: "event_source \<Rightarrow> string" where
  "source_value AGENT = ''agent''"
| "source_value USER = ''user''"
| "source_value ENVIRONMENT = ''environment''"

text \<open>\<open>getattr(event, 'hidden', False)\<close>\<close>

definition hidden :: "event \<Rightarrow> bool" where
  "hidden e =
     (case ev_payload e of
        CmdRunAction _ _ _ _ _ _ h _ _ \<Rightarrow> h
      | CmdOutputObservation _ _ _ h \<Rightarrow> h
      | _ \<Rightarrow> False)"

definition set_text :: "string option \<Rightarrow> bool" where
  "set_text s \<longleftrightarrow> s \<notin> {None, Some []}"

definition filter_include :: "(string \<Rightarrow> string) \<Rightarrow> (event \<Rightarrow> string) \<Rightarrow> event_filter \<Rightarrow> event \<Rightarrow> bool" where
  "filter_include lower dump f e =
     (if (case ef_include_types f of Some p \<Rightarrow> \<not> p e | None \<Rightarrow> False) then False
      else if (case ef_exclude_types f of Some p \<Rightarrow> p e | None \<Rightarrow> False) then False
      else if set_text (ef_source f) \<and>
        (case ev_source e of None \<Rightarrow> True | Some s \<Rightarrow> Some (source_value s) \<noteq> ef_source f) then False
      else if set_text (ef_start_date f) \<and>
        (case (ev_timestamp e, ef_start_date f) of (Some t, Some d) \<Rightarrow> t < d | _ \<Rightarrow> False) then False
      else if set_text (ef_end_date f) \<and>
        (case (ev_timestamp e, ef_end_date f) of (Some t, Some d) \<Rightarrow> t > d | _ \<Rightarrow> False) then False
      else if ef_exclude_hidden f \<and> hidden e then False
      else if set_text (ef_query f) \<and>
        (case ef_query f of Some q \<Rightarrow> \<not> contains (lower q) (lower (dump e)) | None \<Rightarrow> False) then False
      else True)"

definition filter_exclude :: "(string \<Rightarrow> string) \<Rightarrow> (event \<Rightarrow> string) \<Rightarrow> event_filter \<Rightarrow> event \<Rightarrow> bool" where
  "filter_exclude lower dump f e = (\<not> filter_include lower dump f e)"

section \<open>Pairs of actions and observations\<close>

text \<open>The two maps of \<open>get_pairs_from_events\<close>, filled in order.\<close>

fun fill_maps :: "event list \<Rightarrow> (int, event) dict \<Rightarrow> (int, event) dict \<Rightarrow> (int, event) dict \<times> (int, event) dict" where
  "fill_maps [] am om = (am, om)"
| "fill_maps (e # es) am om =
     (let am' = (if is_action e then dict_set am (ev_id e) e else am);
          om' = (if is_observation e then (case ev_cause e of None \<Rightarrow> om | Some c \<Rightarrow> dict_set om c e) else om)
      in fill_maps es am' om')"

definition get_pairs_from_events :: "event list \<Rightarrow> (event \<times> event) list" where
  "get_pairs_from_events events =
     (case fill_maps events [] [] of
        (action_map, observation_map) \<Rightarrow>
          map (\<lambda>(action_id, action).
                 (action, case dict_get observation_map action_id of
                            Some ob \<Rightarrow> ob
                          | None \<Rightarrow> new_event (NullObservation [])))
              action_map @
          map (\<lambda>(cause_id, ob). (new_event NullAction, ob))
              (filter (\<lambda>(cause_id, ob). dict_get action_map cause_id = None \<and> \<not> is_null_observation ob)
                 observation_map))"

lemma dict_set_new: "k \<notin> fst ` set d \<Longrightarrow> dict_set d k v = d @ [(k, v)]"
  by (induction d k v rule: dict_set.induct) auto

lemma map_of_find: "map_of (map (\<lambda>x. (f x, x)) xs) k = find (\<lambda>x. f x = k) xs"
  by (induction xs) auto

text \<open>The observations of a history that name a cause.\<close>

abbreviation caused :: "event list \<Rightarrow> event list" where
  "caused es \<equiv> filter (\<lambda>e. is_observation e \<and> ev_cause e \<noteq> None) es"

abbreviation cause_id :: "event \<Rightarrow> int" where
  "cause_id e \<equiv> the (ev_cause e)"

lemma fill_maps_eq:
  "distinct (map ev_id (A @ filter is_action es)) \<Longrightarrow> distinct (map cause_id (B @ caused es)) \<Longrightarrow>
   fill_maps es (map (\<lambda>a. (ev_id a, a)) A) (map (\<lambda>b. (cause_id b, b)) B) =
     (map (\<lambda>a. (ev_id a, a)) (A @ filter is_action es), map (\<lambda>b. (cause_id b, b)) (B @ caused es))"
proof (induction es arbitrary: A B)
  case (Cons e es)
  have set_new: "dict_set (map (\<lambda>a. (f a, a)) A) (f e) e = map (\<lambda>a. (f a, a)) (A @ [e])"
    if "f e \<notin> f ` set A" for f :: "event \<Rightarrow> int" and A
    using that by (subst dict_set_new) force+
  show ?case
  proof (cases "is_action e")
    case True
    then have "ev_id e \<notin> ev_id ` set A" using Cons.prems(1) by auto
    with True Cons.IH [of "A @ [e]" B] Cons.prems set_new [of ev_id A] show ?thesis
      by (simp add: action_or_observation)
  next
    case False
    then have o: "is_observation e" by (simp add: action_or_observation)
    show ?thesis
    proof (cases "ev_cause e")
      case None
      with False o Cons.IH [of A B] Cons.prems show ?thesis by simp
    next
      case (Some c)
      then have "cause_id e \<notin> cause_id ` set B" using Cons.prems(2) o by auto
      with False o Some Cons.IH [of A "B @ [e]"] Cons.prems set_new [of cause_id B] show ?thesis by simp
    qed
  qed
qed simp

text \<open>
  Pairing: when no two actions have the same identifier and no two observations the
  same cause, every action occurs exactly once, in order, with the observation it caused or with
  a null observation; then follow the observations, other than null ones, whose cause is not an
  action of the list, each with a null action.
\<close>

theorem pairs_complete:
  assumes "distinct (map ev_id (filter is_action es))" and "distinct (map cause_id (caused es))"
  shows "get_pairs_from_events es =
    map (\<lambda>a. (a, case find (\<lambda>b. cause_id b = ev_id a) (caused es) of
                   Some b \<Rightarrow> b | None \<Rightarrow> new_event (NullObservation []))) (filter is_action es) @
    map (\<lambda>b. (new_event NullAction, b))
      (filter (\<lambda>b. cause_id b \<notin> ev_id ` set (filter is_action es) \<and> \<not> is_null_observation b) (caused es))"
proof -
  have "fill_maps es [] [] = (map (\<lambda>a. (ev_id a, a)) (filter is_action es), map (\<lambda>b. (cause_id b, b)) (caused es))"
    using fill_maps_eq [of "[]" es "[]"] assms by simp
  moreover have "dict_get (map (\<lambda>a. (ev_id a, a)) (filter is_action es)) k = None \<longleftrightarrow> k \<notin> ev_id ` set (filter is_action es)" for k
    by (force simp: dict_get_None_iff)
  ultimately show ?thesis
    by (simp add: get_pairs_from_events_def filter_map o_def dict_get_def map_of_find)
qed

theorem pairs_complete_witness:
  "get_pairs_from_events
     [(new_event (AgentThinkAction ''a''))\<lparr>ev_id := 0\<rparr>, (new_event (ErrorObservation ''b'' []))\<lparr>ev_id := 1, ev_cause := Some 0\<rparr>,
      (new_event (SuccessObservation ''c''))\<lparr>ev_id := 2, ev_cause := Some 7\<rparr>] =
     [((new_event (AgentThinkAction ''a''))\<lparr>ev_id := 0\<rparr>, (new_event (ErrorObservation ''b'' []))\<lparr>ev_id := 1, ev_cause := Some 0\<rparr>),
      (new_event NullAction, (new_event (SuccessObservation ''c''))\<lparr>ev_id := 2, ev_cause := Some 7\<rparr>)]"
  by (subst pairs_complete)
    (simp_all add: is_action_def is_observation_def is_null_observation_def new_event_def)

end
