(* ===== verification/Serialization.thy ===== *)
theory Serialization
  imports Events
begin

text \<open>
  \<^verbatim>\<open>openhands/events/serialization\<close>: events as dictionaries and back.

  Dictionaries are JSON objects. The metadata of a tool call and the metrics are kept as their
  dumps; reading a dump back is an argument, as are the rendering of JSON values in messages and
  the evaluation of literals (\<open>codec\<close>). The data classes do not check the types of their fields;
  the typed payloads cannot hold values of other types, which are an error of the model
  (\<open>ill_typed\<close>).
\<close>

record codec =
  cd_render :: "json \<Rightarrow> string"
  cd_version :: string
  cd_literal_eval :: "string \<Rightarrow> jdict option"
  cd_tool_call :: "json \<Rightarrow> json result"
  cd_metrics :: "json \<Rightarrow> json"

section \<open>Values of fields\<close>

definition ill_typed :: py_error where
  "ill_typed = OtherException ''ill-typed field''"

definition malformed :: "string \<Rightarrow> py_error" where
  "malformed msg = OtherException (''LLMMalformedActionError: '' @ msg)"

fun as_str :: "json \<Rightarrow> string result" where
  "as_str (JStr s) = Inr s"
| "as_str _ = Inl ill_typed"

fun as_int :: "json \<Rightarrow> int result" where
  "as_int (JInt i) = Inr i"
| "as_int _ = Inl ill_typed"

fun as_bool :: "json \<Rightarrow> bool result" where
  "as_bool (JBool b) = Inr b"
| "as_bool _ = Inl ill_typed"

fun as_dict :: "json \<Rightarrow> jdict result" where
  "as_dict (JObj d) = Inr d"
| "as_dict _ = Inl ill_typed"

fun as_list :: "json \<Rightarrow> json list result" where
  "as_list (JList l) = Inr l"
| "as_list _ = Inl ill_typed"

fun all_results :: "'a result list \<Rightarrow> 'a list result" where
  "all_results [] = Inr []"
| "all_results (r # rs) = bind_result r (\<lambda>x. bind_result (all_results rs) (\<lambda>xs. Inr (x # xs)))"

definition as_opt :: "(json \<Rightarrow> 'a result) \<Rightarrow> json \<Rightarrow> 'a option result" where
  "as_opt f j = (if j = JNull then Inr None else bind_result (f j) (\<lambda>x. Inr (Some x)))"

definition as_list_of :: "(json \<Rightarrow> 'a result) \<Rightarrow> json \<Rightarrow> 'a list result" where
  "as_list_of f j = bind_result (as_list j) (\<lambda>l. all_results (map f l))"

definition js_opt :: "('a \<Rightarrow> json) \<Rightarrow> 'a option \<Rightarrow> json" where
  "js_opt f x = (case x of None \<Rightarrow> JNull | Some y \<Rightarrow> f y)"

definition js_strs :: "string list \<Rightarrow> json" where
  "js_strs l = JList (map JStr l)"

definition js_ints :: "int list \<Rightarrow> json" where
  "js_ints l = JList (map JInt l)"

text \<open>\<open>f\<close> on the value of a field.\<close>

definition field_str :: "(string \<Rightarrow> json) \<Rightarrow> string \<Rightarrow> (string \<Rightarrow> 'b result) \<Rightarrow> 'b result" where
  "field_str g k f = bind_result (as_str (g k)) f"

definition field_int :: "(string \<Rightarrow> json) \<Rightarrow> string \<Rightarrow> (int \<Rightarrow> 'b result) \<Rightarrow> 'b result" where
  "field_int g k f = bind_result (as_int (g k)) f"

definition field_bool :: "(string \<Rightarrow> json) \<Rightarrow> string \<Rightarrow> (bool \<Rightarrow> 'b result) \<Rightarrow> 'b result" where
  "field_bool g k f = bind_result (as_bool (g k)) f"

definition field_dict :: "(string \<Rightarrow> json) \<Rightarrow> string \<Rightarrow> (jdict \<Rightarrow> 'b result) \<Rightarrow> 'b result" where
  "field_dict g k f = bind_result (as_dict (g k)) f"

definition field_opt_str :: "(string \<Rightarrow> json) \<Rightarrow> string \<Rightarrow> (string option \<Rightarrow> 'b result) \<Rightarrow> 'b result" where
  "field_opt_str g k f = bind_result (as_opt as_str (g k)) f"

definition field_opt_int :: "(string \<Rightarrow> json) \<Rightarrow> string \<Rightarrow> (int option \<Rightarrow> 'b result) \<Rightarrow> 'b result" where
  "field_opt_int g k f = bind_result (as_opt as_int (g k)) f"

definition field_opt_strs :: "(string \<Rightarrow> json) \<Rightarrow> string \<Rightarrow> (string list option \<Rightarrow> 'b result) \<Rightarrow> 'b result" where
  "field_opt_strs g k f = bind_result (as_opt (as_list_of as_str) (g k)) f"

definition field_opt_ints :: "(string \<Rightarrow> json) \<Rightarrow> string \<Rightarrow> (int list option \<Rightarrow> 'b result) \<Rightarrow> 'b result" where
  "field_opt_ints g k f = bind_result (as_opt (as_list_of as_int) (g k)) f"

definition field_opt_list :: "(string \<Rightarrow> json) \<Rightarrow> string \<Rightarrow> (json list option \<Rightarrow> 'b result) \<Rightarrow> 'b result" where
  "field_opt_list g k f = bind_result (as_opt as_list (g k)) f"

lemmas field_defs = field_str_def field_int_def field_bool_def field_dict_def field_opt_str_def
  field_opt_int_def field_opt_strs_def field_opt_ints_def field_opt_list_def

section \<open>Fields of the classes\<close>

text \<open>
  The fields with their defaults (\<open>None\<close> for a required field), by the name of the class,
  without the field that holds the name.
\<close>

type_synonym class_fields = "(string \<times> json option) list"

abbreviation required :: "string \<Rightarrow> string \<times> json option" where
  "required k \<equiv> (k, None)"

abbreviation text_field :: "string \<Rightarrow> string \<times> json option" where
  "text_field k \<equiv> (k, Some (JStr []))"

abbreviation optional :: "string \<Rightarrow> string \<times> json option" where
  "optional k \<equiv> (k, Some JNull)"

abbreviation flag :: "string \<Rightarrow> bool \<Rightarrow> string \<times> json option" where
  "flag k b \<equiv> (k, Some (JBool b))"

abbreviation number :: "string \<Rightarrow> int \<Rightarrow> string \<times> json option" where
  "number k i \<equiv> (k, Some (JInt i))"

abbreviation table :: "string \<Rightarrow> string \<times> json option" where
  "table k \<equiv> (k, Some (JObj []))"

definition ACTION_TYPE_TO_CLASS :: "string \<Rightarrow> (string, class_fields) dict" where
  "ACTION_TYPE_TO_CLASS version =
     [(''null'', []),
      (''run'', [required ''command'', flag ''is_input'' False, text_field ''thought'', flag ''blocking'' False,
         flag ''is_static'' False, optional ''cwd'', flag ''hidden'' False,
         (''confirmation_state'', Some (JStr ''confirmed'')), optional ''security_risk'']),
      (''run_ipython'', [required ''code'', text_field ''thought'', flag ''include_extra'' True,
         (''confirmation_state'', Some (JStr ''confirmed'')), optional ''security_risk'', text_field ''kernel_init_code'']),
      (''browse'', [required ''url'', text_field ''thought'', optional ''security_risk'']),
      (''browse_interactive'', [required ''browser_actions'', text_field ''thought'',
         text_field ''browsergym_send_msg_to_user'', optional ''security_risk'']),
      (''read'', [required ''path'', number ''start'' 0, number ''end'' (- 1), text_field ''thought'',
         optional ''security_risk'', (''impl_source'', Some (JStr ''default'')), optional ''view_range'']),
      (''write'', [required ''path'', required ''content'', number ''start'' 0, number ''end'' (- 1), text_field ''thought'',
         optional ''security_risk'']),
      (''edit'', [required ''path'', text_field ''command'', optional ''file_text'', optional ''old_str'', optional ''new_str'',
         optional ''insert_line'', text_field ''content'', number ''start'' 1, number ''end'' (- 1), text_field ''thought'',
         optional ''security_risk'', (''impl_source'', Some (JStr ''oh_aci''))]),
      (''think'', [text_field ''thought'']),
      (''finish'', [text_field ''final_thought'', optional ''task_completed'', table ''outputs'', text_field ''thought'']),
      (''reject'', [table ''outputs'', text_field ''thought'']),
      (''delegate'', [required ''agent'', required ''inputs'', text_field ''thought'']),
      (''recall'', [required ''recall_type'', text_field ''query'', text_field ''thought'']),
      (''change_agent_state'', [required ''agent_state'', text_field ''thought'']),
      (''message'', [required ''content'', optional ''image_urls'', flag ''wait_for_response'' False, optional ''security_risk'']),
      (''system'', [required ''content'', optional ''tools'', (''openhands_version'', Some (JStr version)), optional ''agent_class'']),
      (''condensation'', [optional ''forgotten_event_ids'', optional ''forgotten_events_start_id'',
         optional ''forgotten_events_end_id'', optional ''summary'', optional ''summary_offset'']),
      (''call_tool_mcp'', [required ''name'', table ''arguments'', text_field ''thought'', optional ''security_risk''])]"

definition METADATA_FIELDS :: class_fields where
  "METADATA_FIELDS =
     [optional ''username'', optional ''hostname'', optional ''working_dir'', optional ''py_interpreter_path'',
      text_field ''prefix'', text_field ''suffix'']"

definition RECALL_FIELDS :: class_fields where
  "RECALL_FIELDS =
     [text_field ''repo_name'', text_field ''repo_directory'', text_field ''repo_instructions'', table ''runtime_hosts'',
      text_field ''additional_agent_instructions'', text_field ''date'', table ''custom_secrets_descriptions'',
      text_field ''conversation_instructions'', (''microagent_knowledge'', Some (JList []))]"

definition BROWSER_FIELDS :: class_fields where
  "BROWSER_FIELDS =
     [required ''trigger_by_action'', text_field ''screenshot'', optional ''screenshot_path'', text_field ''set_of_marks'',
      flag ''error'' False, (''goal_image_urls'', Some (JList [])), (''open_pages_urls'', Some (JList [])),
      number ''active_page_index'' (- 1), table ''dom_object'', table ''axtree_object'', table ''extra_element_properties'',
      text_field ''last_browser_action'', text_field ''last_browser_action_error'', text_field ''focused_element_bid'']"

definition OBSERVATION_TYPE_TO_CLASS :: "(string, class_fields) dict" where
  "OBSERVATION_TYPE_TO_CLASS =
     [(''null'', []),
      (''run'', [required ''command'', optional ''metadata'', flag ''hidden'' False]),
      (''run_ipython'', [required ''code'', optional ''image_urls'']),
      (''browse'', required ''url'' # BROWSER_FIELDS),
      (''read'', [required ''path'', (''impl_source'', Some (JStr ''default''))]),
      (''write'', [required ''path'']),
      (''edit'', [text_field ''path'', flag ''prev_exist'' False, optional ''old_content'', optional ''new_content'',
         (''impl_source'', Some (JStr ''llm_based_edit'')), optional ''diff'', optional ''_diff_cache'']),
      (''delegate'', [required ''outputs'']),
      (''success'', []),
      (''error'', [text_field ''error_id'']),
      (''agent_state_changed'', [required ''agent_state'', text_field ''reason'']),
      (''user_rejected'', []),
      (''condense'', []),
      (''think'', []),
      (''recall'', required ''recall_type'' # RECALL_FIELDS),
      (''mcp'', [text_field ''name'', table ''arguments''])]"

text \<open>\<open>cls(**args)\<close>: an unexpected or a missing argument is a type error.\<close>

definition missing :: "class_fields \<Rightarrow> jdict \<Rightarrow> bool" where
  "missing fs args = list_ex (\<lambda>(k, d). d = None \<and> dict_get args k = None) fs"

definition unexpected :: "string list \<Rightarrow> class_fields \<Rightarrow> jdict \<Rightarrow> bool" where
  "unexpected extra fs args = list_ex (\<lambda>(k, _). k \<notin> set (extra @ map fst fs)) args"

definition value_of :: "class_fields \<Rightarrow> jdict \<Rightarrow> string \<Rightarrow> json" where
  "value_of fs args k =
     (case dict_get args k of
        Some v \<Rightarrow> v
      | None \<Rightarrow> (case dict_get fs k of Some (Some d) \<Rightarrow> d | _ \<Rightarrow> JNull))"

text \<open>The values of a list of fields, in order.\<close>

definition fill_fields :: "class_fields \<Rightarrow> jdict \<Rightarrow> jdict" where
  "fill_fields fs args = map (\<lambda>(k, _). (k, value_of fs args k)) fs"

section \<open>From payloads to fields\<close>

definition metadata_dump :: "cmd_metadata \<Rightarrow> jdict" where
  "metadata_dump m = (''exit_code'', JInt (md_exit_code m)) # (''pid'', JInt (md_pid m)) # md_rest m"

text \<open>The value of \<open>action\<close> or \<open>observation\<close>, and the other fields as \<open>asdict\<close> gives them.\<close>

fun type_name :: "payload \<Rightarrow> string" where
  "type_name (BrowseURLAction _ _ _) = ''browse''"
| "type_name (BrowseInteractiveAction _ _ _ _) = ''browse_interactive''"
| "type_name (CmdRunAction _ _ _ _ _ _ _ _ _) = ''run''"
| "type_name (IPythonRunCellAction _ _ _ _ _ _) = ''run_ipython''"
| "type_name NullAction = ''null''"
| "type_name (FileReadAction _ _ _ _ _ _ _) = ''read''"
| "type_name (FileWriteAction _ _ _ _ _ _) = ''write''"
| "type_name (FileEditAction _ _ _ _ _ _ _ _ _ _ _ _) = ''edit''"
| "type_name (MCPAction _ _ _ _) = ''call_tool_mcp''"
| "type_name (MessageAction _ _ _ _) = ''message''"
| "type_name (SystemMessageAction _ _ _ _) = ''system''"
| "type_name (ChangeAgentStateAction _ _) = ''change_agent_state''"
| "type_name (AgentFinishAction _ _ _ _) = ''finish''"
| "type_name (AgentThinkAction _) = ''think''"
| "type_name (AgentRejectAction _ _) = ''reject''"
| "type_name (AgentDelegateAction _ _ _) = ''delegate''"
| "type_name (RecallAction _ _ _) = ''recall''"
| "type_name (CondensationAction _) = ''condensation''"
| "type_name (AgentStateChangedObservation _ _ _) = ''agent_state_changed''"
| "type_name (AgentCondensationObservation _) = ''condense''"
| "type_name (AgentThinkObservation _) = ''think''"
| "type_name (RecallObservation _ _ _) = ''recall''"
| "type_name (BrowserOutputObservation _ _ _) = ''browse''"
| "type_name (CmdOutputObservation _ _ _ _) = ''run''"
| "type_name (IPythonRunCellObservation _ _ _) = ''run_ipython''"
| "type_name (AgentDelegateObservation _ _) = ''delegate''"
| "type_name (NullObservation _) = ''null''"
| "type_name (ErrorObservation _ _) = ''error''"
| "type_name (FileReadObservation _ _ _) = ''read''"
| "type_name (FileWriteObservation _ _) = ''write''"
| "type_name (FileEditObservation _ _ _ _ _ _ _ _) = ''edit''"
| "type_name (MCPObservation _ _ _) = ''mcp''"
| "type_name (UserRejectObservation _) = ''user_rejected''"
| "type_name (SuccessObservation _) = ''success''"

fun asdict_fields :: "payload \<Rightarrow> jdict" where
  "asdict_fields (BrowseURLAction url thought risk) =
     [(''url'', JStr url), (''thought'', JStr thought), (''security_risk'', js_opt JInt risk)]"
| "asdict_fields (BrowseInteractiveAction acts thought msg risk) =
     [(''browser_actions'', JStr acts), (''thought'', JStr thought), (''browsergym_send_msg_to_user'', JStr msg),
      (''security_risk'', js_opt JInt risk)]"
| "asdict_fields (CmdRunAction cmd inp thought blocking static cwd hid conf risk) =
     [(''command'', JStr cmd), (''is_input'', JBool inp), (''thought'', JStr thought), (''blocking'', JBool blocking),
      (''is_static'', JBool static), (''cwd'', js_opt JStr cwd), (''hidden'', JBool hid),
      (''confirmation_state'', JStr conf), (''security_risk'', js_opt JInt risk)]"
| "asdict_fields (IPythonRunCellAction code thought ext conf risk init_code) =
     [(''code'', JStr code), (''thought'', JStr thought), (''include_extra'', JBool ext), (''confirmation_state'', JStr conf),
      (''security_risk'', js_opt JInt risk), (''kernel_init_code'', JStr init_code)]"
| "asdict_fields NullAction = []"
| "asdict_fields (FileReadAction path start stop thought risk impl rng) =
     [(''path'', JStr path), (''start'', JInt start), (''end'', JInt stop), (''thought'', JStr thought),
      (''security_risk'', js_opt JInt risk), (''impl_source'', JStr impl), (''view_range'', js_opt js_ints rng)]"
| "asdict_fields (FileWriteAction path content start stop thought risk) =
     [(''path'', JStr path), (''content'', JStr content), (''start'', JInt start), (''end'', JInt stop),
      (''thought'', JStr thought), (''security_risk'', js_opt JInt risk)]"
| "asdict_fields (FileEditAction path cmd filetext old new line content start stop thought risk impl) =
     [(''path'', JStr path), (''command'', JStr cmd), (''file_text'', js_opt JStr filetext), (''old_str'', js_opt JStr old),
      (''new_str'', js_opt JStr new), (''insert_line'', js_opt JInt line), (''content'', JStr content),
      (''start'', JInt start), (''end'', JInt stop), (''thought'', JStr thought), (''security_risk'', js_opt JInt risk),
      (''impl_source'', JStr impl)]"
| "asdict_fields (MCPAction name args thought risk) =
     [(''name'', JStr name), (''arguments'', JObj args), (''thought'', JStr thought), (''security_risk'', js_opt JInt risk)]"
| "asdict_fields (MessageAction content urls wait risk) =
     [(''content'', JStr content), (''image_urls'', js_opt js_strs urls), (''wait_for_response'', JBool wait),
      (''security_risk'', js_opt JInt risk)]"
| "asdict_fields (SystemMessageAction content tools version cls) =
     [(''content'', JStr content), (''tools'', js_opt JList tools), (''openhands_version'', js_opt JStr version),
      (''agent_class'', js_opt JStr cls)]"
| "asdict_fields (ChangeAgentStateAction st thought) = [(''agent_state'', JStr st), (''thought'', JStr thought)]"
| "asdict_fields (AgentFinishAction final completed outputs thought) =
     [(''final_thought'', JStr final), (''task_completed'', js_opt JStr completed), (''outputs'', JObj outputs),
      (''thought'', JStr thought)]"
| "asdict_fields (AgentThinkAction thought) = [(''thought'', JStr thought)]"
| "asdict_fields (AgentRejectAction outputs thought) = [(''outputs'', JObj outputs), (''thought'', JStr thought)]"
| "asdict_fields (AgentDelegateAction agent inputs thought) =
     [(''agent'', JStr agent), (''inputs'', JObj inputs), (''thought'', JStr thought)]"
| "asdict_fields (RecallAction kind query thought) =
     [(''recall_type'', JStr kind), (''query'', JStr query), (''thought'', JStr thought)]"
| "asdict_fields (CondensationAction c) =
     [(''forgotten_event_ids'', js_opt js_ints (forgotten_event_ids c)),
      (''forgotten_events_start_id'', js_opt JInt (forgotten_events_start_id c)),
      (''forgotten_events_end_id'', js_opt JInt (forgotten_events_end_id c)),
      (''summary'', js_opt JStr (summary c)), (''summary_offset'', js_opt JInt (summary_offset c))]"
| "asdict_fields (AgentStateChangedObservation content st reason) =
     [(''content'', JStr content), (''agent_state'', JStr st), (''reason'', JStr reason)]"
| "asdict_fields (AgentCondensationObservation content) = [(''content'', JStr content)]"
| "asdict_fields (AgentThinkObservation content) = [(''content'', JStr content)]"
| "asdict_fields (RecallObservation content kind fs) = (''content'', JStr content) # (''recall_type'', JStr kind) # fs"
| "asdict_fields (BrowserOutputObservation content url fs) = (''content'', JStr content) # (''url'', JStr url) # fs"
| "asdict_fields (CmdOutputObservation content cmd md hid) =
     [(''content'', JStr content), (''command'', JStr cmd), (''metadata'', JObj (metadata_dump md)), (''hidden'', JBool hid)]"
| "asdict_fields (IPythonRunCellObservation content code urls) =
     [(''content'', JStr content), (''code'', JStr code), (''image_urls'', js_opt js_strs urls)]"
| "asdict_fields (AgentDelegateObservation content outputs) = [(''content'', JStr content), (''outputs'', JObj outputs)]"
| "asdict_fields (NullObservation content) = [(''content'', JStr content)]"
| "asdict_fields (ErrorObservation content err) = [(''content'', JStr content), (''error_id'', JStr err)]"
| "asdict_fields (FileReadObservation content path impl) =
     [(''content'', JStr content), (''path'', JStr path), (''impl_source'', JStr impl)]"
| "asdict_fields (FileWriteObservation content path) = [(''content'', JStr content), (''path'', JStr path)]"
| "asdict_fields (FileEditObservation content path prev old new impl df cache) =
     [(''content'', JStr content), (''path'', JStr path), (''prev_exist'', JBool prev), (''old_content'', js_opt JStr old),
      (''new_content'', js_opt JStr new), (''impl_source'', JStr impl), (''diff'', js_opt JStr df),
      (''_diff_cache'', js_opt JStr cache)]"
| "asdict_fields (MCPObservation content name args) =
     [(''content'', JStr content), (''name'', JStr name), (''arguments'', JObj args)]"
| "asdict_fields (UserRejectObservation content) = [(''content'', JStr content)]"
| "asdict_fields (SuccessObservation content) = [(''content'', JStr content)]"

text \<open>The property \<open>message\<close> of the classes.\<close>

definition list_str :: "int list \<Rightarrow> string" where
  "list_str is = ''['' @ join_with '', '' (map str_int is) @ '']''"

fun event_message :: "(json \<Rightarrow> string) \<Rightarrow> payload \<Rightarrow> string result" where
  "event_message R (BrowseURLAction url _ _) = Inr (''I am browsing the URL: '' @ url)"
| "event_message R (BrowseInteractiveAction acts _ _ _) =
     Inr (''I am interacting with the browser:'' @ [newline] @ ''```'' @ [newline] @ acts @ [newline] @ ''```'')"
| "event_message R (CmdRunAction cmd _ _ _ _ _ _ _ _) = Inr (''Running command: '' @ cmd)"
| "event_message R (IPythonRunCellAction code _ _ _ _ _) = Inr (''Running Python code interactively: '' @ code)"
| "event_message R NullAction = Inr ''No action''"
| "event_message R (FileReadAction path _ _ _ _ _ _) = Inr (''Reading file: '' @ path)"
| "event_message R (FileWriteAction path _ _ _ _ _) = Inr (''Writing file: '' @ path)"
| "event_message R (FileEditAction _ _ _ _ _ _ _ _ _ _ _ _) = Inr []"
| "event_message R (MCPAction name args _ _) =
     Inr (''I am interacting with the MCP server with name:'' @ [newline] @ ''```'' @ [newline] @ name @ [newline] @
          ''```'' @ [newline] @ ''and arguments:'' @ [newline] @ ''```'' @ [newline] @ R (JObj args) @ [newline] @ ''```'')"
| "event_message R (MessageAction content _ _ _) = Inr content"
| "event_message R (SystemMessageAction content _ _ _) = Inr content"
| "event_message R (ChangeAgentStateAction st _) = Inr (''Agent state changed to '' @ st)"
| "event_message R (AgentFinishAction _ _ _ thought) =
     Inr (if thought \<noteq> [] then thought else ''All done! What's next on the agenda?'')"
| "event_message R (AgentThinkAction thought) = Inr (''I am thinking...: '' @ thought)"
| "event_message R (AgentRejectAction outputs _) =
     (case dict_get outputs ''reason'' of
        None \<Rightarrow> Inr ''Task is rejected by the agent.''
      | Some (JStr reason) \<Rightarrow> Inr (''Task is rejected by the agent. Reason: '' @ reason)
      | Some _ \<Rightarrow> Inl (TypeError ''can only concatenate str''))"
| "event_message R (AgentDelegateAction agent _ _) = Inr (''I'm asking '' @ agent @ '' for help with this task.'')"
| "event_message R (RecallAction _ query _) = Inr (''Retrieving content for: '' @ take 50 query)"
| "event_message R (CondensationAction c) =
     (case summary c of
        Some (x # xs) \<Rightarrow> Inr (''Summary: '' @ x # xs)
      | _ \<Rightarrow> bind_result (forgotten c) (\<lambda>ids. Inr (''Condenser is dropping the events: '' @ list_str ids @ ''.'')))"
| "event_message R (AgentStateChangedObservation _ _ _) = Inr []"
| "event_message R (AgentCondensationObservation content) = Inr content"
| "event_message R (AgentThinkObservation content) = Inr content"
| "event_message R (RecallObservation _ kind _) =
     Inr (if kind = ''workspace_context'' then ''Added workspace context'' else ''Added microagent knowledge'')"
| "event_message R (BrowserOutputObservation _ url _) = Inr (''Visited '' @ url)"
| "event_message R (CmdOutputObservation _ cmd md _) =
     Inr (''Command `'' @ cmd @ ''` executed with exit code '' @ str_int (md_exit_code md) @ ''.'')"
| "event_message R (IPythonRunCellObservation _ _ _) = Inr ''Code executed in IPython cell.''"
| "event_message R (AgentDelegateObservation _ _) = Inr []"
| "event_message R (NullObservation _) = Inr ''No observation''"
| "event_message R (ErrorObservation content _) = Inr content"
| "event_message R (FileReadObservation _ path _) = Inr (''I read the file '' @ path @ ''.'')"
| "event_message R (FileWriteObservation _ path) = Inr (''I wrote to the file '' @ path @ ''.'')"
| "event_message R (FileEditObservation _ path _ _ _ _ _ _) = Inr (''I edited the file '' @ path @ ''.'')"
| "event_message R (MCPObservation content _ _) = Inr content"
| "event_message R (UserRejectObservation content) = Inr content"
| "event_message R (SuccessObservation content) = Inr content"

definition has_success :: "payload \<Rightarrow> bool option" where
  "has_success p =
     (case p of
        CmdOutputObservation _ _ md _ \<Rightarrow> Some (md_exit_code md = 0)
      | IPythonRunCellObservation _ _ _ \<Rightarrow> Some True
      | _ \<Rightarrow> None)"

definition key_if :: "string \<Rightarrow> json option \<Rightarrow> jdict" where
  "key_if k v = (case v of None \<Rightarrow> [] | Some j \<Rightarrow> [(k, j)])"

text \<open>The loop over \<open>TOP_KEYS\<close>, then the arguments or the extras.\<close>

definition event_to_dict :: "codec \<Rightarrow> event \<Rightarrow> jdict result" where
  "event_to_dict C e =
     bind_result (event_message (cd_render C) (ev_payload e)) (\<lambda>msg.
       let p = ev_payload e;
           top = key_if ''id'' (if ev_id e = - 1 then None else Some (JInt (ev_id e))) @
             key_if ''timestamp'' (map_option JStr (ev_timestamp e)) @
             key_if ''source'' (map_option (\<lambda>s. JStr (source_value s)) (ev_source e)) @
             [(''message'', JStr msg)] @
             key_if ''cause'' (map_option JInt (ev_cause e)) @
             [(if observation_payload p then ''observation'' else ''action'', JStr (type_name p))] @
             key_if ''tool_call_metadata'' (ev_tool_call e) @
             key_if ''llm_metrics'' (ev_llm_metrics e);
           props = filter (\<lambda>kv. kv \<noteq> (''security_risk'', JNull)) (asdict_fields p)
       in Inr (if \<not> observation_payload p
               then top @ [(''args'', JObj props)] @ key_if ''timeout'' (map_option JFloat (ev_timeout e))
               else top @ [(''content'', dict_get_default props ''content'' (JStr [])), (''extras'', JObj (dict_del props ''content''))] @
                 key_if ''success'' (map_option JBool (has_success p))))"

section \<open>From fields to payloads\<close>

definition build_action :: "string \<Rightarrow> (string \<Rightarrow> json) \<Rightarrow> payload result" where
  "build_action t g =
     (if t = ''null'' then Inr NullAction
      else if t = ''run'' then
        field_str g ''command'' (\<lambda>cmd. field_bool g ''is_input'' (\<lambda>inp. field_str g ''thought'' (\<lambda>th.
        field_bool g ''blocking'' (\<lambda>bl. field_bool g ''is_static'' (\<lambda>st. field_opt_str g ''cwd'' (\<lambda>cwd.
        field_bool g ''hidden'' (\<lambda>hid. field_str g ''confirmation_state'' (\<lambda>conf. field_opt_int g ''security_risk'' (\<lambda>risk.
          Inr (CmdRunAction cmd inp th bl st cwd hid conf risk))))))))))
      else if t = ''run_ipython'' then
        field_str g ''code'' (\<lambda>code. field_str g ''thought'' (\<lambda>th. field_bool g ''include_extra'' (\<lambda>ext.
        field_str g ''confirmation_state'' (\<lambda>conf. field_opt_int g ''security_risk'' (\<lambda>risk.
        field_str g ''kernel_init_code'' (\<lambda>k. Inr (IPythonRunCellAction code th ext conf risk k)))))))
      else if t = ''browse'' then
        field_str g ''url'' (\<lambda>url. field_str g ''thought'' (\<lambda>th. field_opt_int g ''security_risk'' (\<lambda>risk.
          Inr (BrowseURLAction url th risk))))
      else if t = ''browse_interactive'' then
        field_str g ''browser_actions'' (\<lambda>a. field_str g ''thought'' (\<lambda>th. field_str g ''browsergym_send_msg_to_user'' (\<lambda>m.
        field_opt_int g ''security_risk'' (\<lambda>risk. Inr (BrowseInteractiveAction a th m risk)))))
      else if t = ''read'' then
        field_str g ''path'' (\<lambda>path. field_int g ''start'' (\<lambda>s. field_int g ''end'' (\<lambda>e. field_str g ''thought'' (\<lambda>th.
        field_opt_int g ''security_risk'' (\<lambda>risk. field_str g ''impl_source'' (\<lambda>impl. field_opt_ints g ''view_range'' (\<lambda>r.
          Inr (FileReadAction path s e th risk impl r))))))))
      else if t = ''write'' then
        field_str g ''path'' (\<lambda>path. field_str g ''content'' (\<lambda>c. field_int g ''start'' (\<lambda>s. field_int g ''end'' (\<lambda>e.
        field_str g ''thought'' (\<lambda>th. field_opt_int g ''security_risk'' (\<lambda>risk. Inr (FileWriteAction path c s e th risk)))))))
      else if t = ''edit'' then
        field_str g ''path'' (\<lambda>path. field_str g ''command'' (\<lambda>cmd. field_opt_str g ''file_text'' (\<lambda>ft.
        field_opt_str g ''old_str'' (\<lambda>old. field_opt_str g ''new_str'' (\<lambda>new. field_opt_int g ''insert_line'' (\<lambda>line.
        field_str g ''content'' (\<lambda>c. field_int g ''start'' (\<lambda>s. field_int g ''end'' (\<lambda>e. field_str g ''thought'' (\<lambda>th.
        field_opt_int g ''security_risk'' (\<lambda>risk. field_str g ''impl_source'' (\<lambda>impl.
          Inr (FileEditAction path cmd ft old new line c s e th risk impl)))))))))))))
      else if t = ''think'' then field_str g ''thought'' (\<lambda>th. Inr (AgentThinkAction th))
      else if t = ''finish'' then
        field_str g ''final_thought'' (\<lambda>f. field_opt_str g ''task_completed'' (\<lambda>c. field_dict g ''outputs'' (\<lambda>out.
        field_str g ''thought'' (\<lambda>th. Inr (AgentFinishAction f c out th)))))
      else if t = ''reject'' then
        field_dict g ''outputs'' (\<lambda>out. field_str g ''thought'' (\<lambda>th. Inr (AgentRejectAction out th)))
      else if t = ''delegate'' then
        field_str g ''agent'' (\<lambda>a. field_dict g ''inputs'' (\<lambda>inp. field_str g ''thought'' (\<lambda>th. Inr (AgentDelegateAction a inp th))))
      else if t = ''recall'' then
        field_str g ''recall_type'' (\<lambda>k. field_str g ''query'' (\<lambda>q. field_str g ''thought'' (\<lambda>th. Inr (RecallAction k q th))))
      else if t = ''change_agent_state'' then
        field_str g ''agent_state'' (\<lambda>st. field_str g ''thought'' (\<lambda>th. Inr (ChangeAgentStateAction st th)))
      else if t = ''message'' then
        field_str g ''content'' (\<lambda>c. field_opt_strs g ''image_urls'' (\<lambda>u. field_bool g ''wait_for_response'' (\<lambda>w.
        field_opt_int g ''security_risk'' (\<lambda>risk. Inr (MessageAction c u w risk)))))
      else if t = ''system'' then
        field_str g ''content'' (\<lambda>c. field_opt_list g ''tools'' (\<lambda>tools. field_opt_str g ''openhands_version'' (\<lambda>v.
        field_opt_str g ''agent_class'' (\<lambda>cls. Inr (SystemMessageAction c tools v cls)))))
      else if t = ''condensation'' then
        field_opt_ints g ''forgotten_event_ids'' (\<lambda>ids. field_opt_int g ''forgotten_events_start_id'' (\<lambda>a.
        field_opt_int g ''forgotten_events_end_id'' (\<lambda>b. field_opt_str g ''summary'' (\<lambda>s. field_opt_int g ''summary_offset'' (\<lambda>i.
          bind_result (new_condensation \<lparr>forgotten_event_ids = ids, forgotten_events_start_id = a,
             forgotten_events_end_id = b, summary = s, summary_offset = i\<rparr>) (\<lambda>c. Inr (CondensationAction c)))))))
      else
        field_str g ''name'' (\<lambda>n. field_dict g ''arguments'' (\<lambda>args. field_str g ''thought'' (\<lambda>th.
        field_opt_int g ''security_risk'' (\<lambda>risk. Inr (MCPAction n args th risk))))))"

text \<open>\<open>CmdOutputMetadata(**d)\<close>: other keys are ignored.\<close>

definition metadata_load :: "jdict \<Rightarrow> cmd_metadata result" where
  "metadata_load d =
     bind_result (as_int (dict_get_default d ''exit_code'' (JInt (- 1)))) (\<lambda>code.
     bind_result (as_int (dict_get_default d ''pid'' (JInt (- 1)))) (\<lambda>pid.
       Inr \<lparr>md_exit_code = code, md_pid = pid, md_rest = fill_fields METADATA_FIELDS d\<rparr>))"

definition build_observation :: "string \<Rightarrow> string \<Rightarrow> (string \<Rightarrow> json) \<Rightarrow> jdict \<Rightarrow> payload result" where
  "build_observation t content g extras =
     (if t = ''null'' then Inr (NullObservation content)
      else if t = ''run'' then
        field_str g ''command'' (\<lambda>cmd.
        bind_result (metadata_load (case g ''metadata'' of JObj d \<Rightarrow> d | _ \<Rightarrow> [])) (\<lambda>md.
        field_bool g ''hidden'' (\<lambda>hid. Inr (CmdOutputObservation content cmd md hid))))
      else if t = ''run_ipython'' then
        field_str g ''code'' (\<lambda>code. field_opt_strs g ''image_urls'' (\<lambda>u. Inr (IPythonRunCellObservation content code u)))
      else if t = ''browse'' then
        field_str g ''url'' (\<lambda>url. Inr (BrowserOutputObservation content url (fill_fields BROWSER_FIELDS extras)))
      else if t = ''read'' then
        field_str g ''path'' (\<lambda>path. field_str g ''impl_source'' (\<lambda>impl. Inr (FileReadObservation content path impl)))
      else if t = ''write'' then field_str g ''path'' (\<lambda>path. Inr (FileWriteObservation content path))
      else if t = ''edit'' then
        field_str g ''path'' (\<lambda>path. field_bool g ''prev_exist'' (\<lambda>prev. field_opt_str g ''old_content'' (\<lambda>old.
        field_opt_str g ''new_content'' (\<lambda>new. field_str g ''impl_source'' (\<lambda>impl. field_opt_str g ''diff'' (\<lambda>df.
        field_opt_str g ''_diff_cache'' (\<lambda>cache. Inr (FileEditObservation content path prev old new impl df cache))))))))
      else if t = ''delegate'' then field_dict g ''outputs'' (\<lambda>out. Inr (AgentDelegateObservation content out))
      else if t = ''success'' then Inr (SuccessObservation content)
      else if t = ''error'' then field_str g ''error_id'' (\<lambda>err. Inr (ErrorObservation content err))
      else if t = ''agent_state_changed'' then
        field_str g ''agent_state'' (\<lambda>st. field_str g ''reason'' (\<lambda>r. Inr (AgentStateChangedObservation content st r)))
      else if t = ''user_rejected'' then Inr (UserRejectObservation content)
      else if t = ''condense'' then Inr (AgentCondensationObservation content)
      else if t = ''think'' then Inr (AgentThinkObservation content)
      else if t = ''recall'' then
        field_str g ''recall_type'' (\<lambda>k.
          if k \<in> {''workspace_context'', ''knowledge''}
          then Inr (RecallObservation content k (fill_fields RECALL_FIELDS extras))
          else Inl (ValueError (k @ '' is not a valid RecallType'')))
      else field_str g ''name'' (\<lambda>n. field_dict g ''arguments'' (\<lambda>args. Inr (MCPObservation content n args))))"

section \<open>From dictionaries to events\<close>

definition endswith :: "string \<Rightarrow> string \<Rightarrow> bool" where
  "endswith s p \<longleftrightarrow> startswith (rev s) (rev p)"

definition dict_update :: "jdict \<Rightarrow> jdict \<Rightarrow> jdict" where
  "dict_update d d' = fold (\<lambda>(k, v) a. dict_set a k v) d' d"

definition file_editor_prefix :: string where
  "file_editor_prefix = ''print(file_editor(**''"

definition handle_action_deprecated_args :: "codec \<Rightarrow> jdict \<Rightarrow> jdict result" where
  "handle_action_deprecated_args C args0 =
     (let args = dict_del args0 ''keep_prompt''
      in case dict_get args ''translated_ipython_code'' of
           None \<Rightarrow> Inr args
         | Some code \<Rightarrow>
             bind_result
               (case code of
                  JNull \<Rightarrow> Inr (dict_del args ''translated_ipython_code'')
                | JStr s \<Rightarrow>
                    if startswith s file_editor_prefix \<and> endswith s ''))''
                    then
                      (case cd_literal_eval C (py_slice (Some (int (length file_editor_prefix))) (Some (- 2)) s) of
                         Some file_args \<Rightarrow> Inr (dict_update (dict_del args ''translated_ipython_code'') file_args)
                       | None \<Rightarrow> Inr (dict_del args ''translated_ipython_code''))
                    else Inr (dict_del args ''translated_ipython_code'')
                | _ \<Rightarrow> Inl (AttributeError ''startswith''))
               (\<lambda>args1. Inr (if dict_get args1 ''command'' = Some (JStr ''view'') then dict_del args1 ''command'' else args1)))"

fun as_real :: "json \<Rightarrow> real result" where
  "as_real (JFloat r) = Inr r"
| "as_real (JInt i) = Inr (real_of_int i)"
| "as_real _ = Inl ill_typed"

definition set_hard_timeout :: "real option \<Rightarrow> bool \<Rightarrow> event \<Rightarrow> event" where
  "set_hard_timeout v blocking e =
     e\<lparr>ev_timeout := v,
       ev_payload := (case ev_payload e of
          CmdRunAction cmd inp th bl st cwd hid conf risk \<Rightarrow> CmdRunAction cmd inp th blocking st cwd hid conf risk
        | p \<Rightarrow> p)\<rparr>"

text \<open>The renamed arguments of old event streams.\<close>

definition rename_args :: "jdict \<Rightarrow> jdict" where
  "rename_args args0 =
     (let args1 = dict_del args0 ''timestamp'';
          args2 = dict_del args1 ''is_confirmed'';
          args3 = (case dict_get args1 ''is_confirmed'' of
                     None \<Rightarrow> args2 | Some v \<Rightarrow> if v = JNull then args2 else dict_set args2 ''confirmation_state'' v)
      in case dict_get args3 ''images_urls'' of
           None \<Rightarrow> args3
         | Some v \<Rightarrow> dict_set (dict_del args3 ''images_urls'') ''image_urls'' v)"

definition action_from_dict :: "codec \<Rightarrow> jdict \<Rightarrow> event result" where
  "action_from_dict C d =
     (case dict_get d ''action'' of
        None \<Rightarrow> Inl (malformed ''action key is not found'')
      | Some (JStr t) \<Rightarrow>
          (case dict_get (ACTION_TYPE_TO_CLASS (cd_version C)) t of
             None \<Rightarrow> Inl (malformed (t @ '' is not defined''))
           | Some fs \<Rightarrow>
               bind_result (as_dict (dict_get_default d ''args'' (JObj []))) (\<lambda>args0.
               bind_result (handle_action_deprecated_args C (rename_args args0)) (\<lambda>args.
                 if unexpected [''action''] fs args \<or> missing fs args then Inl (malformed ''wrong arguments'')
                 else
                   bind_result (build_action t (value_of fs args)) (\<lambda>p.
                   bind_result (case dict_get d ''timeout'' of
                                  None \<Rightarrow> Inr (new_event p)
                                | Some j \<Rightarrow>
                                    bind_result (as_opt as_real j) (\<lambda>v.
                                    bind_result (as_bool (dict_get_default args ''blocking'' (JBool False))) (\<lambda>bl.
                                      Inr (set_hard_timeout v bl (new_event p)))))
                     (\<lambda>e. case dict_get args0 ''timestamp'' of
                            Some (JStr (x # xs)) \<Rightarrow> Inr (e\<lparr>ev_timestamp := Some (x # xs)\<rparr>)
                          | _ \<Rightarrow> Inr e)))))
      | Some _ \<Rightarrow> Inl (malformed ''action is not defined''))"

definition update_cmd_output_metadata :: "json option \<Rightarrow> string \<Rightarrow> json \<Rightarrow> json" where
  "update_cmd_output_metadata metadata k v =
     (case metadata of
        None \<Rightarrow> JObj [(k, v)]
      | Some JNull \<Rightarrow> JObj [(k, v)]
      | Some (JObj d) \<Rightarrow> JObj (dict_set d k v)
      | Some j \<Rightarrow> j)"

definition legacy_extra :: "string \<Rightarrow> string \<Rightarrow> jdict \<Rightarrow> jdict" where
  "legacy_extra old new extras =
     (case dict_get extras old of
        None \<Rightarrow> extras
      | Some v \<Rightarrow>
          dict_set (dict_del extras old) ''metadata''
            (update_cmd_output_metadata (dict_get extras ''metadata'') new v))"

definition handle_observation_deprecated_extras :: "jdict \<Rightarrow> jdict" where
  "handle_observation_deprecated_extras extras =
     dict_del (legacy_extra ''command_id'' ''pid'' (legacy_extra ''exit_code'' ''exit_code'' extras))
       ''formatted_output_and_error''"

text \<open>The class of command outputs accepts any further arguments.\<close>

definition observation_from_dict :: "jdict \<Rightarrow> event result" where
  "observation_from_dict d =
     (case dict_get d ''observation'' of
        Some (JStr t) \<Rightarrow>
          (case dict_get OBSERVATION_TYPE_TO_CLASS t of
             None \<Rightarrow> Inl (KeyError (t @ '' is not defined''))
           | Some fs \<Rightarrow>
               bind_result (as_str (dict_get_default d ''content'' (JStr []))) (\<lambda>content.
               bind_result (as_dict (dict_get_default d ''extras'' (JObj []))) (\<lambda>extras0.
                 let extras = handle_observation_deprecated_extras extras0
                 in if (t \<noteq> ''run'' \<and> unexpected [''observation''] fs extras) \<or> missing fs extras
                    then Inl (TypeError ''wrong arguments'')
                    else bind_result (build_observation t content (value_of fs extras) extras) (\<lambda>p. Inr (new_event p)))))
      | _ \<Rightarrow> Inl (KeyError ''observation''))"

definition source_of :: "json \<Rightarrow> event_source result" where
  "source_of j =
     (if j = JStr ''agent'' then Inr AGENT
      else if j = JStr ''user'' then Inr USER
      else if j = JStr ''environment'' then Inr ENVIRONMENT
      else Inl (ValueError ''not a valid EventSource''))"

text \<open>One round of the loop over \<open>UNDERSCORE_KEYS\<close>.\<close>

definition set_key :: "jdict \<Rightarrow> string \<Rightarrow> (json \<Rightarrow> event \<Rightarrow> event result) \<Rightarrow> event \<Rightarrow> event result" where
  "set_key d k f e = (case dict_get d k of None \<Rightarrow> Inr e | Some v \<Rightarrow> f v e)"

definition event_from_dict :: "codec \<Rightarrow> jdict \<Rightarrow> event result" where
  "event_from_dict C d =
     bind_result
       (if dict_get d ''action'' \<noteq> None then action_from_dict C d
        else if dict_get d ''observation'' \<noteq> None then observation_from_dict d
        else Inl (ValueError ''Unknown event type'')) (\<lambda>e0.
     bind_result (set_key d ''id'' (\<lambda>v e. bind_result (as_opt as_int v) (\<lambda>i.
       Inr (e\<lparr>ev_id := (case i of None \<Rightarrow> INVALID_ID | Some n \<Rightarrow> n)\<rparr>))) e0) (\<lambda>e1.
     bind_result (set_key d ''timestamp'' (\<lambda>v e. bind_result (as_opt as_str v) (\<lambda>s. Inr (e\<lparr>ev_timestamp := s\<rparr>))) e1) (\<lambda>e2.
     bind_result (set_key d ''source'' (\<lambda>v e. bind_result (source_of v) (\<lambda>s. Inr (e\<lparr>ev_source := Some s\<rparr>))) e2) (\<lambda>e3.
     bind_result (set_key d ''cause'' (\<lambda>v e. bind_result (as_opt as_int v) (\<lambda>i. Inr (e\<lparr>ev_cause := i\<rparr>))) e3) (\<lambda>e4.
     bind_result (set_key d ''tool_call_metadata'' (\<lambda>v e. bind_result (cd_tool_call C v) (\<lambda>m. Inr (e\<lparr>ev_tool_call := Some m\<rparr>))) e4) (\<lambda>e5.
       set_key d ''llm_metrics'' (\<lambda>v e. Inr (e\<lparr>ev_llm_metrics := Some (cd_metrics C v)\<rparr>)) e5))))))"

section \<open>Round trip\<close>

definition payload_ok :: "payload \<Rightarrow> bool" where
  "payload_ok p =
     (case p of
        CondensationAction c \<Rightarrow> validate_field_polymorphism c
      | RecallObservation _ k fs \<Rightarrow> k \<in> {''workspace_context'', ''knowledge''} \<and> map fst fs = map fst RECALL_FIELDS
      | BrowserOutputObservation _ _ fs \<Rightarrow> map fst fs = map fst BROWSER_FIELDS
      | CmdOutputObservation _ _ md _ \<Rightarrow> map fst (md_rest md) = map fst METADATA_FIELDS
      | _ \<Rightarrow> True)"

lemma all_results_Inr [simp]: "all_results (map Inr l) = Inr l"
  by (induction l) simp_all

lemma as_opt_js_opt [simp]:
  "as_opt as_int (js_opt JInt x) = Inr x"
  "as_opt as_str (js_opt JStr s) = Inr s"
  "as_opt as_list (js_opt JList l) = Inr l"
  "as_opt (as_list_of as_int) (js_opt js_ints xs) = Inr xs"
  "as_opt (as_list_of as_str) (js_opt js_strs ys) = Inr ys"
  by (simp_all add: as_opt_def js_opt_def as_list_of_def js_ints_def js_strs_def o_def split: option.split)

lemma as_opt_JNull [simp]: "as_opt f JNull = Inr None"
  by (simp add: as_opt_def)

lemma js_opt_null [simp]: "js_opt JInt r = JNull \<longleftrightarrow> r = None"
  by (simp add: js_opt_def split: option.split)

lemma js_opt_Some [simp]: "js_opt f (Some x) = f x"
  by (simp add: js_opt_def)

lemmas lookup_defs = dict_get_def value_of_def missing_def unexpected_def field_defs

lemma condensation_eta [simp]:
  "\<lparr>forgotten_event_ids = forgotten_event_ids c, forgotten_events_start_id = forgotten_events_start_id c,
    forgotten_events_end_id = forgotten_events_end_id c, summary = summary c, summary_offset = summary_offset c\<rparr> = c"
  by (cases c) simp

abbreviation serial_args :: "payload \<Rightarrow> jdict" where
  "serial_args p \<equiv> filter (\<lambda>kv. kv \<noteq> (''security_risk'', JNull)) (asdict_fields p)"

lemma action_args:
  assumes "\<not> observation_payload p" "payload_ok p"
  shows "\<exists>fs. dict_get (ACTION_TYPE_TO_CLASS v) (type_name p) = Some fs \<and>
    \<not> unexpected [''action''] fs (serial_args p) \<and> \<not> missing fs (serial_args p) \<and>
    build_action (type_name p) (value_of fs (serial_args p)) = Inr p"
  using assms
  by (cases p)
    (simp_all add: ACTION_TYPE_TO_CLASS_def lookup_defs build_action_def payload_ok_def new_condensation_def)


lemma no_legacy_args: "\<not> observation_payload p \<Longrightarrow>
  {''timestamp'', ''is_confirmed'', ''images_urls'', ''keep_prompt'', ''translated_ipython_code''} \<inter> fst ` set (serial_args p) = {}"
  by (cases p) auto

lemma observation_extras:
  assumes "observation_payload p" "payload_ok p"
  defines "extras \<equiv> dict_del (serial_args p) ''content''"
  shows "\<exists>fs content. dict_get_default (serial_args p) ''content'' (JStr []) = JStr content \<and>
    dict_get OBSERVATION_TYPE_TO_CLASS (type_name p) = Some fs \<and>
    \<not> (type_name p \<noteq> ''run'' \<and> unexpected [''observation''] fs extras) \<and> \<not> missing fs extras \<and>
    build_observation (type_name p) content (value_of fs extras) extras = Inr p"
  using assms(1,2) unfolding extras_def
  by (cases p)
    (auto simp: OBSERVATION_TYPE_TO_CLASS_def lookup_defs build_observation_def payload_ok_def dict_get_default_def
       dict_del_def map_eq_Cons_conv RECALL_FIELDS_def BROWSER_FIELDS_def METADATA_FIELDS_def fill_fields_def
       metadata_load_def metadata_dump_def)

definition event_ok :: "codec \<Rightarrow> event \<Rightarrow> bool" where
  "event_ok C e \<longleftrightarrow>
     payload_ok (ev_payload e) \<and>
     (observation_payload (ev_payload e) \<longrightarrow> ev_timeout e = None) \<and>
     (case ev_tool_call e of None \<Rightarrow> True | Some m \<Rightarrow> cd_tool_call C m = Inr m) \<and>
     (case ev_llm_metrics e of None \<Rightarrow> True | Some m \<Rightarrow> cd_metrics C m = m)"

lemma dict_get_Nil [simp]: "dict_get [] k = None"
  by (simp add: dict_get_def)

lemma dict_get_Cons [simp]: "dict_get ((k, v) # d) k' = (if k' = k then Some v else dict_get d k')"
  by (simp add: dict_get_def)

lemma dict_get_key_if [simp]:
  "dict_get (key_if k v @ d) k' = (if k' = k \<and> v \<noteq> None then v else dict_get d k')"
  "dict_get (key_if k v) k' = (if k' = k then v else None)"
  by (simp_all add: key_if_def dict_get_def split: option.split)

lemma dict_del_absent: "k \<notin> fst ` set d \<Longrightarrow> dict_del d k = d"
  by (induction d) (auto simp: dict_del_def)

lemma absent_keys:
  assumes "K \<inter> fst ` set d = {}" "k \<in> K"
  shows "dict_get d k = None" "dict_del d k = d" "dict_del (dict_del d k') k = dict_del d k'"
proof -
  from assms have k: "k \<notin> fst ` set d" by blast
  then show "dict_get d k = None" by (simp add: dict_get_None_iff)
  show "dict_del d k = d" using k by (rule dict_del_absent)
  have "k \<notin> fst ` set (dict_del d k')" using k dict_keys_del [of d k'] by (simp only: set_map) blast
  then show "dict_del (dict_del d k') k = dict_del d k'" by (rule dict_del_absent)
qed

lemma no_legacy_extras: "observation_payload p \<Longrightarrow> payload_ok p \<Longrightarrow>
  {''exit_code'', ''command_id'', ''formatted_output_and_error''} \<inter> fst ` set (serial_args p) = {}"
  by (cases p) (auto simp: payload_ok_def map_eq_Cons_conv RECALL_FIELDS_def BROWSER_FIELDS_def)

lemma serial_blocking:
  assumes "\<not> observation_payload p" 
  shows "\<exists>bl. dict_get_default (serial_args p) ''blocking'' (JBool False) = JBool bl \<and>
    set_hard_timeout v bl (new_event p) = (new_event p)\<lparr>ev_timeout := v\<rparr>"
  using assms by (cases p) (auto simp: dict_get_default_def dict_get_def set_hard_timeout_def new_event_def)

lemma deprecated_args_unchanged:
  assumes "\<not> observation_payload p"
  shows "handle_action_deprecated_args C (rename_args (serial_args p)) = Inr (serial_args p)"
proof -
  note absent = absent_keys [OF no_legacy_args [OF assms]]
  show ?thesis by (simp add: rename_args_def handle_action_deprecated_args_def Let_def absent)
qed

lemma deprecated_extras_unchanged:
  assumes "observation_payload p" "payload_ok p"
  shows "handle_observation_deprecated_extras (dict_del (serial_args p) ''content'') = dict_del (serial_args p) ''content''"
proof -
  note absent = absent_keys [OF no_legacy_extras [OF assms]]
  show ?thesis by (simp add: handle_observation_deprecated_extras_def legacy_extra_def absent)
qed

lemma action_from_dict_args:
  assumes "\<not> observation_payload p" "payload_ok p"
    and "dict_get d ''action'' = Some (JStr (type_name p))"
    and "dict_get d ''args'' = Some (JObj (serial_args p))"
    and "dict_get d ''timeout'' = map_option JFloat t"
  shows "action_from_dict C d = Inr ((new_event p)\<lparr>ev_timeout := t\<rparr>)"
proof -
  obtain fs where fs: "dict_get (ACTION_TYPE_TO_CLASS (cd_version C)) (type_name p) = Some fs"
    "\<not> unexpected [''action''] fs (serial_args p)" "\<not> missing fs (serial_args p)"
    "build_action (type_name p) (value_of fs (serial_args p)) = Inr p"
    using action_args [OF assms(1,2)] by blast
  have no_time: "dict_get (serial_args p) ''timestamp'' = None"
    by (rule absent_keys [OF no_legacy_args [OF assms(1)]]) simp
  obtain bl where bl: "dict_get_default (serial_args p) ''blocking'' (JBool False) = JBool bl"
    "set_hard_timeout t bl (new_event p) = (new_event p)\<lparr>ev_timeout := t\<rparr>"
    using serial_blocking [OF assms(1)] by blast
  have [simp]: "dict_get_default d ''args'' (JObj []) = JObj (serial_args p)"
    by (simp add: dict_get_default_def assms(4))
  show ?thesis
  proof (cases t)
    case None
    then have "(new_event p)\<lparr>ev_timeout := t\<rparr> = new_event p" by (simp add: new_event_def)
    with None show ?thesis
      by (simp add: action_from_dict_def assms(3,5) fs deprecated_args_unchanged [OF assms(1)] no_time)
  next
    case (Some r)
    then show ?thesis using bl
      by (simp add: action_from_dict_def assms(3,5) fs deprecated_args_unchanged [OF assms(1)] no_time as_opt_def)
  qed
qed

lemma observation_from_dict_extras:
  assumes "observation_payload p" "payload_ok p"
    and "dict_get d ''observation'' = Some (JStr (type_name p))"
    and "dict_get d ''content'' = Some (dict_get_default (serial_args p) ''content'' (JStr []))"
    and "dict_get d ''extras'' = Some (JObj (dict_del (serial_args p) ''content''))"
  shows "observation_from_dict d = Inr (new_event p)"
  using observation_extras [OF assms(1,2)] assms(3-5)
  by (auto simp: observation_from_dict_def dict_get_default_def [of d] Let_def deprecated_extras_unchanged [OF assms(1,2)])

lemma source_of_value [simp]: "source_of (JStr (source_value s)) = Inr s"
  by (cases s) (simp_all add: source_of_def)


lemma event_read_back:
  assumes "event_ok C e" "event_to_dict C e = Inr d"
  shows "event_from_dict C d = Inr e"
proof -
  let ?p = "ev_payload e"
  have ok: "payload_ok ?p" "observation_payload ?p \<Longrightarrow> ev_timeout e = None"
    using assms(1) by (simp_all add: event_ok_def)
  have 1: "\<not> observation_payload ?p \<Longrightarrow> action_from_dict C d = Inr ((new_event ?p)\<lparr>ev_timeout := ev_timeout e\<rparr>)"
    using assms(2) by (intro action_from_dict_args) (auto simp: event_to_dict_def bind_result_Inr_iff Let_def ok)
  have 2: "observation_payload ?p \<Longrightarrow> observation_from_dict d = Inr ((new_event ?p)\<lparr>ev_timeout := ev_timeout e\<rparr>)"
    using assms(2) ok(2)
    by (subst observation_from_dict_extras [of ?p]) (auto simp: event_to_dict_def bind_result_Inr_iff Let_def ok(1) new_event_def)
  have base: "(if dict_get d ''action'' \<noteq> None then action_from_dict C d
        else if dict_get d ''observation'' \<noteq> None then observation_from_dict d
        else Inl (ValueError ''Unknown event type'')) = Inr ((new_event ?p)\<lparr>ev_timeout := ev_timeout e\<rparr>)"
    using 1 2 assms(2) by (auto simp: event_to_dict_def bind_result_Inr_iff Let_def)
  have keys: "dict_get d ''id'' = (if ev_id e = - 1 then None else Some (JInt (ev_id e)))"
    "dict_get d ''timestamp'' = map_option JStr (ev_timestamp e)"
    "dict_get d ''source'' = map_option (\<lambda>s. JStr (source_value s)) (ev_source e)"
    "dict_get d ''cause'' = map_option JInt (ev_cause e)"
    "dict_get d ''tool_call_metadata'' = ev_tool_call e" "dict_get d ''llm_metrics'' = ev_llm_metrics e"
    using assms(2) by (auto simp: event_to_dict_def bind_result_Inr_iff Let_def)
  show ?thesis
    using assms(1) unfolding event_from_dict_def base
    by (cases e; cases "ev_timestamp e"; cases "ev_source e"; cases "ev_cause e"; cases "ev_tool_call e"; cases "ev_llm_metrics e")
      (auto simp: set_key_def keys event_ok_def as_opt_def new_event_def INVALID_ID_def)
qed



end
