(* ===== verification/PyStrings.thy ===== *)
theory PyStrings
  imports PyPrelude
begin

text \<open>
  Two operations of Python's standard library on strings, with what the stores rely on: the
  replacement of all occurrences (\<open>str.replace\<close>) and the reading of decimal numbers
  (\<open>int\<close>), the inverse of their printing.
\<close>

section \<open>Reading numbers\<close>

definition is_digit :: "char \<Rightarrow> bool" where
  "is_digit c \<longleftrightarrow> 48 \<le> (of_char c :: nat) \<and> (of_char c :: nat) \<le> 57"

fun digits_value :: "nat \<Rightarrow> string \<Rightarrow> nat" where
  "digits_value acc [] = acc"
| "digits_value acc (c # cs) = digits_value (10 * acc + (of_char c - 48)) cs"

text \<open>Digits with single underscores between them.\<close>

definition unsigned_int :: "string \<Rightarrow> nat option" where
  "unsigned_int s =
     (if list_all (\<lambda>p. p \<noteq> [] \<and> list_all is_digit p) (split_on (CHR ''_'') s)
      then Some (digits_value 0 (concat (split_on (CHR ''_'') s)))
      else None)"

definition py_int :: "string \<Rightarrow> int option" where
  "py_int s =
     (case py_strip s of
        [] \<Rightarrow> None
      | c # cs \<Rightarrow>
          if c = CHR ''-'' then map_option (\<lambda>n. - int n) (unsigned_int cs)
          else if c = CHR ''+'' then map_option int (unsigned_int cs)
          else map_option int (unsigned_int (c # cs)))"

lemma digits_value_append: "digits_value a (xs @ [c]) = 10 * digits_value a xs + (of_char c - 48)"
  by (induction xs arbitrary: a) auto

lemma is_digit_char_of: "k < 10 \<Longrightarrow> is_digit (char_of (48 + k :: nat))"
  by (simp add: is_digit_def)

lemma nat_digits_digits: "list_all is_digit (nat_digits n)"
proof (induction n rule: nat_digits.induct)
  case (1 n)
  then show ?case
    by (subst nat_digits.simps) (auto simp: is_digit_char_of)
qed

lemma nat_digits_not_Nil [simp]: "nat_digits n \<noteq> []"
  by (subst nat_digits.simps) simp

lemma digits_value_nat_digits: "digits_value 0 (nat_digits n) = n"
proof (induction n rule: nat_digits.induct)
  case (1 n)
  then show ?case
    by (subst nat_digits.simps) (auto simp: digits_value_append)
qed

lemma split_on_absent: "c \<notin> set s \<Longrightarrow> split_on c s = [s]"
  by (induction s) auto

lemma split_on_append: "c \<notin> set s \<Longrightarrow> split_on c (s @ c # t) = s # split_on c t"
  by (induction s) auto

lemma split_on_append_parts: "\<exists>ys. ys \<noteq> [] \<and> split_on c (s @ c # t) = ys @ split_on c t"
proof (induction s)
  case (Cons x s)
  then obtain y ys where "split_on c (s @ c # t) = (y # ys) @ split_on c t" by (metis neq_Nil_conv)
  then have "split_on c ((x # s) @ c # t) = (if x = c then [] # y # ys else (x # y) # ys) @ split_on c t"
    by simp
  moreover have "(if x = c then [] # y # ys else (x # y) # ys) \<noteq> []" by simp
  ultimately show ?case by blast
qed auto

lemma last_split_on_append: "last (split_on c (s @ c # t)) = last (split_on c t)"
  using split_on_append_parts [of c s t] by auto

lemma digit_not: "is_digit c \<Longrightarrow> c \<notin> {CHR ''_'', CHR ''-'', CHR ''+'', CHR ''.'', CHR ''/''} \<and> \<not> is_space c"
  by (auto simp: is_digit_def is_space_def newline_def)

lemma nat_digits_chars: "c \<in> set (nat_digits n) \<Longrightarrow> is_digit c"
  using nat_digits_digits [of n] by (simp add: list_all_iff)

lemma unsigned_int_nat_digits: "unsigned_int (nat_digits n) = Some n"
proof -
  have "CHR ''_'' \<notin> set (nat_digits n)" using nat_digits_chars digit_not by blast
  then show ?thesis
    by (simp add: unsigned_int_def split_on_absent nat_digits_digits digits_value_nat_digits)
qed

lemma py_strip_no_space: "s = [] \<or> \<not> is_space (hd s) \<and> \<not> is_space (last s) \<Longrightarrow> py_strip s = s"
  by (cases s) (auto simp: py_strip_def py_lstrip_def hd_append hd_rev dropWhile_eq_self_iff split: if_splits)

lemma str_int_chars: "c \<in> set (str_int i) \<Longrightarrow> is_digit c \<or> c = CHR ''-''"
  using nat_digits_chars by (auto simp: str_int_def split: if_splits)

lemma py_int_str_int [simp]: "py_int (str_int i) = Some i"
proof -
  have sp: "\<not> is_space c" if "c \<in> set (str_int i)" for c
    using str_int_chars [OF that] digit_not by (auto simp: is_space_def newline_def)
  have "str_int i \<noteq> []" by (simp add: str_int_def)
  with sp have strip: "py_strip (str_int i) = str_int i" by (intro py_strip_no_space) simp
  obtain c cs where d: "nat_digits (nat i) = c # cs" by (cases "nat_digits (nat i)") auto
  then have "is_digit c" by (metis nat_digits_chars list.set_intros(1))
  then have "c \<noteq> CHR ''-'' \<and> c \<noteq> CHR ''+''" using digit_not by blast
  with d unsigned_int_nat_digits [of "nat i"] strip show ?thesis
    unfolding py_int_def by (auto simp: str_int_def unsigned_int_nat_digits)
qed

lemma str_int_eq_iff [simp]: "str_int i = str_int j \<longleftrightarrow> i = j"
  by (metis py_int_str_int option.inject)

section \<open>Replacement\<close>

text \<open>The occurrences are those found from left to right without overlap.\<close>

function replace_loop :: "string \<Rightarrow> string \<Rightarrow> string \<Rightarrow> string" where
  "replace_loop old new [] = []"
| "replace_loop old new (c # cs) =
     (if old \<noteq> [] \<and> startswith (c # cs) old then new @ replace_loop old new (drop (length old) (c # cs))
      else c # replace_loop old new cs)"
  by pat_completeness auto
termination
  by (relation "measure (\<lambda>(old, new, s). length s)") auto

definition str_replace :: "string \<Rightarrow> string \<Rightarrow> string \<Rightarrow> string" where
  "str_replace old new s =
     (if old = [] then new @ concat (map (\<lambda>c. c # new) s) else replace_loop old new s)"

lemma sublist_around:
  assumes "c \<notin> set q"
  shows "sublist q (a @ c # b) \<longleftrightarrow> sublist q a \<or> sublist q b"
proof
  assume "sublist q (a @ c # b)"
  then obtain u v where uv: "a @ c # b = u @ q @ v" by (auto simp: sublist_def)
  then obtain w where "a = u @ w \<and> w @ c # b = q @ v \<or> a @ w = u \<and> c # b = w @ q @ v"
    unfolding append_eq_append_conv2 by blast
  then show "sublist q a \<or> sublist q b"
  proof
    assume w: "a = u @ w \<and> w @ c # b = q @ v"
    then obtain x where "w = q @ x \<and> x @ c # b = v \<or> w @ x = q \<and> c # b = x @ v"
      unfolding append_eq_append_conv2 by blast
    with w assms show ?thesis
      by (cases x) auto
  next
    assume w: "a @ w = u \<and> c # b = w @ q @ v"
    with assms show ?thesis
      by (cases w; cases q) (auto simp: sublist_def)
  qed
next
  assume "sublist q a \<or> sublist q b"
  then show "sublist q (a @ c # b)"
    by (metis append_Cons append_assoc sublist_appendI sublist_append_leftI sublist_append_rightI sublist_order.order_trans self_append_conv2)
qed

text \<open>The marker that replaces secrets; what occurs across it occurs on one side.\<close>

definition secret_marker :: string where
  "secret_marker = ''<secret_hidden>''"

definition plain_secret :: "string \<Rightarrow> bool" where
  "plain_secret q \<longleftrightarrow> q \<noteq> [] \<and> CHR ''<'' \<notin> set q \<and> CHR ''>'' \<notin> set q \<and> \<not> contains q ''secret_hidden''"

lemma plain_not_Nil: "plain_secret q \<Longrightarrow> q \<noteq> []"
  by (simp add: plain_secret_def)

lemma sublist_across_marker:
  assumes "plain_secret q"
  shows "sublist q (u @ secret_marker @ r) \<longleftrightarrow> sublist q u \<or> sublist q r"
proof -
  have m: "secret_marker = CHR ''<'' # ''secret_hidden'' @ [CHR ''>'']" by (simp add: secret_marker_def)
  have "sublist q (u @ secret_marker @ r) \<longleftrightarrow> sublist q u \<or> sublist q (''secret_hidden'' @ CHR ''>'' # r)"
    unfolding m using assms sublist_around [of "CHR ''<''" q u "''secret_hidden'' @ CHR ''>'' # r"]
    by (simp add: plain_secret_def)
  also have "\<dots> \<longleftrightarrow> sublist q u \<or> sublist q r"
    using assms sublist_around [of "CHR ''>''" q "''secret_hidden''" r] by (simp add: plain_secret_def contains_sublist)
  finally show ?thesis .
qed

lemma sublist_replace_loop:
  assumes "plain_secret q"
  shows "sublist q (u @ replace_loop old secret_marker s) \<Longrightarrow> sublist q (u @ s)"
proof (induction old secret_marker s arbitrary: u rule: replace_loop.induct)
  case (2 old c cs)
  show ?case
  proof (cases "old \<noteq> [] \<and> startswith (c # cs) old")
    case True
    let ?r = "replace_loop old secret_marker (drop (length old) (c # cs))"
    from True "2.prems" have "sublist q u \<or> sublist q ([] @ ?r)"
      by (simp add: sublist_across_marker [OF assms])
    then show ?thesis
    proof
      assume "sublist q u"
      then show ?thesis by (meson sublist_append_rightI sublist_order.order_trans)
    next
      assume "sublist q ([] @ ?r)"
      then have "sublist q (drop (length old) (c # cs))" using "2.hyps"(1) [OF True, of "[]"] by simp
      then have "sublist q (c # cs)" by (metis append_take_drop_id sublist_append_leftI sublist_order.order_trans)
      then show ?thesis by (meson sublist_append_leftI sublist_order.order_trans)
    qed
  next
    case False
    with "2.prems" "2.hyps"(2) [of "u @ [c]"] show ?thesis by auto
  qed
qed simp

lemma sublist_starts: "sublist q u \<Longrightarrow> q \<noteq> [] \<Longrightarrow> \<exists>k < length u. startswith (drop k (u @ s)) q"
proof -
  assume "sublist q u" "q \<noteq> []"
  then obtain a b where "u = a @ q @ b" by (auto simp: sublist_def)
  with \<open>q \<noteq> []\<close> show ?thesis
    by (intro exI [of _ "length a"]) (simp add: startswith_def)
qed

lemma replace_loop_gone:
  assumes "plain_secret q" "\<forall>k < length u. \<not> startswith (drop k (u @ s)) q"
  shows "\<not> sublist q (u @ replace_loop q secret_marker s)"
  using assms
proof (induction q secret_marker s arbitrary: u rule: replace_loop.induct)
  case (1 q)
  from 1 sublist_starts [of q u "[]"] plain_not_Nil [OF "1.prems"(1)] show ?case by auto
next
  case (2 q c cs)
  have ne: "q \<noteq> []" using "2.prems"(1) by (rule plain_not_Nil)
  show ?case
  proof (cases "startswith (c # cs) q")
    case True
    have "\<not> sublist q u" using sublist_starts [of q u "c # cs"] ne "2.prems" by blast
    with True ne "2.hyps"(1) [of "[]"] "2.prems"(1) show ?thesis
      by (simp add: sublist_across_marker)
  next
    case False
    have "\<forall>k < length (u @ [c]). \<not> startswith (drop k ((u @ [c]) @ cs)) q"
      using "2.prems" False by (auto simp: less_Suc_eq)
    with "2.hyps"(2) [of "u @ [c]"] False "2.prems"(1) show ?thesis by simp
  qed
qed

lemma str_replace_gone: "plain_secret q \<Longrightarrow> \<not> contains q (str_replace q secret_marker s)"
  using replace_loop_gone [of q "[]" s] by (auto simp: str_replace_def plain_secret_def contains_sublist)

lemma str_replace_keeps:
  assumes "plain_secret q" "old \<noteq> []" "\<not> contains q s"
  shows "\<not> contains q (str_replace old secret_marker s)"
  using sublist_replace_loop [OF assms(1), of "[]" old s] assms(2,3) by (auto simp: str_replace_def contains_sublist)

end
