(* ===== verification/FileStore.thy ===== *)
theory FileStore
  imports PyStrings
begin

text \<open>
  \<^verbatim>\<open>openhands/storage\<close>: the interface of file stores, the store in memory, the store with a web hook
  and the locations of a conversation.

  Contents are an arbitrary type: texts for the sources, which write what \<open>json.dumps\<close> returns.
  The interface is the record \<open>file_ops\<close>; its laws are the locale \<open>file_store\<close>.
\<close>

section \<open>The interface\<close>

record ('fs, 'c) file_ops =
  fs_write :: "'fs \<Rightarrow> string \<Rightarrow> 'c \<Rightarrow> 'fs"
  fs_read :: "'fs \<Rightarrow> string \<Rightarrow> 'c result"
  fs_list :: "'fs \<Rightarrow> string \<Rightarrow> string list result"
  fs_delete :: "'fs \<Rightarrow> string \<Rightarrow> 'fs"

definition file_exists :: "('fs, 'c) file_ops \<Rightarrow> 'fs \<Rightarrow> string \<Rightarrow> bool" where
  "file_exists F fs p = (case fs_read F fs p of Inr _ \<Rightarrow> True | Inl _ \<Rightarrow> False)"

section \<open>The store in memory\<close>

type_synonym 'c files = "(string, 'c) dict"

definition ends_slash :: "string \<Rightarrow> bool" where
  "ends_slash p \<longleftrightarrow> p \<noteq> [] \<and> last p = CHR ''/''"

definition path_join :: "string \<Rightarrow> string \<Rightarrow> string" where
  "path_join a b =
     (if startswith b ''/'' then b else if a = [] \<or> ends_slash a then a @ b else a @ ''/'' @ b)"

definition mem_write :: "'c files \<Rightarrow> string \<Rightarrow> 'c \<Rightarrow> 'c files" where
  "mem_write files path contents = dict_set files path contents"

definition mem_read :: "'c files \<Rightarrow> string \<Rightarrow> 'c result" where
  "mem_read files path = (case dict_get files path of None \<Rightarrow> Inl (FileNotFoundError path) | Some c \<Rightarrow> Inr c)"

text \<open>One round of the loop of \<open>list\<close>.\<close>

definition list_entry :: "string \<Rightarrow> string \<Rightarrow> string list \<Rightarrow> string list result" where
  "list_entry path file files =
     (if \<not> startswith file path then Inr files
      else
        let parts0 = split_on (CHR ''/'') (drop (length path) file);
            parts = (if hd parts0 = [] then tl parts0 else parts0)
        in case parts of
             [] \<Rightarrow> Inl IndexError
           | [_] \<Rightarrow> Inr (files @ [file])
           | part # _ \<Rightarrow>
               let dir0 = path_join path part;
                   dir = (if ends_slash dir0 then dir0 else dir0 @ ''/'')
               in Inr (if dir \<in> set files then files else files @ [dir]))"

fun list_loop :: "string \<Rightarrow> string list \<Rightarrow> string list \<Rightarrow> string list result" where
  "list_loop path [] files = Inr files"
| "list_loop path (file # rest) files = bind_result (list_entry path file files) (list_loop path rest)"

definition mem_list :: "'c files \<Rightarrow> string \<Rightarrow> string list result" where
  "mem_list files path = list_loop path (dict_keys files) []"

definition mem_delete :: "'c files \<Rightarrow> string \<Rightarrow> 'c files" where
  "mem_delete files path = filter (\<lambda>(k, _). \<not> startswith k path) files"

definition memory_store :: "('c files, 'c) file_ops" where
  "memory_store = \<lparr>fs_write = mem_write, fs_read = mem_read, fs_list = mem_list, fs_delete = mem_delete\<rparr>"

section \<open>The store with a web hook\<close>

text \<open>The calls submitted to the executor, latest last: writes with their contents and deletions.\<close>

datatype 'c hook = OnWrite string 'c | OnDelete string

definition webhook_store :: "('fs, 'c) file_ops \<Rightarrow> ('fs \<times> 'c hook list, 'c) file_ops" where
  "webhook_store F =
     \<lparr>fs_write = (\<lambda>(fs, hs) p c. (fs_write F fs p c, hs @ [OnWrite p c])),
      fs_read = (\<lambda>(fs, hs) p. fs_read F fs p),
      fs_list = (\<lambda>(fs, hs) p. fs_list F fs p),
      fs_delete = (\<lambda>(fs, hs) p. (fs_delete F fs p, hs @ [OnDelete p]))\<rparr>"

section \<open>Locations\<close>

definition CONVERSATION_BASE_DIR :: string where
  "CONVERSATION_BASE_DIR = ''sessions''"

definition get_conversation_dir :: "string \<Rightarrow> string option \<Rightarrow> string" where
  "get_conversation_dir sid user_id =
     (case user_id of
        Some (u # us) \<Rightarrow> ''users/'' @ (u # us) @ ''/conversations/'' @ sid @ ''/''
      | _ \<Rightarrow> CONVERSATION_BASE_DIR @ ''/'' @ sid @ ''/'')"

definition get_conversation_events_dir :: "string \<Rightarrow> string option \<Rightarrow> string" where
  "get_conversation_events_dir sid user_id = get_conversation_dir sid user_id @ ''events/''"

definition get_conversation_event_filename :: "string \<Rightarrow> int \<Rightarrow> string option \<Rightarrow> string" where
  "get_conversation_event_filename sid i user_id =
     get_conversation_events_dir sid user_id @ str_int i @ ''.json''"

definition get_conversation_metadata_filename :: "string \<Rightarrow> string option \<Rightarrow> string" where
  "get_conversation_metadata_filename sid user_id = get_conversation_dir sid user_id @ ''metadata.json''"

definition get_conversation_init_data_filename :: "string \<Rightarrow> string option \<Rightarrow> string" where
  "get_conversation_init_data_filename sid user_id = get_conversation_dir sid user_id @ ''init.json''"

definition get_conversation_agent_state_filename :: "string \<Rightarrow> string option \<Rightarrow> string" where
  "get_conversation_agent_state_filename sid user_id = get_conversation_dir sid user_id @ ''agent_state.pkl''"

section \<open>The laws\<close>

text \<open>
  A read returns what was last written to the path; a missing file is a \<open>FileNotFoundError\<close>. A
  listing of a directory names every file directly in it; every other name it gives is a
  directory or a file below the path; a missing directory has no files.
\<close>

locale file_store =
  fixes F :: "('fs, 'c) file_ops"
  assumes read_write: "fs_read F (fs_write F fs p c) q = (if q = p then Inr c else fs_read F fs q)"
    and read_error: "fs_read F fs p = Inl e \<Longrightarrow> e = FileNotFoundError p"
    and list_complete: "fs_list F fs d = Inr ps \<Longrightarrow> n \<noteq> [] \<Longrightarrow> CHR ''/'' \<notin> set n \<Longrightarrow>
      file_exists F fs (d @ n) \<Longrightarrow> d @ n \<in> set ps"
    and list_sound: "fs_list F fs d = Inr ps \<Longrightarrow> x \<in> set ps \<Longrightarrow>
      ends_slash x \<or> (startswith x d \<and> file_exists F fs x)"
    and list_missing: "fs_list F fs d = Inl (FileNotFoundError q) \<Longrightarrow> \<not> file_exists F fs (d @ n)"
begin

lemma exists_write [simp]: "file_exists F (fs_write F fs p c) q \<longleftrightarrow> q = p \<or> file_exists F fs q"
  by (simp add: file_exists_def read_write)

lemma read_missing: "\<not> file_exists F fs p \<Longrightarrow> fs_read F fs p = Inl (FileNotFoundError p)"
  using read_error [of fs p] by (auto simp: file_exists_def split: sum.splits)

end

lemma list_entry_sound:
  "list_entry path file files = Inr files' \<Longrightarrow> x \<in> set files' \<Longrightarrow>
   x \<in> set files \<or> ends_slash x \<or> (x = file \<and> startswith x path)"
  by (auto simp: list_entry_def Let_def ends_slash_def split: if_splits list.splits)

lemma list_loop_sound:
  "list_loop path keys files = Inr files' \<Longrightarrow> x \<in> set files' \<Longrightarrow>
   x \<in> set files \<or> ends_slash x \<or> (x \<in> set keys \<and> startswith x path)"
  by (induction keys arbitrary: files) (auto simp: bind_result_Inr_iff dest: list_entry_sound)

lemma list_entry_mono: "list_entry path file files = Inr files' \<Longrightarrow> set files \<subseteq> set files'"
  by (auto simp: list_entry_def Let_def split: if_splits list.splits)

lemma list_loop_mono: "list_loop path keys files = Inr files' \<Longrightarrow> set files \<subseteq> set files'"
  by (induction keys arbitrary: files) (auto simp: bind_result_Inr_iff dest!: list_entry_mono)

lemma list_entry_file: "n \<noteq> [] \<Longrightarrow> CHR ''/'' \<notin> set n \<Longrightarrow> list_entry path (path @ n) files = Inr (files @ [path @ n])"
  by (simp add: list_entry_def startswith_def split_on_absent)

lemma list_loop_complete:
  "list_loop path keys files = Inr files' \<Longrightarrow> n \<noteq> [] \<Longrightarrow> CHR ''/'' \<notin> set n \<Longrightarrow> path @ n \<in> set keys \<Longrightarrow>
   path @ n \<in> set files'"
proof (induction keys arbitrary: files)
  case (Cons k ks)
  then obtain files1 where f: "list_entry path k files = Inr files1" "list_loop path ks files1 = Inr files'"
    by (auto simp: bind_result_Inr_iff)
  show ?case
  proof (cases "path @ n = k")
    case True
    then have "path @ n \<in> set files1" using f(1) Cons.prems list_entry_file [of n path files] by auto
    then show ?thesis using list_loop_mono [OF f(2)] by blast
  next
    case False
    then show ?thesis using Cons.IH [OF f(2)] Cons.prems by auto
  qed
qed simp

lemma list_loop_error: "list_loop path keys files = Inl e \<Longrightarrow> e = IndexError"
  by (induction keys arbitrary: files)
    (auto simp: bind_result_Inl_iff list_entry_def Let_def split: if_splits list.splits)

lemma mem_exists: "file_exists memory_store files p \<longleftrightarrow> p \<in> set (dict_keys files)"
  by (auto simp: file_exists_def memory_store_def mem_read_def dict_get_None_iff split: option.splits)
    (metis dict_get_None_iff option.distinct(1) set_map)+

interpretation mem: file_store memory_store
proof
  fix fs :: "'c files" and p q c
  show "fs_read memory_store (fs_write memory_store fs p c) q = (if q = p then Inr c else fs_read memory_store fs q)"
    by (simp add: memory_store_def mem_read_def mem_write_def)
next
  fix fs :: "'c files" and p e
  show "fs_read memory_store fs p = Inl e \<Longrightarrow> e = FileNotFoundError p"
    by (simp add: memory_store_def mem_read_def split: option.splits)
next
  fix fs :: "'c files" and d ps n
  assume "fs_list memory_store fs d = Inr ps" "n \<noteq> []" "CHR ''/'' \<notin> set n" "file_exists memory_store fs (d @ n)"
  then show "d @ n \<in> set ps"
    using list_loop_complete [of d "dict_keys fs" "[]" ps n] by (simp add: mem_exists mem_list_def) (simp add: memory_store_def mem_list_def)
next
  fix fs :: "'c files" and d ps x
  assume "fs_list memory_store fs d = Inr ps" "x \<in> set ps"
  then show "ends_slash x \<or> (startswith x d \<and> file_exists memory_store fs x)"
    using list_loop_sound [of d "dict_keys fs" "[]" ps x] unfolding mem_exists by (auto simp: memory_store_def mem_list_def)
next
  fix fs :: "'c files" and d q n
  assume "fs_list memory_store fs d = Inl (FileNotFoundError q)"
  then show "\<not> file_exists memory_store fs (d @ n)"
    using list_loop_error [of d "dict_keys fs" "[]"] by (simp add: memory_store_def mem_list_def)
qed

lemma webhook_laws:
  assumes "file_store F"
  shows "file_store (webhook_store F)"
proof
  note laws = file_store.read_write [OF assms] file_store.read_error [OF assms]
    file_store.list_complete [OF assms] file_store.list_sound [OF assms]
  fix fs p c q
  show "fs_read (webhook_store F) (fs_write (webhook_store F) fs p c) q =
      (if q = p then Inr c else fs_read (webhook_store F) fs q)"
    by (cases fs) (simp add: webhook_store_def laws)
next
  fix fs p e
  show "fs_read (webhook_store F) fs p = Inl e \<Longrightarrow> e = FileNotFoundError p"
    using file_store.read_error [OF assms] by (cases fs) (simp add: webhook_store_def)
next
  fix fs d ps n
  show "fs_list (webhook_store F) fs d = Inr ps \<Longrightarrow> n \<noteq> [] \<Longrightarrow> CHR ''/'' \<notin> set n \<Longrightarrow>
      file_exists (webhook_store F) fs (d @ n) \<Longrightarrow> d @ n \<in> set ps"
    using file_store.list_complete [OF assms] by (cases fs) (simp add: webhook_store_def file_exists_def)
next
  fix fs d ps x
  show "fs_list (webhook_store F) fs d = Inr ps \<Longrightarrow> x \<in> set ps \<Longrightarrow>
      ends_slash x \<or> (startswith x d \<and> file_exists (webhook_store F) fs x)"
    using file_store.list_sound [OF assms] by (cases fs) (simp add: webhook_store_def file_exists_def)
next
  fix fs d q n
  show "fs_list (webhook_store F) fs d = Inl (FileNotFoundError q) \<Longrightarrow> \<not> file_exists (webhook_store F) fs (d @ n)"
    using file_store.list_missing [OF assms] by (cases fs) (simp add: webhook_store_def file_exists_def)
qed

interpretation hook: file_store "webhook_store memory_store"
  by (rule webhook_laws) (rule mem.file_store_axioms)

text \<open>Listing fails only for a file with the name of the directory.\<close>

lemma list_entry_ok: "file \<noteq> path \<Longrightarrow> \<exists>files'. list_entry path file files = Inr files'"
proof -
  assume ne: "file \<noteq> path"
  show ?thesis
  proof (cases "startswith file path")
    case True
    with ne have "drop (length path) file \<noteq> []"
      by (auto simp: startswith_def)
    then have "split_on (CHR ''/'') (drop (length path) file) \<noteq> [[]]"
      by (cases "drop (length path) file") (auto split: list.splits)
    then show ?thesis using True split_on_not_Nil [of "CHR ''/''" "drop (length path) file"]
      by (auto simp: list_entry_def Let_def split: list.splits simp del: split_on_not_Nil)
  qed (simp add: list_entry_def)
qed

lemma list_loop_ok: "path \<notin> set keys \<Longrightarrow> \<exists>files'. list_loop path keys files = Inr files'"
proof (induction keys arbitrary: files)
  case (Cons k ks)
  then obtain files1 where "list_entry path k files = Inr files1" using list_entry_ok [of k path files] by auto
  with Cons show ?case by simp
qed simp

lemma mem_list_ok: "path \<notin> set (dict_keys files) \<Longrightarrow> \<exists>ps. fs_list memory_store files path = Inr ps"
  using list_loop_ok by (auto simp: memory_store_def mem_list_def)

section \<open>Names of files\<close>

lemma event_filename_eq [simp]:
  "get_conversation_event_filename sid i user = get_conversation_event_filename sid j user \<longleftrightarrow> i = j"
  by (simp add: get_conversation_event_filename_def)

end
