(* ===== verification/EventStore.thy ===== *)
theory EventStore
  imports Serialization FileStore
begin

text \<open>
  \<^verbatim>\<open>openhands/events/event_store.py\<close>: the stored list of events of a conversation. An event is a file
  of its own, named by its identifier; full pages of events are stored once more in a cache file,
  and a search reads them from there when the page of an index exists.

  The file store, the reading of dictionaries and the JSON conversion are arguments
  (\<open>store_env\<close>); so are the lower-case conversion and the text of an event that filters with a
  query use. A search is a generator: its result is the list of the events it yields with the
  exception that ends it, if any.
\<close>

record ('fs, 'c) store_env =
  se_files :: "('fs, 'c) file_ops"
  se_codec :: codec
  se_dumps :: "json \<Rightarrow> 'c"
  se_loads :: "'c \<Rightarrow> json result"
  se_lower :: "string \<Rightarrow> string"
  se_dump :: "event \<Rightarrow> string"

record 'fs event_store =
  es_sid :: string
  es_file_store :: 'fs
  es_user_id :: "string option"
  es_cur_id :: int
  es_cache_size :: int

section \<open>Cache pages\<close>

record cache_page =
  cp_events :: "json option"
  cp_start :: int
  cp_end :: int

definition covers :: "cache_page \<Rightarrow> int \<Rightarrow> bool" where
  "covers page i = (if i < cp_start page then False else if i \<ge> cp_end page then False else True)"

definition event_of_json :: "codec \<Rightarrow> json \<Rightarrow> event result" where
  "event_of_json C j = bind_result (as_dict j) (event_from_dict C)"

definition page_event :: "codec \<Rightarrow> cache_page \<Rightarrow> int \<Rightarrow> event option result" where
  "page_event C page i =
     (case cp_events page of
        None \<Rightarrow> Inr None
      | Some j \<Rightarrow>
          if \<not> truthy j then Inr None
          else
            bind_result (as_list j) (\<lambda>l.
            bind_result (py_get l (i - cp_start page)) (\<lambda>d.
            bind_result (event_of_json C d) (\<lambda>e. Inr (Some e)))))"

definition DUMMY_PAGE :: cache_page where
  "DUMMY_PAGE = \<lparr>cp_events = None, cp_start = 1, cp_end = - 1\<rparr>"

section \<open>Names\<close>

definition get_filename_for_id :: "('fs, 'z) event_store_scheme \<Rightarrow> int \<Rightarrow> string" where
  "get_filename_for_id s i = get_conversation_event_filename (es_sid s) i (es_user_id s)"

definition get_filename_for_cache :: "('fs, 'z) event_store_scheme \<Rightarrow> int \<Rightarrow> int \<Rightarrow> string" where
  "get_filename_for_cache s a b =
     get_conversation_dir (es_sid s) (es_user_id s) @ ''event_cache/'' @ str_int a @ ''-'' @ str_int b @ ''.json''"

definition get_id_from_filename :: "string \<Rightarrow> int" where
  "get_id_from_filename filename =
     (case py_int (hd (split_on (CHR ''.'') (last (split_on (CHR ''/'') filename)))) of
        Some i \<Rightarrow> i
      | None \<Rightarrow> - 1)"

section \<open>Opening a store\<close>

fun highest_id :: "int \<Rightarrow> string list \<Rightarrow> int" where
  "highest_id cur [] = cur"
| "highest_id cur (f # fs) =
     (let i = get_id_from_filename f in highest_id (if i \<ge> cur then i + 1 else cur) fs)"

definition post_init :: "('fs, 'c) store_env \<Rightarrow> ('fs, 'z) event_store_scheme \<Rightarrow> ('fs, 'z) event_store_scheme result" where
  "post_init E s =
     (if es_cur_id s \<ge> 0 then Inr s
      else
        bind_result
          (case fs_list (se_files E) (es_file_store s) (get_conversation_events_dir (es_sid s) (es_user_id s)) of
             Inr files \<Rightarrow> Inr files
           | Inl (FileNotFoundError _) \<Rightarrow> Inr []
           | Inl e \<Rightarrow> Inl e) (\<lambda>events.
        Inr (s\<lparr>es_cur_id := (if events = [] then 0 else highest_id (es_cur_id s) events)\<rparr>)))"

definition new_store :: "string \<Rightarrow> 'fs \<Rightarrow> string option \<Rightarrow> 'fs event_store" where
  "new_store sid fs user = \<lparr>es_sid = sid, es_file_store = fs, es_user_id = user, es_cur_id = - 1, es_cache_size = 25\<rparr>"

section \<open>Reading\<close>

definition get_event :: "('fs, 'c) store_env \<Rightarrow> ('fs, 'z) event_store_scheme \<Rightarrow> int \<Rightarrow> event result" where
  "get_event E s i =
     bind_result (fs_read (se_files E) (es_file_store s) (get_filename_for_id s i)) (\<lambda>content.
     bind_result (se_loads E content) (event_of_json (se_codec E)))"

definition get_latest_event :: "('fs, 'c) store_env \<Rightarrow> ('fs, 'z) event_store_scheme \<Rightarrow> event result" where
  "get_latest_event E s = get_event E s (es_cur_id s - 1)"

definition get_latest_event_id :: "('fs, 'z) event_store_scheme \<Rightarrow> int" where
  "get_latest_event_id s = es_cur_id s - 1"

definition load_cache_page :: "('fs, 'c) store_env \<Rightarrow> ('fs, 'z) event_store_scheme \<Rightarrow> int \<Rightarrow> int \<Rightarrow> cache_page result" where
  "load_cache_page E s a b =
     bind_result
       (case fs_read (se_files E) (es_file_store s) (get_filename_for_cache s a b) of
          Inl (FileNotFoundError _) \<Rightarrow> Inr None
        | Inl e \<Rightarrow> Inl e
        | Inr content \<Rightarrow> bind_result (se_loads E content) (\<lambda>j. Inr (if j = JNull then None else Some j)))
       (\<lambda>events. Inr \<lparr>cp_events = events, cp_start = a, cp_end = b\<rparr>)"

definition load_cache_page_for_index :: "('fs, 'c) store_env \<Rightarrow> ('fs, 'z) event_store_scheme \<Rightarrow> int \<Rightarrow> cache_page result" where
  "load_cache_page_for_index E s i =
     (if es_cache_size s = 0 then Inl (OtherException ''ZeroDivisionError'')
      else let a = i - i mod es_cache_size s in load_cache_page E s a (a + es_cache_size s))"

section \<open>Searching\<close>

definition included :: "('fs, 'c) store_env \<Rightarrow> event_filter option \<Rightarrow> event \<Rightarrow> bool" where
  "included E flt e = (case flt of None \<Rightarrow> True | Some f \<Rightarrow> filter_include (se_lower E) (se_dump E) f e)"

text \<open>The event at an index, from the page or from its file.\<close>

definition search_event :: "('fs, 'c) store_env \<Rightarrow> ('fs, 'z) event_store_scheme \<Rightarrow> cache_page \<Rightarrow> int \<Rightarrow> event option result" where
  "search_event E s page i =
     bind_result (page_event (se_codec E) page i) (\<lambda>r.
       case r of
         Some e \<Rightarrow> Inr (Some e)
       | None \<Rightarrow>
           (case get_event E s i of
              Inr e \<Rightarrow> Inr (Some e)
            | Inl (FileNotFoundError _) \<Rightarrow> Inr None
            | Inl er \<Rightarrow> Inl er))"

text \<open>The loop; \<open>go i\<close> is what \<open>should_continue()\<close> returns before index \<open>i\<close>.\<close>

fun search_loop ::
  "('fs, 'c) store_env \<Rightarrow> ('fs, 'z) event_store_scheme \<Rightarrow> (int \<Rightarrow> bool) \<Rightarrow> event_filter option \<Rightarrow> int option \<Rightarrow>
   cache_page \<Rightarrow> int \<Rightarrow> int list \<Rightarrow> event list \<times> py_error option" where
  "search_loop E s go flt limit page n [] = ([], None)"
| "search_loop E s go flt limit page n (i # is) =
     (if \<not> go i then ([], None)
      else
        case (if covers page i then Inr page else load_cache_page_for_index E s i) of
          Inl er \<Rightarrow> ([], Some er)
        | Inr page' \<Rightarrow>
            (case search_event E s page' i of
               Inl er \<Rightarrow> ([], Some er)
             | Inr None \<Rightarrow> search_loop E s go flt limit page' n is
             | Inr (Some e) \<Rightarrow>
                 if included E flt e
                 then
                   if (case limit of None \<Rightarrow> False | Some l \<Rightarrow> l \<noteq> 0 \<and> l \<le> n + 1) then ([e], None)
                   else (case search_loop E s go flt limit page' (n + 1) is of (es, er) \<Rightarrow> (e # es, er))
                 else search_loop E s go flt limit page' n is))"

definition search_events ::
  "('fs, 'c) store_env \<Rightarrow> ('fs, 'z) event_store_scheme \<Rightarrow> (int \<Rightarrow> bool) \<Rightarrow> int \<Rightarrow> int option \<Rightarrow> bool \<Rightarrow>
   event_filter option \<Rightarrow> int option \<Rightarrow> event list \<times> py_error option" where
  "search_events E s go start_id end_id reverse flt limit =
     (let stop = (case end_id of None \<Rightarrow> es_cur_id s | Some b \<Rightarrow> b + 1)
      in search_loop E s go flt limit DUMMY_PAGE 0
           (if reverse then rev [start_id..stop - 1] else [start_id..stop - 1]))"

definition get_events ::
  "('fs, 'c) store_env \<Rightarrow> ('fs, 'z) event_store_scheme \<Rightarrow> (int \<Rightarrow> bool) \<Rightarrow> int \<Rightarrow> int option \<Rightarrow> bool \<Rightarrow>
   (event \<Rightarrow> bool) option \<Rightarrow> bool \<Rightarrow> event list \<times> py_error option" where
  "get_events E s go start_id end_id reverse filter_out_type filter_hidden =
     search_events E s go start_id end_id reverse
       (Some \<lparr>ef_exclude_hidden = filter_hidden, ef_query = None, ef_include_types = None, ef_exclude_types = filter_out_type,
          ef_source = None, ef_start_date = None, ef_end_date = None\<rparr>) None"

definition filtered_events_by_source ::
  "('fs, 'c) store_env \<Rightarrow> ('fs, 'z) event_store_scheme \<Rightarrow> (int \<Rightarrow> bool) \<Rightarrow> event_source \<Rightarrow> event list \<times> py_error option" where
  "filtered_events_by_source E s go src =
     (case get_events E s go 0 None False None False of
        (es, er) \<Rightarrow> (filter (\<lambda>e. ev_source e = Some src) es, er))"

definition get_matching_events ::
  "('fs, 'c) store_env \<Rightarrow> ('fs, 'z) event_store_scheme \<Rightarrow> (int \<Rightarrow> bool) \<Rightarrow> string option \<Rightarrow> (event \<Rightarrow> bool) option \<Rightarrow> string option \<Rightarrow>
   string option \<Rightarrow> string option \<Rightarrow> int \<Rightarrow> int \<Rightarrow> bool \<Rightarrow> event list result" where
  "get_matching_events E s go query event_types source start_date end_date start_id limit reverse =
     (if limit < 1 \<or> limit > 100 then Inl (ValueError ''Limit must be between 1 and 100'')
      else
        case search_events E s go start_id None reverse
               (Some \<lparr>ef_exclude_hidden = False, ef_query = query, ef_include_types = event_types, ef_exclude_types = None,
                  ef_source = source, ef_start_date = start_date, ef_end_date = end_date\<rparr>) None of
          (es, er) \<Rightarrow>
            if limit \<le> int (length es) then Inr (take (nat limit) es)
            else (case er of None \<Rightarrow> Inr es | Some e \<Rightarrow> Inl e))"


section \<open>Stored events\<close>

text \<open>
  \<open>W\<close> is the content of the event files and \<open>V\<close> the content of the events that pages may hold,
  by identifier; a page is stored only as a whole.
\<close>

definition page_agrees :: "(int \<Rightarrow> jdict option) \<Rightarrow> int \<Rightarrow> jdict list \<Rightarrow> bool" where
  "page_agrees V a ds \<longleftrightarrow> list_all (\<lambda>j. V (a + int j) = Some (ds ! j)) [0..<length ds]"

text \<open>What the read of the cache file from \<open>a\<close> on may return.\<close>

definition cache_ok :: "('fs, 'c) store_env \<Rightarrow> ('fs, 'z) event_store_scheme \<Rightarrow> (int \<Rightarrow> jdict option) \<Rightarrow> int \<Rightarrow> 'c result \<Rightarrow> bool" where
  "cache_ok E s V a r \<longleftrightarrow>
     (case r of
        Inl e \<Rightarrow> e = FileNotFoundError (get_filename_for_cache s a (a + es_cache_size s))
      | Inr c \<Rightarrow> \<exists>ds. c = se_dumps E (JList (map JObj ds)) \<and> length ds = nat (es_cache_size s) \<and> page_agrees V a ds)"

definition stored :: "('fs, 'c) store_env \<Rightarrow> ('fs, 'z) event_store_scheme \<Rightarrow> (int \<Rightarrow> jdict option) \<Rightarrow> (int \<Rightarrow> jdict option) \<Rightarrow> bool" where
  "stored E s W V \<longleftrightarrow>
     (\<forall>i. fs_read (se_files E) (es_file_store s) (get_filename_for_id s i) =
        (case W i of None \<Rightarrow> Inl (FileNotFoundError (get_filename_for_id s i)) | Some d \<Rightarrow> Inr (se_dumps E (JObj d)))) \<and>
     (\<forall>a. cache_ok E s V a (fs_read (se_files E) (es_file_store s) (get_filename_for_cache s a (a + es_cache_size s))))"

definition page_ok :: "(int \<Rightarrow> jdict option) \<Rightarrow> cache_page \<Rightarrow> bool" where
  "page_ok V page \<longleftrightarrow>
     (case cp_events page of
        None \<Rightarrow> True
      | Some j \<Rightarrow> \<exists>ds. j = JList (map JObj ds) \<and> cp_end page = cp_start page + int (length ds) \<and> page_agrees V (cp_start page) ds)"

definition take_limit :: "int option \<Rightarrow> int \<Rightarrow> 'a list \<Rightarrow> 'a list" where
  "take_limit limit n xs =
     (case limit of None \<Rightarrow> xs | Some l \<Rightarrow> if l = 0 then xs else take (nat (max 1 (l - n))) xs)"

lemma take_limit_Nil [simp]: "take_limit limit n [] = []"
  by (simp add: take_limit_def split: option.split)

lemma nat_minus_succ: "nat (l - n) - Suc 0 = nat (l - (n + 1))"
  by arith

lemma take_limit_Cons:
  "take_limit limit n (x # xs) =
     (if (case limit of None \<Rightarrow> False | Some l \<Rightarrow> l \<noteq> 0 \<and> l \<le> n + 1) then [x] else x # take_limit limit (n + 1) xs)"
  by (auto simp: take_limit_def max_def nat_minus_succ take_Cons' split: option.split)

lemma page_ok_DUMMY: "page_ok V DUMMY_PAGE"
  by (simp add: page_ok_def DUMMY_PAGE_def)

locale json_files =
  files: file_store "se_files E" for E :: "('fs, 'c) store_env" +
  assumes loads_dumps: "se_loads E (se_dumps E j) = Inr j"
begin

lemma load_page:
  assumes "stored E s W V" "0 < es_cache_size s"
  shows "\<exists>page. load_cache_page_for_index E s i = Inr page \<and> page_ok V page \<and> covers page i"
proof -
  let ?cs = "es_cache_size s" and ?a = "i - i mod es_cache_size s"
  let ?r = "fs_read (se_files E) (es_file_store s) (get_filename_for_cache s ?a (?a + ?cs))"
  have cov: "covers \<lparr>cp_events = x, cp_start = ?a, cp_end = ?a + ?cs\<rparr> i" for x
    using pos_mod_bound [OF assms(2), of i] pos_mod_sign [OF assms(2), of i] by (auto simp: covers_def)
  have cache: "case ?r of
        Inl e \<Rightarrow> e = FileNotFoundError (get_filename_for_cache s ?a (?a + ?cs))
      | Inr c \<Rightarrow> \<exists>ds. c = se_dumps E (JList (map JObj ds)) \<and> length ds = nat ?cs \<and> page_agrees V ?a ds"
    using assms(1) unfolding stored_def cache_ok_def by blast
  show ?thesis
  proof (cases ?r)
    case (Inl e)
    with cache have "e = FileNotFoundError (get_filename_for_cache s ?a (?a + ?cs))" by simp
    with Inl cov assms(2) show ?thesis
      by (intro exI [of _ "\<lparr>cp_events = None, cp_start = ?a, cp_end = ?a + ?cs\<rparr>"])
        (simp add: load_cache_page_for_index_def load_cache_page_def Let_def page_ok_def)
  next
    case (Inr c)
    with cache obtain ds where ds: "c = se_dumps E (JList (map JObj ds))" "length ds = nat ?cs" "page_agrees V ?a ds"
      by auto
    let ?page = "\<lparr>cp_events = Some (JList (map JObj ds)), cp_start = ?a, cp_end = ?a + ?cs\<rparr>"
    have "page_ok V ?page"
      unfolding page_ok_def using ds assms(2) by (auto intro!: exI [of _ ds])
    with Inr ds(1) cov assms(2) show ?thesis
      by (intro exI [of _ ?page]) (simp add: load_cache_page_for_index_def load_cache_page_def Let_def loads_dumps)
  qed
qed

lemma page_event_ok:
  assumes "page_ok V page" "covers page i" "\<And>d. V i = Some d \<Longrightarrow> event_from_dict (se_codec E) d = Inr e"
  shows "page_event (se_codec E) page i = Inr None \<or> (V i \<noteq> None \<and> page_event (se_codec E) page i = Inr (Some e))"
proof (cases "cp_events page")
  case (Some j)
  then obtain ds where ds: "j = JList (map JObj ds)" "cp_end page = cp_start page + int (length ds)" "page_agrees V (cp_start page) ds"
    using assms(1) by (auto simp: page_ok_def)
  define k where "k = nat (i - cp_start page)"
  have k: "i = cp_start page + int k" "k < length ds" using assms(2) ds(2) by (auto simp: k_def covers_def split: if_splits)
  then have "V i = Some (ds ! k)" using ds(3) by (auto simp: page_agrees_def list_all_iff)
  with assms(3) k ds Some show ?thesis
    by (auto simp: page_event_def py_get_def event_of_json_def)
qed (simp add: page_event_def)

lemma search_event_ok:
  assumes "stored E s V V" "page_ok V page" "covers page i" "\<And>d. V i = Some d \<Longrightarrow> event_from_dict (se_codec E) d = Inr e"
  shows "search_event E s page i = Inr (map_option (\<lambda>_. e) (V i))"
proof -
  have "get_event E s i = (case V i of None \<Rightarrow> Inl (FileNotFoundError (get_filename_for_id s i)) | Some d \<Rightarrow> Inr e)"
    using assms(1,4) by (auto simp: get_event_def stored_def loads_dumps event_of_json_def split: option.split)
  then show ?thesis
    using page_event_ok [OF assms(2,3,4)] by (cases "V i") (auto simp: search_event_def)
qed

lemma search_loop_spec:
  assumes st: "stored E s V V" and cs: "0 < es_cache_size s"
    and go: "\<forall>i \<in> set is. go i" and ev: "\<forall>i \<in> set is. \<forall>d. V i = Some d \<longrightarrow> event_from_dict (se_codec E) d = Inr (ev i)"
    and page: "page_ok V page"
  shows "search_loop E s go flt limit page n is =
    (take_limit limit n (filter (included E flt) (map ev (filter (\<lambda>i. V i \<noteq> None) is))), None)"
  using go ev page
proof (induction "is" arbitrary: page n)
  case (Cons i "is")
  obtain page' where p: "(if covers page i then Inr page else load_cache_page_for_index E s i) = Inr page'"
    "page_ok V page'" "covers page' i"
    using load_page [OF st cs, of i] Cons.prems(3) by (cases "covers page i") auto
  have "search_event E s page' i = Inr (map_option (\<lambda>_. ev i) (V i))"
    using Cons.prems(2) by (intro search_event_ok [OF st p(2,3)]) simp
  with p Cons show ?case
    by (cases "V i") (auto simp: take_limit_Cons)
qed simp

end

section \<open>Identifiers and names\<close>

lemma event_filename: "get_filename_for_id s i =
    get_conversation_events_dir (es_sid s) (es_user_id s) @ (str_int i @ ''.json'')"
  by (simp add: get_filename_for_id_def get_conversation_event_filename_def)

lemma str_int_no_slash: "CHR ''/'' \<notin> set (str_int i)" "CHR ''.'' \<notin> set (str_int i)"
  using str_int_chars [of _ i] digit_not by fastforce+

lemma events_dir_slash: "\<exists>d. get_conversation_events_dir sid user = d @ [CHR ''/'']"
  by (simp add: get_conversation_events_dir_def)

lemma id_of_event_filename [simp]: "get_id_from_filename (get_filename_for_id s i) = i"
proof -
  obtain d where "get_conversation_events_dir (es_sid s) (es_user_id s) = d @ [CHR ''/'']" using events_dir_slash by blast
  then have f: "get_filename_for_id s i = d @ CHR ''/'' # (str_int i @ ''.json'')" by (simp add: event_filename)
  have "last (split_on (CHR ''/'') (get_filename_for_id s i)) = str_int i @ ''.json''"
    unfolding f last_split_on_append by (subst split_on_absent) (simp_all add: str_int_no_slash)
  then show ?thesis
    using split_on_append [of "CHR ''.''" "str_int i" "''json''"] by (simp add: get_id_from_filename_def str_int_no_slash)
qed

lemma id_of_directory [simp]: "ends_slash x \<Longrightarrow> get_id_from_filename x = - 1"
proof -
  assume "ends_slash x"
  then obtain d where "x = d @ CHR ''/'' # []" by (metis append_butlast_last_id ends_slash_def)
  then have "last (split_on (CHR ''/'') x) = []" using last_split_on_append [of "CHR ''/''" d "[]"] by simp
  then show ?thesis by (simp add: get_id_from_filename_def py_int_def py_strip_def)
qed

lemma filenames_apart: "get_filename_for_id s i \<noteq> get_filename_for_cache s' a b"
  if "es_sid s = es_sid s'" "es_user_id s = es_user_id s'"
  using that by (simp add: event_filename get_filename_for_cache_def get_conversation_events_dir_def)

lemma digits_then_hyphen:
  "nat_digits m @ CHR ''-'' # x = nat_digits n @ CHR ''-'' # y \<Longrightarrow> m = n"
  "nat_digits m @ x \<noteq> CHR ''-'' # y"
proof -
  have *: "takeWhile (\<lambda>c. c \<noteq> CHR ''-'') (nat_digits n @ CHR ''-'' # t) = nat_digits n" for n t
    using nat_digits_chars digit_not by (subst takeWhile_append2) auto
  show "m = n" if "nat_digits m @ CHR ''-'' # x = nat_digits n @ CHR ''-'' # y"
    using arg_cong [OF that, of "takeWhile (\<lambda>c. c \<noteq> CHR ''-'')"] unsigned_int_nat_digits
    unfolding * by (metis option.inject)
  show "nat_digits m @ x \<noteq> CHR ''-'' # y"
    using nat_digits_chars [of _ m] digit_not by (cases "nat_digits m") auto
qed

lemma str_int_then_hyphen: "str_int a @ CHR ''-'' # x = str_int b @ CHR ''-'' # y \<Longrightarrow> a = b"
  using digits_then_hyphen(2) [symmetric]
  by (auto simp: str_int_def digits_then_hyphen(2) dest: digits_then_hyphen(1) split: if_splits)

lemma cache_filename_start: "get_filename_for_cache s a (a + k) = get_filename_for_cache s b (b + k) \<longleftrightarrow> a = b"
  by (auto simp: get_filename_for_cache_def dest: str_int_then_hyphen)

lemma highest_id_bounds: "cur \<le> highest_id cur fs" "f \<in> set fs \<Longrightarrow> get_id_from_filename f < highest_id cur fs"
  by (induction cur fs rule: highest_id.induct) (force simp: Let_def)+

lemma highest_id_least: "(\<forall>f \<in> set fs. get_id_from_filename f < n) \<Longrightarrow> cur \<le> n \<Longrightarrow> highest_id cur fs \<le> n"
  by (induction cur fs rule: highest_id.induct) (auto simp: Let_def)

end
