(* ===== verification/EventStream.thy ===== *)
theory EventStream
  imports EventStore
begin

text \<open>
  \<^verbatim>\<open>openhands/events/stream.py\<close>: the event stream, a store to which events are added.

  The pages of the write cache are objects that several calls share: they are kept in a list in
  which the position is the address, and the current page is the last one. \<open>add_event\<close> has a part
  under the lock and a part after it that writes the files; both are functions, so that calls in
  several threads can be interleaved. A callback is known by its identifier; what the pools run is
  the list of submitted calls.
\<close>

record 'fs event_stream = "'fs event_store" +
  st_secrets :: "(string, string) dict"
  st_pages :: "jdict list list"
  st_queue :: "event list"
  st_stop :: bool
  st_subscribers :: "(string, string list) dict"
  st_thread_pools :: "(string, string list) dict"
  st_thread_loops :: "(string, string list) dict"

section \<open>Opening\<close>

definition new_stream :: "('fs, 'c) store_env \<Rightarrow> string \<Rightarrow> 'fs \<Rightarrow> string option \<Rightarrow> 'fs event_stream result" where
  "new_stream E sid fs user =
     bind_result (post_init E (new_store sid fs user)) (\<lambda>s.
       Inr (event_store.extend s
         \<lparr>st_secrets = [], st_pages = [[]], st_queue = [], st_stop = False, st_subscribers = [], st_thread_pools = [],
          st_thread_loops = []\<rparr>))"

definition session_exists :: "('fs, 'c) file_ops \<Rightarrow> 'fs \<Rightarrow> string \<Rightarrow> string option \<Rightarrow> bool result" where
  "session_exists F fs sid user =
     (case fs_list F fs (get_conversation_dir sid user) of
        Inr _ \<Rightarrow> Inr True
      | Inl (FileNotFoundError _) \<Rightarrow> Inr False
      | Inl e \<Rightarrow> Inl e)"

section \<open>Secrets\<close>

definition hide_text :: "string list \<Rightarrow> string \<Rightarrow> string" where
  "hide_text secrets s = fold (\<lambda>q t. str_replace q secret_marker t) secrets s"

fun hide :: "string list \<Rightarrow> json \<Rightarrow> json" where
  "hide secrets (JObj d) = JObj (map (\<lambda>kv. (fst kv, hide secrets (snd kv))) d)"
| "hide secrets (JStr s) = JStr (hide_text secrets s)"
| "hide secrets j = j"

definition replace_secrets :: "(string, string) dict \<Rightarrow> jdict \<Rightarrow> jdict" where
  "replace_secrets secrets d = map (\<lambda>kv. (fst kv, hide (map snd secrets) (snd kv))) d"

definition set_secrets :: "(string, string) dict \<Rightarrow> 'fs event_stream \<Rightarrow> 'fs event_stream" where
  "set_secrets secrets s = s\<lparr>st_secrets := secrets\<rparr>"

definition update_secrets :: "(string, string) dict \<Rightarrow> 'fs event_stream \<Rightarrow> 'fs event_stream" where
  "update_secrets secrets s = s\<lparr>st_secrets := fold (\<lambda>(k, v) d. dict_set d k v) secrets (st_secrets s)\<rparr>"

section \<open>Adding events\<close>

definition stamp :: "string \<Rightarrow> event_source \<Rightarrow> event \<Rightarrow> event" where
  "stamp now source e = e\<lparr>ev_timestamp := Some now, ev_source := Some source\<rparr>"

text \<open>
  The part under the lock: the new state, the caller's event with its identifier, and the page,
  the data and the event that the rest of the call works on.
\<close>

definition add_locked ::
  "('fs, 'c) store_env \<Rightarrow> 'fs event_stream \<Rightarrow> event \<Rightarrow> 'fs event_stream \<times> event \<times> (nat \<times> jdict \<times> event) result" where
  "add_locked E s e =
     (let e1 = e\<lparr>ev_id := es_cur_id s\<rparr>;
          s1 = s\<lparr>es_cur_id := es_cur_id s + 1\<rparr>;
          addr = length (st_pages s) - 1
      in case event_to_dict (se_codec E) e1 of
           Inl er \<Rightarrow> (s1, e1, Inl er)
         | Inr d \<Rightarrow>
             let data = replace_secrets (st_secrets s) d
             in (case event_from_dict (se_codec E) data of
                   Inl er \<Rightarrow> (s1, e1, Inl er)
                 | Inr ev \<Rightarrow>
                     let page = st_pages s ! addr @ [data];
                         pages = (st_pages s)[addr := page]
                     in (s1\<lparr>st_pages := (if int (length page) = es_cache_size s then pages @ [[]] else pages)\<rparr>, e1,
                         Inr (addr, data, ev))))"

definition store_event :: "('fs, 'c) store_env \<Rightarrow> 'fs event_stream \<Rightarrow> jdict \<Rightarrow> event \<Rightarrow> 'fs event_stream" where
  "store_event E s data ev =
     s\<lparr>es_file_store := fs_write (se_files E) (es_file_store s) (get_filename_for_id s (ev_id ev)) (se_dumps E (JObj data))\<rparr>"

definition store_cache_page :: "('fs, 'c) store_env \<Rightarrow> 'fs event_stream \<Rightarrow> jdict list \<Rightarrow> 'fs event_stream result" where
  "store_cache_page E s page =
     (if int (length page) < es_cache_size s then Inr s
      else
        case page of
          [] \<Rightarrow> Inl IndexError
        | first # _ \<Rightarrow>
            (case dict_get first ''id'' of
               None \<Rightarrow> Inl (KeyError ''id'')
             | Some j \<Rightarrow>
                 bind_result (as_int j) (\<lambda>start.
                   Inr (s\<lparr>es_file_store := fs_write (se_files E) (es_file_store s)
                            (get_filename_for_cache s start (start + es_cache_size s))
                            (se_dumps E (JList (map JObj page)))\<rparr>))))"

definition queue_put :: "event \<Rightarrow> 'fs event_stream \<Rightarrow> 'fs event_stream" where
  "queue_put ev s = s\<lparr>st_queue := st_queue s @ [ev]\<rparr>"

definition add_event ::
  "('fs, 'c) store_env \<Rightarrow> 'fs event_stream \<Rightarrow> string \<Rightarrow> event \<Rightarrow> event_source \<Rightarrow> 'fs event_stream \<times> event \<times> unit result" where
  "add_event E s now e source =
     (if ev_id e \<noteq> INVALID_ID then (s, e, Inl (ValueError ''Event already has an ID''))
      else
        case add_locked E s (stamp now source e) of
          (s1, e1, Inl er) \<Rightarrow> (s1, e1, Inl er)
        | (s1, e1, Inr (addr, data, ev)) \<Rightarrow>
            let s2 = store_event E s1 data ev
            in (case store_cache_page E s2 (st_pages s2 ! addr) of
                  Inl er \<Rightarrow> (s2, e1, Inl er)
                | Inr s3 \<Rightarrow> (queue_put ev s3, e1, Inr ())))"

section \<open>Subscribers\<close>

definition registered :: "(string, string list) dict \<Rightarrow> string \<Rightarrow> string \<Rightarrow> bool" where
  "registered d k c = (case dict_get d k of None \<Rightarrow> False | Some cs \<Rightarrow> c \<in> set cs)"

definition remove_id :: "(string, string list) dict \<Rightarrow> string \<Rightarrow> string \<Rightarrow> (string, string list) dict" where
  "remove_id d k c = (case dict_get d k of None \<Rightarrow> d | Some cs \<Rightarrow> dict_set d k (filter (\<lambda>x. x \<noteq> c) cs))"

definition append_id :: "(string, string list) dict \<Rightarrow> string \<Rightarrow> string \<Rightarrow> (string, string list) dict" where
  "append_id d k c = dict_set d k (dict_get_default d k [] @ [c])"

text \<open>The initializer of a pool, run by its thread before the first call.\<close>

definition init_thread_loop :: "string \<Rightarrow> string \<Rightarrow> 'fs event_stream \<Rightarrow> 'fs event_stream" where
  "init_thread_loop k c s =
     s\<lparr>st_thread_loops :=
        (if registered (st_thread_loops s) k c then st_thread_loops s else append_id (st_thread_loops s) k c)\<rparr>"

definition clean_up_subscriber :: "string \<Rightarrow> string \<Rightarrow> 'fs event_stream \<Rightarrow> 'fs event_stream" where
  "clean_up_subscriber k c s =
     (if \<not> registered (st_subscribers s) k c then s
      else s\<lparr>st_thread_loops := remove_id (st_thread_loops s) k c,
             st_thread_pools := remove_id (st_thread_pools s) k c,
             st_subscribers := remove_id (st_subscribers s) k c\<rparr>)"

definition subscribe :: "string \<Rightarrow> string \<Rightarrow> 'fs event_stream \<Rightarrow> 'fs event_stream \<times> unit result" where
  "subscribe k c s =
     (let s1 = (if dict_get (st_subscribers s) k = None
                then s\<lparr>st_subscribers := dict_set (st_subscribers s) k [], st_thread_pools := dict_set (st_thread_pools s) k []\<rparr>
                else s)
      in if registered (st_subscribers s1) k c then (s1, Inl (ValueError ''Callback ID on subscriber already exists''))
         else (s1\<lparr>st_subscribers := append_id (st_subscribers s1) k c, st_thread_pools := append_id (st_thread_pools s1) k c\<rparr>,
               Inr ()))"

definition unsubscribe :: "string \<Rightarrow> string \<Rightarrow> 'fs event_stream \<Rightarrow> 'fs event_stream" where
  "unsubscribe k c s = (if registered (st_subscribers s) k c then clean_up_subscriber k c s else s)"

text \<open>The loop that empties the queue: the calls submitted for its first event.\<close>

definition dispatch :: "'fs event_stream \<Rightarrow> event \<Rightarrow> (string \<times> string \<times> event) list result" where
  "dispatch s ev =
     (let calls = concat (map (\<lambda>k. map (\<lambda>c. (k, c)) (dict_get_default (st_subscribers s) k [])) (sort (dict_keys (st_subscribers s))))
      in if list_all (\<lambda>(k, c). registered (st_thread_pools s) k c) calls
         then Inr (map (\<lambda>(k, c). (k, c, ev)) calls)
         else Inl (KeyError ''thread pool''))"

definition process_queue_step :: "'fs event_stream \<Rightarrow> 'fs event_stream \<times> (string \<times> string \<times> event) list result" where
  "process_queue_step s =
     (if st_stop s then (s, Inr [])
      else
        case st_queue s of
          [] \<Rightarrow> (s, Inr [])
        | ev # evs \<Rightarrow> (s\<lparr>st_queue := evs\<rparr>, dispatch s ev))"

definition close_stream :: "'fs event_stream \<Rightarrow> 'fs event_stream" where
  "close_stream s =
     (let s1 = s\<lparr>st_stop := True\<rparr>;
          ids = concat (map (\<lambda>(k, cs). map (\<lambda>c. (k, c)) cs) (st_subscribers s1))
      in (fold (\<lambda>(k, c). clean_up_subscriber k c) ids s1)\<lparr>st_queue := []\<rparr>)"

section \<open>Identifiers of stored events\<close>

lemma event_to_dict_id:
  "event_to_dict C e = Inr d \<Longrightarrow> ev_id e \<noteq> - 1 \<Longrightarrow> dict_get d ''id'' = Some (JInt (ev_id e))"
  by (auto simp: event_to_dict_def bind_result_Inr_iff Let_def)

lemma dict_get_replace_secrets: "dict_get (replace_secrets ss d) k = map_option (hide (map snd ss)) (dict_get d k)"
  by (induction d) (auto simp: replace_secrets_def dict_get_def)

lemma set_key_keeps_id: 
  "set_key d k f e = Inr e' \<Longrightarrow> (\<And>v e e'. f v e = Inr e' \<Longrightarrow> ev_id e' = ev_id e) \<Longrightarrow> ev_id e' = ev_id e"
  by (auto simp: set_key_def split: option.splits)

lemma event_from_dict_id:
  assumes "event_from_dict C d = Inr e" "dict_get d ''id'' = Some (JInt i)"
  shows "ev_id e = i"
proof -
  note steps = assms(1) [unfolded event_from_dict_def bind_result_Inr_iff]
  then obtain e0 e1 e2 e3 e4 e5 where
    s1: "set_key d ''id'' (\<lambda>v e. bind_result (as_opt as_int v) (\<lambda>i.
       Inr (e\<lparr>ev_id := (case i of None \<Rightarrow> INVALID_ID | Some n \<Rightarrow> n)\<rparr>))) e0 = Inr e1" and
    s2: "set_key d ''timestamp'' (\<lambda>v e. bind_result (as_opt as_str v) (\<lambda>s. Inr (e\<lparr>ev_timestamp := s\<rparr>))) e1 = Inr e2" and
    s3: "set_key d ''source'' (\<lambda>v e. bind_result (source_of v) (\<lambda>s. Inr (e\<lparr>ev_source := Some s\<rparr>))) e2 = Inr e3" and
    s4: "set_key d ''cause'' (\<lambda>v e. bind_result (as_opt as_int v) (\<lambda>i. Inr (e\<lparr>ev_cause := i\<rparr>))) e3 = Inr e4" and
    s5: "set_key d ''tool_call_metadata'' (\<lambda>v e. bind_result (cd_tool_call C v) (\<lambda>m. Inr (e\<lparr>ev_tool_call := Some m\<rparr>))) e4 = Inr e5" and
    s6: "set_key d ''llm_metrics'' (\<lambda>v e. Inr (e\<lparr>ev_llm_metrics := Some (cd_metrics C v)\<rparr>)) e5 = Inr e"
    by blast
  have "ev_id e1 = i" using s1 assms(2) by (auto simp: set_key_def as_opt_def)
  moreover have "ev_id e2 = ev_id e1" using s2 by (rule set_key_keeps_id) (auto simp: bind_result_Inr_iff)
  moreover have "ev_id e3 = ev_id e2" using s3 by (rule set_key_keeps_id) (auto simp: bind_result_Inr_iff)
  moreover have "ev_id e4 = ev_id e3" using s4 by (rule set_key_keeps_id) (auto simp: bind_result_Inr_iff)
  moreover have "ev_id e5 = ev_id e4" using s5 by (rule set_key_keeps_id) (auto simp: bind_result_Inr_iff)
  moreover have "ev_id e = ev_id e5" using s6 by (rule set_key_keeps_id) auto
  ultimately show ?thesis by simp
qed

section \<open>The laws of adding\<close>

lemma concat_page_nth:
  assumes "a < length pages" "\<forall>p \<in> set (take a pages). length p = m" "j < length (pages ! a)"
  shows "concat pages ! (a * m + j) = pages ! a ! j" "a * m + j < length (concat pages)"
proof -
  have len: "length (concat (take a pages)) = a * m"
    using assms(1,2) by (simp add: length_concat) (subst map_cong [OF refl, of _ _ "\<lambda>_. m"], auto simp: sum_list_triv)
  have split: "concat pages = concat (take a pages) @ pages ! a @ concat (drop (Suc a) pages)"
    using assms(1) by (metis append_take_drop_id concat.simps(2) concat_append Cons_nth_drop_Suc)
  show "concat pages ! (a * m + j) = pages ! a ! j"
    unfolding split using assms(3) len by (simp add: nth_append)
  show "a * m + j < length (concat pages)"
    unfolding split using assms(3) len by simp
qed

definition pages_ok :: "int \<Rightarrow> jdict list list \<Rightarrow> bool" where
  "pages_ok cs pages \<longleftrightarrow> pages \<noteq> [] \<and> (\<forall>p \<in> set (butlast pages). int (length p) = cs) \<and> int (length (last pages)) < cs"

text \<open>A write page with one more entry, and the new page after a full one.\<close>

definition grow :: "int \<Rightarrow> jdict list list \<Rightarrow> jdict \<Rightarrow> jdict list list" where
  "grow cs pages d =
     (let a = length pages - 1; page = pages ! a @ [d]; pages' = pages[a := page]
      in if int (length page) = cs then pages' @ [[]] else pages')"

lemma grow_snoc:
  "grow cs (ps @ [p]) d = (if int (length p + 1) = cs then ps @ [p @ [d], []] else ps @ [p @ [d]])"
  by (simp add: grow_def Let_def)

lemma grow_ok:
  assumes "pages_ok cs pages"
  shows "pages_ok cs (grow cs pages d)" "concat (grow cs pages d) = concat pages @ [d]" "length pages \<le> length (grow cs pages d)"
proof -
  obtain ps p where p: "pages = ps @ [p]" using assms unfolding pages_ok_def by (metis append_butlast_last_id)
  show "pages_ok cs (grow cs pages d)"
    using assms unfolding p grow_snoc by (auto simp: pages_ok_def butlast_append)
  show "concat (grow cs pages d) = concat pages @ [d]" "length pages \<le> length (grow cs pages d)"
    unfolding p grow_snoc by simp_all
qed

lemma pages_before_full:
  assumes "pages_ok cs pages" "a < length pages" "p \<in> set (take a pages)"
  shows "int (length p) = cs"
proof -
  have "take a pages = take a (butlast pages)" using assms(2) by (simp add: butlast_conv_take)
  then have "p \<in> set (butlast pages)" using assms(3) by (metis in_set_takeD)
  then show ?thesis using assms(1) by (simp add: pages_ok_def)
qed

text \<open>
  Calls of \<open>add_event\<close> in several threads, interleaved with the loop that empties the queue, with
  subscriptions and changes of the secrets. \<open>evs\<close> are the events in the order in which the calls
  took the lock; a call between its lock and its end is pending, with a flag for the written file.
\<close>

type_synonym pending = "nat \<times> jdict \<times> event \<times> bool"

inductive runs :: "('fs, 'c) store_env \<Rightarrow> 'fs event_stream \<Rightarrow> event list \<Rightarrow> 'fs event_stream \<Rightarrow> pending list \<Rightarrow> bool"
  for E :: "('fs, 'c) store_env" and s0 :: "'fs event_stream" where
  run_start: "runs E s0 [] s0 []"
| run_lock: "runs E s0 evs s P \<Longrightarrow> ev_id e = INVALID_ID \<Longrightarrow>
    add_locked E s (stamp now source e) = (s', e', Inr (a, d, ev)) \<Longrightarrow> runs E s0 (evs @ [ev]) s' (P @ [(a, d, ev, False)])"
| run_write: "runs E s0 evs s (P @ (a, d, ev, False) # Q) \<Longrightarrow> runs E s0 evs (store_event E s d ev) (P @ (a, d, ev, True) # Q)"
| run_page: "runs E s0 evs s (P @ (a, d, ev, True) # Q) \<Longrightarrow> store_cache_page E s (st_pages s ! a) = Inr s' \<Longrightarrow>
    runs E s0 evs (queue_put ev s') (P @ Q)"
| run_secrets: "runs E s0 evs s P \<Longrightarrow> runs E s0 evs (set_secrets x s) P"
| run_process: "runs E s0 evs s P \<Longrightarrow> runs E s0 evs (fst (process_queue_step s)) P"
| run_join: "runs E s0 evs s P \<Longrightarrow> runs E s0 evs (fst (subscribe k c s)) P"
| run_leave: "runs E s0 evs s P \<Longrightarrow> runs E s0 evs (unsubscribe k c s) P"

definition pending_id :: "pending \<Rightarrow> int" where
  "pending_id p = (case p of (a, d, ev, w) \<Rightarrow> ev_id ev)"

definition unwritten :: "pending list \<Rightarrow> int set" where
  "unwritten P = set (map pending_id (filter (\<lambda>p. \<not> snd (snd (snd p))) P))"

text \<open>What is known of an identifier: the entries of the pages from \<open>base\<close> on, before them \<open>V0\<close>.\<close>

definition log_view :: "int \<Rightarrow> jdict list \<Rightarrow> (int \<Rightarrow> jdict option) \<Rightarrow> int \<Rightarrow> jdict option" where
  "log_view base ds V0 i = (if base \<le> i \<and> i < base + int (length ds) then Some (ds ! nat (i - base)) else V0 i)"

definition files_view :: "pending list \<Rightarrow> (int \<Rightarrow> jdict option) \<Rightarrow> int \<Rightarrow> jdict option" where
  "files_view P V i = (if i \<in> unwritten P then None else V i)"

definition same_place :: "('fs, 'y) event_store_scheme \<Rightarrow> ('fs, 'z) event_store_scheme \<Rightarrow> bool" where
  "same_place s s' \<longleftrightarrow> es_sid s' = es_sid s \<and> es_user_id s' = es_user_id s \<and> es_cache_size s' = es_cache_size s"

definition pending_ok :: "int \<Rightarrow> 'fs event_stream \<Rightarrow> pending \<Rightarrow> bool" where
  "pending_ok base s p \<longleftrightarrow>
     (case p of (a, d, ev, w) \<Rightarrow>
        a < length (st_pages s) \<and> base \<le> ev_id ev \<and> ev_id ev < es_cur_id s \<and>
        concat (st_pages s) ! nat (ev_id ev - base) = d)"

definition log_inv :: "('fs, 'c) store_env \<Rightarrow> int \<Rightarrow> event list \<Rightarrow> 'fs event_stream \<Rightarrow> bool" where
  "log_inv E base evs s \<longleftrightarrow>
     pages_ok (es_cache_size s) (st_pages s) \<and> es_cur_id s = base + int (length (concat (st_pages s))) \<and>
     list_all2 (\<lambda>d ev. event_from_dict (se_codec E) d = Inr ev) (concat (st_pages s)) evs \<and>
     (\<forall>k < length (concat (st_pages s)). dict_get (concat (st_pages s) ! k) ''id'' = Some (JInt (base + int k)))"

definition stream_inv ::
  "('fs, 'c) store_env \<Rightarrow> 'fs event_stream \<Rightarrow> (int \<Rightarrow> jdict option) \<Rightarrow> event list \<Rightarrow> 'fs event_stream \<Rightarrow> pending list \<Rightarrow> bool" where
  "stream_inv E s0 V0 evs s P \<longleftrightarrow>
     same_place s0 s \<and> log_inv E (es_cur_id s0) evs s \<and>
     (let V = log_view (es_cur_id s0) (concat (st_pages s)) V0 in stored E s (files_view P V) V) \<and>
     (\<forall>p \<in> set P. pending_ok (es_cur_id s0) s p) \<and> distinct (map pending_id P)"

lemma cache_ok_mono:
  "cache_ok E s V a r \<Longrightarrow> (\<And>i d. V i = Some d \<Longrightarrow> V' i = Some d) \<Longrightarrow> cache_ok E s V' a r"
  by (cases r) (auto simp: cache_ok_def page_agrees_def list_all_iff)

lemma stored_mono:
  "stored E s W V \<Longrightarrow> (\<And>i d. V i = Some d \<Longrightarrow> V' i = Some d) \<Longrightarrow> stored E s W V'"
  unfolding stored_def by (auto intro: cache_ok_mono)

lemma same_place_names:
  assumes "same_place s s'"
  shows "get_filename_for_id s' i = get_filename_for_id s i" "get_filename_for_cache s' a b = get_filename_for_cache s a b"
  using assms by (simp_all add: same_place_def get_filename_for_id_def get_filename_for_cache_def)

lemma same_place_size: "same_place s s' \<Longrightarrow> es_cache_size s' = es_cache_size s"
  by (simp add: same_place_def)

lemma cache_ok_place:
  assumes "same_place s s'"
  shows "cache_ok E s' = cache_ok E s"
  unfolding cache_ok_def fun_eq_iff same_place_names [OF assms] same_place_size [OF assms] by simp

lemma stored_cong:
  assumes "same_place s s'" "es_file_store s' = es_file_store s"
  shows "stored E s' W V \<longleftrightarrow> stored E s W V"
  unfolding stored_def same_place_names [OF assms(1)] cache_ok_place [OF assms(1)] same_place_size [OF assms(1)] assms(2) ..

lemma id_filename_eq [simp]: "get_filename_for_id s i = get_filename_for_id s j \<longleftrightarrow> i = j"
  by (simp add: get_filename_for_id_def)

context json_files begin

lemma stored_store_event:
  assumes "stored E s W V"
  shows "stored E (store_event E s d ev) (W(ev_id ev := Some d)) V"
proof -
  have sp: "same_place s (store_event E s d ev)" by (simp add: same_place_def store_event_def)
  show ?thesis
    using assms unfolding stored_def same_place_names [OF sp] cache_ok_place [OF sp] same_place_size [OF sp]
    by (auto simp: store_event_def files.read_write filenames_apart [symmetric])
qed

lemma stored_store_page:
  assumes "stored E s W V" "page_agrees V start pg" "length pg = nat (es_cache_size s)"
  shows "stored E (s\<lparr>es_file_store := fs_write (se_files E) (es_file_store s)
    (get_filename_for_cache s start (start + es_cache_size s)) (se_dumps E (JList (map JObj pg)))\<rparr>) W V"
    (is "stored E ?s W V")
proof -
  have sp: "same_place s ?s" by (simp add: same_place_def)
  show ?thesis
    using assms unfolding stored_def same_place_names [OF sp] cache_ok_place [OF sp] same_place_size [OF sp]
    by (auto simp: files.read_write filenames_apart cache_filename_start) (auto simp: cache_ok_def)
qed

end

lemma add_locked_ok:
  assumes "add_locked E s e = (s', e', Inr (a, d, ev))"
  shows "a = length (st_pages s) - 1" "event_from_dict (se_codec E) d = Inr ev"
    "s' = s\<lparr>es_cur_id := es_cur_id s + 1, st_pages := grow (es_cache_size s) (st_pages s) d\<rparr>"
    "es_cur_id s \<noteq> - 1 \<Longrightarrow> dict_get d ''id'' = Some (JInt (es_cur_id s))"
  using assms event_to_dict_id [of "se_codec E" "e\<lparr>ev_id := es_cur_id s\<rparr>"]
  by (auto simp: add_locked_def grow_def Let_def dict_get_replace_secrets split: sum.splits if_splits)

lemma log_inv_lock:
  assumes "log_inv E base evs s" "0 \<le> base" "add_locked E s e = (s', e', Inr (a, d, ev))"
  shows "log_inv E base (evs @ [ev]) s'"
proof -
  note inv = assms(1) [unfolded log_inv_def] and l = add_locked_ok [OF assms(3)]
  have c: "concat (st_pages s') = concat (st_pages s) @ [d]" "pages_ok (es_cache_size s') (st_pages s')"
    using inv grow_ok [of "es_cache_size s" "st_pages s" d] by (simp_all add: l(3))
  have "dict_get d ''id'' = Some (JInt (base + int (length (concat (st_pages s)))))"
    using l(4) inv assms(2) by simp
  with inv c l(2) show ?thesis
    unfolding log_inv_def c(1) by (auto simp: l(3) nth_append less_Suc_eq intro: list_all2_appendI)
qed

lemma log_view_append:
  assumes "\<And>i. base \<le> i \<Longrightarrow> V0 i = None"
  shows "log_view base (ds @ [d]) V0 = (log_view base ds V0)(base + int (length ds) := Some d)"
  using assms by (auto simp: log_view_def nth_append fun_eq_iff)

lemma log_view_at: "base \<le> i \<Longrightarrow> i < base + int (length ds) \<Longrightarrow> log_view base ds V0 i = Some (ds ! nat (i - base))"
  by (simp add: log_view_def)

lemma pending_id_simp [simp]: "pending_id (a, d, ev, w) = ev_id ev"
  by (simp add: pending_id_def)

lemma pending_ok_id: "pending_ok base s p \<Longrightarrow> base \<le> pending_id p \<and> pending_id p < es_cur_id s"
  by (cases p) (simp add: pending_ok_def)

lemma unwritten_snoc [simp]: "unwritten (P @ [(a, d, ev, w)]) = unwritten P \<union> (if w then {} else {ev_id ev})"
  by (auto simp: unwritten_def)

lemma unwritten_mid: "unwritten (P @ (a, d, ev, w) # Q) = unwritten (P @ Q) \<union> (if w then {} else {ev_id ev})"
  by (auto simp: unwritten_def)

lemma unwritten_ids: "unwritten P \<subseteq> set (map pending_id P)"
  by (auto simp: unwritten_def)

lemma pending_ok_grow:
  assumes "pending_ok base s p" "log_inv E base evs s" "st_pages s' = grow (es_cache_size s) (st_pages s) d" "es_cur_id s' = es_cur_id s + 1"
  shows "pending_ok base s' p"
proof -
  have "pages_ok (es_cache_size s) (st_pages s)" "es_cur_id s = base + int (length (concat (st_pages s)))"
    using assms(2) by (simp_all add: log_inv_def)
  with assms(1,3,4) grow_ok [of "es_cache_size s" "st_pages s" d] show ?thesis
    by (auto simp: pending_ok_def nth_append split: prod.splits)
qed

lemma inv_lock:
  assumes inv: "stream_inv E s0 V0 evs s P" and V0: "\<And>i. es_cur_id s0 \<le> i \<Longrightarrow> V0 i = None" and base: "0 \<le> es_cur_id s0"
    and step: "add_locked E s e = (s', e', Inr (a, d, ev))"
  shows "stream_inv E s0 V0 (evs @ [ev]) s' (P @ [(a, d, ev, False)])"
proof -
  let ?b = "es_cur_id s0" and ?log = "concat (st_pages s)"
  let ?V = "log_view ?b ?log V0"
  note l = add_locked_ok [OF step]
  from inv have sp: "same_place s0 s" and li: "log_inv E ?b evs s" and st: "stored E s (files_view P ?V) ?V"
    and P: "\<forall>p \<in> set P. pending_ok ?b s p" "distinct (map pending_id P)"
    by (simp_all add: stream_inv_def Let_def)
  have cur: "es_cur_id s = ?b + int (length ?log)" and pg: "pages_ok (es_cache_size s) (st_pages s)"
    using li by (simp_all add: log_inv_def)
  have id: "ev_id ev = es_cur_id s"
    using event_from_dict_id [OF l(2)] l(4) cur base by simp
  have log': "concat (st_pages s') = ?log @ [d]" using grow_ok [OF pg] by (simp add: l(3))
  have V': "log_view ?b (concat (st_pages s')) V0 = ?V(es_cur_id s := Some d)"
    unfolding log' cur by (rule log_view_append) (rule V0)
  have none: "?V (es_cur_id s) = None" using V0 by (simp add: log_view_def cur)
  have fresh: "es_cur_id s \<notin> set (map pending_id P)"
    using P(1) pending_ok_id by fastforce
  have "files_view (P @ [(a, d, ev, False)]) (?V(es_cur_id s := Some d)) = files_view P ?V"
    using none by (auto simp: files_view_def fun_eq_iff id)
  moreover have "stored E s' (files_view P ?V) (?V(es_cur_id s := Some d))"
    by (rule stored_mono [of _ _ _ ?V], subst stored_cong [of s])
      (use st none in \<open>auto simp: l(3) same_place_def\<close>)
  moreover have "same_place s0 s'" using sp by (simp add: same_place_def l(3))
  moreover have "\<forall>p \<in> set P. pending_ok ?b s' p"
    using P(1) pending_ok_grow [OF _ li, of _ s' d] by (simp add: l(3))
  moreover have "pending_ok ?b s' (a, d, ev, False)"
  proof -
    have "a < length (st_pages s')" using l(1) grow_ok(3) [OF pg, of d] pg by (simp add: l(3) pages_ok_def) (metis Suc_pred length_greater_0_conv less_Suc_eq_le order_less_le_trans not_le)
    then show ?thesis by (simp add: pending_ok_def id cur log' nth_append) (simp add: l(3) cur)
  qed
  ultimately show ?thesis
    using log_inv_lock [OF li base step] P(2) fresh
    by (simp add: stream_inv_def Let_def V' pending_id_def id)
qed

text \<open>Steps that change neither the store nor the pages.\<close>

definition same_log :: "'fs event_stream \<Rightarrow> 'fs event_stream \<Rightarrow> bool" where
  "same_log s s' \<longleftrightarrow> same_place s s' \<and> es_cur_id s' = es_cur_id s \<and> st_pages s' = st_pages s"

lemma same_log_inv: "same_log s s' \<Longrightarrow> log_inv E base evs s' = log_inv E base evs s"
  by (simp add: same_log_def log_inv_def same_place_def)

lemma same_log_pending: "same_log s s' \<Longrightarrow> pending_ok base s' p = pending_ok base s p"
  by (simp add: same_log_def pending_ok_def)

lemma same_log_stream_inv:
  assumes "stream_inv E s0 V0 evs s P" "same_log s s'" "es_file_store s' = es_file_store s"
  shows "stream_inv E s0 V0 evs s' P"
  using assms stored_cong [of s s' E] unfolding stream_inv_def Let_def
  by (auto simp: same_log_inv [OF assms(2)] same_log_pending [OF assms(2)]) (auto simp: same_log_def same_place_def)

lemma same_log_other_steps [simp]:
  "same_log s (set_secrets x s)" "same_log s (fst (process_queue_step s))" "same_log s (fst (subscribe k c s))"
  "same_log s (unsubscribe k c s)" "same_log s (queue_put ev s)"
  "es_file_store (set_secrets x s) = es_file_store s" "es_file_store (fst (process_queue_step s)) = es_file_store s"
  "es_file_store (fst (subscribe k c s)) = es_file_store s" "es_file_store (unsubscribe k c s) = es_file_store s"
  "es_file_store (queue_put ev s) = es_file_store s"
  by (auto simp: same_log_def same_place_def set_secrets_def process_queue_step_def subscribe_def unsubscribe_def
       clean_up_subscriber_def queue_put_def Let_def split: list.splits)

lemma files_view_written: "files_view (P @ (a, d, ev, True) # Q) V = files_view (P @ Q) V"
  by (simp add: files_view_def fun_eq_iff unwritten_mid)

text \<open>The state a stream is opened in, over the events of an earlier session.\<close>

definition opened :: "('fs, 'c) store_env \<Rightarrow> 'fs event_stream \<Rightarrow> (int \<Rightarrow> jdict option) \<Rightarrow> bool" where
  "opened E s V0 \<longleftrightarrow>
     0 < es_cache_size s \<and> 0 \<le> es_cur_id s \<and> st_pages s = [[]] \<and> stored E s V0 V0 \<and> (\<forall>i \<ge> es_cur_id s. V0 i = None)"

lemma inv_opened: "opened E s V0 \<Longrightarrow> stream_inv E s V0 [] s []"
proof -
  assume o: "opened E s V0"
  have "log_view (es_cur_id s) [] V0 = V0" "files_view [] V0 = V0"
    by (auto simp: log_view_def files_view_def unwritten_def fun_eq_iff)
  with o show ?thesis
    by (simp add: opened_def stream_inv_def Let_def same_place_def log_inv_def pages_ok_def)
qed

context json_files begin

lemma inv_write:
  assumes inv: "stream_inv E s0 V0 evs s (P @ (a, d, ev, False) # Q)"
  shows "stream_inv E s0 V0 evs (store_event E s d ev) (P @ (a, d, ev, True) # Q)"
proof -
  let ?V = "log_view (es_cur_id s0) (concat (st_pages s)) V0"
  let ?s = "store_event E s d ev" and ?P = "P @ (a, d, ev, False) # Q"
  have sl: "same_log s ?s" by (simp add: same_log_def same_place_def store_event_def)
  have pend: "pending_ok (es_cur_id s0) s (a, d, ev, False)" and st: "stored E s (files_view ?P ?V) ?V"
    and dist: "ev_id ev \<notin> unwritten (P @ Q)" and li: "log_inv E (es_cur_id s0) evs s"
    using inv unwritten_ids [of "P @ Q"] by (auto simp: stream_inv_def Let_def)
  have "?V (ev_id ev) = Some d"
    using pend li by (simp add: pending_ok_def log_view_def log_inv_def)
  then have "files_view (P @ (a, d, ev, True) # Q) ?V = (files_view ?P ?V)(ev_id ev := Some d)"
    using dist by (auto simp: files_view_def fun_eq_iff unwritten_mid)
  with stored_store_event [OF st, of d ev] inv sl show ?thesis
    unfolding stream_inv_def Let_def
    by (auto simp: same_log_inv [OF sl] same_log_pending [OF sl]) (auto simp: same_log_def same_place_def pending_ok_def)
qed

lemma page_of_log:
  assumes "log_inv E base evs s" "a < length (st_pages s)"
  shows "page_agrees (log_view base (concat (st_pages s)) V0) (base + int a * es_cache_size s) (st_pages s ! a)"
    and "st_pages s ! a = pg # pgs \<Longrightarrow> dict_get pg ''id'' = Some (JInt (base + int a * es_cache_size s))"
    and "int (length (st_pages s ! a)) \<le> es_cache_size s"
proof -
  let ?m = "nat (es_cache_size s)"
  have pg: "pages_ok (es_cache_size s) (st_pages s)" using assms(1) by (simp add: log_inv_def)
  then have m: "es_cache_size s = int ?m" by (simp add: pages_ok_def)
  have full: "\<forall>p \<in> set (take a (st_pages s)). length p = ?m"
    using pages_before_full [OF pg assms(2)] m by force
  note nth = concat_page_nth [OF assms(2) full]
  have idx: "base + int a * es_cache_size s = base + int (a * ?m)" using m by simp
  show "page_agrees (log_view base (concat (st_pages s)) V0) (base + int a * es_cache_size s) (st_pages s ! a)"
    unfolding page_agrees_def list_all_iff idx
    using nth by (auto simp: log_view_def nat_add_distrib add.assoc simp flip: of_nat_add of_nat_mult)
  show "dict_get pg ''id'' = Some (JInt (base + int a * es_cache_size s))" if "st_pages s ! a = pg # pgs"
  proof -
    have k: "a * ?m < length (concat (st_pages s))" "concat (st_pages s) ! (a * ?m) = pg"
      using nth [of 0] that by simp_all
    from assms(1) k(1) have "dict_get (concat (st_pages s) ! (a * ?m)) ''id'' = Some (JInt (base + int (a * ?m)))"
      unfolding log_inv_def by blast
    then show ?thesis unfolding idx k(2) .
  qed
  show "int (length (st_pages s ! a)) \<le> es_cache_size s"
  proof (cases "a = length (st_pages s) - 1")
    case True
    with pg have "st_pages s ! a = last (st_pages s)" by (simp add: pages_ok_def last_conv_nth)
    with pg show ?thesis by (simp add: pages_ok_def)
  next
    case False
    then have "st_pages s ! a \<in> set (butlast (st_pages s))"
      using assms(2) nth_mem [of a "butlast (st_pages s)"] by (simp add: nth_butlast)
    with pg show ?thesis by (simp add: pages_ok_def)
  qed
qed

lemma inv_page:
  assumes inv: "stream_inv E s0 V0 evs s (P @ (a, d, ev, True) # Q)"
    and step: "store_cache_page E s (st_pages s ! a) = Inr s'"
  shows "stream_inv E s0 V0 evs (queue_put ev s') (P @ Q)"
proof -
  let ?b = "es_cur_id s0"
  let ?V = "log_view ?b (concat (st_pages s)) V0"
  have st: "stored E s (files_view (P @ Q) ?V) ?V" and li: "log_inv E ?b evs s" and a: "a < length (st_pages s)"
    using inv by (auto simp: stream_inv_def Let_def pending_ok_def files_view_written)
  have inv1: "stream_inv E s0 V0 evs s (P @ Q)"
    using inv st by (auto simp: stream_inv_def Let_def)
  have "stream_inv E s0 V0 evs s' (P @ Q)"
  proof (cases "int (length (st_pages s ! a)) < es_cache_size s")
    case True
    with step inv1 show ?thesis by (simp add: store_cache_page_def)
  next
    case False
    with page_of_log(3) [OF li a] have len: "length (st_pages s ! a) = nat (es_cache_size s)" by simp
    have "0 < es_cache_size s" using li by (auto simp: log_inv_def pages_ok_def)
    with False len obtain pg pgs where c: "st_pages s ! a = pg # pgs" by (cases "st_pages s ! a") auto
    let ?start = "?b + int a * es_cache_size s"
    have s': "s' = s\<lparr>es_file_store := fs_write (se_files E) (es_file_store s)
        (get_filename_for_cache s ?start (?start + es_cache_size s)) (se_dumps E (JList (map JObj (st_pages s ! a))))\<rparr>"
      using step False page_of_log(2) [OF li a c] by (simp add: store_cache_page_def c)
    have sl: "same_log s s'" by (simp add: same_log_def same_place_def s')
    have "stored E s' (files_view (P @ Q) ?V) ?V"
      unfolding s' by (rule stored_store_page [OF st page_of_log(1) [OF li a] len])
    with inv1 sl show ?thesis
      unfolding stream_inv_def Let_def
      by (auto simp: same_log_inv [OF sl] same_log_pending [OF sl]) (auto simp: same_log_def same_place_def)
  qed
  then show ?thesis by (rule same_log_stream_inv) simp_all
qed

lemma runs_inv: "runs E s0 evs s P \<Longrightarrow> opened E s0 V0 \<Longrightarrow> stream_inv E s0 V0 evs s P"
proof (induction rule: runs.induct)
  case run_start
  then show ?case by (rule inv_opened)
next
  case (run_lock evs s P e now source s' e' a d ev)
  then show ?case by (intro inv_lock [of E s0 V0 evs s P]) (auto simp: opened_def)
next
  case (run_write evs s P a d ev Q)
  then show ?case by (intro inv_write) simp
next
  case (run_page evs s P a d ev Q s')
  then show ?case using inv_page by blast
qed (auto intro: same_log_stream_inv)

end

section \<open>Specification\<close>

text \<open>A conversation as a partial map from identifiers to events.\<close>

definition event_at :: "int \<Rightarrow> (int \<Rightarrow> event option) \<Rightarrow> event list \<Rightarrow> int \<Rightarrow> event option" where
  "event_at base old evs i = (if base \<le> i \<and> i < base + int (length evs) then Some (evs ! nat (i - base)) else old i)"

definition search_spec ::
  "('fs, 'c) store_env \<Rightarrow> (int \<Rightarrow> event option) \<Rightarrow> int \<Rightarrow> int \<Rightarrow> bool \<Rightarrow> event_filter option \<Rightarrow> int option \<Rightarrow> event list" where
  "search_spec E ats a stop reverse flt limit =
     take_limit limit 0 (filter (included E flt)
       (List.map_filter ats (if reverse then rev [a..stop - 1] else [a..stop - 1])))"

definition decodes :: "codec \<Rightarrow> jdict option \<Rightarrow> event option \<Rightarrow> bool" where
  "decodes C v x = (case v of None \<Rightarrow> x = None | Some d \<Rightarrow> (\<exists>e. x = Some e \<and> event_from_dict C d = Inr e))"

definition decoded :: "codec \<Rightarrow> (int \<Rightarrow> jdict option) \<Rightarrow> (int \<Rightarrow> event option) \<Rightarrow> bool" where
  "decoded C V ats \<longleftrightarrow>
     (\<forall>i. decodes C (V i) (ats i))"

lemma decodes_simps [simp]:
  "decodes C None x \<longleftrightarrow> x = None" "decodes C (Some d) x \<longleftrightarrow> (\<exists>e. x = Some e \<and> event_from_dict C d = Inr e)"
  by (simp_all add: decodes_def)

lemma decodes_None: "decodes C v x \<Longrightarrow> v \<noteq> None \<longleftrightarrow> x \<noteq> None"
  by (cases v) auto

lemma map_filter_the: "map (\<lambda>i. the (ats i)) (filter (\<lambda>i. ats i \<noteq> None) xs) = List.map_filter ats xs"
  by (simp add: List.map_filter_def o_def)

lemma decoded_None: "decoded C V ats \<Longrightarrow> V i \<noteq> None \<longleftrightarrow> ats i \<noteq> None"
  unfolding decoded_def using decodes_None by blast

lemma decoded_log_view:
  assumes "decoded C V0 old" "log_inv E base evs s" "C = se_codec E"
  shows "decoded C (log_view base (concat (st_pages s)) V0) (event_at base old evs)"
proof -
  have l: "list_all2 (\<lambda>d ev. event_from_dict C d = Inr ev) (concat (st_pages s)) evs"
    using assms(2,3) by (simp add: log_inv_def)
  have len: "length (concat (st_pages s)) = length evs" using list_all2_lengthD [OF l] .
  have "event_from_dict C (concat (st_pages s) ! k) = Inr (evs ! k)" if "k < length evs" for k
    using list_all2_nthD [OF l] that len by simp
  with assms(1) len show ?thesis
    by (auto simp: decoded_def log_view_def event_at_def simp del: length_concat)
qed

context json_files begin

lemma search_stored:
  assumes "stored E s V V" "0 < es_cache_size s" "decoded (se_codec E) V ats"
  shows "search_events E s (\<lambda>_. True) a b rv flt limit =
    (search_spec E ats a (case b of None \<Rightarrow> es_cur_id s | Some k \<Rightarrow> k + 1) rv flt limit, None)"
proof -
  have ev: "\<forall>i \<in> set is. \<forall>d. V i = Some d \<longrightarrow> event_from_dict (se_codec E) d = Inr (the (ats i))" for "is"
    using assms(3) by (auto simp: decoded_def) (metis decodes_simps(2) option.sel)
  have eq: "filter (\<lambda>i. V i \<noteq> None) xs = filter (\<lambda>i. ats i \<noteq> None) xs" for xs
    by (simp only: decoded_None [OF assms(3)])
  have loop: "search_loop E s (\<lambda>_. True) flt limit DUMMY_PAGE 0 is =
      (take_limit limit 0 (filter (included E flt) (List.map_filter ats is)), None)" for "is"
    using search_loop_spec [OF assms(1,2) _ ev page_ok_DUMMY, of "is" "\<lambda>_. True"] unfolding eq map_filter_the by simp
  show ?thesis unfolding search_events_def Let_def search_spec_def loop ..
qed

lemma runs_place: "runs E s0 evs s P \<Longrightarrow> opened E s0 V0 \<Longrightarrow> same_place s0 s \<and> es_cur_id s = es_cur_id s0 + int (length evs)"
  using runs_inv [of s0 evs s P V0] list_all2_lengthD [of _ "concat (st_pages s)" evs]
  by (auto simp: stream_inv_def log_inv_def)

lemma runs_stored:
  assumes "runs E s0 evs s []" "opened E s0 V0"
  shows "stored E s (log_view (es_cur_id s0) (concat (st_pages s)) V0) (log_view (es_cur_id s0) (concat (st_pages s)) V0)"
proof -
  have "files_view [] V = V" for V by (simp add: files_view_def unwritten_def fun_eq_iff)
  with runs_inv [OF assms] show ?thesis by (simp add: stream_inv_def Let_def)
qed

lemma stream_refines:
  assumes "runs E s0 evs s []" "opened E s0 V0" "decoded (se_codec E) V0 old"
  shows "search_events E s (\<lambda>_. True) a b rv flt limit =
    (search_spec E (event_at (es_cur_id s0) old evs) a
       (case b of None \<Rightarrow> es_cur_id s0 + int (length evs) | Some k \<Rightarrow> k + 1) rv flt limit, None)"
proof -
  note inv = runs_inv [OF assms(1,2)]
  have cs: "0 < es_cache_size s" using runs_place [OF assms(1,2)] assms(2) by (auto simp: same_place_def opened_def)
  have "decoded (se_codec E) (log_view (es_cur_id s0) (concat (st_pages s)) V0) (event_at (es_cur_id s0) old evs)"
    using inv by (intro decoded_log_view [OF assms(3)]) (simp_all add: stream_inv_def)
  from search_stored [OF runs_stored [OF assms(1,2)] cs this] runs_place [OF assms(1,2)] show ?thesis
    by (cases b) simp_all
qed

lemma event_file_exists: "stored E s W V \<Longrightarrow> file_exists (se_files E) (es_file_store s) (get_filename_for_id s i) \<longleftrightarrow> W i \<noteq> None"
  by (auto simp: stored_def file_exists_def split: option.splits)

lemma new_stream_above:
  assumes new: "new_stream E sid fs user = Inr s" and st: "stored E s V W" and some: "V i \<noteq> None"
  shows "i < es_cur_id s"
proof -
  let ?dir = "get_conversation_events_dir sid user"
  from new obtain s1 where s1: "post_init E (new_store sid fs user) = Inr s1" "es_cur_id s = es_cur_id s1"
    "es_sid s = es_sid s1" "es_user_id s = es_user_id s1" "es_file_store s = es_file_store s1"
    by (auto simp: new_stream_def bind_result_Inr_iff event_store.defs)
  have same: "es_sid s1 = sid" "es_user_id s1 = user" "es_file_store s1 = fs"
    using s1(1) by (auto simp: post_init_def new_store_def bind_result_Inr_iff split: if_splits)
  have ex: "file_exists (se_files E) fs (?dir @ (str_int i @ ''.json''))"
    using event_file_exists [OF st, of i] some s1 same by (simp add: event_filename)
  show ?thesis
  proof (cases "fs_list (se_files E) fs ?dir")
    case (Inl e)
    show ?thesis using s1(1) Inl files.list_missing [of fs ?dir] ex
      by (cases e) (auto simp: post_init_def new_store_def)
  next
    case (Inr ps)
    have "?dir @ (str_int i @ ''.json'') \<in> set ps"
      by (rule files.list_complete [OF Inr _ _ ex]) (simp_all add: str_int_no_slash)
    moreover have "get_id_from_filename (?dir @ (str_int i @ ''.json'')) = i"
      using id_of_event_filename [of s i] s1 same by (simp add: event_filename)
    ultimately show ?thesis
      using highest_id_bounds(2) [of _ ps "- 1"] s1 Inr by (force simp: post_init_def new_store_def)
  qed
qed

end

context json_files begin

lemma new_stream_opened:
  assumes new: "new_stream E sid fs user = Inr s" and st: "stored E s V V" and i: "V i \<noteq> None" "0 \<le> i"
  shows "opened E s V"
proof -
  have "st_pages s = [[]]" "es_cache_size s = 25"
    using new by (auto simp: new_stream_def bind_result_Inr_iff post_init_def new_store_def event_store.defs split: if_splits)
  moreover have "\<forall>j \<ge> es_cur_id s. V j = None" using new_stream_above [OF new st] by force
  moreover have "0 \<le> es_cur_id s" using new_stream_above [OF new st i(1)] i(2) by simp
  ultimately show ?thesis using st by (simp add: opened_def)
qed

lemma new_stream_stored:
  assumes "new_stream E (es_sid s0) (es_file_store s0) (es_user_id s0) = Inr s" "es_cache_size s0 = 25" "stored E s0 V W"
  shows "stored E s V W"
proof -
  have "same_place s0 s" "es_file_store s = es_file_store s0"
    using assms(1,2) by (auto simp: new_stream_def bind_result_Inr_iff post_init_def new_store_def event_store.defs same_place_def split: if_splits)
  then show ?thesis using stored_cong [of s0 s E V W] assms(3) by simp
qed

lemma reopened:
  assumes "opened E s0 V0" "runs E s0 evs s []" "evs \<noteq> []" "es_cache_size s0 = 25"
    and new: "new_stream E (es_sid s) (es_file_store s) (es_user_id s) = Inr s'"
    and dec: "decoded (se_codec E) V0 old"
  shows "\<exists>V. opened E s' V \<and> decoded (se_codec E) V (event_at (es_cur_id s0) old evs)"
proof -
  let ?b = "es_cur_id s0"
  let ?V = "log_view ?b (concat (st_pages s)) V0"
  note inv = runs_inv [OF assms(2,1)]
  have cs: "es_cache_size s = 25" using runs_place [OF assms(2,1)] assms(4) by (simp add: same_place_def)
  have st: "stored E s' ?V ?V" by (rule new_stream_stored [OF new cs runs_stored [OF assms(2,1)]])
  have "length (concat (st_pages s)) = length evs"
    using inv by (auto simp: stream_inv_def log_inv_def dest: list_all2_lengthD)
  then have "?V ?b \<noteq> None" using assms(3) by (simp add: log_view_def del: length_concat)
  then have "opened E s' ?V" by (rule new_stream_opened [OF new st]) (use assms(1) in \<open>simp add: opened_def\<close>)
  moreover have "decoded (se_codec E) ?V (event_at ?b old evs)"
    using inv by (intro decoded_log_view [OF dec]) (simp_all add: stream_inv_def)
  ultimately show ?thesis by blast
qed

end

text \<open>The store in memory with JSON values as contents.\<close>

definition memory_env :: "codec \<Rightarrow> (string \<Rightarrow> string) \<Rightarrow> (event \<Rightarrow> string) \<Rightarrow> (json files, json) store_env" where
  "memory_env C lower dump =
     \<lparr>se_files = memory_store, se_codec = C, se_dumps = (\<lambda>j. j), se_loads = Inr, se_lower = lower, se_dump = dump\<rparr>"

lemma memory_env_simps [simp]:
  "se_files (memory_env C lower dump) = memory_store" "se_codec (memory_env C lower dump) = C"
  "se_dumps (memory_env C lower dump) j = j" "se_loads (memory_env C lower dump) = Inr"
  "fs_write memory_store = mem_write" "fs_read memory_store = mem_read"
  by (simp_all add: memory_env_def memory_store_def)

interpretation jm: json_files "memory_env C lower dump"
  by (intro json_files.intro json_files_axioms.intro) (simp_all add: memory_env_def mem.file_store_axioms)

section \<open>Secrets\<close>

lemma hide_text_gone:
  "\<forall>q \<in> set ss. plain_secret q \<Longrightarrow> q \<in> set ss \<or> \<not> contains q s \<Longrightarrow> plain_secret q \<Longrightarrow> \<not> contains q (hide_text ss s)"
proof (induction ss arbitrary: s)
  case (Cons r ss)
  have "\<not> contains q (str_replace r secret_marker s) \<or> q \<in> set ss"
    using Cons.prems str_replace_gone [of q s] str_replace_keeps [of q r s] plain_not_Nil by auto
  with Cons.IH [of "str_replace r secret_marker s"] Cons.prems show ?case by (auto simp: hide_text_def)
qed (simp add: hide_text_def)

text \<open>The strings in a value, those in lists left out.\<close>

fun texts :: "json \<Rightarrow> string list" where
  "texts (JObj d) = concat (map (\<lambda>kv. texts (snd kv)) d)"
| "texts (JStr s) = [s]"
| "texts _ = []"

lemma texts_hide: "texts (hide ss j) = map (hide_text ss) (texts j)"
  by (induction ss j rule: hide.induct) (auto simp: map_concat o_def intro!: arg_cong [of _ _ concat])

lemma texts_replace_secrets: "texts (JObj (replace_secrets ss d)) = map (hide_text (map snd ss)) (texts (JObj d))"
  by (simp add: replace_secrets_def o_def texts_hide map_concat)

section \<open>Subscribers\<close>

definition pools_match :: "'fs event_stream \<Rightarrow> bool" where
  "pools_match s \<longleftrightarrow> st_thread_pools s = st_subscribers s"

lemma pools_match_subscribe: "pools_match s \<Longrightarrow> pools_match (fst (subscribe k c s))"
  by (simp add: pools_match_def subscribe_def Let_def)

lemma pools_match_clean_up: "pools_match s \<Longrightarrow> pools_match (clean_up_subscriber k c s)"
  by (simp add: pools_match_def clean_up_subscriber_def)

lemma pools_match_fold: "pools_match s \<Longrightarrow> pools_match (fold (\<lambda>(k, c). clean_up_subscriber k c) ids s)"
  by (induction ids arbitrary: s) (auto simp: pools_match_clean_up)

lemma pools_match_close: "pools_match s \<Longrightarrow> pools_match (close_stream s)"
  using pools_match_fold [of "s\<lparr>st_stop := True\<rparr>"] by (simp add: close_stream_def Let_def pools_match_def)

lemma call_registered:
  "k \<in> set (dict_keys d) \<and> c \<in> set (dict_get_default d k []) \<longleftrightarrow> registered d k c"
  using dict_get_None_iff [of d k] by (cases "dict_get d k") (auto simp: registered_def dict_get_default_def)

lemma set_calls: "set (concat (map (\<lambda>k. map (\<lambda>c. (k, c)) (f k)) ks)) = {(k, c). k \<in> set ks \<and> c \<in> set (f k)}"
  by auto

lemma dispatch_ok:
  assumes "pools_match s"
  shows "\<exists>calls. dispatch s ev = Inr calls \<and> sorted (map fst calls) \<and>
    set calls = {(k, c, ev) | k c. registered (st_subscribers s) k c}"
proof -
  let ?calls = "concat (map (\<lambda>k. map (\<lambda>c. (k, c)) (dict_get_default (st_subscribers s) k [])) (sort (dict_keys (st_subscribers s))))"
  have set: "set ?calls = {(k, c). registered (st_subscribers s) k c}"
    unfolding set_calls set_sort call_registered ..
  have "sorted ks \<Longrightarrow> sorted (map fst (concat (map (\<lambda>k. map (\<lambda>c. (k, c)) (f k)) ks)))" for ks :: "string list" and f :: "string \<Rightarrow> string list"
    by (induction ks) (auto simp: sorted_append o_def map_replicate_const)
  then have "sorted (map fst ?calls)" by simp
  moreover have "dispatch s ev = Inr (map (\<lambda>(k, c). (k, c, ev)) ?calls)"
    using set assms by (simp add: dispatch_def Let_def list_all_iff pools_match_def)
  moreover have "set (map (\<lambda>(k, c). (k, c, ev)) ?calls) = {(k, c, ev) | k c. registered (st_subscribers s) k c}"
    unfolding set_map set by force
  moreover have "map fst (map (\<lambda>(k, c). (k, c, ev)) ?calls) = map fst ?calls"
    by (simp add: o_def split_def)
  ultimately show ?thesis by metis
qed

section \<open>Complete calls\<close>

lemma hide_no_secrets [simp]: "hide [] j = j"
  by (induction "[] :: string list" j rule: hide.induct) (auto simp: hide_text_def map_idI)

lemma replace_no_secrets [simp]: "replace_secrets [] d = d"
  by (simp add: replace_secrets_def map_idI)

lemma add_event_cases:
  assumes "add_event E s now e source = (s', e', Inr ())"
  obtains s1 a d ev s3 where "ev_id e = INVALID_ID" "add_locked E s (stamp now source e) = (s1, e', Inr (a, d, ev))"
    "store_cache_page E (store_event E s1 d ev) (st_pages (store_event E s1 d ev) ! a) = Inr s3" "s' = queue_put ev s3"
proof -
  from assms have inv: "ev_id e = INVALID_ID" by (simp add: add_event_def split: if_splits)
  obtain s1 e1 r where l: "add_locked E s (stamp now source e) = (s1, e1, r)" by (metis prod_cases3)
  with assms inv obtain a d ev where r: "r = Inr (a, d, ev)"
    by (cases r) (auto simp: add_event_def)
  with assms inv l obtain s3 where "store_cache_page E (store_event E s1 d ev) (st_pages (store_event E s1 d ev) ! a) = Inr s3"
    "s' = queue_put ev s3" "e1 = e'"
    by (auto simp: add_event_def Let_def split: sum.splits)
  then show thesis using that inv l r by metis
qed

text \<open>A call of \<open>add_event\<close> that returns is one of the runs.\<close>

lemma add_event_runs:
  assumes "runs E s0 evs s P" "add_event E s now e source = (s', e', Inr ())"
  shows "\<exists>ev. runs E s0 (evs @ [ev]) s' P"
proof -
  obtain s1 a d ev s3 where c: "ev_id e = INVALID_ID" "add_locked E s (stamp now source e) = (s1, e', Inr (a, d, ev))"
    "store_cache_page E (store_event E s1 d ev) (st_pages (store_event E s1 d ev) ! a) = Inr s3" "s' = queue_put ev s3"
    using assms(2) by (rule add_event_cases)
  have "runs E s0 (evs @ [ev]) s1 (P @ (a, d, ev, False) # [])" using run_lock [OF assms(1) c(1,2)] by simp
  then have "runs E s0 (evs @ [ev]) (store_event E s1 d ev) (P @ (a, d, ev, True) # [])" by (rule run_write)
  then have "runs E s0 (evs @ [ev]) (queue_put ev s3) (P @ [])" using c(3) by (rule run_page)
  then show ?thesis using c(4) by auto
qed

lemma add_locked_event:
  assumes "add_locked E s e = (s', e', Inr (a, d, ev))" "st_secrets s = []" "event_ok (se_codec E) e"
  shows "ev = e'"
proof -
  have e': "e' = e\<lparr>ev_id := es_cur_id s\<rparr>" and d: "event_to_dict (se_codec E) e' = Inr d" "event_from_dict (se_codec E) d = Inr ev"
    using assms(1,2) by (auto simp: add_locked_def Let_def split: sum.splits)
  moreover have "event_ok (se_codec E) e'" using assms(3) by (simp add: e' event_ok_def)
  ultimately show ?thesis using event_read_back by fastforce
qed

lemma stamp_ok: "event_ok C (stamp now source e) = event_ok C e"
  by (simp add: event_ok_def stamp_def)

context json_files begin

lemma get_event_stored: "event_from_dict (se_codec E) d = Inr ev \<Longrightarrow> get_event E (store_event E s d ev) (ev_id ev) = Inr ev"
  by (simp add: get_event_def store_event_def get_filename_for_id_def files.read_write loads_dumps event_of_json_def)

lemma get_event_page:
  "store_cache_page E s page = Inr s' \<Longrightarrow> get_event E s' i = get_event E s i"
  by (auto simp: store_cache_page_def get_event_def get_filename_for_id_def files.read_write bind_result_Inr_iff
       filenames_apart [unfolded get_filename_for_id_def] split: if_splits list.splits option.splits)

lemma get_event_queue: "get_event E (queue_put ev s) i = get_event E s i"
  by (simp add: get_event_def queue_put_def get_filename_for_id_def)

lemma added_event_read:
  assumes "add_event E s now e source = (s', e', Inr ())" "st_secrets s = []" "event_ok (se_codec E) e"
  shows "get_event E s' (ev_id e') = Inr e' \<and> st_queue s' = st_queue s @ [e']"
proof -
  obtain s1 a d ev s3 where c: "add_locked E s (stamp now source e) = (s1, e', Inr (a, d, ev))"
    "store_cache_page E (store_event E s1 d ev) (st_pages (store_event E s1 d ev) ! a) = Inr s3" "s' = queue_put ev s3"
    using assms(1) by (rule add_event_cases)
  have ev: "ev = e'" by (rule add_locked_event [OF c(1) assms(2)]) (simp add: stamp_ok assms(3))
  have "get_event E s' (ev_id e') = get_event E (store_event E s1 d e') (ev_id e')"
    using c(2,3) by (simp add: ev get_event_queue get_event_page)
  moreover have "st_queue s3 = st_queue s"
    using c(2) add_locked_ok(3) [OF c(1)] by (auto simp: store_cache_page_def store_event_def bind_result_Inr_iff split: if_splits list.splits option.splits)
  ultimately show ?thesis
    using get_event_stored [of d e' s1] add_locked_ok(2) [OF c(1)] c(3) by (simp add: ev queue_put_def)
qed

end

section \<open>Examples\<close>

definition plain_codec :: codec where
  "plain_codec = \<lparr>cd_render = \<lambda>_. [], cd_version = ''1'', cd_literal_eval = \<lambda>_. None, cd_tool_call = Inr, cd_metrics = \<lambda>m. m\<rparr>"

definition demo_env :: "(json files, json) store_env" where
  "demo_env = memory_env plain_codec (\<lambda>s. s) (\<lambda>_. [])"

definition empty_stream :: "int \<Rightarrow> json files event_stream" where
  "empty_stream n =
     \<lparr>es_sid = ''s'', es_file_store = [], es_user_id = None, es_cur_id = 0, es_cache_size = n, st_secrets = [], st_pages = [[]],
      st_queue = [], st_stop = False, st_subscribers = [], st_thread_pools = [], st_thread_loops = []\<rparr>"

definition think :: "string \<Rightarrow> event" where
  "think t = new_event (AgentThinkAction t)"

lemmas stream_eval = add_event_def add_locked_def stamp_def store_event_def store_cache_page_def queue_put_def
  event_to_dict_def event_from_dict_def action_from_dict_def rename_args_def handle_action_deprecated_args_def
  ACTION_TYPE_TO_CLASS_def build_action_def unexpected_def missing_def value_of_def field_defs set_key_def key_if_def
  source_of_def replace_secrets_def dict_get_default_def dict_del_def as_opt_def INVALID_ID_def new_event_def Let_def

lemma opened_empty: "0 < n \<Longrightarrow> opened demo_env (empty_stream n) (\<lambda>_. None)"
  by (simp add: opened_def empty_stream_def stored_def cache_ok_def demo_env_def memory_env_def memory_store_def mem_read_def)

lemma empty_stream_simps [simp]:
  "es_sid (empty_stream n) = ''s''" "es_file_store (empty_stream n) = []" "es_user_id (empty_stream n) = None"
  "es_cur_id (empty_stream n) = 0" "es_cache_size (empty_stream n) = n" "st_secrets (empty_stream n) = []"
  "st_pages (empty_stream n) = [[]]" "st_queue (empty_stream n) = []"
  by (simp_all add: empty_stream_def)

definition think_data :: "int \<Rightarrow> string \<Rightarrow> string \<Rightarrow> jdict" where
  "think_data i now t =
     [(''id'', JInt i), (''timestamp'', JStr now), (''source'', JStr ''agent''), (''message'', JStr (''I am thinking...: '' @ t)),
      (''action'', JStr ''think''), (''args'', JObj [(''thought'', JStr t)])]"

definition think_event :: "int \<Rightarrow> string \<Rightarrow> string \<Rightarrow> event" where
  "think_event i now t = (stamp now AGENT (think t))\<lparr>ev_id := i\<rparr>"

lemma think_id [simp]: "ev_id (think t) = INVALID_ID" "ev_id (think_event i now t) = i"
  by (simp_all add: think_def new_event_def think_event_def)

lemma think_data_id [simp]: "dict_get (think_data i now t) ''id'' = Some (JInt i)"
  by (simp add: think_data_def)

lemma think_read [simp]: "event_from_dict C (think_data i now t) = Inr (think_event i now t)"
  by (simp add: stream_eval think_data_def think_event_def think_def)

lemma add_think:
  assumes "st_secrets s = []" "es_cur_id s \<noteq> - 1"
  shows "add_locked (memory_env C lower dump) s (stamp now AGENT (think t)) =
    (s\<lparr>es_cur_id := es_cur_id s + 1, st_pages := grow (es_cache_size s) (st_pages s) (think_data (es_cur_id s) now t)\<rparr>,
     think_event (es_cur_id s) now t,
     Inr (length (st_pages s) - 1, think_data (es_cur_id s) now t, think_event (es_cur_id s) now t))"
  using assms by (simp add: stream_eval think_def memory_env_def grow_def hide_text_def think_data_def think_event_def)

definition demo_stream :: "json files event_stream" where
  "demo_stream = fst (add_event demo_env (empty_stream 25) ''t0'' (think ''a'') AGENT)"

definition demo_event :: event where
  "demo_event = think_event 0 ''t0'' ''a''"

lemma demo_added: "add_event demo_env (empty_stream 25) ''t0'' (think ''a'') AGENT = (demo_stream, demo_event, Inr ())"
  by (simp add: demo_stream_def add_event_def demo_env_def add_think)
    (simp add: store_event_def store_cache_page_def grow_def demo_event_def Let_def)

lemma demo_files: "es_file_store demo_stream = [(get_filename_for_id demo_stream 0, JObj (think_data 0 ''t0'' ''a''))]"
  by (simp add: demo_stream_def add_event_def demo_env_def add_think)
    (simp add: store_event_def store_cache_page_def grow_def Let_def queue_put_def get_filename_for_id_def memory_env_def memory_store_def mem_write_def)

lemma demo_runs: "runs demo_env (empty_stream 25) [demo_event] demo_stream []"
proof -
  obtain s1 a d ev s3 where c: "ev_id (think ''a'') = INVALID_ID" "add_locked demo_env (empty_stream 25) (stamp ''t0'' AGENT (think ''a'')) = (s1, demo_event, Inr (a, d, ev))"
    "store_cache_page demo_env (store_event demo_env s1 d ev) (st_pages (store_event demo_env s1 d ev) ! a) = Inr s3" "demo_stream = queue_put ev s3"
    using demo_added by (rule add_event_cases)
  have ev: "ev = demo_event" using c(2) by (simp add: demo_env_def add_think demo_event_def)
  have "runs demo_env (empty_stream 25) ([] @ [ev]) s1 ([] @ (a, d, ev, False) # [])"
    using run_lock [OF run_start c(1,2)] by simp
  then have "runs demo_env (empty_stream 25) ([] @ [ev]) (store_event demo_env s1 d ev) ([] @ (a, d, ev, True) # [])" by (rule run_write)
  then have "runs demo_env (empty_stream 25) ([] @ [ev]) (queue_put ev s3) ([] @ [])" using c(3) by (rule run_page)
  then show ?thesis using c(4) ev by simp
qed

section \<open>Properties\<close>



text \<open>
  Property C24. Sessions continue: a stream opened again on the files of a session that added
  events starts above every identifier in use, so that no event is overwritten, and it holds all
  events of the earlier sessions; the property above then applies to the new session.
\<close>

theorem stream_reopened:
  assumes "json_files E" "opened E s0 V0" "decoded (se_codec E) V0 old" "runs E s0 evs s []" "evs \<noteq> []" "es_cache_size s0 = 25"
    and "new_stream E (es_sid s) (es_file_store s) (es_user_id s) = Inr s'"
  shows "\<exists>V. opened E s' V \<and> decoded (se_codec E) V (event_at (es_cur_id s0) old evs)"
  by (rule json_files.reopened [OF assms(1,2,4-7,3)])

theorem stream_reopened_witness:
  "\<exists>s' V. new_stream demo_env ''s'' (es_file_store demo_stream) None = Inr s' \<and> opened demo_env s' V \<and> 0 < es_cur_id s'"
proof -
  have j: "json_files demo_env" unfolding demo_env_def by (rule jm.json_files_axioms)
  have d: "decoded (se_codec demo_env) (\<lambda>_. None) (\<lambda>_. None)" by (simp add: decoded_def)
  have place: "es_sid demo_stream = ''s''" "es_user_id demo_stream = None"
    using json_files.runs_place [OF j demo_runs opened_empty] by (simp_all add: same_place_def empty_stream_def)
  have "get_conversation_events_dir ''s'' None \<notin> set (dict_keys (es_file_store demo_stream))"
    by (simp add: demo_files event_filename place)
  then obtain ps where "fs_list memory_store (es_file_store demo_stream) (get_conversation_events_dir ''s'' None) = Inr ps"
    using mem_list_ok by blast
  then obtain s' where new: "new_stream demo_env (es_sid demo_stream) (es_file_store demo_stream) (es_user_id demo_stream) = Inr s'"
    by (simp add: new_stream_def post_init_def new_store_def place demo_env_def memory_env_def)
  obtain V where "opened demo_env s' V" "decoded (se_codec demo_env) V (event_at (es_cur_id (empty_stream 25)) (\<lambda>_. None) [demo_event])"
    using stream_reopened [OF j opened_empty d demo_runs _ _ new] by (auto simp: empty_stream_def)
  moreover from this have "V 0 \<noteq> None"
    using decoded_None by (fastforce simp: event_at_def empty_stream_def)
  ultimately show ?thesis using new unfolding place opened_def by (metis linorder_not_le)
qed





text \<open>
  An identifier that is used up by a failed call makes the cache wrong: the identifier
  is taken before the event is serialized, but only serialized events enter the page. With pages
  of two events (the size is a field of the store), a thought, a rejection whose reason is not a
  string, which raises, and a second thought fill a page that is stored as that of the first two
  identifiers; a search then returns the second thought twice.
\<close>

theorem failed_add_shifts_page:
  assumes "add_event (memory_env C lower dump) (empty_stream 2) n0 (think t) AGENT = (s1, e1, r1)"
    and "add_event (memory_env C lower dump) s1 n1 (new_event (AgentRejectAction [(''reason'', j)] [])) AGENT = (s2, e2, r2)"
    and "add_event (memory_env C lower dump) s2 n2 (think u) AGENT = (s3, e3, r3)"
    and "\<not> (\<exists>x. j = JStr x)"
  shows "r1 = Inr () \<and> r2 = Inl (TypeError ''can only concatenate str'') \<and> r3 = Inr () \<and>
    search_events (memory_env C lower dump) s3 (\<lambda>_. True) 0 None False None None = ([e1, e3, e3], None)"
proof -
  let ?f = "get_filename_for_id (empty_stream 2)" and ?c = "get_filename_for_cache (empty_stream 2)"
  have s1: "r1 = Inr ()" "e1 = think_event 0 n0 t"
    "s1 = (empty_stream 2)\<lparr>es_cur_id := 1, st_pages := [[think_data 0 n0 t]], es_file_store := [(?f 0, JObj (think_data 0 n0 t))],
       st_queue := [think_event 0 n0 t]\<rparr>"
    using assms(1) by (auto simp: add_event_def add_think store_event_def store_cache_page_def grow_def Let_def queue_put_def
      get_filename_for_id_def mem_write_def)
  have s2: "r2 = Inl (TypeError ''can only concatenate str'')" "s2 = s1\<lparr>es_cur_id := 2\<rparr>"
    using assms(2,4) by (cases j; auto simp: add_event_def add_locked_def stamp_def new_event_def INVALID_ID_def event_to_dict_def s1(3) Let_def)+
  have s3: "r3 = Inr ()" "e3 = think_event 2 n2 u"
    "s3 = s2\<lparr>es_cur_id := 3, st_pages := [[think_data 0 n0 t, think_data 2 n2 u], []],
       es_file_store := [(?f 0, JObj (think_data 0 n0 t)), (?f 2, JObj (think_data 2 n2 u)),
         (?c 0 2, JList [JObj (think_data 0 n0 t), JObj (think_data 2 n2 u)])],
       st_queue := [think_event 0 n0 t, think_event 2 n2 u]\<rparr>"
    using assms(3) filenames_apart [of "empty_stream 2" "empty_stream 2"]
    by (auto simp: s2(2) s1(3) add_event_def add_think store_event_def store_cache_page_def grow_def Let_def queue_put_def
      get_filename_for_id_def get_filename_for_cache_def mem_write_def)
  have names: "?f 0 \<noteq> ?f 2" "?c 0 2 \<noteq> ?c 2 4" "\<And>i a b. ?f i \<noteq> ?c a b"
    using cache_filename_start [of "empty_stream 2" 0 2 2] filenames_apart [of "empty_stream 2" "empty_stream 2"] by auto
  have place: "get_filename_for_id s3 = ?f" "get_filename_for_cache s3 = ?c" "es_cache_size s3 = 2" "es_cur_id s3 = 3"
    by (simp_all add: s3(3) s2(2) s1(3) get_filename_for_id_def get_filename_for_cache_def fun_eq_iff)
  have files: "mem_read (es_file_store s3) (?c 0 2) = Inr (JList [JObj (think_data 0 n0 t), JObj (think_data 2 n2 u)])"
    "mem_read (es_file_store s3) (?c 2 4) = Inl (FileNotFoundError (?c 2 4))"
    "mem_read (es_file_store s3) (?f 2) = Inr (JObj (think_data 2 n2 u))"
    using names names(3) [symmetric] by (simp_all add: s3(3) mem_read_def)
  have "[0..2] = [0, 1, 2 :: int]" by (simp add: upto.simps)
  with files show ?thesis
    by (simp add: s1 s2(1) s3(1,2) search_events_def place covers_def DUMMY_PAGE_def load_cache_page_for_index_def load_cache_page_def
        search_event_def page_event_def py_get_def event_of_json_def included_def get_event_def Let_def)
qed

theorem failed_add_shifts_page_witness:
  "\<exists>(s3 :: json files event_stream) e1 e3. search_events demo_env s3 (\<lambda>_. True) 0 None False None None = ([e1, e3, e3], None)"
proof -
  obtain s1 e1 r1 where 1: "add_event demo_env (empty_stream 2) ''t0'' (think ''a'') AGENT = (s1, e1, r1)" by (metis prod_cases3)
  obtain s2 e2 r2 where 2: "add_event demo_env s1 ''t1'' (new_event (AgentRejectAction [(''reason'', JInt 0)] [])) AGENT = (s2, e2, r2)"
    by (metis prod_cases3)
  obtain s3 e3 r3 where 3: "add_event demo_env s2 ''t2'' (think ''b'') AGENT = (s3, e3, r3)" by (metis prod_cases3)
  have "search_events demo_env s3 (\<lambda>_. True) 0 None False None None = ([e1, e3, e3], None)"
    unfolding demo_env_def using failed_add_shifts_page [OF 1 [unfolded demo_env_def] 2 [unfolded demo_env_def] 3 [unfolded demo_env_def]] by simp
  then show ?thesis by blast
qed

text \<open>
  The thread pools of a stream always match its callbacks, whatever subscriptions,
  also rejected ones, cancellations and closing come; hence the loop over the queue passes an
  event to exactly the registered callbacks, by subscriber in alphabetical order, and never misses
  a pool.
\<close>

theorem subscribers_served:
  assumes "pools_match s"
  shows "pools_match (fst (subscribe k c s)) \<and> pools_match (unsubscribe k c s) \<and> pools_match (close_stream s) \<and>
    (\<exists>calls. dispatch s ev = Inr calls \<and> sorted (map fst calls) \<and>
       set calls = {(k, c, ev) | k c. registered (st_subscribers s) k c})"
  using assms dispatch_ok by (simp add: pools_match_subscribe pools_match_clean_up pools_match_close unsubscribe_def)

theorem subscribers_served_witness:
  "\<exists>calls. dispatch (fst (subscribe ''main'' ''c'' (empty_stream 25))) demo_event = Inr calls \<and> (''main'', ''c'', demo_event) \<in> set calls"
proof -
  let ?s = "fst (subscribe ''main'' ''c'' (empty_stream 25))"
  have "pools_match (empty_stream 25)" by (simp add: pools_match_def empty_stream_def)
  then have "pools_match ?s" by (rule pools_match_subscribe)
  from subscribers_served [OF this] have "\<exists>calls. dispatch ?s demo_event = Inr calls \<and> set calls = {(k, c, demo_event) | k c. registered (st_subscribers ?s) k c}"
    by blast
  moreover have "registered (st_subscribers ?s) ''main'' ''c''"
    by (simp add: subscribe_def empty_stream_def append_id_def registered_def dict_get_default_def)
  ultimately show ?thesis by auto
qed

end
