(* ===== verification/Stuck.thy ===== *)
theory Stuck
  imports Events
begin

text \<open>
  \<^verbatim>\<open>openhands/controller/stuck.py\<close>: the detector of agents that repeat themselves, and its strict
  variant, which needs fewer repetitions.
\<close>

section \<open>Comparison\<close>

definition code_lines :: "string \<Rightarrow> string list" where
  "code_lines s = split_on newline s"

definition edit_marker :: string where
  "edit_marker = ''edit_file_by_replace(''"

definition eq_no_pid :: "event \<Rightarrow> event \<Rightarrow> bool" where
  "eq_no_pid e1 e2 =
     (case (ev_payload e1, ev_payload e2) of
        (IPythonRunCellAction c1 _ _ _ _ _, IPythonRunCellAction c2 _ _ _ _ _) \<Rightarrow>
          if contains edit_marker c1 \<and> contains edit_marker c2
          then length (code_lines c1) > 2 \<and> take 3 (code_lines c1) = take 3 (code_lines c2)
          else event_eq e1 e2
      | (CmdOutputObservation _ cmd1 m1 _, CmdOutputObservation _ cmd2 m2 _) \<Rightarrow>
          cmd1 = cmd2 \<and> md_exit_code m1 = md_exit_code m2
      | _ \<Rightarrow> event_eq e1 e2)"

text \<open>\<open>all(self._eq_no_pid(es[0], e) for e in es)\<close>\<close>

definition all_same :: "event list \<Rightarrow> bool" where
  "all_same es = (case es of [] \<Rightarrow> True | e # _ \<Rightarrow> list_all (eq_no_pid e) es)"

section \<open>The history looked at\<close>

definition user_message :: "event \<Rightarrow> bool" where
  "user_message e \<longleftrightarrow> is_message e \<and> ev_source e = Some USER"

definition agent_message :: "event \<Rightarrow> bool" where
  "agent_message e \<longleftrightarrow> is_message e \<and> ev_source e = Some AGENT"

text \<open>
  The loop over \<open>enumerate(reversed(history))\<close>: the index of the last user message in a history
  of length \<open>n\<close>, or \<open>-1\<close>.
\<close>

fun last_user_idx :: "int \<Rightarrow> int \<Rightarrow> event list \<Rightarrow> int" where
  "last_user_idx n i [] = - 1"
| "last_user_idx n i (e # es) = (if user_message e then n - i - 1 else last_user_idx n (i + 1) es)"

definition history_to_check :: "bool \<Rightarrow> event list \<Rightarrow> event list" where
  "history_to_check headless_mode history =
     (if \<not> headless_mode then
        py_slice (Some (last_user_idx (int (length history)) 0 (rev history) + 1)) None history
      else history)"

definition filtered_history :: "bool \<Rightarrow> event list \<Rightarrow> event list" where
  "filtered_history headless_mode history =
     filter (\<lambda>e. \<not> (user_message e \<or> is_null e)) (history_to_check headless_mode history)"

text \<open>
  The loop that collects the last \<open>n\<close> actions and observations, from the end of the history;
  the accumulators are in the order of the lists of the source.
\<close>

fun collect_last :: "nat \<Rightarrow> event list \<Rightarrow> event list \<Rightarrow> event list \<Rightarrow> event list \<times> event list" where
  "collect_last n [] as os = (as, os)"
| "collect_last n (e # es) as os =
     (let as' = (if is_action e \<and> length as < n then as @ [e] else as);
          os' = (if is_action e \<and> length as < n then os
                 else if is_observation e \<and> length os < n then os @ [e] else os)
      in if length as' = n \<and> length os' = n then (as', os') else collect_last n es as' os')"

section \<open>The scenarios\<close>

definition SYNTAX_ERROR_MESSAGES :: "string list" where
  "SYNTAX_ERROR_MESSAGES =
     [''SyntaxError: unterminated string literal (detected at line'',
      ''SyntaxError: invalid syntax. Perhaps you forgot a comma?'',
      ''SyntaxError: incomplete input'']"

text \<open>\<open>lines[-k]\<close> of a list that is long enough.\<close>

definition from_end :: "nat \<Rightarrow> 'a list \<Rightarrow> 'a" where
  "from_end k xs = xs ! (length xs - k)"

definition content_lines :: "string \<Rightarrow> string list" where
  "content_lines content = split_on newline (py_strip content)"

text \<open>
  \<open>_check_for_consistent_invalid_syntax\<close>: the loop with its two lists (first lines, and the
  lines with the error of the observations that are valid), then the test for \<open>n\<close> of them.
\<close>

fun invalid_syntax_loop :: "string \<Rightarrow> string list \<Rightarrow> string list \<Rightarrow> string list \<Rightarrow> (string list \<times> string list) option" where
  "invalid_syntax_loop msg [] firsts valids = Some (firsts, valids)"
| "invalid_syntax_loop msg (c # cs) firsts valids =
     (let ls = content_lines c in
      if length ls < 6 then None
      else
        (let line1 = py_strip (hd ls) in
         if \<not> startswith line1 ''Cell In[1], line'' then None
         else invalid_syntax_loop msg cs (firsts @ [line1])
           (if startswith (from_end 1 ls) ''[Jupyter Python interpreter:'' \<and>
               startswith (from_end 2 ls) ''[Jupyter current working directory:'' \<and>
               contains msg (from_end 3 ls)
            then valids @ [from_end 3 ls] else valids)))"

definition consistent_invalid_syntax :: "nat \<Rightarrow> string list \<Rightarrow> string \<Rightarrow> bool" where
  "consistent_invalid_syntax n contents msg =
     (case invalid_syntax_loop msg contents [] [] of
        None \<Rightarrow> False
      | Some (firsts, valids) \<Rightarrow> card (set firsts) = 1 \<and> length valids = n \<and> card (set valids) = 1)"

fun line_error_loop :: "string \<Rightarrow> string list \<Rightarrow> string list \<Rightarrow> string list option" where
  "line_error_loop msg [] errs = Some errs"
| "line_error_loop msg (c # cs) errs =
     (let ls = content_lines c in
      if length ls < 3 then None
      else if \<not> (startswith (from_end 2 ls) ''[Jupyter current working directory:'' \<and>
                 startswith (from_end 1 ls) ''[Jupyter Python interpreter:'') then None
      else line_error_loop msg cs (if contains msg (from_end 3 ls) then errs @ [from_end 3 ls] else errs))"

definition consistent_line_error :: "nat \<Rightarrow> string list \<Rightarrow> string \<Rightarrow> bool" where
  "consistent_line_error n contents msg =
     (case line_error_loop msg contents [] of
        None \<Rightarrow> False
      | Some errs \<Rightarrow> length errs = n \<and> card (set errs) = 1)"

text \<open>The loop over the error messages, on the contents of the observations.\<close>

definition syntax_error_loop :: "nat \<Rightarrow> string list \<Rightarrow> bool" where
  "syntax_error_loop n contents =
     list_ex (\<lambda>msg.
       if startswith msg ''SyntaxError: unterminated string literal (detected at line''
       then consistent_line_error n contents msg
       else msg \<in> {''SyntaxError: invalid syntax. Perhaps you forgot a comma?'', ''SyntaxError: incomplete input''} \<and>
         consistent_invalid_syntax n contents msg)
     SYNTAX_ERROR_MESSAGES"

definition errors_or_syntax :: "nat \<Rightarrow> event list \<Rightarrow> bool" where
  "errors_or_syntax n obs =
     (if list_all is_error obs then True
      else if list_all (\<lambda>e. ipython_content e \<noteq> None) obs
        then syntax_error_loop n (List.map_filter ipython_content obs)
      else False)"

definition is_stuck_repeating_action_observation :: "event list \<Rightarrow> event list \<Rightarrow> bool" where
  "is_stuck_repeating_action_observation last_actions last_observations \<longleftrightarrow>
     length last_actions = 4 \<and> length last_observations = 4 \<and>
     all_same last_actions \<and> all_same last_observations"

definition is_stuck_repeating_action_error :: "event list \<Rightarrow> event list \<Rightarrow> bool" where
  "is_stuck_repeating_action_error last_actions last_observations =
     (if length last_actions < 3 \<or> length last_observations < 3 then False
      else if all_same (take 3 last_actions) then errors_or_syntax 3 (take 3 last_observations)
      else False)"

text \<open>\<open>enumerate\<close> and the selection of events with their positions.\<close>

definition positions_of :: "(event \<Rightarrow> bool) \<Rightarrow> event list \<Rightarrow> nat list" where
  "positions_of P es = filter (\<lambda>i. P (es ! i)) [0..<length es]"

definition last_n :: "nat \<Rightarrow> 'a list \<Rightarrow> 'a list" where
  "last_n n xs = drop (length xs - n) xs"

text \<open>The events strictly between two positions.\<close>

definition between :: "nat \<Rightarrow> nat \<Rightarrow> event list \<Rightarrow> event list" where
  "between a b es = take (b - Suc a) (drop (Suc a) es)"

text \<open>\<open>_is_stuck_monologue\<close> with the last \<open>n\<close> messages (three, and two in the strict variant).\<close>

definition monologue_of :: "nat \<Rightarrow> event list \<Rightarrow> bool" where
  "monologue_of n es =
     (let agent_messages = positions_of agent_message es in
      if length agent_messages \<ge> n then
        (let lasts = last_n n agent_messages in
         if list_all (\<lambda>i. event_eq (es ! hd lasts) (es ! i)) lasts
         then \<not> list_ex is_observation (between (hd lasts) (last lasts) es)
         else False)
      else False)"

definition is_stuck_monologue :: "event list \<Rightarrow> bool" where
  "is_stuck_monologue es = monologue_of 3 es"

definition is_stuck_action_observation_pattern :: "event list \<Rightarrow> bool" where
  "is_stuck_action_observation_pattern es =
     (case collect_last 6 (rev es) [] [] of
        (a, b) \<Rightarrow>
          length a = 6 \<and> length b = 6 \<and>
          eq_no_pid (a ! 0) (a ! 2) \<and> eq_no_pid (a ! 0) (a ! 4) \<and>
          eq_no_pid (a ! 1) (a ! 3) \<and> eq_no_pid (a ! 1) (a ! 5) \<and>
          eq_no_pid (b ! 0) (b ! 2) \<and> eq_no_pid (b ! 0) (b ! 4) \<and>
          eq_no_pid (b ! 1) (b ! 3) \<and> eq_no_pid (b ! 1) (b ! 5))"

text \<open>The loop over neighbouring condensations returns at the first pair with nothing between.\<close>

fun adjacent_pair :: "event list \<Rightarrow> nat list \<Rightarrow> bool" where
  "adjacent_pair es (i # j # is) =
     (if \<not> list_ex (\<lambda>e. \<not> is_condensation_obs e) (between i j es) then True else adjacent_pair es (j # is))"
| "adjacent_pair es _ = False"

definition is_stuck_context_window_error :: "event list \<Rightarrow> bool" where
  "is_stuck_context_window_error es =
     (let condensations = positions_of is_condensation_obs es in
      if length condensations < 10 then False
      else adjacent_pair es (last_n 10 condensations))"

definition is_stuck :: "bool \<Rightarrow> event list \<Rightarrow> bool" where
  "is_stuck headless_mode history =
     (let f = filtered_history headless_mode history in
      if length f < 3 then False
      else
        (case collect_last 4 (rev f) [] [] of
           (last_actions, last_observations) \<Rightarrow>
             if is_stuck_repeating_action_observation last_actions last_observations then True
             else if is_stuck_repeating_action_error last_actions last_observations then True
             else if is_stuck_monologue f then True
             else if length f \<ge> 6 \<and> is_stuck_action_observation_pattern f then True
             else if length f \<ge> 10 \<and> is_stuck_context_window_error f then True
             else False))"

section \<open>The strict variant\<close>

definition strict_useless_action :: "event list \<Rightarrow> bool" where
  "strict_useless_action last_actions = list_all (\<lambda>a. is_message a \<or> is_think a) last_actions"

definition strict_repeating_action_observation :: "event list \<Rightarrow> event list \<Rightarrow> bool" where
  "strict_repeating_action_observation last_actions last_observations \<longleftrightarrow>
     length last_actions = 2 \<and> length last_observations = 2 \<and>
     all_same last_actions \<and> all_same last_observations"

definition strict_repeating_action_error :: "event list \<Rightarrow> event list \<Rightarrow> bool" where
  "strict_repeating_action_error last_actions last_observations =
     (if all_same last_actions then errors_or_syntax 2 last_observations else False)"

definition strict_monologue :: "event list \<Rightarrow> bool" where
  "strict_monologue es = monologue_of 2 es"

definition strict_is_stuck :: "bool \<Rightarrow> event list \<Rightarrow> bool" where
  "strict_is_stuck headless_mode history =
     (let f = filtered_history headless_mode history in
      if length f < 2 then False
      else
        (case collect_last 2 (rev f) [] [] of
           (last_actions, last_observations) \<Rightarrow>
             if strict_useless_action last_actions then True
             else if strict_repeating_action_observation last_actions last_observations then True
             else if strict_repeating_action_error last_actions last_observations then True
             else if strict_monologue f then True
             else if length f \<ge> 6 \<and> is_stuck_action_observation_pattern f then True
             else False))"

section \<open>Lemmas\<close>

lemma eq_no_pid_sym: "eq_no_pid e1 e2 = eq_no_pid e2 e1"
proof -
  have l: "length xs > 2 \<and> take 3 xs = take 3 ys \<longleftrightarrow> length ys > 2 \<and> take 3 ys = take 3 xs" for xs ys :: "string list"
    by (metis length_take min_less_iff_conj numeral_2_eq_2 numeral_3_eq_3 lessI)
  show ?thesis
    unfolding eq_no_pid_def event_eq_def
    by (auto simp: l split: payload.split)
qed

lemma event_eq_message: "is_message e1 \<Longrightarrow> event_eq e1 e2 \<Longrightarrow> eq_no_pid e1 e2"
  by (auto simp: eq_no_pid_def event_eq_def is_message_def split: payload.splits)

text \<open>The collecting loop takes the last actions and the last observations.\<close>

lemma collect_last_eq:
  "length as \<le> n \<Longrightarrow> length os \<le> n \<Longrightarrow>
   collect_last n es as os = (take n (as @ filter is_action es), take n (os @ filter is_observation es))"
proof (induction n es as os rule: collect_last.induct)
  case (1 n as os)
  then show ?case by simp
next
  case (2 n e es as os)
  define as' where "as' = (if is_action e \<and> length as < n then as @ [e] else as)"
  define os' where "os' = (if is_action e \<and> length as < n then os
    else if is_observation e \<and> length os < n then os @ [e] else os)"
  have a: "take n (as @ filter is_action (e # es)) = take n (as' @ filter is_action es)" "length as' \<le> n"
    using 2(2) by (auto simp: as'_def take_Cons')
  have o: "take n (os @ filter is_observation (e # es)) = take n (os' @ filter is_observation es)" "length os' \<le> n"
    using 2(3) by (auto simp: os'_def action_or_observation take_Cons')
  show ?case
  proof (cases "length as' = n \<and> length os' = n")
    case True
    then show ?thesis unfolding a(1) o(1)
      by (simp add: Let_def as'_def [symmetric] os'_def [symmetric] del: append.simps)
  next
    case False
    from 2(1) [OF as'_def os'_def False a(2) o(2)] show ?thesis
      unfolding a(1) o(1) using False
      by (simp add: Let_def as'_def [symmetric] os'_def [symmetric] del: append.simps)
  qed
qed

lemma collect_last_rev:
  "collect_last n (rev es) [] [] =
     (take n (rev (filter is_action es)), take n (rev (filter is_observation es)))"
  by (simp add: collect_last_eq rev_filter)

definition relevant :: "event \<Rightarrow> bool" where
  "relevant e \<longleftrightarrow> \<not> (user_message e \<or> is_null e)"

lemma filtered_headless: "filtered_history True h = filter relevant h"
  by (simp add: filtered_history_def history_to_check_def relevant_def [abs_def])

lemma last_user_idx_none:
  "\<forall>e \<in> set es. \<not> user_message e \<Longrightarrow> last_user_idx n i (es @ rest) = last_user_idx n (i + int (length es)) rest"
  by (induction es arbitrary: i) (auto simp: algebra_simps)

lemma history_after_user_message:
  assumes "user_message m" and "\<forall>e \<in> set h2. \<not> user_message e"
  shows "history_to_check False (h1 @ m # h2) = h2"
proof -
  have "last_user_idx (int (length (h1 @ m # h2))) 0 (rev h2 @ m # rev h1) = int (length h1)"
    using assms last_user_idx_none [of "rev h2" "int (length (h1 @ m # h2))" 0 "m # rev h1"] by simp
  then have "last_user_idx (int (length (h1 @ m # h2))) 0 (rev (h1 @ m # h2)) + 1 = int (Suc (length h1))"
    by simp
  then show ?thesis unfolding history_to_check_def by (simp only: py_slice_drop) simp
qed

lemma is_stuck_filtered: "is_stuck hm h = is_stuck True (filtered_history hm h)"
proof -
  have "filtered_history True (filtered_history hm h) = filtered_history hm h"
    by (simp add: filtered_headless) (simp add: filtered_history_def relevant_def [abs_def])
  then show ?thesis by (simp add: is_stuck_def)
qed

text \<open>
  What counts as history: in headless mode user messages and null events never
  change the verdict; in interactive mode the verdict is that of the events after the last user
  message, so that a user message always gives the agent a fresh start.
\<close>

theorem stuck_history:
  "is_stuck True h = is_stuck True (filter relevant h) \<and>
   (user_message m \<and> (\<forall>e \<in> set h2. \<not> user_message e) \<longrightarrow>
      is_stuck False (h1 @ m # h2) = is_stuck True h2 \<and> \<not> is_stuck False (h1 @ [m]))"
proof (intro conjI impI)
  show "is_stuck True h = is_stuck True (filter relevant h)"
    using is_stuck_filtered [of True h] by (simp add: filtered_headless)
next
  assume a: "user_message m \<and> (\<forall>e \<in> set h2. \<not> user_message e)"
  have "filtered_history False (h1 @ m # h2) = filtered_history True h2"
    using history_after_user_message [of m h2 h1] a by (simp add: filtered_history_def history_to_check_def [of True])
  then show "is_stuck False (h1 @ m # h2) = is_stuck True h2" by (simp add: is_stuck_def)
  have "filtered_history False (h1 @ [m]) = []"
    using history_after_user_message [of m "[]" h1] a by (simp add: filtered_history_def)
  then show "\<not> is_stuck False (h1 @ [m])" by (simp add: is_stuck_def)
qed

definition user_says :: event where
  "user_says = (new_event (MessageAction ''go on'' None False None))\<lparr>ev_source := Some USER\<rparr>"

theorem stuck_history_witness: "\<not> is_stuck False ([user_says, user_says] @ [user_says])"
proof -
  have "user_message user_says"
    by (simp add: user_message_def is_message_def user_says_def new_event_def)
  then show ?thesis using stuck_history [of "[]" user_says "[]" "[user_says, user_says]"] by auto
qed

section \<open>Loops are found, and alarms need repetition\<close>

abbreviation alike :: "event list \<Rightarrow> bool" where
  "alike es \<equiv> (\<forall>e \<in> set es. \<forall>e' \<in> set es. eq_no_pid e e')"

lemma all_same_alike: "alike es \<Longrightarrow> all_same es"
  by (auto simp: all_same_def list_all_iff split: list.split)

lemma take_rev_append: "length ys = n \<Longrightarrow> take n (rev (xs @ ys)) = rev ys"
  by simp

lemma is_stuck_split:
  "is_stuck True h =
     (let f = filter relevant h; A = rev (filter is_action f); B = rev (filter is_observation f) in
      3 \<le> length f \<and>
      (is_stuck_repeating_action_observation (take 4 A) (take 4 B) \<or>
       is_stuck_repeating_action_error (take 4 A) (take 4 B) \<or> is_stuck_monologue f \<or>
       6 \<le> length f \<and> is_stuck_action_observation_pattern f \<or>
       10 \<le> length f \<and> is_stuck_context_window_error f))"
  unfolding is_stuck_def filtered_headless Let_def collect_last_rev by auto

lemma length_actions_observations:
  "length (filter is_action es) + length (filter is_observation es) = length es"
  using sum_length_filter_compl [of is_action es] by (simp add: action_or_observation)

text \<open>
  Property C14. A real loop is found whatever came before it, with user messages and null events
  mixed in: four last actions that are alike with four last observations that are alike, or
  three last actions that are alike with three errors.
\<close>

theorem loop_detected:
  assumes h: "filter relevant h = f1 @ f2" and A: "alike (filter is_action f2)"
    and B: "length (filter is_action f2) = 4 \<and> length (filter is_observation f2) = 4 \<and> alike (filter is_observation f2) \<or>
            length (filter is_action f2) = 3 \<and> length (filter is_observation f2) = 3 \<and> list_all is_error (filter is_observation f2)"
  shows "is_stuck True h"
proof -
  let ?a = "filter is_action f2" and ?b = "filter is_observation f2"
  have len: "3 \<le> length (f1 @ f2)" using B length_actions_observations [of f2] by auto
  have s: "all_same (rev ?a)" using A by (intro all_same_alike) simp
  from B show ?thesis
  proof
    assume c: "length ?a = 4 \<and> length ?b = 4 \<and> alike ?b"
    then have "is_stuck_repeating_action_observation (take 4 (rev (filter is_action (f1 @ f2)))) (take 4 (rev (filter is_observation (f1 @ f2))))"
      using s all_same_alike [of "rev ?b"] by (simp add: is_stuck_repeating_action_observation_def)
    then show ?thesis using len unfolding is_stuck_split h Let_def by blast
  next
    assume c: "length ?a = 3 \<and> length ?b = 3 \<and> list_all is_error ?b"
    then have "take 3 (take 4 (rev (filter is_action (f1 @ f2)))) = rev ?a"
      "take 3 (take 4 (rev (filter is_observation (f1 @ f2)))) = rev ?b" by simp_all
    then have "is_stuck_repeating_action_error (take 4 (rev (filter is_action (f1 @ f2)))) (take 4 (rev (filter is_observation (f1 @ f2))))"
      using s c by (simp add: is_stuck_repeating_action_error_def errors_or_syntax_def list_all_iff)
    then show ?thesis using len unfolding is_stuck_split h Let_def by blast
  qed
qed

definition read_again :: event where
  "read_again = new_event (AgentThinkAction ''again'')"

definition read_failed :: event where
  "read_failed = new_event (ErrorObservation ''failed'' [])"

lemmas demo_events = read_again_def read_failed_def user_says_def new_event_def

theorem loop_detected_witness:
  "is_stuck True [user_says, read_again, read_failed, read_again, user_says, read_failed, read_again, read_failed]"
proof -
  let ?f = "[read_again, read_failed, read_again, read_failed, read_again, read_failed]"
  have r: "filter relevant [user_says, read_again, read_failed, read_again, user_says, read_failed, read_again, read_failed] = [] @ ?f"
    by (simp add: relevant_def user_message_def is_message_def is_null_def demo_events)
  have a: "is_action read_again" "\<not> is_action read_failed" "\<not> is_observation read_again" "is_observation read_failed"
    by (simp_all add: is_action_def is_observation_def demo_events)
  have e: "eq_no_pid read_again read_again" "is_error read_failed"
    by (simp_all add: eq_no_pid_def event_eq_def is_error_def demo_events)
  show ?thesis by (rule loop_detected [OF r]) (simp_all add: a e)
qed

lemma all_same_two:
  assumes "all_same es" and "length es > 1"
  shows "eq_no_pid (es ! 0) (es ! 1)"
proof (cases es)
  case (Cons a l)
  with assms have "list_all (eq_no_pid a) l" "l \<noteq> []" by (auto simp: all_same_def)
  then show ?thesis using Cons by (cases l) auto
qed (use assms in simp)

lemma positions_of_sorted: "sorted_wrt (<) (positions_of P es)"
  unfolding positions_of_def by (rule sorted_wrt_filter) simp

lemma monologue_of_two:
  assumes "monologue_of n es" and "2 \<le> n"
  obtains i j where "i < j" "j < length es" "is_message (es ! i)" "is_message (es ! j)" "event_eq (es ! i) (es ! j)"
proof -
  let ?l = "last_n n (positions_of agent_message es)"
  from assms(1) have l: "length (positions_of agent_message es) \<ge> n" and e: "list_all (\<lambda>i. event_eq (es ! hd ?l) (es ! i)) ?l"
    by (auto simp: monologue_of_def Let_def split: if_splits)
  have len: "length ?l = n" using l by (simp add: last_n_def)
  obtain i j r where ij: "?l = i # j # r" using len assms(2) by (cases ?l; cases "tl ?l") auto
  have "sorted_wrt (<) ?l" unfolding last_n_def by (intro sorted_wrt_drop positions_of_sorted)
  then have "i < j" unfolding ij by simp
  moreover have "{i, j} \<subseteq> set (positions_of agent_message es)"
    using set_drop_subset [of "length (positions_of agent_message es) - n" "positions_of agent_message es"] ij
    unfolding last_n_def by auto
  moreover have "event_eq (es ! i) (es ! j)" using e unfolding ij by simp
  ultimately show thesis by (intro that) (auto simp: positions_of_def agent_message_def)
qed

lemma two_of_rev:
  assumes "i < j" and "j < length xs"
  shows "rev xs ! i = xs ! (length xs - 1 - i) \<and> length xs - 1 - j < length xs - 1 - i"
  using assms by (auto simp: rev_nth)

text \<open>Two actions of a history that are alike.\<close>

definition repeats :: "event list \<Rightarrow> bool" where
  "repeats es \<longleftrightarrow> (\<exists>i j. i < j \<and> j < length (filter is_action es) \<and>
     eq_no_pid (filter is_action es ! i) (filter is_action es ! j))"

lemma repeats_rev:
  assumes "i < j" and "j < length (filter is_action es)"
    and "eq_no_pid (rev (filter is_action es) ! i) (rev (filter is_action es) ! j)"
  shows "repeats es"
proof -
  let ?a = "filter is_action es"
  have "eq_no_pid (?a ! (length ?a - 1 - j)) (?a ! (length ?a - 1 - i))"
    using assms eq_no_pid_sym by (simp add: rev_nth)
  moreover have "length ?a - 1 - j < length ?a - 1 - i" "length ?a - 1 - i < length ?a" using assms by auto
  ultimately show ?thesis unfolding repeats_def by blast
qed

lemma repeats_at:
  assumes "i < j" "j < length es" "is_action (es ! i)" "is_action (es ! j)" "eq_no_pid (es ! i) (es ! j)"
  shows "repeats es"
proof -
  define u v where "u = take i es" and "v = drop (Suc i) es"
  then have uv: "es = u @ (es ! i) # v" using assms by (intro id_take_nth_drop [of i es, folded u_def v_def]) simp
  have "es ! j = v ! (j - Suc i)" "j - Suc i < length v" using assms(1,2) by (auto simp: v_def)
  then have "es ! j \<in> set v" by simp
  then have "es ! j \<in> set (filter is_action v)" using assms(4) by simp
  then obtain k where k: "k < length (filter is_action v)" "filter is_action v ! k = es ! j"
    by (meson in_set_conv_nth)
  have f: "filter is_action es = filter is_action u @ (es ! i) # filter is_action v"
    using arg_cong [OF uv, of "filter is_action"] assms(3) by simp
  show ?thesis unfolding repeats_def f
    by (rule exI [of _ "length (filter is_action u)"], rule exI [of _ "length (filter is_action u) + Suc k"])
      (use k assms(5) in \<open>auto simp: nth_append\<close>)
qed

lemma pattern_repeats: "is_stuck_action_observation_pattern es \<Longrightarrow> repeats es"
  by (rule repeats_rev [of 0 2]) (auto simp: is_stuck_action_observation_pattern_def collect_last_rev)

lemma take4_repeats:
  assumes "all_same (take k (rev (filter is_action es)))" and "2 \<le> k" and "2 \<le> length (filter is_action es)"
  shows "repeats es"
proof (rule repeats_rev [of 0 1])
  show "eq_no_pid (rev (filter is_action es) ! 0) (rev (filter is_action es) ! 1)"
    using all_same_two [OF assms(1)] assms(2,3) by simp
qed (use assms in auto)

lemma length_positions_of: "length (positions_of P es) = length (filter P es)"
proof -
  have "filter P es = map (\<lambda>i. es ! i) (positions_of P es)"
    by (metis (no_types, lifting) map_nth filter_map positions_of_def filter_cong comp_apply)
  then show ?thesis by simp
qed



lemma adjacent_pair_last: "adjacent_pair es (is @ [i, Suc i])"
proof (induction "is")
  case Nil
  then show ?case by (simp add: between_def)
next
  case (Cons a as)
  then show ?case by (cases as) auto
qed

lemma positions_of_append1:
  "positions_of P (es @ [e]) = positions_of P es @ (if P e then [length es] else [])"
proof -
  have "filter (\<lambda>i. P ((es @ [e]) ! i)) [0..<length es] = positions_of P es"
    unfolding positions_of_def by (rule filter_cong) (auto simp: nth_append)
  then show ?thesis by (simp add: positions_of_def)
qed

text \<open>
  What the alarms for condensations and the strict variant really need. The
  documentation of the context window check asks for repeated condensations with no other
  events between them; two neighbouring condensations at the end are enough once there have been
  eight others, however far apart. The strict variant reports an agent whose single action gave a
  single error, and any history of two observations without an action, because it does not
  count what it has collected.
\<close>

theorem hasty_alarms:
  "(8 \<le> length (filter is_condensation_obs es) \<and> is_condensation_obs c \<and> is_condensation_obs d \<longrightarrow>
      is_stuck_context_window_error (es @ [c, d])) \<and>
   (relevant a \<and> relevant b \<and> eq_no_pid a a \<and> is_action a \<and> is_error b \<longrightarrow> strict_is_stuck True [a, b]) \<and>
   (relevant b \<and> relevant b' \<and> is_observation b \<and> is_observation b' \<longrightarrow> strict_is_stuck True [b, b'])"
proof (intro conjI)
  show "8 \<le> length (filter is_condensation_obs es) \<and> is_condensation_obs c \<and> is_condensation_obs d \<longrightarrow>
     is_stuck_context_window_error (es @ [c, d])"
  proof (intro impI, elim conjE)
    assume a: "8 \<le> length (filter is_condensation_obs es)" "is_condensation_obs c" "is_condensation_obs d"
    let ?p = "positions_of is_condensation_obs es"
    have p: "positions_of is_condensation_obs (es @ [c, d]) = ?p @ [length es, Suc (length es)]"
      using positions_of_append1 [of is_condensation_obs "es @ [c]" d] positions_of_append1 [of is_condensation_obs es c] a
      by simp
    have "last_n 10 (?p @ [length es, Suc (length es)]) = drop (length ?p - 8) ?p @ [length es, Suc (length es)]"
      using a(1) by (simp add: last_n_def length_positions_of)
    then show "is_stuck_context_window_error (es @ [c, d])"
      using a(1) adjacent_pair_last [of "es @ [c, d]" "drop (length ?p - 8) ?p" "length es"]
      by (simp add: is_stuck_context_window_error_def Let_def p length_positions_of)
  qed
next
  show "relevant a \<and> relevant b \<and> eq_no_pid a a \<and> is_action a \<and> is_error b \<longrightarrow> strict_is_stuck True [a, b]"
    using error_is_observation [of b]
    by (auto simp: strict_is_stuck_def filtered_headless collect_last_eq action_or_observation all_same_def
        strict_repeating_action_error_def errors_or_syntax_def)
next
  show "relevant b \<and> relevant b' \<and> is_observation b \<and> is_observation b' \<longrightarrow> strict_is_stuck True [b, b']"
    by (auto simp: strict_is_stuck_def filtered_headless collect_last_eq action_or_observation strict_useless_action_def)
qed

theorem hasty_alarms_witness: "strict_is_stuck True [read_again\<lparr>ev_payload := AgentFinishAction [] None [] []\<rparr>, read_failed]"
proof -
  let ?a = "read_again\<lparr>ev_payload := AgentFinishAction [] None [] []\<rparr>"
  have "relevant ?a" "relevant read_failed" "eq_no_pid ?a ?a" "is_action ?a" "is_error read_failed"
    by (simp_all add: relevant_def user_message_def is_message_def is_null_def eq_no_pid_def event_eq_def
        is_action_def is_error_def demo_events)
  then show ?thesis using hasty_alarms [of "[]" read_failed read_failed ?a read_failed read_failed] by blast
qed

end
