(* ===== verification/Views.thy ===== *)
theory Views
  imports Events
begin

text \<open>
  \<^verbatim>\<open>openhands/memory/view.py\<close>, the views of \<^verbatim>\<open>openhands/controller/state/state.py\<close> and
  \<open>truncate_content\<close> of \<^verbatim>\<open>openhands/events/serialization/event.py\<close>: what of the history is shown to
  the language model, with the cache of the state and the queries on the view.

  A view is the list of its events; iteration, indexing and slicing of \<open>View\<close> are those of the
  list.
\<close>

section \<open>Truncation\<close>

definition truncation_note :: string where
  "truncation_note = newline # ''[... Observation truncated due to length ...]'' @ [newline]"

definition truncate_content :: "string \<Rightarrow> int option \<Rightarrow> string" where
  "truncate_content content max_chars =
     (case max_chars of
        None \<Rightarrow> content
      | Some m \<Rightarrow>
          if int (length content) \<le> m \<or> m < 0 then content
          else
            (let half = m div 2
             in py_slice None (Some half) content @ truncation_note @ py_slice (Some (- half)) None content))"

text \<open>
  Truncation: a content that fits is unchanged, a longer one keeps its first and its
  last \<open>m // 2\<close> characters around a note, so that it has at most \<open>m\<close> characters beside the note.
  The exceptions are the limits 0 and 1, where \<open>content[-0:]\<close> is the whole content, and the
  result is longer than what was to be shortened.
\<close>

theorem truncation_bound:
  assumes "0 \<le> m" and "m < int (length content)"
  shows "truncate_content content (Some m) =
           (if m < 2 then truncation_note @ content
            else take (nat (m div 2)) content @ truncation_note @ drop (length content - nat (m div 2)) content) \<and>
         (2 \<le> m \<longrightarrow> int (length (truncate_content content (Some m))) \<le> m + int (length truncation_note))"
proof -
  obtain k where k: "m div 2 = int k" using assms(1) by (metis nonneg_int_cases pos_imp_zdiv_nonneg_iff zero_less_numeral)
  have k2: "2 * int k \<le> m" "k \<le> length content" "m < 2 \<longleftrightarrow> k = 0" using k assms by linarith+
  have t: "truncate_content content (Some m) =
      take k content @ truncation_note @ py_slice (Some (- int k)) None content"
    using assms by (simp add: truncate_content_def Let_def k)
  show ?thesis
  proof (cases "k = 0")
    case True
    with t k2 k show ?thesis using py_slice_minus_zero [of content] by simp
  next
    case False
    with t k2 k py_slice_last [of k content]
    have e: "truncate_content content (Some m) = take k content @ truncation_note @ drop (length content - k) content"
      by simp
    then have "int (length (truncate_content content (Some m))) \<le> m + int (length truncation_note)"
      using k2(1,2) by simp
    with e k k2(3) False show ?thesis by simp
  qed
qed

theorem truncation_bound_witness:
  "truncate_content ''abc'' (Some 1) = truncation_note @ ''abc''"
  using truncation_bound [of 1 "''abc''"] by simp

section \<open>Views\<close>

definition condensation_of :: "event \<Rightarrow> condensation option" where
  "condensation_of e = (case ev_payload e of CondensationAction c \<Rightarrow> Some c | _ \<Rightarrow> None)"

text \<open>The set of forgotten identifiers, collected in order; an invalid condensation raises.\<close>

fun forgotten_ids :: "event list \<Rightarrow> int list result" where
  "forgotten_ids [] = Inr []"
| "forgotten_ids (e # es) =
     (case condensation_of e of
        None \<Rightarrow> forgotten_ids es
      | Some c \<Rightarrow> bind_result (forgotten c) (\<lambda>ids. bind_result (forgotten_ids es) (\<lambda>more. Inr (ids @ more))))"

text \<open>The loop over the reversed events: the first condensation that has a summary.\<close>

fun last_summary :: "event list \<Rightarrow> (string \<times> int) option" where
  "last_summary [] = None"
| "last_summary (e # es) =
     (case condensation_of e of
        None \<Rightarrow> last_summary es
      | Some c \<Rightarrow>
          (case (summary c, summary_offset c) of
             (Some s, Some i) \<Rightarrow> Some (s, i)
           | _ \<Rightarrow> last_summary es))"

definition condensation_event :: "string \<Rightarrow> event" where
  "condensation_event content = new_event (AgentCondensationObservation content)"

definition from_events :: "event list \<Rightarrow> event list result" where
  "from_events events =
     bind_result (forgotten_ids events) (\<lambda>ids.
       let kept_events = filter (\<lambda>e. ev_id e \<notin> set ids) events
       in case last_summary (rev events) of
            None \<Rightarrow> Inr kept_events
          | Some (s, offset) \<Rightarrow> Inr (py_insert offset (condensation_event s) kept_events))"

section \<open>The state and its view\<close>

text \<open>The fields of \<open>State\<close> the views and condensers use; the cache is absent at first.\<close>

record state =
  st_session_id :: string
  st_iteration :: int
  st_local_iteration :: int
  st_history :: "event list"
  st_metadata :: "jdict list option"
  st_checksum :: int
  st_view :: "event list option"

definition new_state :: "string \<Rightarrow> state" where
  "new_state session_id =
     \<lparr>st_session_id = session_id, st_iteration = 0, st_local_iteration = 0, st_history = [],
      st_metadata = None, st_checksum = - 1, st_view = None\<rparr>"

text \<open>The property \<open>view\<close>: the checksum is stored before the view is computed.\<close>

definition view :: "state \<Rightarrow> state \<times> event list result" where
  "view st =
     (let history_checksum = int (length (st_history st))
      in if history_checksum \<noteq> st_checksum st then
           (let st1 = st\<lparr>st_checksum := history_checksum\<rparr>
            in case from_events (st_history st) of
                 Inl e \<Rightarrow> (st1, Inl e)
               | Inr v \<Rightarrow> (st1\<lparr>st_view := Some v\<rparr>, Inr v))
         else
           (case st_view st of
              None \<Rightarrow> (st, Inl (AttributeError ''_view''))
            | Some v \<Rightarrow> (st, Inr v)))"

text \<open>The content and the images of a message.\<close>

definition message_content :: "event \<Rightarrow> (string \<times> string list option) option" where
  "message_content e = (case ev_payload e of MessageAction content image_urls _ _ \<Rightarrow> Some (content, image_urls) | _ \<Rightarrow> None)"

definition is_finish :: "event \<Rightarrow> bool" where
  "is_finish e = (case ev_payload e of AgentFinishAction _ _ _ _ \<Rightarrow> True | _ \<Rightarrow> False)"

text \<open>The loops of the queries, over the reversed view.\<close>

fun user_intent_loop :: "event list \<Rightarrow> string option \<Rightarrow> string list option \<Rightarrow> string option \<times> string list option" where
  "user_intent_loop [] msg urls = (msg, urls)"
| "user_intent_loop (e # es) msg urls =
     (if message_content e \<noteq> None \<and> ev_source e = Some USER
      then user_intent_loop es (Some (fst (the (message_content e)))) (snd (the (message_content e)))
      else if is_finish e \<and> msg \<noteq> None then (msg, None)
      else user_intent_loop es msg urls)"

definition get_current_user_intent :: "event list \<Rightarrow> string option \<times> string list option" where
  "get_current_user_intent v = user_intent_loop (rev v) None (Some [])"

definition get_last_agent_message :: "event list \<Rightarrow> event option" where
  "get_last_agent_message v = find (\<lambda>e. is_message e \<and> ev_source e = Some AGENT) (rev v)"

definition get_last_user_message :: "event list \<Rightarrow> event option" where
  "get_last_user_message v = find (\<lambda>e. is_message e \<and> ev_source e = Some USER) (rev v)"

text \<open>The parts of the model's response in the tool call metadata are arguments.\<close>

fun thought_loop :: "(json \<Rightarrow> string option) \<Rightarrow> event list \<Rightarrow> string option" where
  "thought_loop content_of [] = None"
| "thought_loop content_of (e # es) =
     (if message_content e \<noteq> None \<and> ev_source e = Some AGENT then Some (fst (the (message_content e)))
      else if ev_source e = Some AGENT \<and> ev_tool_call e \<noteq> None then content_of (the (ev_tool_call e))
      else thought_loop content_of es)"

definition get_last_agent_thought :: "(json \<Rightarrow> string option) \<Rightarrow> event list \<Rightarrow> string option" where
  "get_last_agent_thought content_of v = thought_loop content_of (rev v)"

definition get_last_agent_format_error :: "(json \<Rightarrow> string option) \<Rightarrow> event list \<Rightarrow> string option" where
  "get_last_agent_format_error format_error_of v =
     (case find (\<lambda>e. ev_source e = Some AGENT \<and> ev_tool_call e \<noteq> None) (rev v) of
        None \<Rightarrow> None
      | Some e \<Rightarrow> format_error_of (the (ev_tool_call e)))"

definition to_llm_metadata :: "string \<Rightarrow> string \<Rightarrow> state \<Rightarrow> string \<Rightarrow> jdict" where
  "to_llm_metadata version web_host st agent_name =
     [(''session_id'', JStr (st_session_id st)),
      (''trace_version'', JStr version),
      (''tags'', JList [JStr (''agent:'' @ agent_name), JStr (''web_host:'' @ web_host),
                       JStr (''openhands_version:'' @ version)]),
      (''iteration'', JInt (st_iteration st)),
      (''local_iteration'', JInt (st_local_iteration st))]"

section \<open>What a view holds\<close>

definition valid_history :: "event list \<Rightarrow> bool" where
  "valid_history h \<longleftrightarrow> (\<forall>e \<in> set h. \<forall>c. condensation_of e = Some c \<longrightarrow> validate_field_polymorphism c)"

text \<open>The identifiers a valid history has forgotten.\<close>

definition forgets :: "event list \<Rightarrow> int set" where
  "forgets h = (\<Union>c \<in> {c. \<exists>e \<in> set h. condensation_of e = Some c}. case forgotten c of Inr ids \<Rightarrow> set ids | Inl _ \<Rightarrow> {})"

definition kept :: "event list \<Rightarrow> event list" where
  "kept h = filter (\<lambda>e. ev_id e \<notin> forgets h) h"

lemma forgets_simps [simp]:
  "forgets [] = {}"
  "forgets (h @ h') = forgets h \<union> forgets h'"
  by (auto simp: forgets_def)

lemma forgets_Cons:
  "forgets (e # h) = (case condensation_of e of None \<Rightarrow> {} | Some c \<Rightarrow> (case forgotten c of Inr ids \<Rightarrow> set ids | Inl _ \<Rightarrow> {})) \<union> forgets h"
  by (auto simp: forgets_def split: option.split)

lemma valid_history_simps [simp]:
  "valid_history []"
  "valid_history (h @ h') \<longleftrightarrow> valid_history h \<and> valid_history h'"
  "valid_history (e # h) \<longleftrightarrow> (\<forall>c. condensation_of e = Some c \<longrightarrow> validate_field_polymorphism c) \<and> valid_history h"
  by (auto simp: valid_history_def)

lemma forgotten_ids_valid: "valid_history h \<Longrightarrow> \<exists>ids. forgotten_ids h = Inr ids \<and> set ids = forgets h"
proof (induction h)
  case (Cons e h)
  then obtain ids where i: "forgotten_ids h = Inr ids" "set ids = forgets h" by auto
  show ?case
  proof (cases "condensation_of e")
    case None
    with i show ?thesis by (simp add: forgets_Cons)
  next
    case (Some c)
    then obtain l where "forgotten c = Inr l" using Cons.prems forgotten_ok [of c] by auto
    with Some i show ?thesis by (auto simp: forgets_Cons)
  qed
qed simp

lemma last_summary_append: "last_summary (xs @ ys) = (case last_summary xs of Some p \<Rightarrow> Some p | None \<Rightarrow> last_summary ys)"
  by (induction xs) (auto split: option.split)

lemma from_events_valid:
  "valid_history h \<Longrightarrow> from_events h =
     Inr (case last_summary (rev h) of None \<Rightarrow> kept h | Some (s, i) \<Rightarrow> py_insert i (condensation_event s) (kept h))"
  using forgotten_ids_valid [of h] by (auto simp: from_events_def kept_def Let_def split: option.split)

lemma kept_append:
  "kept (h @ h') = filter (\<lambda>e. ev_id e \<notin> forgets h') (kept h) @ filter (\<lambda>e. ev_id e \<notin> forgets h) (kept h')"
  by (auto simp: kept_def conj_commute intro!: arg_cong2 [where f = append] filter_cong)

text \<open>
  Property C21. The cached view is the view of the history as long as the history only grows
  and every condensation in it is valid: whatever events are appended between the accesses, each
  access returns \<open>from_events\<close> of the present history. The cache is keyed by the length alone: a
  history of the same length put in its place is shown with the old view; and after an access
  that raised, the next one returns the old view, because the key is stored first.
\<close>

theorem view_cache:
  assumes "st_checksum st = - 1 \<or> (\<exists>h1 h2. st_history st = h1 @ h2 \<and> st_checksum st = int (length h1) \<and>
             (\<exists>v. from_events h1 = Inr v \<and> st_view st = Some v))"
  shows "(valid_history (st_history st) \<longrightarrow>
            snd (view st) = from_events (st_history st) \<and>
            (\<exists>v. from_events (st_history (fst (view st))) = Inr v \<and> st_view (fst (view st)) = Some v) \<and>
            st_checksum (fst (view st)) = int (length (st_history st)) \<and> st_history (fst (view st)) = st_history st) \<and>
         (st_checksum st \<noteq> - 1 \<and> length h = nat (st_checksum st) \<longrightarrow>
            snd (view (st\<lparr>st_history := h\<rparr>)) = Inr (the (st_view st))) \<and>
         (st_checksum st \<noteq> - 1 \<and> st_checksum st \<noteq> int (length h) \<and> from_events h = Inl err \<longrightarrow>
            snd (view (st\<lparr>st_history := h\<rparr>)) = Inl err \<and>
            snd (view (fst (view (st\<lparr>st_history := h\<rparr>)))) = Inr (the (st_view st)))"
  using assms
proof
  assume c: "st_checksum st = - 1"
  then show ?thesis using from_events_valid [of "st_history st"]
    by (auto simp: view_def Let_def)
next
  assume "\<exists>h1 h2. st_history st = h1 @ h2 \<and> st_checksum st = int (length h1) \<and>
             (\<exists>v. from_events h1 = Inr v \<and> st_view st = Some v)"
  then obtain h1 h2 v where h: "st_history st = h1 @ h2" "st_checksum st = int (length h1)"
    and v: "from_events h1 = Inr v" "st_view st = Some v" by blast
  have "valid_history (st_history st) \<longrightarrow>
            snd (view st) = from_events (st_history st) \<and>
            (\<exists>v. from_events (st_history (fst (view st))) = Inr v \<and> st_view (fst (view st)) = Some v) \<and>
            st_checksum (fst (view st)) = int (length (st_history st)) \<and> st_history (fst (view st)) = st_history st"
    using from_events_valid [of "st_history st"] h v by (cases h2) (auto simp: view_def Let_def)
  then show ?thesis using h v by (auto simp: view_def Let_def)
qed

definition demo_thought :: "int \<Rightarrow> event" where
  "demo_thought i = (new_event (AgentThinkAction ''a''))\<lparr>ev_id := i\<rparr>"

theorem view_cache_witness:
  "snd (view ((new_state ''s'')\<lparr>st_history := [demo_thought 0]\<rparr>)) = from_events [demo_thought 0]"
proof -
  have "st_checksum ((new_state ''s'')\<lparr>st_history := [demo_thought 0]\<rparr>) = - 1" by (simp add: new_state_def)
  moreover have "valid_history [demo_thought 0]"
    by (simp add: demo_thought_def condensation_of_def new_event_def)
  ultimately show ?thesis using view_cache [of "(new_state ''s'')\<lparr>st_history := [demo_thought 0]\<rparr>"] by simp
qed

end
