(* ===== verification/Condensers.thy ===== *)
theory Condensers
  imports Views
begin

text \<open>
  \<^verbatim>\<open>openhands/memory/condenser\<close>: the strategies that shorten the view before it is sent to the
  language model, their metadata, the pipeline and their configuration.

  The language model, the printing of events and the validation by the schema library are
  arguments (\<open>llm_env\<close>). A condensation is the condensation action it carries.
\<close>

section \<open>The language model\<close>

record llm_request =
  rq_messages :: "string list"
  rq_tools :: "json list"
  rq_tool_choice :: "json option"
  rq_response_format :: "json option"
  rq_metadata :: "jdict option"

record llm_response =
  rs_content :: "string option"
  rs_tool_calls :: "(string \<times> string) list option"
  rs_dump :: json

record llm_env =
  le_message :: "event \<Rightarrow> string option"
  le_str :: "event \<Rightarrow> string"
  le_completion :: "llm_request \<Rightarrow> llm_response result"
  le_schema :: json
  le_parse_ids :: "string option \<Rightarrow> int list result"
  le_loads :: "string \<Rightarrow> json result"
  le_validate :: "json \<Rightarrow> (string, string) dict result"
  le_metrics :: json

section \<open>Sizes\<close>

text \<open>The checks of the four constructors of rolling condensers.\<close>

definition check_sizes :: "int \<Rightarrow> int \<Rightarrow> unit result" where
  "check_sizes max_size keep_first =
     (if keep_first \<ge> max_size div 2 then
        Inl (ValueError (''keep_first ('' @ str_int keep_first @ '') must be less than half of max_size ('' @ str_int max_size @ '')''))
      else if keep_first < 0 then Inl (ValueError (''keep_first ('' @ str_int keep_first @ '') cannot be negative''))
      else if max_size < 1 then Inl (ValueError (''max_size ('' @ str_int keep_first @ '') cannot be non-positive''))
      else Inr ())"

definition should_condense :: "int \<Rightarrow> event list \<Rightarrow> bool" where
  "should_condense max_size v \<longleftrightarrow> int (length v) > max_size"

text \<open>\<open>min\<close> and \<open>max\<close> of the identifiers; both raise on nothing.\<close>

definition id_range :: "int list \<Rightarrow> (int \<times> int) result" where
  "id_range ids =
     (case ids of
        [] \<Rightarrow> Inl (ValueError ''min() arg is an empty sequence'')
      | i # is \<Rightarrow> Inr (fold min is i, fold max is i))"

definition forget_range :: "int \<times> int \<Rightarrow> condensation" where
  "forget_range r =
     \<lparr>forgotten_event_ids = None, forgotten_events_start_id = Some (fst r), forgotten_events_end_id = Some (snd r),
      summary = None, summary_offset = None\<rparr>"

definition forget_ids :: "int list \<Rightarrow> condensation" where
  "forget_ids ids =
     \<lparr>forgotten_event_ids = Some ids, forgotten_events_start_id = None, forgotten_events_end_id = None,
      summary = None, summary_offset = None\<rparr>"

section \<open>Rolling condensers\<close>

definition amortized_condensation :: "int \<Rightarrow> int \<Rightarrow> event list \<Rightarrow> condensation result" where
  "amortized_condensation max_size keep_first v =
     (let target_size = max_size div 2;
          head = py_slice None (Some keep_first) v;
          events_from_tail = target_size - int (length head);
          tail = py_slice (Some (- events_from_tail)) None v;
          event_ids_to_keep = map ev_id (head @ tail);
          event_ids_to_forget = filter (\<lambda>i. i \<notin> set event_ids_to_keep) (map ev_id v)
      in bind_result (id_range event_ids_to_forget) (\<lambda>r. new_condensation (forget_range r)))"

definition attention_instructions :: string where
  "attention_instructions = join_with [newline]
     [''You will be given a list of actions, observations, and thoughts from a coding agent.'',
      ''        Each item in the list has an identifier. Please sort the identifiers in order of how important the'',
      ''        contents of the item are for the next step of the coding agent's task, from most important to least'',
      ''        important.'']"

definition attention_request :: "llm_env \<Rightarrow> event list \<Rightarrow> llm_request" where
  "attention_request L v =
     \<lparr>rq_messages = attention_instructions #
        map (\<lambda>e. ''<ID>'' @ str_int (ev_id e) @ ''</ID>'' @ [newline] @ ''<CONTENT>'' @
               (case le_message L e of Some m \<Rightarrow> m | None \<Rightarrow> ''None'') @ ''</CONTENT>'') v,
      rq_tools = [], rq_tool_choice = None,
      rq_response_format = Some (JObj
        [(''type'', JStr ''json_schema''),
         (''json_schema'', JObj [(''name'', JStr ''ImportantEventSelection''), (''schema'', le_schema L)])]),
      rq_metadata = None\<rparr>"

text \<open>The loop that adds identifiers from the end of the view until there are enough.\<close>

fun fill_response :: "int \<Rightarrow> event list \<Rightarrow> int list \<Rightarrow> int list" where
  "fill_response n [] ids = ids"
| "fill_response n (e # es) ids =
     (if int (length ids) \<ge> n then ids
      else if ev_id e \<notin> set ids then fill_response n es (ids @ [ev_id e])
      else fill_response n es ids)"

definition attention_choice :: "int \<Rightarrow> int \<Rightarrow> int list \<Rightarrow> event list \<Rightarrow> int list" where
  "attention_choice max_size keep_first response_ids v =
     (let target_size = max_size div 2;
          head_event_ids = map ev_id (py_slice None (Some keep_first) v);
          events_from_tail = target_size - int (length head_event_ids);
          chosen = py_slice None (Some events_from_tail) (filter (\<lambda>i. i \<notin> set head_event_ids) response_ids);
          response_ids = fill_response events_from_tail (rev v) chosen
      in map ev_id (filter (\<lambda>e. ev_id e \<notin> set response_ids \<and> ev_id e \<notin> set head_event_ids) v))"

definition attention_condensation ::
  "llm_env \<Rightarrow> int \<Rightarrow> int \<Rightarrow> event list \<Rightarrow> jdict \<Rightarrow> condensation result \<times> jdict" where
  "attention_condensation L max_size keep_first v batch =
     (case le_completion L (attention_request L v) of
        Inl e \<Rightarrow> (Inl e, batch)
      | Inr response \<Rightarrow>
          (case le_parse_ids L (rs_content response) of
             Inl e \<Rightarrow> (Inl e, batch)
           | Inr response_ids \<Rightarrow>
               (new_condensation (forget_ids (attention_choice max_size keep_first response_ids v)),
                dict_set batch ''metrics'' (le_metrics L))))"

text \<open>
  The parts the two summarizing condensers share: the previous summary, the events to be
  forgotten, the text about them and the condensation.
\<close>

definition events_from_tail :: "int \<Rightarrow> int \<Rightarrow> event list \<Rightarrow> int" where
  "events_from_tail max_size keep_first v =
     max_size div 2 - int (length (py_slice None (Some keep_first) v)) - 1"

definition previous_summary :: "int \<Rightarrow> event list \<Rightarrow> string result" where
  "previous_summary keep_first v =
     bind_result (py_get v keep_first) (\<lambda>e.
       case ev_payload e of
         AgentCondensationObservation content \<Rightarrow> Inr content
       | _ \<Rightarrow> Inr ''No events summarized'')"

definition forgotten_events :: "int \<Rightarrow> int \<Rightarrow> event list \<Rightarrow> event list" where
  "forgotten_events max_size keep_first v =
     filter (\<lambda>e. \<not> is_condensation_obs e)
       (py_slice (Some keep_first) (Some (- events_from_tail max_size keep_first v)) v)"

definition events_prompt :: "llm_env \<Rightarrow> int \<Rightarrow> string \<Rightarrow> string \<Rightarrow> event list \<Rightarrow> string" where
  "events_prompt L max_event_length instructions previous events =
     instructions @ [newline, newline] @
     ''<PREVIOUS SUMMARY>'' @ [newline] @ truncate_content previous (Some max_event_length) @ [newline] @
     ''</PREVIOUS SUMMARY>'' @ [newline] @ [newline, newline] @
     concat (map (\<lambda>e. ''<EVENT id='' @ str_int (ev_id e) @ ''>'' @ [newline] @
                   truncate_content (le_str L e) (Some max_event_length) @ [newline] @ ''</EVENT>'' @ [newline]) events)"

definition summary_condensation :: "int \<Rightarrow> event list \<Rightarrow> string option \<Rightarrow> condensation result" where
  "summary_condensation keep_first events text =
     bind_result (id_range (map ev_id events)) (\<lambda>r.
       new_condensation ((forget_range r)\<lparr>summary := text, summary_offset := Some keep_first\<rparr>))"

definition add_response :: "llm_env \<Rightarrow> llm_response \<Rightarrow> jdict \<Rightarrow> jdict" where
  "add_response L response batch = dict_set (dict_set batch ''response'' (rs_dump response)) ''metrics'' (le_metrics L)"

definition summarizing_instructions :: string where
  "summarizing_instructions = join_with [newline]
     [''You are maintaining a context-aware state summary for an interactive agent. You will be given a list of events corresponding to actions taken by the agent, and the most recent previous summary if one exists. Track:'',
      '''',
      ''USER_CONTEXT: (Preserve essential user requirements, goals, and clarifications in concise form)'',
      '''',
      ''COMPLETED: (Tasks completed so far, with brief results)'',
      ''PENDING: (Tasks that still need to be done)'',
      ''CURRENT_STATE: (Current variables, data structures, or relevant state)'',
      '''',
      ''For code-specific tasks, also include:'',
      ''CODE_STATE: {File paths, function signatures, data structures}'',
      ''TESTS: {Failing cases, error messages, outputs}'',
      ''CHANGES: {Code edits, variable updates}'',
      ''DEPS: {Dependencies, imports, external calls}'',
      ''VERSION_CONTROL_STATUS: {Repository state, current branch, PR status, commit history}'',
      '''',
      ''PRIORITIZE:'',
      ''1. Adapt tracking format to match the actual task type'',
      ''2. Capture key user requirements and goals'',
      ''3. Distinguish between completed and pending tasks'',
      ''4. Keep all sections concise and relevant'',
      '''',
      ''SKIP: Tracking irrelevant details for the current task type'',
      '''',
      ''Example formats:'',
      '''',
      ''For code tasks:'',
      ''USER_CONTEXT: Fix FITS card float representation issue'',
      ''COMPLETED: Modified mod_float() in card.py, all tests passing'',
      ''PENDING: Create PR, update documentation'',
      ''CODE_STATE: mod_float() in card.py updated'',
      ''TESTS: test_format() passed'',
      ''CHANGES: str(val) replaces f\"{val:.16G}\"'',
      ''DEPS: None modified'',
      ''VERSION_CONTROL_STATUS: Branch: fix-float-precision, Latest commit: a1b2c3d'',
      '''',
      ''For other tasks:'',
      ''USER_CONTEXT: Write 20 haikus based on coin flip results'',
      ''COMPLETED: 15 haikus written for results [T,H,T,H,T,H,T,T,H,T,H,T,H,T,H]'',
      ''PENDING: 5 more haikus needed'',
      ''CURRENT_STATE: Last flip: Heads, Haiku count: 15/20'']"

definition summarizing_condensation ::
  "llm_env \<Rightarrow> jdict \<Rightarrow> int \<Rightarrow> int \<Rightarrow> int \<Rightarrow> event list \<Rightarrow> jdict \<Rightarrow> condensation result \<times> jdict" where
  "summarizing_condensation L llm_metadata max_size keep_first max_event_length v batch =
     (case previous_summary keep_first v of
        Inl e \<Rightarrow> (Inl e, batch)
      | Inr previous \<Rightarrow>
          (let events = forgotten_events max_size keep_first v;
               prompt = events_prompt L max_event_length summarizing_instructions previous events @
                 ''Now summarize the events using the rules above.''
           in case le_completion L
                     \<lparr>rq_messages = [prompt], rq_tools = [], rq_tool_choice = None, rq_response_format = None,
                      rq_metadata = Some llm_metadata\<rparr> of
                Inl e \<Rightarrow> (Inl e, batch)
              | Inr response \<Rightarrow>
                  (summary_condensation keep_first events (rs_content response), add_response L response batch)))"

section \<open>Structured summaries\<close>

text \<open>A \<open>StateSummary\<close> is the dictionary of its fields; a field that is not given is empty.\<close>

type_synonym state_summary = "(string, string) dict"

definition field :: "state_summary \<Rightarrow> string \<Rightarrow> string" where
  "field s name = dict_get_default s name []"

definition STATE_FIELDS :: "(string \<times> string) list" where
  "STATE_FIELDS =
     [(''user_context'', ''Essential user requirements, goals, and clarifications in concise form.''),
      (''completed_tasks'', ''List of tasks completed so far with brief results.''),
      (''pending_tasks'', ''List of tasks that still need to be done.''),
      (''current_state'', ''Current variables, data structures, or other relevant state information.''),
      (''files_modified'', ''List of files that have been created or modified.''),
      (''function_changes'', ''List of functions that have been created or modified.''),
      (''data_structures'', ''List of key data structures in use or modified.''),
      (''tests_written'', ''Whether tests have been written for the changes. True, false, or unknown.''),
      (''tests_passing'', ''Whether all tests are currently passing. True, false, or unknown.''),
      (''failing_tests'', ''List of names or descriptions of any failing tests.''),
      (''error_messages'', ''List of key error messages encountered.''),
      (''branch_created'', ''Whether a branch has been created for this work. True, false, or unknown.''),
      (''branch_name'', ''Name of the current working branch if known.''),
      (''commits_made'', ''Whether any commits have been made. True, false, or unknown.''),
      (''pr_created'', ''Whether a pull request has been created. True, false, or unknown.''),
      (''pr_status'', ''Status of any pull request: 'draft', 'open', 'merged', 'closed', or 'unknown'.''),
      (''dependencies'', ''List of dependencies or imports that have been added or modified.''),
      (''other_relevant_context'', ''Any other important information that doesn't fit into the categories above.'')]"

definition tool_description :: json where
  "tool_description =
     JObj [(''type'', JStr ''function''),
       (''function'', JObj
         [(''name'', JStr ''create_state_summary''),
          (''description'', JStr ''Creates a comprehensive summary of the current state of the interaction to preserve context when history grows too large. You must include non-empty values for user_context, completed_tasks, and pending_tasks.''),
          (''parameters'', JObj
            [(''type'', JStr ''object''),
             (''properties'', JObj (map (\<lambda>(name, description).
                (name, JObj [(''type'', JStr ''string''), (''description'', JStr description)])) STATE_FIELDS)),
             (''required'', JList [JStr ''user_context'', JStr ''completed_tasks'', JStr ''pending_tasks''])])])]"

definition summary_sections :: "state_summary \<Rightarrow> string list" where
  "summary_sections s =
     [''# State Summary'',
      ''## Core Information'',
      ''**User Context**: '' @ field s ''user_context'',
      ''**Completed Tasks**: '' @ field s ''completed_tasks'',
      ''**Pending Tasks**: '' @ field s ''pending_tasks'',
      ''**Current State**: '' @ field s ''current_state'',
      ''## Code Changes'',
      ''**Files Modified**: '' @ field s ''files_modified'',
      ''**Function Changes**: '' @ field s ''function_changes'',
      ''**Data Structures**: '' @ field s ''data_structures'',
      ''**Dependencies**: '' @ field s ''dependencies'',
      ''## Testing Status'',
      ''**Tests Written**: '' @ field s ''tests_written'',
      ''**Tests Passing**: '' @ field s ''tests_passing'',
      ''**Failing Tests**: '' @ field s ''failing_tests'',
      ''**Error Messages**: '' @ field s ''error_messages'',
      ''## Version Control'',
      ''**Branch Created**: '' @ field s ''branch_created'',
      ''**Branch Name**: '' @ field s ''branch_name'',
      ''**Commits Made**: '' @ field s ''commits_made'',
      ''**PR Created**: '' @ field s ''pr_created'',
      ''**PR Status**: '' @ field s ''pr_status'',
      ''## Additional Context'',
      ''**Other Relevant Context**: '' @ field s ''other_relevant_context'']"

definition summary_str :: "state_summary \<Rightarrow> string" where
  "summary_str s = join_with [newline, newline] (summary_sections s)"

definition structured_instructions :: string where
  "structured_instructions = join_with [newline]
     [''You are maintaining a context-aware state summary for an interactive software agent. This summary is critical because it:'',
      ''1. Preserves essential context when conversation history grows too large'',
      ''2. Prevents lost work when the session length exceeds token limits'',
      ''3. Helps maintain continuity across multiple interactions'',
      '''',
      ''You will be given:'',
      ''- A list of events (actions taken by the agent)'',
      ''- The most recent previous summary (if one exists)'',
      '''',
      ''Capture all relevant information, especially:'',
      ''- User requirements that were explicitly stated'',
      ''- Work that has been completed'',
      ''- Tasks that remain pending'',
      ''- Current state of code, variables, and data structures'',
      ''- The status of any version control operations'']"

text \<open>
  The \<^verbatim>\<open>try\<close> block that reads the tool call; the named exceptions give an empty summary, others
  are passed on.
\<close>

definition read_summary :: "llm_env \<Rightarrow> llm_response \<Rightarrow> state_summary result" where
  "read_summary L response =
     (case rs_tool_calls response of
        None \<Rightarrow> Inl (ValueError ''No tool calls found in response'')
      | Some [] \<Rightarrow> Inl (ValueError ''No tool calls found in response'')
      | Some calls \<Rightarrow>
          (case find (\<lambda>(name, _). name = ''create_state_summary'') calls of
             None \<Rightarrow> Inl (ValueError ''create_state_summary tool call not found'')
           | Some (_, args_json) \<Rightarrow> bind_result (le_loads L args_json) (le_validate L)))"

definition summary_or_empty :: "state_summary result \<Rightarrow> state_summary result" where
  "summary_or_empty r =
     (case r of
        Inl (ValueError _) \<Rightarrow> Inr []
      | Inl (AttributeError _) \<Rightarrow> Inr []
      | Inl (KeyError _) \<Rightarrow> Inr []
      | _ \<Rightarrow> r)"

definition structured_condensation ::
  "llm_env \<Rightarrow> int \<Rightarrow> int \<Rightarrow> int \<Rightarrow> event list \<Rightarrow> jdict \<Rightarrow> condensation result \<times> jdict" where
  "structured_condensation L max_size keep_first max_event_length v batch =
     (case previous_summary keep_first v of
        Inl e \<Rightarrow> (Inl e, batch)
      | Inr previous \<Rightarrow>
          (let events = forgotten_events max_size keep_first v;
               prompt = events_prompt L max_event_length structured_instructions previous events
           in case le_completion L
                     \<lparr>rq_messages = [prompt], rq_tools = [tool_description],
                      rq_tool_choice = Some (JObj [(''type'', JStr ''function''),
                        (''function'', JObj [(''name'', JStr ''create_state_summary'')])]),
                      rq_response_format = None, rq_metadata = None\<rparr> of
                Inl e \<Rightarrow> (Inl e, batch)
              | Inr response \<Rightarrow>
                  (case summary_or_empty (read_summary L response) of
                     Inl e \<Rightarrow> (Inl e, batch)
                   | Inr s \<Rightarrow>
                       (summary_condensation keep_first events (Some (summary_str s)), add_response L response batch))))"

section \<open>Masking and recent events\<close>

definition mask_observations :: "int \<Rightarrow> event list \<Rightarrow> event list" where
  "mask_observations attention_window v =
     map (\<lambda>(i, e). if is_observation e \<and> int i < int (length v) - attention_window
                   then condensation_event ''<MASKED>'' else e)
       (enumerate 0 v)"

definition browser_url :: "event \<Rightarrow> string option" where
  "browser_url e = (case ev_payload e of BrowserOutputObservation _ url _ \<Rightarrow> Some url | _ \<Rightarrow> None)"

text \<open>The loop over the reversed view with its counter of browser outputs left as they are.\<close>

fun mask_browser_loop :: "int \<Rightarrow> int \<Rightarrow> event list \<Rightarrow> event list" where
  "mask_browser_loop attention_window cnt [] = []"
| "mask_browser_loop attention_window cnt (e # es) =
     (case browser_url e of
        Some url \<Rightarrow>
          if cnt \<ge> attention_window
          then condensation_event (''Visited URL '' @ url @ [newline] @ ''Content omitted'') #
               mask_browser_loop attention_window cnt es
          else e # mask_browser_loop attention_window (cnt + 1) es
      | None \<Rightarrow> e # mask_browser_loop attention_window cnt es)"

definition mask_browser :: "int \<Rightarrow> event list \<Rightarrow> event list" where
  "mask_browser attention_window v = rev (mask_browser_loop attention_window 0 (rev v))"

definition recent_events :: "int \<Rightarrow> int \<Rightarrow> event list \<Rightarrow> event list" where
  "recent_events keep_first max_events v =
     (let head = py_slice None (Some keep_first) v;
          tail_length = max 0 (max_events - int (length head));
          tail = py_slice (Some (- tail_length)) None v
      in head @ tail)"

section \<open>Condenser objects\<close>

datatype strategy =
    NoOpCondenser
  | ObservationMaskingCondenser int
  | BrowserOutputCondenser int
  | RecentEventsCondenser int int
  | AmortizedForgettingCondenser int int
  | LLMAttentionCondenser int int
  | LLMSummarizingCondenser int int int
  | StructuredSummaryCondenser int int int

text \<open>A condenser with its metadata batch and the metadata for the language model.\<close>

datatype condenser =
    Single strategy jdict jdict
  | CondenserPipeline "condenser list" jdict jdict

datatype condense_result = View "event list" | Condensation condensation

definition roll :: "int \<Rightarrow> event list \<Rightarrow> condensation result \<times> jdict \<Rightarrow> jdict \<Rightarrow> condense_result result \<times> jdict" where
  "roll max_size v c batch =
     (if should_condense max_size v
      then (case fst c of Inl e \<Rightarrow> Inl e | Inr a \<Rightarrow> Inr (Condensation a), snd c)
      else (Inr (View v), batch))"

fun condense_single :: "llm_env \<Rightarrow> strategy \<Rightarrow> jdict \<Rightarrow> event list \<Rightarrow> jdict \<Rightarrow> condense_result result \<times> jdict" where
  "condense_single L NoOpCondenser md v batch = (Inr (View v), batch)"
| "condense_single L (ObservationMaskingCondenser w) md v batch = (Inr (View (mask_observations w v)), batch)"
| "condense_single L (BrowserOutputCondenser w) md v batch = (Inr (View (mask_browser w v)), batch)"
| "condense_single L (RecentEventsCondenser k m) md v batch = (Inr (View (recent_events k m v)), batch)"
| "condense_single L (AmortizedForgettingCondenser m k) md v batch =
     roll m v (amortized_condensation m k v, batch) batch"
| "condense_single L (LLMAttentionCondenser m k) md v batch = roll m v (attention_condensation L m k v batch) batch"
| "condense_single L (LLMSummarizingCondenser m k l) md v batch =
     roll m v (summarizing_condensation L md m k l v batch) batch"
| "condense_single L (StructuredSummaryCondenser m k l) md v batch =
     roll m v (structured_condensation L m k l v batch) batch"

text \<open>\<open>condense\<close>, with the loop of the pipeline; the condensers are returned with their new batches.\<close>

fun condense :: "llm_env \<Rightarrow> condenser \<Rightarrow> event list \<Rightarrow> condenser \<times> condense_result result"
  and condense_each :: "llm_env \<Rightarrow> condenser list \<Rightarrow> event list \<Rightarrow> condenser list \<times> condense_result result" where
  "condense L (Single s batch md) v =
     (case condense_single L s md v batch of (r, batch') \<Rightarrow> (Single s batch' md, r))"
| "condense L (CondenserPipeline cs batch md) v =
     (case condense_each L cs v of (cs', r) \<Rightarrow> (CondenserPipeline cs' batch md, r))"
| "condense_each L [] v = ([], Inr (View v))"
| "condense_each L (c # cs) v =
     (case condense L c v of
        (c', Inr (View v')) \<Rightarrow> (case condense_each L cs v' of (cs', r) \<Rightarrow> (c' # cs', r))
      | (c', r) \<Rightarrow> (c' # cs, r))"

text \<open>\<open>write_metadata\<close>: the batch goes to the state when it is not empty, and is reset.\<close>

definition write_batch :: "jdict \<Rightarrow> jdict list option \<Rightarrow> jdict list option" where
  "write_batch batch md =
     (let batches = (case md of None \<Rightarrow> [] | Some bs \<Rightarrow> bs)
      in Some (if batch \<noteq> [] then batches @ [batch] else batches))"

fun write_metadata :: "condenser \<Rightarrow> jdict list option \<Rightarrow> condenser \<times> jdict list option" where
  "write_metadata (Single s batch md) ex = (Single s [] md, write_batch batch ex)"
| "write_metadata (CondenserPipeline cs batch md) ex = (CondenserPipeline cs [] md, write_batch batch ex)"

fun write_each :: "condenser list \<Rightarrow> jdict list option \<Rightarrow> condenser list \<times> jdict list option" where
  "write_each [] ex = ([], ex)"
| "write_each (c # cs) ex =
     (case write_metadata c ex of (c', ex') \<Rightarrow> (case write_each cs ex' of (cs', ex'') \<Rightarrow> (c' # cs', ex'')))"

fun metadata_batch :: "condenser \<Rightarrow> jdict list option \<Rightarrow> condenser \<times> jdict list option" where
  "metadata_batch (Single s batch md) ex = write_metadata (Single s batch md) ex"
| "metadata_batch (CondenserPipeline cs batch md) ex =
     (case write_each cs ex of (cs', ex') \<Rightarrow> (CondenserPipeline cs' batch md, ex'))"

definition get_condensation_metadata :: "state \<Rightarrow> jdict list" where
  "get_condensation_metadata st = (case st_metadata st of None \<Rightarrow> [] | Some bs \<Rightarrow> bs)"

fun set_llm_metadata :: "jdict \<Rightarrow> condenser \<Rightarrow> condenser" where
  "set_llm_metadata md (Single s batch old) = Single s batch md"
| "set_llm_metadata md (CondenserPipeline cs batch old) = CondenserPipeline cs batch md"

definition condensed_history ::
  "llm_env \<Rightarrow> string \<Rightarrow> string \<Rightarrow> condenser \<Rightarrow> state \<Rightarrow> (condenser \<times> state) \<times> condense_result result" where
  "condensed_history L version web_host c st =
     (let c1 = set_llm_metadata (to_llm_metadata version web_host st ''condenser'') c;
          (st1, v) = view st;
          (c2, r) = (case v of Inl e \<Rightarrow> (c1, Inl e) | Inr v \<Rightarrow> condense L c1 v);
          (c3, ex) = metadata_batch c2 (st_metadata st1)
      in ((c3, st1\<lparr>st_metadata := ex\<rparr>), r))"

end
