(* ===== verification/Rolling.thy ===== *)
theory Rolling
  imports Condensers
begin

text \<open>
  Properties of the condensers: what the rolling condensers promise to the agent that uses them,
  as an interface (\<open>rolling_condenser\<close>) which the four strategies implement, the masking
  condensers, the condenser of recent events and the pipeline.
\<close>

section \<open>Histories with growing identifiers\<close>

definition growing :: "event list \<Rightarrow> bool" where
  "growing h \<longleftrightarrow> sorted_wrt (<) (map ev_id h) \<and> (\<forall>e \<in> set h. 0 \<le> ev_id e)"

text \<open>An event that may come next.\<close>

definition fresh :: "event list \<Rightarrow> event \<Rightarrow> bool" where
  "fresh h e \<longleftrightarrow> 0 \<le> ev_id e \<and> (\<forall>e' \<in> set h. ev_id e' < ev_id e)"

lemma growing_append1: "growing (h @ [e]) \<longleftrightarrow> growing h \<and> fresh h e"
  by (auto simp: growing_def fresh_def sorted_wrt_append)

lemma growing_filter: "growing h \<Longrightarrow> growing (filter P h)"
  by (auto simp: growing_def sorted_wrt_map sorted_wrt_filter)

lemma growing_distinct: "growing h \<Longrightarrow> distinct (map ev_id h)"
  unfolding growing_def strict_sorted_iff by blast

lemma growing_appendD:
  "growing (A @ B) \<Longrightarrow> growing A \<and> growing B \<and> (\<forall>a \<in> set A. \<forall>b \<in> set B. ev_id a < ev_id b)"
  by (auto simp: growing_def sorted_wrt_append)

lemma growing_bounds:
  assumes "growing M" and "M \<noteq> []" and "e \<in> set M"
  shows "ev_id (hd M) \<le> ev_id e \<and> ev_id e \<le> ev_id (last M)"
proof -
  obtain i where i: "i < length M" "e = M ! i" using assms(3) by (metis in_set_conv_nth)
  have "sorted (map ev_id M)" using assms(1) by (simp add: growing_def strict_sorted_iff)
  then have "map ev_id M ! 0 \<le> map ev_id M ! i" "map ev_id M ! i \<le> map ev_id M ! (length M - 1)"
    using i by (intro sorted_nth_mono; simp)+
  then show ?thesis using i assms(2) by (simp add: hd_conv_nth last_conv_nth)
qed

lemma fold_min_Min: "fold min xs (x :: int) = Min (set (x # xs))"
  by (rule Min.set_eq_fold [symmetric])

lemma fold_max_Max: "fold max xs (x :: int) = Max (set (x # xs))"
  by (rule Max.set_eq_fold [symmetric])

lemma id_range_growing:
  assumes "growing M" and "M \<noteq> []"
  shows "id_range (map ev_id M) = Inr (ev_id (hd M), ev_id (last M))"
proof -
  have b: "\<And>e. e \<in> set M \<Longrightarrow> ev_id (hd M) \<le> ev_id e \<and> ev_id e \<le> ev_id (last M)"
    using growing_bounds [OF assms] .
  have "Min (ev_id ` set M) = ev_id (hd M)" using b assms(2) by (intro Min_eqI) auto
  moreover have "Max (ev_id ` set M) = ev_id (last M)" using b assms(2) by (intro Max_eqI) auto
  ultimately show ?thesis using assms(2)
    by (cases M) (simp_all add: id_range_def fold_min_Min fold_max_Max del: last.simps)
qed

text \<open>Forgetting the range of a middle part removes exactly that part.\<close>

lemma filter_range:
  assumes "growing (A @ M @ B)" and "M \<noteq> []"
  shows "filter (\<lambda>e. ev_id e \<notin> {ev_id (hd M)..ev_id (last M)}) (A @ M @ B) = A @ B"
proof -
  have g: "growing M" "\<forall>a \<in> set A. \<forall>b \<in> set M. ev_id a < ev_id b" "\<forall>a \<in> set M. \<forall>b \<in> set B. ev_id a < ev_id b"
    using growing_appendD [OF assms(1)] growing_appendD [of M B] by auto
  have "hd M \<in> set M" "last M \<in> set M" using assms(2) by simp_all
  then have "ev_id x < ev_id (hd M)" if "x \<in> set A" for x using g(2) that by blast
  moreover have "ev_id (last M) < ev_id x" if "x \<in> set B" for x using g(3) that \<open>last M \<in> set M\<close> by blast
  ultimately have "filter (\<lambda>e. ev_id e \<notin> {ev_id (hd M)..ev_id (last M)}) A = A"
    "filter (\<lambda>e. ev_id e \<notin> {ev_id (hd M)..ev_id (last M)}) B = B"
    by (intro filter_True; force)+
  moreover have "filter (\<lambda>e. ev_id e \<notin> {ev_id (hd M)..ev_id (last M)}) M = []"
    using growing_bounds [OF g(1) assms(2)] by (auto intro!: filter_False)
  ultimately show ?thesis by simp
qed

section \<open>Adding an event to the history\<close>

text \<open>\<open>carries e c\<close>: the event is the condensation action the agent returns for \<open>c\<close>.\<close>

definition carries :: "event \<Rightarrow> condensation \<Rightarrow> bool" where
  "carries e c \<longleftrightarrow> ev_payload e = CondensationAction c"

lemma carries_condensation [simp]: "carries e c \<Longrightarrow> condensation_of e = Some c"
  by (simp add: carries_def condensation_of_def)

lemma forgets_range:
  "carries e c \<Longrightarrow> validate_field_polymorphism c \<Longrightarrow> forgotten_event_ids c = None \<Longrightarrow>
   forgotten_events_start_id c = Some a \<Longrightarrow> forgotten_events_end_id c = Some b \<Longrightarrow> forgets [e] = {a..b}"
  by (simp add: forgets_Cons forgotten_def)

lemma forgets_list:
  "carries e c \<Longrightarrow> validate_field_polymorphism c \<Longrightarrow> forgotten_event_ids c = Some ids \<Longrightarrow> forgets [e] = set ids"
  by (simp add: forgets_Cons forgotten_def)

lemma forgets_ordinary: "condensation_of e = None \<Longrightarrow> forgets [e] = {}"
  by (simp add: forgets_Cons)

text \<open>
  The invariant of all strategies: valid condensations, growing identifiers, and no condensation
  forgets an event that comes after it.
\<close>

definition base_history :: "event list \<Rightarrow> bool" where
  "base_history h \<longleftrightarrow> valid_history h \<and> growing h \<and> (\<forall>i \<in> forgets h. \<exists>e \<in> set h. i \<le> ev_id e)"

lemma base_historyD: "base_history h \<Longrightarrow> valid_history h" "base_history h \<Longrightarrow> growing h"
  by (simp_all add: base_history_def)

lemma kept_fresh:
  assumes "base_history h" and "fresh h e" and "ev_id e \<notin> forgets [e]"
  shows "kept (h @ [e]) = filter (\<lambda>x. ev_id x \<notin> forgets [e]) (kept h) @ [e]"
proof -
  have "ev_id e \<notin> forgets h" using assms(1,2) by (fastforce simp: base_history_def fresh_def)
  then show ?thesis using assms(3) by (simp add: kept_append) (simp add: kept_def)
qed

lemma base_history_ordinary:
  "base_history h \<Longrightarrow> fresh h e \<Longrightarrow> condensation_of e = None \<Longrightarrow> base_history (h @ [e])"
  by (auto simp: base_history_def growing_append1 forgets_ordinary)

lemma base_history_condensation:
  assumes "base_history h" and "fresh h e" and "carries e c" and "validate_field_polymorphism c"
    and "\<And>i. i \<in> forgets [e] \<Longrightarrow> \<exists>x \<in> set h. i \<le> ev_id x"
  shows "base_history (h @ [e])" and "ev_id e \<notin> forgets [e]"
proof -
  show "base_history (h @ [e])"
    using assms by (auto simp: base_history_def growing_append1)
  show "ev_id e \<notin> forgets [e]" using assms(2,5) by (fastforce simp: fresh_def)
qed

lemma set_kept: "set (kept h) \<subseteq> set h"
  by (auto simp: kept_def)

lemma growing_kept: "growing h \<Longrightarrow> growing (kept h)"
  unfolding kept_def by (rule growing_filter)

text \<open>Forgetting the range of a middle part of the kept events.\<close>

lemma condense_middle:
  assumes "base_history h" and "fresh h e" and "carries e c" and "kept h = A @ M @ B" and "M \<noteq> []"
    and "validate_field_polymorphism c" and "forgotten_event_ids c = None"
    and "forgotten_events_start_id c = Some (ev_id (hd M))" and "forgotten_events_end_id c = Some (ev_id (last M))"
  shows "base_history (h @ [e]) \<and> kept (h @ [e]) = A @ B @ [e]"
proof -
  have f: "forgets [e] = {ev_id (hd M)..ev_id (last M)}" using assms by (intro forgets_range) auto
  have "last M \<in> set h" using set_kept [of h] assms(4,5) by auto
  then have b: "base_history (h @ [e])" "ev_id e \<notin> forgets [e]"
    using base_history_condensation [OF assms(1-3,6)] f by fastforce+
  have "growing (A @ M @ B)" using growing_kept [of h] assms(1,4) by (simp add: base_history_def)
  then show ?thesis using kept_fresh [OF assms(1,2) b(2)] filter_range [OF _ assms(5)] b(1) f assms(4) by simp
qed

section \<open>The interface of rolling condensers\<close>

text \<open>
  \<open>good p\<close>: parameters the constructor accepts (and a language model that answers); \<open>ok p h\<close>:
  the histories the strategy is made for. The laws: an ordinary event keeps the history fit, and
  when the view is too long the condensation exists, keeps the history fit and makes the view
  small again.
\<close>

locale rolling_condenser =
  fixes good :: "'p \<Rightarrow> bool"
    and max_size :: "'p \<Rightarrow> int"
    and ok :: "'p \<Rightarrow> event list \<Rightarrow> bool"
    and get_condensation :: "'p \<Rightarrow> event list \<Rightarrow> condensation result"
  assumes ok_Nil: "good p \<Longrightarrow> ok p []"
    and ok_valid: "good p \<Longrightarrow> ok p h \<Longrightarrow> valid_history h"
    and ok_event: "good p \<Longrightarrow> ok p h \<Longrightarrow> fresh h e \<Longrightarrow> condensation_of e = None \<Longrightarrow> \<not> is_condensation_obs e \<Longrightarrow> ok p (h @ [e])"
    and condenses: "good p \<Longrightarrow> ok p h \<Longrightarrow> from_events h = Inr v \<Longrightarrow> should_condense (max_size p) v \<Longrightarrow>
      \<exists>c. get_condensation p v = Inr c \<and>
          (\<forall>e. carries e c \<longrightarrow> fresh h e \<longrightarrow> ok p (h @ [e]) \<and>
             (\<exists>v'. from_events (h @ [e]) = Inr v' \<and> \<not> should_condense (max_size p) v'))"
begin

text \<open>
  The histories of an agent with this condenser: ordinary events come in any order, and a
  condensation is added only when the condenser asks for it.
\<close>

inductive agent_history :: "'p \<Rightarrow> event list \<Rightarrow> bool" for p where
  empty: "agent_history p []"
| event: "agent_history p h \<Longrightarrow> fresh h e \<Longrightarrow> condensation_of e = None \<Longrightarrow> \<not> is_condensation_obs e \<Longrightarrow>
    agent_history p (h @ [e])"
| condense: "agent_history p h \<Longrightarrow> from_events h = Inr v \<Longrightarrow> should_condense (max_size p) v \<Longrightarrow>
    get_condensation p v = Inr c \<Longrightarrow> carries e c \<Longrightarrow> fresh h e \<Longrightarrow> agent_history p (h @ [e])"

lemma agent_history_ok: "agent_history p h \<Longrightarrow> good p \<Longrightarrow> ok p h"
proof (induction rule: agent_history.induct)
  case empty
  then show ?case by (rule ok_Nil)
next
  case (event h e)
  then show ?case by (intro ok_event) auto
next
  case (condense h v c e)
  then show ?case using condenses [of p h v] by auto
qed

lemma agent_history_events:
  "growing es \<Longrightarrow> \<forall>e \<in> set es. condensation_of e = None \<and> \<not> is_condensation_obs e \<Longrightarrow> agent_history p es"
proof (induction es rule: rev_induct)
  case Nil
  show ?case by (rule empty)
next
  case (snoc e es)
  then show ?case by (intro event) (auto simp: growing_append1)
qed

text \<open>Whatever the agent does, the next view fits, or condensing succeeds and then it fits.\<close>

lemma views_bounded:
  assumes "good p" and "agent_history p h"
  obtains v where "from_events h = Inr v" and
    "int (length v) \<le> max_size p \<or>
     (\<exists>c. get_condensation p v = Inr c \<and>
        (\<forall>e. carries e c \<longrightarrow> fresh h e \<longrightarrow>
           (\<exists>v'. from_events (h @ [e]) = Inr v' \<and> int (length v') \<le> max_size p)))"
proof -
  have o: "ok p h" using agent_history_ok assms by blast
  then obtain v where v: "from_events h = Inr v" using from_events_valid ok_valid assms(1) by blast
  have "int (length v) \<le> max_size p \<or> (\<exists>c. get_condensation p v = Inr c \<and>
        (\<forall>e. carries e c \<longrightarrow> fresh h e \<longrightarrow>
           (\<exists>v'. from_events (h @ [e]) = Inr v' \<and> int (length v') \<le> max_size p)))"
  proof (cases "should_condense (max_size p) v")
    case True
    from condenses [OF assms(1) o v this] show ?thesis by (fastforce simp: should_condense_def)
  qed (simp add: should_condense_def)
  with v show thesis by (rule that)
qed

end

lemma check_sizes_iff: "check_sizes m k = Inr () \<longleftrightarrow> 0 \<le> k \<and> k < m div 2"
  by (auto simp: check_sizes_def)

section \<open>Amortized forgetting\<close>

definition no_summaries :: "event list \<Rightarrow> bool" where
  "no_summaries h \<longleftrightarrow> last_summary (rev h) = None"

lemma no_summaries_ordinary: "condensation_of e = None \<Longrightarrow> no_summaries (h @ [e]) = no_summaries h"
  by (simp add: no_summaries_def)

lemma no_summaries_condensation: "carries e c \<Longrightarrow> summary c = None \<Longrightarrow> no_summaries (h @ [e]) = no_summaries h"
  by (simp add: no_summaries_def)

lemma from_events_plain: "base_history h \<Longrightarrow> no_summaries h \<Longrightarrow> from_events h = Inr (kept h)"
  by (simp add: from_events_valid base_history_def no_summaries_def)

lemma valid_forget_range [simp]: "validate_field_polymorphism (forget_range r)"
  by (simp add: validate_field_polymorphism_def forget_range_def)

lemma valid_forget_ids [simp]: "validate_field_polymorphism (forget_ids ids)"
  by (simp add: validate_field_polymorphism_def forget_ids_def)

lemma split3: "i \<le> j \<Longrightarrow> xs = take i xs @ drop i (take j xs) @ drop j xs"
proof -
  assume "i \<le> j"
  then have "take i xs @ drop i (take j xs) = take j xs"
    using append_take_drop_id [of i "take j xs"] by (simp add: min_absorb1)
  then show ?thesis by (metis append.assoc append_take_drop_id)
qed

text \<open>The view split at the head and at the tail that are kept.\<close>

lemma amortized_split:
  assumes "growing v" and "0 \<le> k" and "k < m div 2" and "int (length v) > m"
  shows "\<exists>A M B. v = A @ M @ B \<and> M \<noteq> [] \<and> length A = nat k \<and> length A + length B = nat (m div 2) \<and>
    amortized_condensation m k v = Inr (forget_range (ev_id (hd M), ev_id (last M)))"
proof -
  define T where "T = nat (m div 2)"
  define A where "A = take (nat k) v"
  define B where "B = drop (length v - (T - nat k)) v"
  define M where "M = drop (nat k) (take (length v - (T - nat k)) v)"
  have T: "int T = m div 2" "nat k < T" using assms(2,3) by (simp_all add: T_def)
  have len: "T < length v" using T assms(4) by linarith
  have lA: "length A = nat k" using T len by (simp add: A_def)
  have v: "v = A @ M @ B"
    unfolding A_def M_def B_def by (rule split3) (use T len in linarith)
  have lB: "length B = T - nat k" using T len by (simp add: B_def)
  have M: "M \<noteq> []" using T len by (simp add: M_def)
  have k: "k = int (nat k)" using assms(2) by simp
  have h: "py_slice None (Some k) v = A" unfolding A_def by (subst k) (rule py_slice_take)
  have "m div 2 - int (length A) = int (T - nat k)" using T lA by simp
  then have t: "py_slice (Some (- (m div 2 - int (length A)))) None v = B"
    unfolding B_def using T by (simp only: py_slice_last)
  have d: "distinct (map ev_id (A @ M @ B))" using growing_distinct [OF assms(1)] v by simp
  then have "filter (\<lambda>i. i \<notin> set (map ev_id (A @ B))) (map ev_id (A @ M @ B)) = map ev_id M"
    by (auto simp: filter_empty_conv intro!: filter_True)
  then have "filter (\<lambda>i. i \<notin> set (map ev_id (A @ B))) (map ev_id v) = map ev_id M" using v by simp
  moreover have "growing M" using growing_appendD [of A "M @ B"] growing_appendD [of M B] assms(1) v by simp
  ultimately have "amortized_condensation m k v = Inr (forget_range (ev_id (hd M), ev_id (last M)))"
    unfolding amortized_condensation_def Let_def h t using M
    by (simp add: id_range_growing new_condensation_def)
  moreover have "length A + length B = nat (m div 2)" unfolding T_def [symmetric] using lA lB T(2) by linarith
  ultimately show ?thesis using v M lA by blast
qed

lemma amortized_effect:
  assumes "check_sizes m k = Inr ()" and "base_history h" and "no_summaries h"
    and "from_events h = Inr v" and "should_condense m v"
  shows "\<exists>c A M B. amortized_condensation m k v = Inr c \<and> v = A @ M @ B \<and> M \<noteq> [] \<and>
           length A = nat k \<and> length A + length B = nat (m div 2) \<and>
           (\<forall>e. carries e c \<longrightarrow> fresh h e \<longrightarrow> from_events (h @ [e]) = Inr (A @ B @ [e]) \<and>
              base_history (h @ [e]) \<and> no_summaries (h @ [e]))"
proof -
  have v: "v = kept h" using from_events_plain [OF assms(2,3)] assms(4) by simp
  have g: "growing v" using growing_kept [of h] assms(2) v by (simp add: base_history_def)
  obtain A M B where s: "v = A @ M @ B" "M \<noteq> []" "length A = nat k" "length A + length B = nat (m div 2)"
    and c: "amortized_condensation m k v = Inr (forget_range (ev_id (hd M), ev_id (last M)))"
    using amortized_split [OF g, of k m] assms(1,5) unfolding check_sizes_iff should_condense_def by blast
  have "from_events (h @ [e]) = Inr (A @ B @ [e]) \<and> base_history (h @ [e]) \<and> no_summaries (h @ [e])"
    if e: "carries e (forget_range (ev_id (hd M), ev_id (last M)))" "fresh h e" for e
  proof -
    have b: "base_history (h @ [e]) \<and> kept (h @ [e]) = A @ B @ [e]"
      by (rule condense_middle [OF assms(2) e(2) e(1)]) (use v s in simp_all, simp_all add: forget_range_def)
    moreover have n: "no_summaries (h @ [e])"
      using no_summaries_condensation [OF e(1)] assms(3) by (simp add: forget_range_def)
    ultimately show ?thesis using from_events_plain by simp
  qed
  with s c show ?thesis by blast
qed

text \<open>
  Property C19. What an amortized condensation leaves: for a history with growing identifiers whose
  view is too long, the condensation exists, and once it is in the history the view is exactly
  the first \<open>keep_first\<close> events, the last ones that fill up half of the maximal size, and the
  condensation itself.
\<close>

theorem amortized_result:
  assumes "check_sizes m k = Inr ()" and "base_history h" and "no_summaries h"
    and "from_events h = Inr v" and "should_condense m v"
  shows "\<exists>c A M B. amortized_condensation m k v = Inr c \<and> v = A @ M @ B \<and> M \<noteq> [] \<and>
           length A = nat k \<and> length A + length B = nat (m div 2) \<and>
           (\<forall>e. carries e c \<longrightarrow> fresh h e \<longrightarrow> from_events (h @ [e]) = Inr (A @ B @ [e]) \<and>
              base_history (h @ [e]) \<and> no_summaries (h @ [e]))"
  by (rule amortized_effect [OF assms])

definition demo_run :: "event list" where
  "demo_run = [demo_thought 0, demo_thought 1, demo_thought 2]"

lemma demo_thought_simps [simp]:
  "ev_id (demo_thought i) = i" "condensation_of (demo_thought i) = None"
  "is_condensation_obs (demo_thought i) = False"
  by (simp_all add: demo_thought_def condensation_of_def is_condensation_obs_def new_event_def)

lemma base_history_Nil: "base_history [] \<and> no_summaries []"
  by (simp add: base_history_def growing_def no_summaries_def)

lemma demo_run_base: "base_history demo_run" "no_summaries demo_run" "kept demo_run = demo_run"
  by (simp_all add: demo_run_def base_history_def growing_def no_summaries_def kept_def forgets_Cons)

theorem amortized_result_witness:
  "\<exists>c A M B. amortized_condensation 2 0 demo_run = Inr c \<and> demo_run = A @ M @ B \<and> length A + length B = 1"
proof -
  have s: "check_sizes 2 0 = Inr ()" by (simp add: check_sizes_iff)
  have v: "from_events demo_run = Inr demo_run" using from_events_plain demo_run_base by simp
  have "should_condense 2 demo_run" by (simp add: should_condense_def demo_run_def)
  from amortized_result [OF s demo_run_base(1,2) v this]
  obtain c A M B where "amortized_condensation 2 0 demo_run = Inr c" "demo_run = A @ M @ B" "length A + length B = nat (2 div 2)"
    by blast
  then show ?thesis by (intro exI conjI) (assumption | simp)+
qed

lemma amortized_result_size:
  assumes "check_sizes m k = Inr ()" and "length A + length B = nat (m div 2)"
  shows "\<not> should_condense m (A @ B @ [e])"
  using assms unfolding check_sizes_iff should_condense_def by auto

definition plain_history :: "event list \<Rightarrow> bool" where
  "plain_history h \<longleftrightarrow> base_history h \<and> no_summaries h"

definition good_sizes :: "int \<times> int \<Rightarrow> bool" where
  "good_sizes p \<longleftrightarrow> check_sizes (fst p) (snd p) = Inr ()"

lemma plain_history_event: "plain_history h \<Longrightarrow> fresh h e \<Longrightarrow> condensation_of e = None \<Longrightarrow> plain_history (h @ [e])"
  by (simp add: plain_history_def base_history_ordinary no_summaries_ordinary)

interpretation am: rolling_condenser good_sizes fst "\<lambda>p h. plain_history h" "\<lambda>p. amortized_condensation (fst p) (snd p)"
proof
  fix p :: "int \<times> int" and h v
  assume g: "good_sizes p" and o: "plain_history h" and v: "from_events h = Inr v" "should_condense (fst p) v"
  obtain c A M B where c: "amortized_condensation (fst p) (snd p) v = Inr c" "length A + length B = nat (fst p div 2)"
    and e: "\<forall>e. carries e c \<longrightarrow> fresh h e \<longrightarrow> from_events (h @ [e]) = Inr (A @ B @ [e]) \<and>
              base_history (h @ [e]) \<and> no_summaries (h @ [e])"
    using amortized_effect [of "fst p" "snd p" h v] g o v unfolding good_sizes_def plain_history_def by blast
  have "\<not> should_condense (fst p) (A @ B @ [x])" for x
    using amortized_result_size [of "fst p" "snd p" A B x] g c(2) unfolding good_sizes_def by blast
  with c e show "\<exists>c. amortized_condensation (fst p) (snd p) v = Inr c \<and>
      (\<forall>e. carries e c \<longrightarrow> fresh h e \<longrightarrow> plain_history (h @ [e]) \<and>
         (\<exists>v'. from_events (h @ [e]) = Inr v' \<and> \<not> should_condense (fst p) v'))"
    unfolding plain_history_def by blast
qed (auto simp: plain_history_def base_history_Nil base_history_def [of "[]"] base_history_ordinary no_summaries_ordinary
      dest: base_historyD)

section \<open>Attention\<close>

lemma fill_response_length: "int (length ids) \<le> n \<Longrightarrow> int (length (fill_response n es ids)) \<le> n"
  by (induction n es ids rule: fill_response.induct) auto

text \<open>At most half of the maximal size is kept, whatever the model answers.\<close>

lemma attention_keeps:
  assumes "growing v" and "0 \<le> k" and "k < m div 2"
  shows "int (length (filter (\<lambda>e. ev_id e \<notin> set (attention_choice m k ids v)) v)) \<le> m div 2"
proof -
  define H where "H = map ev_id (py_slice None (Some k) v)"
  define n where "n = m div 2 - int (length H)"
  define R where "R = fill_response n (rev v) (py_slice None (Some n) (filter (\<lambda>i. i \<notin> set H) ids))"
  have k: "k = int (nat k)" using assms(2) by simp
  have "py_slice None (Some k) v = take (nat k) v" by (subst k) (rule py_slice_take)
  then have H: "int (length H) \<le> k" using assms(2) by (simp add: H_def)
  then obtain n' where n': "n = int n'" using assms(3) unfolding n_def by (metis diff_ge_0_iff_ge dual_order.trans less_imp_le nonneg_int_cases)
  have R: "int (length R) \<le> n" unfolding R_def by (rule fill_response_length) (simp add: n')
  have c: "attention_choice m k ids v = map ev_id (filter (\<lambda>e. ev_id e \<notin> set R \<and> ev_id e \<notin> set H) v)"
    unfolding attention_choice_def R_def n_def H_def Let_def by simp
  define K where "K = filter (\<lambda>e. ev_id e \<notin> set (attention_choice m k ids v)) v"
  have "set (map ev_id K) \<subseteq> set (R @ H)" unfolding K_def c by auto
  then have "card (set (map ev_id K)) \<le> length (R @ H)"
    by (meson List.finite_set card_length card_mono order_trans)
  moreover have "distinct (map ev_id K)"
    unfolding K_def using growing_distinct [OF growing_filter [OF assms(1)]] by blast
  ultimately have "length K \<le> length R + length H"
    using distinct_card [of "map ev_id K"] by (simp del: set_map)
  with R show ?thesis unfolding K_def n_def by linarith
qed

type_synonym attention_params = "llm_env \<times> int \<times> int"

definition good_attention :: "attention_params \<Rightarrow> bool" where
  "good_attention p = (case p of (L, m, k) \<Rightarrow> check_sizes m k = Inr () \<and>
     (\<forall>rq. \<exists>rs ids. le_completion L rq = Inr rs \<and> le_parse_ids L (rs_content rs) = Inr ids))"

definition attention_get :: "attention_params \<Rightarrow> event list \<Rightarrow> condensation result" where
  "attention_get p v = (case p of (L, m, k) \<Rightarrow> fst (attention_condensation L m k v []))"

lemma attention_condenses:
  assumes "good_attention (L, m, k)" and "plain_history h" and "from_events h = Inr v" and "should_condense m v"
  shows "\<exists>c. attention_get (L, m, k) v = Inr c \<and>
      (\<forall>e. carries e c \<longrightarrow> fresh h e \<longrightarrow> plain_history (h @ [e]) \<and>
         (\<exists>v'. from_events (h @ [e]) = Inr v' \<and> \<not> should_condense m v'))"
proof -
  have b: "base_history h" "no_summaries h" using assms(2) by (simp_all add: plain_history_def)
  have v: "v = kept h" using from_events_plain [OF b] assms(3) by simp
  have g: "growing v" using growing_kept [of h] b(1) v by (simp add: base_history_def)
  have k: "0 \<le> k" "k < m div 2" using assms(1) by (simp_all add: good_attention_def check_sizes_iff)
  obtain rs ids where L: "le_completion L (attention_request L v) = Inr rs" "le_parse_ids L (rs_content rs) = Inr ids"
    using assms(1) unfolding good_attention_def by blast
  define c where "c = forget_ids (attention_choice m k ids v)"
  have c: "attention_get (L, m, k) v = Inr c"
    by (simp add: attention_get_def attention_condensation_def L c_def new_condensation_def)
  have "plain_history (h @ [e]) \<and> (\<exists>v'. from_events (h @ [e]) = Inr v' \<and> \<not> should_condense m v')"
    if e: "carries e c" "fresh h e" for e
  proof -
    have f: "forgets [e] = set (attention_choice m k ids v)"
      using forgets_list [OF e(1)] by (simp add: c_def forget_ids_def [of "attention_choice m k ids v"] valid_forget_ids [unfolded forget_ids_def])
    have "set (attention_choice m k ids v) \<subseteq> ev_id ` set v"
      unfolding attention_choice_def Let_def by auto
    then have "\<exists>x \<in> set h. i \<le> ev_id x" if "i \<in> forgets [e]" for i
      using that f v set_kept [of h] by fastforce
    then have h: "base_history (h @ [e])" "ev_id e \<notin> forgets [e]"
      using base_history_condensation [OF b(1) e(2,1)] by (simp_all add: c_def)
    have n: "no_summaries (h @ [e])"
      using no_summaries_condensation [OF e(1)] b(2) by (simp add: c_def forget_ids_def)
    have "kept (h @ [e]) = filter (\<lambda>x. ev_id x \<notin> set (attention_choice m k ids v)) v @ [e]"
      using kept_fresh [OF b(1) e(2) h(2)] f v by simp
    moreover have "int (length (filter (\<lambda>x. ev_id x \<notin> set (attention_choice m k ids v)) v)) \<le> m div 2"
      by (rule attention_keeps [OF g k])
    ultimately have "\<not> should_condense m (kept (h @ [e]))" using k by (simp add: should_condense_def)
    with h(1) n from_events_plain [OF h(1) n] show ?thesis by (simp add: plain_history_def)
  qed
  with c show ?thesis by blast
qed

interpretation at: rolling_condenser good_attention "\<lambda>p. fst (snd p)" "\<lambda>p h. plain_history h" attention_get
proof
  fix p :: attention_params and h v
  assume "good_attention p" "plain_history h" "from_events h = Inr v" "should_condense (fst (snd p)) v"
  then show "\<exists>c. attention_get p v = Inr c \<and>
      (\<forall>e. carries e c \<longrightarrow> fresh h e \<longrightarrow> plain_history (h @ [e]) \<and>
         (\<exists>v'. from_events (h @ [e]) = Inr v' \<and> \<not> should_condense (fst (snd p)) v'))"
    using attention_condenses [of "fst p" "fst (snd p)" "snd (snd p)" h v] by simp
qed (auto simp: plain_history_def base_history_Nil base_history_def [of "[]"] base_history_ordinary no_summaries_ordinary
      dest: base_historyD)

section \<open>Summaries\<close>

text \<open>Histories of a condenser that puts its summaries at \<open>k\<close>.\<close>

definition summary_history :: "int \<Rightarrow> event list \<Rightarrow> bool" where
  "summary_history k h \<longleftrightarrow> base_history h \<and> (\<forall>e \<in> set h. \<not> is_condensation_obs e) \<and>
     (case last_summary (rev h) of None \<Rightarrow> True | Some (s, i) \<Rightarrow> i = k)"

lemma summary_history_view:
  assumes "summary_history (int k) h" and "from_events h = Inr v" and "k \<le> length (kept h)"
  shows "\<exists>S. v = take k (kept h) @ S @ drop k (kept h) \<and> length S \<le> 1 \<and> (\<forall>e \<in> set S. is_condensation_obs e)"
proof (cases "last_summary (rev h)")
  case None
  then have "v = kept h" using assms(1,2) from_events_valid [of h] by (simp add: summary_history_def base_history_def)
  then show ?thesis by (intro exI [of _ "[]"]) simp
next
  case (Some p)
  then obtain s where p: "p = (s, int k)" using assms(1) by (cases p) (auto simp: summary_history_def)
  then have "v = py_insert (int k) (condensation_event s) (kept h)"
    using assms(1,2) from_events_valid [of h] Some by (simp add: summary_history_def base_history_def)
  then have "v = take k (kept h) @ [condensation_event s] @ drop k (kept h)"
    using assms(3) by (simp add: py_insert_def Let_def min_absorb1)
  then show ?thesis
    by (intro exI [of _ "[condensation_event s]"]) (simp add: is_condensation_obs_def condensation_event_def new_event_def)
qed

lemma summary_split:
  assumes "summary_history k h" and "from_events h = Inr v" and "int (length v) > m" and "0 \<le> k" and "k + 1 < m div 2"
  shows "\<exists>A M B. kept h = A @ M @ B \<and> M \<noteq> [] \<and> length A = nat k \<and> int (length A + length B) = m div 2 - 1 \<and>
     forgotten_events m k v = M \<and> (\<exists>s. previous_summary k v = Inr s)"
proof -
  let ?K = "kept h"
  define k' where "k' = nat k"
  define t where "t = nat (m div 2 - k - 1)"
  have k: "k = int k'" and t: "m div 2 - k - 1 = int t" "0 < t" using assms(4,5) by (simp_all add: k'_def t_def)
  have l: "length v \<le> Suc (length ?K)"
    using from_events_valid [of h] assms(1,2) by (auto simp: summary_history_def base_history_def split: option.splits)
  then have K: "k' + t < length ?K" using assms(3) k t by linarith
  define A where "A = take k' ?K"
  define M where "M = drop k' (take (length ?K - t) ?K)"
  define B where "B = drop (length ?K - t) ?K"
  have AMB: "?K = A @ M @ B" unfolding A_def M_def B_def by (rule split3) (use K in linarith)
  obtain S where S: "v = take k' ?K @ S @ drop k' ?K" "length S \<le> 1" "\<forall>e \<in> set S. is_condensation_obs e"
    using summary_history_view [of k' h v] assms(1,2) K k by auto
  have lA: "length A = k'" "length B = t" using K by (simp_all add: A_def B_def)
  have "drop k' ?K = M @ B" using AMB lA by (metis append_eq_conv_conj)
  then have v: "v = A @ S @ M @ B" using S(1) by (simp add: A_def)
  have "py_slice None (Some k) v = A" unfolding k py_slice_take using v lA by simp
  then have e: "events_from_tail m k v = int t" using t lA k by (simp add: events_from_tail_def)
  have "py_slice (Some k) (Some (- int t)) v = drop k' (take (length v - t) v)"
    unfolding k by (rule py_slice_mid [OF t(2)])
  also have "\<dots> = S @ M" unfolding v using lA by simp
  finally have "forgotten_events m k v = filter (\<lambda>e. \<not> is_condensation_obs e) (S @ M)"
    by (simp add: forgotten_events_def e)
  also have "\<dots> = M"
  proof -
    have "\<forall>e \<in> set M. \<not> is_condensation_obs e"
      using assms(1) AMB set_kept [of h] by (auto simp: summary_history_def)
    then show ?thesis using S(3) by (simp add: filter_False filter_True)
  qed
  finally have f: "forgotten_events m k v = M" .
  have M: "M \<noteq> []" using K by (simp add: M_def)
  have "k < int (length v)" using v lA t(2) k by simp
  then have "\<exists>s. previous_summary k v = Inr s"
    using assms(4) by (auto simp: previous_summary_def py_get_def split: payload.split)
  moreover have "int (length A + length B) = m div 2 - 1" using lA t(1) k by simp
  ultimately show ?thesis using AMB f M lA(1) unfolding k'_def by blast
qed

lemma summary_condensation_eq:
  assumes "growing M" and "M \<noteq> []"
  shows "summary_condensation k M (Some msg) =
    Inr ((forget_range (ev_id (hd M), ev_id (last M)))\<lparr>summary := Some msg, summary_offset := Some k\<rparr>)"
  using assms
  by (simp add: summary_condensation_def id_range_growing new_condensation_def validate_field_polymorphism_def forget_range_def)

text \<open>The view after a condensation with a summary.\<close>

lemma summary_effect:
  assumes "summary_history k h" and "0 \<le> k" and "kept h = A @ M @ B" and "M \<noteq> []" and "length A = nat k"
    and "c = (forget_range (ev_id (hd M), ev_id (last M)))\<lparr>summary := Some msg, summary_offset := Some k\<rparr>"
    and "carries e c" and "fresh h e"
  shows "summary_history k (h @ [e]) \<and> from_events (h @ [e]) = Inr (A @ [condensation_event msg] @ B @ [e])"
proof -
  have h: "base_history h" using assms(1) by (simp add: summary_history_def)
  have c: "validate_field_polymorphism c" by (simp add: assms(6) validate_field_polymorphism_def forget_range_def)
  have b: "base_history (h @ [e]) \<and> kept (h @ [e]) = A @ B @ [e]"
    by (rule condense_middle [OF h assms(8,7,3,4) c]) (simp_all add: assms(6) forget_range_def)
  have s: "last_summary (rev (h @ [e])) = Some (msg, k)"
    using assms(7) by (simp add: assms(6))
  have "\<not> is_condensation_obs e" using assms(7) by (simp add: carries_def is_condensation_obs_def)
  then have "summary_history k (h @ [e])" using assms(1) b s by (simp add: summary_history_def)
  moreover have "from_events (h @ [e]) = Inr (A @ [condensation_event msg] @ B @ [e])"
  proof -
    have k: "k = int (length A)" using assms(2,5) by simp
    have "py_insert k (condensation_event msg) (A @ B @ [e]) = A @ [condensation_event msg] @ B @ [e]"
      unfolding k py_insert_def Let_def clamp_index_nonneg by simp
    moreover have "valid_history (h @ [e])" using b base_historyD(1) by blast
    ultimately show ?thesis using b s from_events_valid [of "h @ [e]"] by simp
  qed
  ultimately show ?thesis by blast
qed

lemma summary_condenses:
  assumes "summary_history k h" and "from_events h = Inr v" and "should_condense m v" and "0 \<le> k" and "k + 1 < m div 2"
  shows "\<exists>c. summary_condensation k (forgotten_events m k v) (Some msg) = Inr c \<and>
      (\<forall>e. carries e c \<longrightarrow> fresh h e \<longrightarrow> summary_history k (h @ [e]) \<and>
         (\<exists>v'. from_events (h @ [e]) = Inr v' \<and> \<not> should_condense m v'))"
proof -
  obtain A M B where s: "kept h = A @ M @ B" "M \<noteq> []" "length A = nat k" "int (length A + length B) = m div 2 - 1"
    "forgotten_events m k v = M"
    using summary_split [OF assms(1,2) _ assms(4,5)] assms(3) unfolding should_condense_def by blast
  have g: "growing M"
    using growing_appendD [of A "M @ B"] growing_appendD [of M B] growing_kept [of h] assms(1) s(1)
    by (simp add: summary_history_def base_history_def)
  have "\<not> should_condense m (A @ [condensation_event msg] @ B @ [x])" for x
    using s(4) assms(4,5) by (simp add: should_condense_def)
  then show ?thesis
    unfolding s(5) summary_condensation_eq [OF g s(2)] using summary_effect [OF assms(1,4) s(1-3) refl] by blast
qed

lemma summary_history_Nil: "summary_history k []"
  by (simp add: summary_history_def base_history_Nil)

lemma summary_history_event:
  "summary_history k h \<Longrightarrow> fresh h e \<Longrightarrow> condensation_of e = None \<Longrightarrow> \<not> is_condensation_obs e \<Longrightarrow> summary_history k (h @ [e])"
  by (simp add: summary_history_def base_history_ordinary)

lemma previous_summary_ok:
  "0 \<le> k \<Longrightarrow> k < int (length v) \<Longrightarrow> \<exists>s. previous_summary k v = Inr s"
  by (auto simp: previous_summary_def py_get_def split: payload.split)

type_synonym summary_params = "llm_env \<times> jdict \<times> int \<times> int \<times> int"

definition good_summarizing :: "summary_params \<Rightarrow> bool" where
  "good_summarizing p = (case p of (L, md, m, k, l) \<Rightarrow> check_sizes m k = Inr () \<and> k + 1 < m div 2 \<and>
     (\<forall>rq. \<exists>rs msg. le_completion L rq = Inr rs \<and> rs_content rs = Some msg))"

definition summarizing_get :: "summary_params \<Rightarrow> event list \<Rightarrow> condensation result" where
  "summarizing_get p v = (case p of (L, md, m, k, l) \<Rightarrow> fst (summarizing_condensation L md m k l v []))"

lemma summarizing_get_eq:
  assumes "good_summarizing (L, md, m, k, l)" and "should_condense m v"
  shows "\<exists>msg. summarizing_get (L, md, m, k, l) v = summary_condensation k (forgotten_events m k v) (Some msg)"
proof -
  have "0 \<le> k" "k < int (length v)"
    using assms by (auto simp: good_summarizing_def check_sizes_iff should_condense_def)
  then obtain s where s: "previous_summary k v = Inr s" using previous_summary_ok by blast
  define rq where "rq = \<lparr>rq_messages = [events_prompt L l summarizing_instructions s (forgotten_events m k v) @
      ''Now summarize the events using the rules above.''], rq_tools = [], rq_tool_choice = None,
      rq_response_format = None, rq_metadata = Some md\<rparr>"
  obtain rs msg where "le_completion L rq = Inr rs" "rs_content rs = Some msg"
    using assms(1) unfolding good_summarizing_def by blast
  then have "summarizing_get (L, md, m, k, l) v = summary_condensation k (forgotten_events m k v) (Some msg)"
    using s by (simp add: summarizing_get_def summarizing_condensation_def Let_def rq_def del: append.simps)
  then show ?thesis by blast
qed

text \<open>What the two summarizing strategies have in common.\<close>

lemma summary_strategy:
  assumes get: "\<And>v. should_condense m v \<Longrightarrow> \<exists>msg. get v = summary_condensation k (forgotten_events m k v) (Some msg)"
    and k: "check_sizes m k = Inr ()" "k + 1 < m div 2"
    and h: "summary_history k h" "from_events h = Inr v" "should_condense m v"
  shows "\<exists>c. get v = Inr c \<and>
      (\<forall>e. carries e c \<longrightarrow> fresh h e \<longrightarrow> summary_history k (h @ [e]) \<and>
         (\<exists>v'. from_events (h @ [e]) = Inr v' \<and> \<not> should_condense m v'))"
proof -
  obtain msg where "get v = summary_condensation k (forgotten_events m k v) (Some msg)" using get h(3) by blast
  moreover have "0 \<le> k" using k(1) by (simp add: check_sizes_iff)
  ultimately show ?thesis using summary_condenses [OF h(1,2,3) _ k(2), of msg] by simp
qed

lemma summary_history_valid: "summary_history k h \<Longrightarrow> valid_history h"
  by (simp add: summary_history_def base_history_def)

interpretation su: rolling_condenser good_summarizing "\<lambda>(L, md, m, k, l). m" "\<lambda>(L, md, m, k, l). summary_history k" summarizing_get
proof
  fix p :: summary_params and h v
  obtain L md m k l where p: "p = (L, md, m, k, l)" by (cases p) auto
  assume "good_summarizing p" and "(case p of (L, md, m, k, l) \<Rightarrow> summary_history k) h" and "from_events h = Inr v"
    and "should_condense (case p of (L, md, m, k, l) \<Rightarrow> m) v"
  then show "\<exists>c. summarizing_get p v = Inr c \<and>
      (\<forall>e. carries e c \<longrightarrow> fresh h e \<longrightarrow> (case p of (L, md, m, k, l) \<Rightarrow> summary_history k) (h @ [e]) \<and>
         (\<exists>v'. from_events (h @ [e]) = Inr v' \<and> \<not> should_condense (case p of (L, md, m, k, l) \<Rightarrow> m) v'))"
    using summary_strategy [of m "summarizing_get p" k h v] summarizing_get_eq [of L md m k l]
    by (simp add: p good_summarizing_def)
qed (auto simp: summary_history_Nil summary_history_event summary_history_valid)

definition good_structured :: "summary_params \<Rightarrow> bool" where
  "good_structured p = (case p of (L, md, m, k, l) \<Rightarrow> check_sizes m k = Inr () \<and> k + 1 < m div 2 \<and>
     (\<forall>rq. \<exists>rs s. le_completion L rq = Inr rs \<and> summary_or_empty (read_summary L rs) = Inr s))"

definition structured_get :: "summary_params \<Rightarrow> event list \<Rightarrow> condensation result" where
  "structured_get p v = (case p of (L, md, m, k, l) \<Rightarrow> fst (structured_condensation L m k l v []))"

lemma structured_get_eq:
  assumes "good_structured (L, md, m, k, l)" and "should_condense m v"
  shows "\<exists>msg. structured_get (L, md, m, k, l) v = summary_condensation k (forgotten_events m k v) (Some msg)"
proof -
  have "0 \<le> k" "k < int (length v)"
    using assms by (auto simp: good_structured_def check_sizes_iff should_condense_def)
  then obtain s where s: "previous_summary k v = Inr s" using previous_summary_ok by blast
  define rq where "rq = \<lparr>rq_messages = [events_prompt L l structured_instructions s (forgotten_events m k v)],
      rq_tools = [tool_description],
      rq_tool_choice = Some (JObj [(''type'', JStr ''function''),
                        (''function'', JObj [(''name'', JStr ''create_state_summary'')])]),
      rq_response_format = None, rq_metadata = None\<rparr>"
  obtain rs r where "le_completion L rq = Inr rs" "summary_or_empty (read_summary L rs) = Inr r"
    using assms(1) unfolding good_structured_def by blast
  then have "structured_get (L, md, m, k, l) v = summary_condensation k (forgotten_events m k v) (Some (summary_str r))"
    using s by (simp add: structured_get_def structured_condensation_def Let_def rq_def)
  then show ?thesis by blast
qed

interpretation sc: rolling_condenser good_structured "\<lambda>(L, md, m, k, l). m" "\<lambda>(L, md, m, k, l). summary_history k" structured_get
proof
  fix p :: summary_params and h v
  obtain L md m k l where p: "p = (L, md, m, k, l)" by (cases p) auto
  assume "good_structured p" and "(case p of (L, md, m, k, l) \<Rightarrow> summary_history k) h" and "from_events h = Inr v"
    and "should_condense (case p of (L, md, m, k, l) \<Rightarrow> m) v"
  then show "\<exists>c. structured_get p v = Inr c \<and>
      (\<forall>e. carries e c \<longrightarrow> fresh h e \<longrightarrow> (case p of (L, md, m, k, l) \<Rightarrow> summary_history k) (h @ [e]) \<and>
         (\<exists>v'. from_events (h @ [e]) = Inr v' \<and> \<not> should_condense (case p of (L, md, m, k, l) \<Rightarrow> m) v'))"
    using summary_strategy [of m "structured_get p" k h v] structured_get_eq [of L md m k l]
    by (simp add: p good_structured_def)
qed (auto simp: summary_history_Nil summary_history_event summary_history_valid)


definition demo_llm :: llm_env where
  "demo_llm =
     \<lparr>le_message = (\<lambda>e. None), le_str = (\<lambda>e. ''event''),
      le_completion = (\<lambda>rq. Inr \<lparr>rs_content = Some ''done'', rs_tool_calls = None, rs_dump = JNull\<rparr>),
      le_schema = JNull, le_parse_ids = (\<lambda>s. Inr [2, 0, 7]), le_loads = (\<lambda>s. Inr JNull), le_validate = (\<lambda>j. Inr []),
      le_metrics = JNull\<rparr>"

definition demo_long :: "event list" where
  "demo_long = map demo_thought [0, 1, 2, 3, 4]"

lemma demo_long_facts: "growing demo_long" "\<forall>e \<in> set demo_long. condensation_of e = None \<and> \<not> is_condensation_obs e"
  "from_events demo_long = Inr demo_long" "length demo_long = 5"
proof -
  show g: "growing demo_long" by (simp add: demo_long_def growing_def)
  show "\<forall>e \<in> set demo_long. condensation_of e = None \<and> \<not> is_condensation_obs e" by (simp add: demo_long_def)
  have "base_history demo_long" "no_summaries demo_long" "kept demo_long = demo_long"
    using g by (simp_all add: demo_long_def base_history_def no_summaries_def kept_def forgets_Cons)
  then show "from_events demo_long = Inr demo_long" using from_events_plain by simp
  show "length demo_long = 5" by (simp add: demo_long_def)
qed


text \<open>
  Property C18. The other two rolling condensers keep the view bounded as well: amortized
  forgetting, and the selection by the language model, whatever identifiers the model names
  (unknown ones, repeated ones, too few or too many).
\<close>

theorem selected_views_bounded:
  "(good_sizes (m, k) \<and> am.agent_history (m, k) h \<longrightarrow>
     (\<exists>v. from_events h = Inr v \<and> (int (length v) \<le> m \<or>
        (\<exists>c. amortized_condensation m k v = Inr c \<and>
           (\<forall>e. carries e c \<longrightarrow> fresh h e \<longrightarrow> (\<exists>v'. from_events (h @ [e]) = Inr v' \<and> int (length v') \<le> m)))))) \<and>
   (good_attention (L, m, k) \<and> at.agent_history (L, m, k) h \<longrightarrow>
     (\<exists>v. from_events h = Inr v \<and> (int (length v) \<le> m \<or>
        (\<exists>c. fst (attention_condensation L m k v []) = Inr c \<and>
           (\<forall>e. carries e c \<longrightarrow> fresh h e \<longrightarrow> (\<exists>v'. from_events (h @ [e]) = Inr v' \<and> int (length v') \<le> m))))))"
proof (intro conjI impI)
  assume a: "good_sizes (m, k) \<and> am.agent_history (m, k) h"
  show "\<exists>v. from_events h = Inr v \<and> (int (length v) \<le> m \<or>
        (\<exists>c. amortized_condensation m k v = Inr c \<and>
           (\<forall>e. carries e c \<longrightarrow> fresh h e \<longrightarrow> (\<exists>v'. from_events (h @ [e]) = Inr v' \<and> int (length v') \<le> m))))"
    by (rule am.views_bounded [of "(m, k)" h]) (use a in auto)
next
  assume a: "good_attention (L, m, k) \<and> at.agent_history (L, m, k) h"
  show "\<exists>v. from_events h = Inr v \<and> (int (length v) \<le> m \<or>
        (\<exists>c. fst (attention_condensation L m k v []) = Inr c \<and>
           (\<forall>e. carries e c \<longrightarrow> fresh h e \<longrightarrow> (\<exists>v'. from_events (h @ [e]) = Inr v' \<and> int (length v') \<le> m))))"
    by (rule at.views_bounded [of "(L, m, k)" h]) (use a in \<open>auto simp: attention_get_def\<close>)
qed

theorem selected_views_bounded_witness:
  "\<exists>c. fst (attention_condensation demo_llm 4 1 demo_long []) = Inr c \<and>
     (\<forall>e. carries e c \<longrightarrow> fresh demo_long e \<longrightarrow> (\<exists>v'. from_events (demo_long @ [e]) = Inr v' \<and> int (length v') \<le> 4))"
proof -
  have "good_attention (demo_llm, 4, 1)" by (simp add: good_attention_def check_sizes_iff demo_llm_def)
  moreover have "at.agent_history (demo_llm, 4, 1) demo_long"
    using at.agent_history_events demo_long_facts(1,2) by blast
  ultimately obtain v where "from_events demo_long = Inr v" "int (length v) \<le> 4 \<or>
      (\<exists>c. fst (attention_condensation demo_llm 4 1 v []) = Inr c \<and>
        (\<forall>e. carries e c \<longrightarrow> fresh demo_long e \<longrightarrow> (\<exists>v'. from_events (demo_long @ [e]) = Inr v' \<and> int (length v') \<le> 4)))"
    using selected_views_bounded [of 4 1 demo_long demo_llm] by blast
  then show ?thesis using demo_long_facts(3,4) by auto
qed

text \<open>
  The largest prefix the constructor accepts is too large for the summarizing
  condensers: with \<open>keep_first = max_size // 2 - 1\<close> no event is kept from the tail, the slice
  up to \<open>-0\<close> is empty, and the condensation of every view that is too long raises after the
  language model has been paid.
\<close>

theorem summary_needs_a_tail:
  assumes "k + 1 = m div 2" and "0 \<le> k" and "should_condense m v"
  shows "check_sizes m k = Inr () \<and>
     (\<forall>rs. (\<forall>rq. le_completion L rq = Inr rs) \<longrightarrow>
        fst (summarizing_condensation L md m k l v []) = Inl (ValueError ''min() arg is an empty sequence'') \<and>
        (\<forall>s. summary_or_empty (read_summary L rs) = Inr s \<longrightarrow>
          fst (structured_condensation L m k l v []) = Inl (ValueError ''min() arg is an empty sequence'')))"
proof -
  obtain k' where k: "k = int k'" using assms(2) nonneg_int_cases by blast
  have "k' \<le> length v" using assms k by (simp add: should_condense_def)
  then have "events_from_tail m k v = int 0"
    unfolding events_from_tail_def k py_slice_take using assms(1) k by simp
  then have f: "forgotten_events m k v = []"
    unfolding forgotten_events_def by (simp only: k py_slice_mid_zero) simp
  have "k < int (length v)" using assms unfolding should_condense_def by linarith
  then obtain s where s: "previous_summary k v = Inr s" using previous_summary_ok assms(2) by blast
  show ?thesis
    using assms(1,2) s
    by (simp add: check_sizes_iff summarizing_condensation_def structured_condensation_def Let_def f
        summary_condensation_def id_range_def)
qed

theorem summary_needs_a_tail_witness:
  "fst (summarizing_condensation demo_llm [] 4 1 100 demo_long []) = Inl (ValueError ''min() arg is an empty sequence'')"
proof -
  have "should_condense 4 demo_long" by (simp add: should_condense_def demo_long_facts)
  then show ?thesis using summary_needs_a_tail [of 1 4 demo_long demo_llm "[]" 100] by (simp add: demo_llm_def)
qed

end
