(* ===== verification/Masking.thy ===== *)
theory Masking
  imports Rolling
begin

text \<open>
  Properties of the condensers that return a view (masking, recent events), of the pipeline that
  combines them with rolling condensers, and of the metadata they record.
\<close>

section \<open>Masking\<close>

lemma length_mask_observations [simp]: "length (mask_observations w v) = length v"
  by (simp add: mask_observations_def)

lemma nth_mask_observations:
  "i < length v \<Longrightarrow> mask_observations w v ! i =
     (if is_observation (v ! i) \<and> int i < int (length v) - w then condensation_event ''<MASKED>'' else v ! i)"
  by (simp add: mask_observations_def nth_enumerate_eq)

text \<open>The number of browser outputs of a list.\<close>

definition browser_count :: "event list \<Rightarrow> int" where
  "browser_count es = int (length (filter (\<lambda>e. browser_url e \<noteq> None) es))"

definition browser_mask :: "event \<Rightarrow> event" where
  "browser_mask e = condensation_event (''Visited URL '' @ the (browser_url e) @ [newline] @ ''Content omitted'')"

lemma browser_count_simps [simp]:
  "browser_count [] = 0"
  "browser_count (e # es) = (if browser_url e = None then 0 else 1) + browser_count es"
  "browser_count (rev es) = browser_count es"
  by (simp_all add: browser_count_def rev_filter [symmetric])

lemma browser_count_nonneg: "0 \<le> browser_count es"
  by (simp add: browser_count_def)

lemma length_mask_browser_loop [simp]: "length (mask_browser_loop w cnt es) = length es"
  by (induction w cnt es rule: mask_browser_loop.induct) (auto split: option.split)

lemma nth_mask_browser_loop:
  "i < length es \<Longrightarrow> mask_browser_loop w cnt es ! i =
     (if browser_url (es ! i) \<noteq> None \<and> w \<le> cnt + browser_count (take i es) then browser_mask (es ! i) else es ! i)"
proof (induction w cnt es arbitrary: i rule: mask_browser_loop.induct)
  case (2 w cnt e es)
  have n: "0 \<le> browser_count (take j es)" for j by (rule browser_count_nonneg)
  show ?case
  proof (cases i)
    case 0
    then show ?thesis by (auto simp: browser_mask_def split: option.split)
  next
    case (Suc j)
    then show ?thesis using 2 n [of j] by (auto split: option.split)
  qed
qed simp

text \<open>
  Masking keeps every position. The masking of observations changes exactly the
  observations before the last \<open>w\<close> positions; masking twice is masking once. The masking of
  browser outputs changes exactly those that are followed by at least \<open>w\<close> other browser outputs,
  so that the last \<open>w\<close> browser outputs stay.
\<close>

theorem masking_spec:
  assumes "i < length v"
  shows "length (mask_observations w v) = length v \<and> length (mask_browser w v) = length v \<and>
    (int (length v) - w \<le> int i \<or> is_action (v ! i) \<longrightarrow> mask_observations w v ! i = v ! i) \<and>
    (int i < int (length v) - w \<and> is_observation (v ! i) \<longrightarrow> mask_observations w v ! i = condensation_event ''<MASKED>'') \<and>
    mask_observations w (mask_observations w v) = mask_observations w v \<and>
    mask_browser w v ! i =
      (if browser_url (v ! i) \<noteq> None \<and> w \<le> browser_count (drop (Suc i) v) then browser_mask (v ! i) else v ! i)"
proof -
  have o: "is_observation (condensation_event s)" for s
    by (simp add: condensation_event_def new_event_def is_observation_def)
  have "mask_observations w (mask_observations w v) = mask_observations w v"
    by (rule nth_equalityI) (auto simp: nth_mask_observations o)
  moreover have "mask_browser w v ! i = mask_browser_loop w 0 (rev v) ! (length v - Suc i)"
    using assms by (simp add: mask_browser_def rev_nth)
  moreover have "take (length v - Suc i) (rev v) = rev (drop (Suc i) v)"
    using assms by (simp add: take_rev)
  ultimately show ?thesis
    using assms by (auto simp: nth_mask_observations nth_mask_browser_loop rev_nth action_or_observation mask_browser_def)
qed

definition demo_result :: event where
  "demo_result = (new_event (SuccessObservation ''ok''))\<lparr>ev_id := 1\<rparr>"

lemma demo_result_simps [simp]:
  "ev_id demo_result = 1" "is_observation demo_result" "\<not> is_action demo_result" "\<not> is_observation (demo_thought i)"
  by (simp_all add: demo_result_def demo_thought_def is_observation_def is_action_def new_event_def)

theorem masking_spec_witness:
  "mask_observations 1 [demo_result, demo_thought 2] ! 0 = condensation_event ''<MASKED>''"
  using masking_spec [of 0 "[demo_result, demo_thought 2]" 1] by simp

section \<open>Recent events\<close>

text \<open>
  The condenser of recent events keeps the first \<open>k\<close> and the last \<open>m - k\<close> events of
  a view of at least \<open>m\<close> events, \<open>m\<close> in all. It goes wrong at both ends: when the view is
  so short that the tail reaches into the head, the events of both are repeated, so that the result
  is longer than the view; and when the head alone has \<open>m\<close> events, the tail of length 0 is
  \<open>view[-0:]\<close>, the whole view.
\<close>

theorem recent_events_spec:
  assumes "k \<le> length v"
  shows "(k < m \<and> m \<le> length v \<longrightarrow>
            recent_events (int k) (int m) v = take k v @ drop (length v - (m - k)) v \<and>
            length (recent_events (int k) (int m) v) = m) \<and>
         (k < m \<and> length v < m \<longrightarrow> length (recent_events (int k) (int m) v) = k + min (length v) (m - k)) \<and>
         (k + length v \<le> m \<and> k < m \<longrightarrow> recent_events (int k) (int m) v = take k v @ v) \<and>
         (m \<le> k \<longrightarrow> recent_events (int k) (int m) v = take k v @ v)"
proof -
  have l: "length (take k v) = k" using assms by simp
  have pos: "recent_events (int k) (int m) v = take k v @ drop (length v - (m - k)) v" if "k < m"
  proof -
    have "max 0 (int m - int (length (take k v))) = int (m - k)" using that l by simp
    then show ?thesis
      unfolding recent_events_def Let_def py_slice_take using py_slice_last [of "m - k" v] that by simp
  qed
  have zero: "recent_events (int k) (int m) v = take k v @ v" if "m \<le> k"
  proof -
    have "max 0 (int m - int (length (take k v))) = int 0" using that l by simp
    then show ?thesis unfolding recent_events_def Let_def py_slice_take by (simp only: py_slice_minus_zero)
  qed
  show ?thesis using pos zero assms by auto
qed

theorem recent_events_spec_witness:
  "recent_events (int 1) (int 5) [demo_thought 0, demo_thought 1] = [demo_thought 0, demo_thought 0, demo_thought 1]"
  using recent_events_spec [of 1 "[demo_thought 0, demo_thought 1]" 5] by simp

section \<open>Pipelines\<close>

lemma condense_each_append:
  "condense_each L (cs @ ds) v =
     (case condense_each L cs v of
        (cs', Inr (View v')) \<Rightarrow> (case condense_each L ds v' of (ds', r) \<Rightarrow> (cs' @ ds', r))
      | (cs', r) \<Rightarrow> (cs' @ ds, r))"
  by (induction cs arbitrary: v) (auto split: prod.splits sum.splits condense_result.splits)

lemma ev_id_condensation_event [simp]: "ev_id (condensation_event s) = - 1"
  by (simp add: condensation_event_def new_event_def INVALID_ID_def)

lemma growing_nth_less: "growing v \<Longrightarrow> a < b \<Longrightarrow> b < length v \<Longrightarrow> ev_id (v ! a) < ev_id (v ! b)"
  by (auto simp: growing_def sorted_wrt_iff_nth_less)

lemma middle_not_kept:
  assumes "growing v" and "k \<le> j" and "j < n" and "j < length v"
  shows "ev_id (v ! j) \<notin> set (map ev_id (take k v @ drop n v))"
proof
  assume "ev_id (v ! j) \<in> set (map ev_id (take k v @ drop n v))"
  then obtain e where e: "e \<in> set (take k v) \<or> e \<in> set (drop n v)" "ev_id (v ! j) = ev_id e" by auto
  from e(1) show False
  proof
    assume "e \<in> set (take k v)"
    then obtain x where "x < k" "x < length v" "e = v ! x" by (auto simp: in_set_conv_nth)
    then show False using growing_nth_less [OF assms(1), of x j] assms(2,4) e(2) by simp
  next
    assume "e \<in> set (drop n v)"
    then obtain x where "x < length (drop n v)" "e = drop n v ! x" by (metis in_set_conv_nth)
    then have "n + x < length v" "e = v ! (n + x)" by auto
    then show False using growing_nth_less [OF assms(1), of j "n + x"] assms(3) e(2) by simp
  qed
qed

text \<open>The view given to the second stage of masking followed by amortized forgetting.\<close>

lemma mask_then_forget:
  assumes "growing v" and "0 \<le> k" and "k < m div 2" and "int (length v) > m"
    and head: "\<forall>e \<in> set (take (nat k) v). \<not> is_observation e"
    and window: "m div 2 - k \<le> w"
    and i: "nat k \<le> i" "int i < int (length v) - w" "is_observation (v ! i)"
    and j: "nat k \<le> j" "int j < int (length v) - (m div 2 - k)" "\<not> is_observation (v ! j)"
  shows "\<exists>b. amortized_condensation m k (mask_observations w v) = Inr (forget_range (- 1, b)) \<and>
    (\<forall>e \<in> set (take (nat k) v). ev_id e < b)"
proof -
  let ?u = "mask_observations w v"
  define T where "T = nat (m div 2)"
  define k' where "k' = nat k"
  have T: "int T = m div 2" "k' < T" "k = int k'" using assms(2,3) by (simp_all add: T_def k'_def)
  have len: "T < length v" using T assms(4) by linarith
  have il: "i < length v - (T - k')" "k' \<le> i" "i < length v" using i(1,2) window T unfolding k'_def [symmetric] by linarith+
  have A: "take k' ?u = take k' v"
  proof (rule nth_equalityI)
    fix j assume "j < length (take k' ?u)"
    moreover have "\<not> is_observation (v ! j)" if "j < k'" "j < length v"
    proof -
      have "v ! j \<in> set (take k' v)" using that by (auto simp: in_set_conv_nth intro!: exI [of _ j])
      then show ?thesis using head by (simp add: k'_def)
    qed
    ultimately show "take k' ?u ! j = take k' v ! j" by (simp add: nth_mask_observations)
  qed simp
  have B: "drop (length v - (T - k')) ?u = drop (length v - (T - k')) v"
  proof (rule nth_equalityI)
    fix x assume "x < length (drop (length v - (T - k')) ?u)"
    then have x: "length v - (T - k') + x < length v" by simp
    have "int (length v) - w \<le> int (length v - (T - k') + x)" using len T window by linarith
    then show "drop (length v - (T - k')) ?u ! x = drop (length v - (T - k')) v ! x"
      using x by (simp add: nth_mask_observations)
  qed simp
  have ids: "ev_id (?u ! j) = - 1 \<or> ev_id (?u ! j) = ev_id (v ! j)" if "j < length v" for j
    using that by (simp add: nth_mask_observations)
  define keep where "keep = map ev_id (take k' v @ drop (length v - (T - k')) v)"
  define F where "F = filter (\<lambda>x. x \<notin> set keep) (map ev_id ?u)"
  have nonneg: "0 \<le> ev_id e" if "e \<in> set v" for e using assms(1) that by (simp add: growing_def)
  have "- 1 \<notin> set keep"
  proof
    assume "- 1 \<in> set keep"
    then obtain e where "e \<in> set v" "ev_id e = - 1" unfolding keep_def by (auto dest: in_set_takeD in_set_dropD)
    with nonneg show False by fastforce
  qed
  moreover have "ev_id (?u ! i) = - 1" using il i by (simp add: nth_mask_observations)
  moreover have "?u ! i \<in> set ?u" using il(3) by simp
  ultimately have m1: "- 1 \<in> set F" unfolding F_def by (metis (mono_tags, lifting) imageI list.set_map mem_Collect_eq set_filter)
  have lb: "- 1 \<le> x" if "x \<in> set F" for x
  proof -
    obtain j where "j < length v" "x = ev_id (?u ! j)" using \<open>x \<in> set F\<close> unfolding F_def by (auto simp: in_set_conv_nth)
    then show ?thesis using ids [of j] nonneg [of "v ! j"] by auto
  qed
  have jl: "j < length v" "k' \<le> j" "j < length v - (T - k')"
    using j(1,2) T len unfolding k'_def [symmetric] by linarith+
  have "ev_id (v ! j) \<in> set F"
  proof -
    have u: "?u ! j = v ! j" using jl j(3) by (simp add: nth_mask_observations)
    have "ev_id (v ! j) \<notin> set keep" unfolding keep_def by (rule middle_not_kept [OF assms(1) jl(2,3,1)])
    moreover have "v ! j \<in> set ?u" using u jl(1) by (metis length_mask_observations nth_mem)
    ultimately show ?thesis unfolding F_def by simp
  qed
  then have b: "ev_id (v ! j) \<le> Max (set F)" by (intro Max_ge) auto
  have "Min (set F) = - 1" using m1 lb by (intro Min_eqI) auto
  moreover have "id_range F = Inr (Min (set F), Max (set F))"
    using m1 by (cases F) (simp_all add: id_range_def fold_min_Min fold_max_Max)
  moreover have "py_slice None (Some k) ?u = take k' v" unfolding T(3) py_slice_take by (rule A)
  moreover have "py_slice (Some (- (m div 2 - int (length (take k' v))))) None ?u = drop (length v - (T - k')) v"
  proof -
    have e: "m div 2 - int (length (take k' v)) = int (T - k')" using T len by simp
    show ?thesis unfolding e using py_slice_last [of "T - k'" ?u] T(2) B by simp
  qed
  ultimately have "amortized_condensation m k ?u = Inr (forget_range (- 1, Max (set F)))"
    unfolding amortized_condensation_def Let_def F_def keep_def by (simp add: new_condensation_def)
  moreover have "ev_id e < Max (set F)" if "e \<in> set (take (nat k) v)" for e
  proof -
    obtain x where "x < k'" "x < length v" "e = v ! x"
      using \<open>e \<in> set (take (nat k) v)\<close> by (auto simp: in_set_conv_nth k'_def)
    then have "ev_id e < ev_id (v ! j)" using growing_nth_less [OF assms(1), of x j] jl by simp
    with b show ?thesis by simp
  qed
  ultimately show ?thesis by blast
qed


definition demo_masked :: "event list" where
  "demo_masked = [demo_thought 0, demo_result, demo_thought 2, demo_thought 3, demo_thought 4]"

lemma condensation_of_demo_result [simp]: "condensation_of demo_result = None"
  by (simp add: demo_result_def condensation_of_def new_event_def)


section \<open>Metadata\<close>

lemma get_write_batch:
  "(case write_batch b ex of None \<Rightarrow> [] | Some bs \<Rightarrow> bs) = (case ex of None \<Rightarrow> [] | Some bs \<Rightarrow> bs) @ (if b = [] then [] else [b])"
  by (auto simp: write_batch_def Let_def)

fun batch_of :: "condenser \<Rightarrow> jdict" where
  "batch_of (Single s b md) = b"
| "batch_of (CondenserPipeline cs b md) = b"

lemma write_metadata_batch: "snd (write_metadata c ex) = write_batch (batch_of c) ex" "batch_of (fst (write_metadata c ex)) = []"
  by (cases c; simp)+

lemma write_each_batches:
  "(case snd (write_each cs ex) of None \<Rightarrow> [] | Some bs \<Rightarrow> bs) =
     (case ex of None \<Rightarrow> [] | Some bs \<Rightarrow> bs) @ filter (\<lambda>b. b \<noteq> []) (map batch_of cs) \<and>
   (\<forall>c \<in> set (fst (write_each cs ex)). batch_of c = [])"
proof (induction cs arbitrary: ex)
  case (Cons c cs)
  obtain c' ex' where w: "write_metadata c ex = (c', ex')" by fastforce
  have x: "ex' = write_batch (batch_of c) ex" "batch_of c' = []" using write_metadata_batch [of c ex] w by simp_all
  obtain cs' ex'' where w2: "write_each cs ex' = (cs', ex'')" by fastforce
  have "(case ex'' of None \<Rightarrow> [] | Some bs \<Rightarrow> bs) = (case ex' of None \<Rightarrow> [] | Some bs \<Rightarrow> bs) @ filter (\<lambda>b. b \<noteq> []) (map batch_of cs)"
    "\<forall>c \<in> set cs'. batch_of c = []"
    using Cons.IH [of ex'] w2 by simp_all
  then show ?case using w w2 x get_write_batch [of "batch_of c" ex] by simp
qed simp

text \<open>
  Whatever \<open>condense\<close> does, also when it raises, the batches are written: that of a
  single condenser, or those of the condensers of a pipeline in order, without the empty ones,
  are appended to the state's metadata and cleared. Only one level of pipelines is walked: what
  the condensers of a pipeline inside a pipeline record is neither written nor cleared.
\<close>

theorem metadata_written:
  "(\<exists>bs. get_condensation_metadata (snd (fst (condensed_history L ver host c st))) = get_condensation_metadata st @ bs \<and>
      (\<forall>b \<in> set bs. b \<noteq> []) \<and>
      (case fst (fst (condensed_history L ver host c st)) of
         Single s b md \<Rightarrow> b = []
       | CondenserPipeline cs b md \<Rightarrow> \<forall>x \<in> set cs. batch_of x = [])) \<and>
   metadata_batch (CondenserPipeline [CondenserPipeline cs b1 md1] b2 md2) ex =
     (CondenserPipeline [CondenserPipeline cs [] md1] b2 md2, write_batch b1 ex)"
proof -
  obtain st1 v where v: "view st = (st1, v)" by fastforce
  have m: "st_metadata st1 = st_metadata st"
    using v by (auto simp: view_def Let_def split: if_splits sum.splits option.splits)
  obtain c2 r where c2: "(case v of Inl e \<Rightarrow> (set_llm_metadata (to_llm_metadata ver host st ''condenser'') c, Inl e)
      | Inr v \<Rightarrow> condense L (set_llm_metadata (to_llm_metadata ver host st ''condenser'') c) v) = (c2, r)" by fastforce
  obtain c3 ex3 where w: "metadata_batch c2 (st_metadata st) = (c3, ex3)" by fastforce
  have h: "fst (condensed_history L ver host c st) = (c3, st1\<lparr>st_metadata := ex3\<rparr>)"
    unfolding condensed_history_def Let_def v using w m by (simp add: c2)
  have "\<exists>bs. (case ex3 of None \<Rightarrow> [] | Some bs \<Rightarrow> bs) = get_condensation_metadata st @ bs \<and> (\<forall>b \<in> set bs. b \<noteq> []) \<and>
      (case c3 of Single s b md \<Rightarrow> b = [] | CondenserPipeline cs b md \<Rightarrow> \<forall>x \<in> set cs. batch_of x = [])"
  proof (cases c2)
    case (Single s b md)
    then show ?thesis using w get_write_batch [of b "st_metadata st"]
      by (intro exI [of _ "if b = [] then [] else [b]"]) (auto simp: get_condensation_metadata_def)
  next
    case (CondenserPipeline cs b md)
    then show ?thesis using w write_each_batches [of cs "st_metadata st"]
      by (intro exI [of _ "filter (\<lambda>b. b \<noteq> []) (map batch_of cs)"])
        (auto simp: get_condensation_metadata_def split: prod.splits)
  qed
  then show ?thesis unfolding h by (simp add: get_condensation_metadata_def)
qed

theorem metadata_written_witness:
  "\<exists>bs. get_condensation_metadata (snd (fst (condensed_history demo_llm [] [] (Single NoOpCondenser [(''a'', JNull)] []) (new_state [])))) =
     get_condensation_metadata (new_state []) @ bs"
  using metadata_written [of demo_llm "[]" "[]" "Single NoOpCondenser [(''a'', JNull)] []" "new_state []"] by blast

end
