(* ===== verification/CondenserConfig.thy ===== *)
theory CondenserConfig
  imports Masking
begin

text \<open>
  \<^verbatim>\<open>openhands/core/config/condenser_config.py\<close> and the registry of
  \<^verbatim>\<open>openhands/memory/condenser/condenser.py\<close>: condenser configurations, how they are read from a
  section of the configuration file, and how a condenser is made from one.

  The validation of a configuration class by the schema library is an argument; it gives the
  configuration or the message of its error. The configuration of a language model is a JSON
  value, an LLM of it has the two features the constructors ask for or not.
\<close>

section \<open>Configurations\<close>

datatype condenser_config =
    NoOpCondenserConfig
  | ObservationMaskingCondenserConfig int
  | BrowserOutputCondenserConfig int
  | RecentEventsCondenserConfig int int
  | LLMSummarizingCondenserConfig json int int int
  | AmortizedForgettingCondenserConfig int int
  | LLMAttentionCondenserConfig json int int
  | StructuredSummaryCondenserConfig json int int int
  | CondenserPipelineConfig "condenser_config list"

text \<open>The value of the field \<open>type\<close>, which names the class.\<close>

fun config_type :: "condenser_config \<Rightarrow> string" where
  "config_type NoOpCondenserConfig = ''noop''"
| "config_type (ObservationMaskingCondenserConfig w) = ''observation_masking''"
| "config_type (BrowserOutputCondenserConfig w) = ''browser_output_masking''"
| "config_type (RecentEventsCondenserConfig k m) = ''recent''"
| "config_type (LLMSummarizingCondenserConfig c k m l) = ''llm''"
| "config_type (AmortizedForgettingCondenserConfig m k) = ''amortized''"
| "config_type (LLMAttentionCondenserConfig c m k) = ''llm_attention''"
| "config_type (StructuredSummaryCondenserConfig c k m l) = ''structured''"
| "config_type (CondenserPipelineConfig cs) = ''pipeline''"

text \<open>The lower bounds of the fields.\<close>

fun config_bounds :: "condenser_config \<Rightarrow> bool" where
  "config_bounds (ObservationMaskingCondenserConfig w) = (1 \<le> w)"
| "config_bounds (BrowserOutputCondenserConfig w) = (1 \<le> w)"
| "config_bounds (RecentEventsCondenserConfig k m) = (0 \<le> k \<and> 1 \<le> m)"
| "config_bounds (LLMSummarizingCondenserConfig c k m l) = (0 \<le> k \<and> 2 \<le> m)"
| "config_bounds (AmortizedForgettingCondenserConfig m k) = (2 \<le> m \<and> 0 \<le> k)"
| "config_bounds (LLMAttentionCondenserConfig c m k) = (2 \<le> m \<and> 0 \<le> k)"
| "config_bounds (StructuredSummaryCondenserConfig c k m l) = (0 \<le> k \<and> 2 \<le> m)"
| "config_bounds _ = True"

definition condenser_classes :: "string list" where
  "condenser_classes =
     [''noop'', ''observation_masking'', ''recent'', ''llm'', ''amortized'', ''llm_attention'', ''structured'']"

type_synonym validator = "string \<Rightarrow> jdict \<Rightarrow> string + condenser_config"

definition create_condenser_config :: "validator \<Rightarrow> string \<Rightarrow> jdict \<Rightarrow> condenser_config result" where
  "create_condenser_config validate condenser_type data =
     (if condenser_type \<notin> set condenser_classes then Inl (ValueError (''Unknown condenser type: '' @ condenser_type))
      else
        (case validate condenser_type data of
           Inl msg \<Rightarrow> Inl (ValueError (''Validation failed for condenser type '' @ condenser_type @ '': '' @ msg))
         | Inr config \<Rightarrow> Inr config))"

text \<open>
  The data with a reference to a language model resolved: by name, or by the fallback \<^verbatim>\<open>llm\<close>
  (which may be absent) when there are configurations at all.
\<close>

definition resolve_llm :: "string \<Rightarrow> jdict \<Rightarrow> jdict option \<Rightarrow> jdict" where
  "resolve_llm condenser_type data llm_configs =
     (case dict_get data ''llm_config'' of
        Some (JStr name) \<Rightarrow>
          if condenser_type \<in> {''llm'', ''llm_attention''} then
            (case llm_configs of
               None \<Rightarrow> data
             | Some cs \<Rightarrow>
                 (case dict_get cs name of
                    Some c \<Rightarrow> dict_set data ''llm_config'' c
                  | None \<Rightarrow> dict_set data ''llm_config'' (dict_get_default cs ''llm'' JNull)))
          else data
      | _ \<Rightarrow> data)"

text \<open>
  \<open>condenser_config_from_toml_section\<close>. A type that is no string is unknown, and a list or a table
  cannot even be looked up.
\<close>

definition condenser_config_from_toml_section ::
  "validator \<Rightarrow> jdict \<Rightarrow> jdict option \<Rightarrow> (string, condenser_config) dict result" where
  "condenser_config_from_toml_section validate data llm_configs =
     (let r = (case dict_get_default data ''type'' (JStr ''noop'') of
                 JStr condenser_type \<Rightarrow>
                   create_condenser_config validate condenser_type (resolve_llm condenser_type data llm_configs)
               | JList _ \<Rightarrow> Inl (TypeError ''unhashable type'')
               | JObj _ \<Rightarrow> Inl (TypeError ''unhashable type'')
               | _ \<Rightarrow> Inl (ValueError ''Unknown condenser type''))
      in case r of
           Inr config \<Rightarrow> Inr [(''condenser'', config)]
         | Inl (ValueError _) \<Rightarrow> Inr [(''condenser'', NoOpCondenserConfig)]
         | Inl e \<Rightarrow> Inl e)"

section \<open>The registry\<close>

text \<open>The registry holds the registered types; the class of a type is fixed.\<close>

definition register_config :: "string \<Rightarrow> string list \<Rightarrow> string list result" where
  "register_config t reg =
     (if t \<in> set reg then Inl (ValueError (''Condenser configuration '' @ t @ '' is already registered''))
      else Inr (reg @ [t]))"

fun register_all :: "string list \<Rightarrow> string list \<Rightarrow> string list result" where
  "register_all [] reg = Inr reg"
| "register_all (t # ts) reg = bind_result (register_config t reg) (register_all ts)"

text \<open>The registrations made when the implementations are imported, in the order of the package.\<close>

definition startup_condensers :: "string list result" where
  "startup_condensers =
     register_all [''amortized'', ''browser_output_masking'', ''llm_attention'', ''llm'', ''noop'',
       ''observation_masking'', ''pipeline'', ''recent'', ''structured''] []"

record llm_features =
  lf_response_schema :: "json \<Rightarrow> bool"
  lf_function_calling :: "json \<Rightarrow> bool"

text \<open>\<open>from_config\<close>, with the constructors of the classes.\<close>

fun from_config :: "llm_features \<Rightarrow> string list \<Rightarrow> condenser_config \<Rightarrow> condenser result"
  and from_configs :: "llm_features \<Rightarrow> string list \<Rightarrow> condenser_config list \<Rightarrow> condenser list result" where
  "from_config F reg c =
     (if config_type c \<notin> set reg then Inl (ValueError ''Unknown condenser config'')
      else
        (case c of
           NoOpCondenserConfig \<Rightarrow> Inr (Single NoOpCondenser [] [])
         | ObservationMaskingCondenserConfig w \<Rightarrow> Inr (Single (ObservationMaskingCondenser w) [] [])
         | BrowserOutputCondenserConfig w \<Rightarrow> Inr (Single (BrowserOutputCondenser w) [] [])
         | RecentEventsCondenserConfig k m \<Rightarrow> Inr (Single (RecentEventsCondenser k m) [] [])
         | AmortizedForgettingCondenserConfig m k \<Rightarrow>
             bind_result (check_sizes m k) (\<lambda>_. Inr (Single (AmortizedForgettingCondenser m k) [] []))
         | LLMAttentionCondenserConfig llm m k \<Rightarrow>
             bind_result (check_sizes m k) (\<lambda>_.
               if \<not> lf_response_schema F llm then
                 Inl (ValueError ''The LLM model must support the response_schema parameter to use the LLMAttentionCondenser.'')
               else Inr (Single (LLMAttentionCondenser m k) [] []))
         | LLMSummarizingCondenserConfig llm k m l \<Rightarrow>
             bind_result (check_sizes m k) (\<lambda>_. Inr (Single (LLMSummarizingCondenser m k l) [] []))
         | StructuredSummaryCondenserConfig llm k m l \<Rightarrow>
             bind_result (check_sizes m k) (\<lambda>_.
               if \<not> lf_function_calling F llm then
                 Inl (ValueError ''LLM must support function calling to use StructuredSummaryCondenser'')
               else Inr (Single (StructuredSummaryCondenser m k l) [] []))
         | CondenserPipelineConfig cs \<Rightarrow>
             bind_result (from_configs F reg cs) (\<lambda>l. Inr (CondenserPipeline l [] []))))"
| "from_configs F reg [] = Inr []"
| "from_configs F reg (c # cs) =
     bind_result (from_config F reg c) (\<lambda>x. bind_result (from_configs F reg cs) (\<lambda>xs. Inr (x # xs)))"

declare from_config.simps [simp del]

section \<open>Reading a section\<close>

lemma dict_get_default_cases: "dict_get_default d k x = (case dict_get d k of None \<Rightarrow> x | Some y \<Rightarrow> y)"
  by (simp add: dict_get_default_def)

text \<open>
  A section of the configuration file always gives a condenser when its type is a
  plain value: the validated configuration, or the one that does nothing. It is the latter for
  every unknown type, and the two kinds of condensers that exist but are not in the table
  (browser output masking and pipelines) are unknown; and for every structured condenser
  that names its language model, since the name is only resolved for the two other kinds.
\<close>

theorem toml_fallback:
  assumes "\<forall>l. dict_get_default data ''type'' (JStr ''noop'') \<noteq> JList l"
    and "\<forall>d. dict_get_default data ''type'' (JStr ''noop'') \<noteq> JObj d"
    and strings_refused: "\<forall>d name. dict_get d ''llm_config'' = Some (JStr name) \<longrightarrow> (\<exists>msg. validate ''structured'' d = Inl msg)"
  shows "\<exists>config. condenser_config_from_toml_section validate data llm_configs = Inr [(''condenser'', config)] \<and>
    (config \<noteq> NoOpCondenserConfig \<longrightarrow>
       (\<exists>t \<in> set condenser_classes. dict_get_default data ''type'' (JStr ''noop'') = JStr t \<and>
          validate t (resolve_llm t data llm_configs) = Inr config)) \<and>
    (dict_get data ''type'' \<in> {Some (JStr ''browser_output_masking''), Some (JStr ''pipeline'')} \<longrightarrow> config = NoOpCondenserConfig) \<and>
    (dict_get data ''type'' = Some (JStr ''structured'') \<and> dict_get data ''llm_config'' = Some (JStr name) \<longrightarrow>
       config = NoOpCondenserConfig)"
proof (cases "dict_get_default data ''type'' (JStr ''noop'')")
  case (JStr t)
  let ?d = "resolve_llm t data llm_configs"
  have s: "condenser_config_from_toml_section validate data llm_configs =
      (case create_condenser_config validate t ?d of
         Inr config \<Rightarrow> Inr [(''condenser'', config)]
       | Inl (ValueError _) \<Rightarrow> Inr [(''condenser'', NoOpCondenserConfig)]
       | Inl e \<Rightarrow> Inl e)"
    by (simp add: condenser_config_from_toml_section_def Let_def JStr)
  have r: "resolve_llm ''structured'' data llm_configs = data"
    by (auto simp: resolve_llm_def split: option.split json.split)
  have t: "t = x" if "dict_get data ''type'' = Some (JStr x)" for x
    using that JStr by (simp add: dict_get_default_cases)
  show ?thesis
  proof (cases "\<exists>config. create_condenser_config validate t ?d = Inr config")
    case True
    then obtain config where c: "create_condenser_config validate t ?d = Inr config" by blast
    then have v: "t \<in> set condenser_classes" "validate t ?d = Inr config"
      by (auto simp: create_condenser_config_def split: if_splits sum.splits)
    have "t \<notin> {''browser_output_masking'', ''pipeline''}" using v(1) by (auto simp: condenser_classes_def)
    moreover have "\<not> (t = ''structured'' \<and> dict_get data ''llm_config'' = Some (JStr name))"
      using strings_refused v(2) r by force
    ultimately show ?thesis using s c v t JStr by (intro exI [of _ config]) auto
  next
    case False
    then obtain msg where "create_condenser_config validate t ?d = Inl (ValueError msg)"
      by (auto simp: create_condenser_config_def split: if_splits sum.splits)
    then show ?thesis using s by simp
  qed
qed (use assms in \<open>auto simp: condenser_config_from_toml_section_def Let_def dict_get_default_cases split: option.splits\<close>)

definition demo_validator :: validator where
  "demo_validator t d =
     (if t = ''structured'' then
        (case dict_get d ''llm_config'' of
           Some (JObj c) \<Rightarrow> Inr (StructuredSummaryCondenserConfig (JObj c) 1 100 10000)
         | _ \<Rightarrow> Inl ''llm_config'')
      else Inr (AmortizedForgettingCondenserConfig 100 1))"

theorem toml_fallback_witness:
  "condenser_config_from_toml_section demo_validator
     [(''type'', JStr ''structured''), (''llm_config'', JStr ''fast'')] (Some [(''fast'', JObj [])]) =
   Inr [(''condenser'', NoOpCondenserConfig)]"
  using toml_fallback [of "[(''type'', JStr ''structured''), (''llm_config'', JStr ''fast'')]" demo_validator
      "Some [(''fast'', JObj [])]" "''fast''"]
  by (auto simp: dict_get_default_cases dict_get_def demo_validator_def)

fun sizes_fit :: "llm_features \<Rightarrow> condenser_config \<Rightarrow> bool" where
  "sizes_fit F (AmortizedForgettingCondenserConfig m k) = (k < m div 2)"
| "sizes_fit F (LLMAttentionCondenserConfig llm m k) = (k < m div 2 \<and> lf_response_schema F llm)"
| "sizes_fit F (LLMSummarizingCondenserConfig llm k m l) = (k < m div 2)"
| "sizes_fit F (StructuredSummaryCondenserConfig llm k m l) = (k < m div 2 \<and> lf_function_calling F llm)"
| "sizes_fit F (CondenserPipelineConfig cs) = list_all (sizes_fit F) cs"
| "sizes_fit F _ = True"

fun all_bounds :: "condenser_config \<Rightarrow> bool" where
  "all_bounds (CondenserPipelineConfig cs) = list_all all_bounds cs"
| "all_bounds c = config_bounds c"

lemma startup_condensers_eq:
  "startup_condensers = Inr [''amortized'', ''browser_output_masking'', ''llm_attention'', ''llm'', ''noop'',
       ''observation_masking'', ''pipeline'', ''recent'', ''structured'']"
  by (simp add: startup_condensers_def register_config_def)

lemma from_configs_ok:
  "(\<exists>xs. from_configs F reg cs = Inr xs) \<longleftrightarrow> (\<forall>c \<in> set cs. \<exists>x. from_config F reg c = Inr x)"
proof (induction cs)
  case (Cons c cs)
  then show ?case by (cases "from_config F reg c"; cases "from_configs F reg cs") auto
qed simp

lemma from_config_ok:
  assumes "startup_condensers = Inr reg"
  shows "all_bounds c \<Longrightarrow> (\<exists>x. from_config F reg c = Inr x) \<longleftrightarrow> sizes_fit F c"
proof (induction c)
  case (CondenserPipelineConfig cs)
  have "(\<exists>x. from_config F reg (CondenserPipelineConfig cs) = Inr x) \<longleftrightarrow> (\<exists>xs. from_configs F reg cs = Inr xs)"
    using assms by (cases "from_configs F reg cs") (auto simp: from_config.simps startup_condensers_eq)
  also have "\<dots> \<longleftrightarrow> (\<forall>c \<in> set cs. sizes_fit F c)"
    unfolding from_configs_ok using CondenserPipelineConfig by (auto simp: list_all_iff)
  finally show ?case by (simp add: list_all_iff)
qed (use assms in \<open>auto simp: from_config.simps startup_condensers_eq check_sizes_def\<close>)

text \<open>
  Property C22. Making a condenser: the registrations at import succeed, and then a configuration
  whose fields are within their bounds gives a condenser unless a rolling condenser in it
  (at any depth of pipelines) has a prefix of at least half its size or lacks a feature of its
  language model. The bounds alone are not enough: a rolling condenser of size 2 or 3 with the
  default prefix is refused.
\<close>

theorem from_config_accepts:
  "\<exists>reg. startup_condensers = Inr reg \<and>
     (all_bounds c \<longrightarrow> ((\<exists>x. from_config F reg c = Inr x) \<longleftrightarrow> sizes_fit F c)) \<and>
     (m \<in> {2, 3} \<longrightarrow> all_bounds (AmortizedForgettingCondenserConfig m 1) \<and>
        \<not> (\<exists>x. from_config F reg (AmortizedForgettingCondenserConfig m 1) = Inr x))"
proof -
  obtain reg where r: "startup_condensers = Inr reg" using startup_condensers_eq by blast
  have "\<not> (\<exists>x. from_config F reg (AmortizedForgettingCondenserConfig m 1) = Inr x)" if "m \<in> {2, 3}"
    using from_config_ok [OF r, of "AmortizedForgettingCondenserConfig m 1" F] that by auto
  moreover have "all_bounds (AmortizedForgettingCondenserConfig m 1)" if "m \<in> {2, 3}" using that by auto
  ultimately show ?thesis using r from_config_ok [OF r, of c F] by blast
qed

theorem from_config_accepts_witness:
  "\<exists>reg x. startup_condensers = Inr reg \<and>
     from_config \<lparr>lf_response_schema = (\<lambda>_. False), lf_function_calling = (\<lambda>_. True)\<rparr> reg
       (CondenserPipelineConfig [BrowserOutputCondenserConfig 1, StructuredSummaryCondenserConfig JNull 1 100 10]) = Inr x"
  using from_config_accepts [of "CondenserPipelineConfig [BrowserOutputCondenserConfig 1, StructuredSummaryCondenserConfig JNull 1 100 10]"
      "\<lparr>lf_response_schema = (\<lambda>_. False), lf_function_calling = (\<lambda>_. True)\<rparr>" 0]
  by auto

end
