(* ===== verification/Metrics.thy ===== *)
theory Metrics
  imports Serialization
begin

text \<open>
  \<^verbatim>\<open>openhands/llm/metrics.py\<close>: costs, latencies and token usage of the calls of a language model, with
  their accumulated values. Costs and times are real numbers; the time stamp of a cost is an
  argument.
\<close>

record cost =
  co_model :: string
  co_cost :: real
  co_timestamp :: real

record response_latency =
  rl_model :: string
  rl_latency :: real
  rl_response_id :: string

record token_usage =
  tu_model :: string
  tu_prompt_tokens :: int
  tu_completion_tokens :: int
  tu_cache_read_tokens :: int
  tu_cache_write_tokens :: int
  tu_context_window :: int
  tu_per_turn_token :: int
  tu_response_id :: string

definition no_usage :: "string \<Rightarrow> token_usage" where
  "no_usage model =
     \<lparr>tu_model = model, tu_prompt_tokens = 0, tu_completion_tokens = 0, tu_cache_read_tokens = 0, tu_cache_write_tokens = 0,
      tu_context_window = 0, tu_per_turn_token = 0, tu_response_id = []\<rparr>"

definition add_usage :: "token_usage \<Rightarrow> token_usage \<Rightarrow> token_usage" where
  "add_usage u v =
     \<lparr>tu_model = tu_model u,
      tu_prompt_tokens = tu_prompt_tokens u + tu_prompt_tokens v,
      tu_completion_tokens = tu_completion_tokens u + tu_completion_tokens v,
      tu_cache_read_tokens = tu_cache_read_tokens u + tu_cache_read_tokens v,
      tu_cache_write_tokens = tu_cache_write_tokens u + tu_cache_write_tokens v,
      tu_context_window = max (tu_context_window u) (tu_context_window v),
      tu_per_turn_token = tu_per_turn_token v,
      tu_response_id = tu_response_id u\<rparr>"

record metrics =
  mt_accumulated_cost :: real
  mt_costs :: "cost list"
  mt_response_latencies :: "response_latency list"
  mt_model_name :: string
  mt_token_usages :: "token_usage list"
  mt_accumulated_token_usage :: token_usage

definition new_metrics :: "string \<Rightarrow> metrics" where
  "new_metrics model =
     \<lparr>mt_accumulated_cost = 0, mt_costs = [], mt_response_latencies = [], mt_model_name = model, mt_token_usages = [],
      mt_accumulated_token_usage = no_usage model\<rparr>"

definition set_accumulated_cost :: "real \<Rightarrow> metrics \<Rightarrow> metrics result" where
  "set_accumulated_cost v m =
     (if v < 0 then Inl (ValueError ''Total cost cannot be negative.'') else Inr (m\<lparr>mt_accumulated_cost := v\<rparr>))"

definition add_cost :: "real \<Rightarrow> real \<Rightarrow> metrics \<Rightarrow> metrics result" where
  "add_cost now v m =
     (if v < 0 then Inl (ValueError ''Added cost cannot be negative.'')
      else Inr (m\<lparr>mt_accumulated_cost := mt_accumulated_cost m + v,
                  mt_costs := mt_costs m @ [\<lparr>co_model = mt_model_name m, co_cost = v, co_timestamp = now\<rparr>]\<rparr>))"

definition add_response_latency :: "real \<Rightarrow> string \<Rightarrow> metrics \<Rightarrow> metrics" where
  "add_response_latency v response_id m =
     m\<lparr>mt_response_latencies := mt_response_latencies m @
        [\<lparr>rl_model = mt_model_name m, rl_latency = max 0 v, rl_response_id = response_id\<rparr>]\<rparr>"

definition add_token_usage :: "int \<Rightarrow> int \<Rightarrow> int \<Rightarrow> int \<Rightarrow> int \<Rightarrow> string \<Rightarrow> metrics \<Rightarrow> metrics" where
  "add_token_usage prompt completion cache_read cache_write window response_id m =
     (let usage =
        \<lparr>tu_model = mt_model_name m, tu_prompt_tokens = prompt, tu_completion_tokens = completion,
         tu_cache_read_tokens = cache_read, tu_cache_write_tokens = cache_write, tu_context_window = window,
         tu_per_turn_token = prompt + completion, tu_response_id = response_id\<rparr>
      in m\<lparr>mt_token_usages := mt_token_usages m @ [usage],
           mt_accumulated_token_usage := add_usage (mt_accumulated_token_usage m) (usage\<lparr>tu_response_id := []\<rparr>)\<rparr>)"

definition merge_metrics :: "metrics \<Rightarrow> metrics \<Rightarrow> metrics" where
  "merge_metrics m other =
     m\<lparr>mt_accumulated_cost := mt_accumulated_cost m + mt_accumulated_cost other,
       mt_costs := mt_costs m @ mt_costs other,
       mt_token_usages := mt_token_usages m @ mt_token_usages other,
       mt_response_latencies := mt_response_latencies m @ mt_response_latencies other,
       mt_accumulated_token_usage := add_usage (mt_accumulated_token_usage m) (mt_accumulated_token_usage other)\<rparr>"

definition reset_metrics :: "metrics \<Rightarrow> metrics" where
  "reset_metrics m = new_metrics (mt_model_name m)"

definition dump_usage :: "token_usage \<Rightarrow> json" where
  "dump_usage u =
     JObj [(''model'', JStr (tu_model u)), (''prompt_tokens'', JInt (tu_prompt_tokens u)),
       (''completion_tokens'', JInt (tu_completion_tokens u)), (''cache_read_tokens'', JInt (tu_cache_read_tokens u)),
       (''cache_write_tokens'', JInt (tu_cache_write_tokens u)), (''context_window'', JInt (tu_context_window u)),
       (''per_turn_token'', JInt (tu_per_turn_token u)), (''response_id'', JStr (tu_response_id u))]"

definition dump_cost :: "cost \<Rightarrow> json" where
  "dump_cost c = JObj [(''model'', JStr (co_model c)), (''cost'', JFloat (co_cost c)), (''timestamp'', JFloat (co_timestamp c))]"

definition dump_latency :: "response_latency \<Rightarrow> json" where
  "dump_latency l =
     JObj [(''model'', JStr (rl_model l)), (''latency'', JFloat (rl_latency l)), (''response_id'', JStr (rl_response_id l))]"

definition get_metrics :: "metrics \<Rightarrow> jdict" where
  "get_metrics m =
     [(''accumulated_cost'', JFloat (mt_accumulated_cost m)),
      (''accumulated_token_usage'', dump_usage (mt_accumulated_token_usage m)),
      (''costs'', JList (map dump_cost (mt_costs m))),
      (''response_latencies'', JList (map dump_latency (mt_response_latencies m))),
      (''token_usages'', JList (map dump_usage (mt_token_usages m)))]"

definition log_metrics :: "(json \<Rightarrow> string) \<Rightarrow> metrics \<Rightarrow> string" where
  "log_metrics show_json m = concat (map (\<lambda>(k, v). k @ '': '' @ show_json v @ [newline]) (get_metrics m))"

section \<open>Metrics of a stored event\<close>

text \<open>
  \<^verbatim>\<open>event_from_dict\<close> of \<^verbatim>\<open>openhands/events/serialization/event.py\<close> reads the metrics of an event. The models check the
  types of their fields; that texts of numbers are accepted too is left out.
\<close>

fun as_float :: "json \<Rightarrow> real result" where
  "as_float (JFloat r) = Inr r"
| "as_float (JInt i) = Inr (real_of_int i)"
| "as_float _ = Inl ill_typed"

definition need :: "(json \<Rightarrow> 'a result) \<Rightarrow> jdict \<Rightarrow> string \<Rightarrow> 'a result" where
  "need f d k = (case dict_get d k of None \<Rightarrow> Inl (ValueError k) | Some j \<Rightarrow> f j)"

definition with_default :: "(json \<Rightarrow> 'a result) \<Rightarrow> 'a \<Rightarrow> jdict \<Rightarrow> string \<Rightarrow> 'a result" where
  "with_default f x d k = (case dict_get d k of None \<Rightarrow> Inr x | Some j \<Rightarrow> f j)"

definition read_usage :: "json \<Rightarrow> token_usage result" where
  "read_usage j =
     bind_result (as_dict j) (\<lambda>d.
     bind_result (with_default as_str [] d ''model'') (\<lambda>model.
     bind_result (with_default as_int 0 d ''prompt_tokens'') (\<lambda>prompt.
     bind_result (with_default as_int 0 d ''completion_tokens'') (\<lambda>completion.
     bind_result (with_default as_int 0 d ''cache_read_tokens'') (\<lambda>cache_read.
     bind_result (with_default as_int 0 d ''cache_write_tokens'') (\<lambda>cache_write.
     bind_result (with_default as_int 0 d ''context_window'') (\<lambda>window.
     bind_result (with_default as_int 0 d ''per_turn_token'') (\<lambda>per_turn.
     bind_result (with_default as_str [] d ''response_id'') (\<lambda>response_id.
       Inr \<lparr>tu_model = model, tu_prompt_tokens = prompt, tu_completion_tokens = completion,
            tu_cache_read_tokens = cache_read, tu_cache_write_tokens = cache_write, tu_context_window = window,
            tu_per_turn_token = per_turn, tu_response_id = response_id\<rparr>)))))))))"

definition read_cost :: "real \<Rightarrow> json \<Rightarrow> cost result" where
  "read_cost now j =
     bind_result (as_dict j) (\<lambda>d.
     bind_result (need as_str d ''model'') (\<lambda>model.
     bind_result (need as_float d ''cost'') (\<lambda>c.
     bind_result (with_default as_float now d ''timestamp'') (\<lambda>t.
       Inr \<lparr>co_model = model, co_cost = c, co_timestamp = t\<rparr>))))"

definition read_latency :: "json \<Rightarrow> response_latency result" where
  "read_latency j =
     bind_result (as_dict j) (\<lambda>d.
     bind_result (need as_str d ''model'') (\<lambda>model.
     bind_result (need as_float d ''latency'') (\<lambda>l.
     bind_result (need as_str d ''response_id'') (\<lambda>response_id.
       Inr \<lparr>rl_model = model, rl_latency = l, rl_response_id = response_id\<rparr>))))"

definition metrics_from_dict :: "real \<Rightarrow> json \<Rightarrow> metrics result" where
  "metrics_from_dict now j =
     (case j of
        JObj d \<Rightarrow>
          bind_result (with_default as_float 0 d ''accumulated_cost'') (\<lambda>total.
          bind_result (set_accumulated_cost total (new_metrics ''default'')) (\<lambda>m.
          bind_result (with_default (as_list_of (read_cost now)) [] d ''costs'') (\<lambda>cs.
          bind_result (with_default (as_list_of read_latency) [] d ''response_latencies'') (\<lambda>ls.
          bind_result (with_default (as_list_of read_usage) [] d ''token_usages'') (\<lambda>us.
          bind_result (with_default read_usage (mt_accumulated_token_usage m) d ''accumulated_token_usage'') (\<lambda>u.
            Inr (m\<lparr>mt_costs := cs, mt_response_latencies := ls, mt_token_usages := us, mt_accumulated_token_usage := u\<rparr>)))))))
      | _ \<Rightarrow> Inr (new_metrics ''default''))"

lemma read_dumped [simp]:
  "read_usage (dump_usage u) = Inr u" "read_cost now (dump_cost c) = Inr c" "read_latency (dump_latency l) = Inr l"
  by (simp_all add: read_usage_def dump_usage_def read_cost_def dump_cost_def read_latency_def dump_latency_def
      with_default_def need_def dict_get_def)

lemma all_results_dumped: "(\<And>x. f (g x) = Inr x) \<Longrightarrow> as_list_of f (JList (map g xs)) = Inr xs"
  by (induction xs) (simp_all add: as_list_of_def)

lemma metrics_restored:
  assumes "0 \<le> mt_accumulated_cost m"
  shows "metrics_from_dict now (JObj (get_metrics m)) = Inr (m\<lparr>mt_model_name := ''default''\<rparr>)"
  using assms by (cases m) (simp add: metrics_from_dict_def get_metrics_def with_default_def dict_get_def set_accumulated_cost_def
      new_metrics_def all_results_dumped)

lemma get_metrics_model [simp]: "get_metrics (m\<lparr>mt_model_name := x\<rparr>) = get_metrics m"
  by (simp add: get_metrics_def)

section \<open>Accumulated values\<close>

text \<open>The accumulated values are those of the recorded calls.\<close>

definition max_list :: "int list \<Rightarrow> int" where
  "max_list xs = fold max xs 0"

definition metrics_ok :: "metrics \<Rightarrow> bool" where
  "metrics_ok m \<longleftrightarrow>
     mt_accumulated_cost m = sum_list (map co_cost (mt_costs m)) \<and>
     list_all (\<lambda>c. 0 \<le> co_cost c) (mt_costs m) \<and>
     list_all (\<lambda>l. 0 \<le> rl_latency l) (mt_response_latencies m) \<and>
     (let u = mt_accumulated_token_usage m; us = mt_token_usages m
      in tu_prompt_tokens u = sum_list (map tu_prompt_tokens us) \<and>
         tu_completion_tokens u = sum_list (map tu_completion_tokens us) \<and>
         tu_cache_read_tokens u = sum_list (map tu_cache_read_tokens us) \<and>
         tu_cache_write_tokens u = sum_list (map tu_cache_write_tokens us) \<and>
         tu_context_window u = max_list (map tu_context_window us))"

lemma fold_max_max: "fold max xs (max a b) = max a (fold max xs b)" for a b :: int
  by (induction xs arbitrary: b) (auto, metis max.left_commute)

lemma max_list_append: "max_list (xs @ ys) = max (max_list xs) (max_list ys)"
proof -
  have "0 \<le> fold max xs (0 :: int)" using fold_max_max [of xs 0 0] by simp
  then show ?thesis using fold_max_max [of ys "fold max xs 0" 0] by (simp add: max_list_def max.absorb1)
qed

lemma max_list_single: "max_list [x] = max x 0"
  by (simp add: max_list_def)

lemmas metrics_defs = metrics_ok_def add_usage_def no_usage_def Let_def max_list_append max_list_single

lemma new_metrics_ok: "metrics_ok (new_metrics model)"
  by (simp add: metrics_defs new_metrics_def max_list_def)

lemma add_cost_ok: "metrics_ok m \<Longrightarrow> add_cost now v m = Inr m' \<Longrightarrow> metrics_ok m'"
  by (auto simp: add_cost_def metrics_ok_def split: if_splits)

lemma add_response_latency_ok: "metrics_ok m \<Longrightarrow> metrics_ok (add_response_latency v i m)"
  by (simp add: add_response_latency_def metrics_ok_def Let_def)

lemma add_token_usage_ok: "metrics_ok m \<Longrightarrow> metrics_ok (add_token_usage p c r w n i m)"
proof -
  assume ok: "metrics_ok m"
  have "0 \<le> tu_context_window (mt_accumulated_token_usage m)"
    using ok fold_max_max [of "map tu_context_window (mt_token_usages m)" 0 0] by (simp add: metrics_ok_def Let_def max_list_def)
  with ok show ?thesis
    by (auto simp: add_token_usage_def metrics_defs)
qed

lemma merge_metrics_ok: "metrics_ok m \<Longrightarrow> metrics_ok m' \<Longrightarrow> metrics_ok (merge_metrics m m')"
  by (auto simp: merge_metrics_def metrics_defs)

lemma reset_metrics_ok: "metrics_ok (reset_metrics m)"
  by (simp add: reset_metrics_def new_metrics_ok)



end
