(* ===== verification/Replay.thy ===== *)
theory Replay
  imports Serialization
begin

text \<open>
  \<^verbatim>\<open>openhands/controller/replay.py\<close>: the actions of a recorded trajectory are given to the controller
  one by one in place of the agent's.
\<close>

record replay_manager =
  rp_events :: "event list"
  rp_mode :: bool
  rp_index :: nat

definition replay_relevant :: "event \<Rightarrow> bool" where
  "replay_relevant e = (ev_source e \<noteq> Some ENVIRONMENT \<and> \<not> is_null_observation e)"

definition no_wait :: "event \<Rightarrow> event" where
  "no_wait e =
     (case ev_payload e of
        MessageAction c urls wait risk \<Rightarrow> if wait then e\<lparr>ev_payload := MessageAction c urls False risk\<rparr> else e
      | _ \<Rightarrow> e)"

text \<open>The messages before the last event do not wait.\<close>

definition override_wait :: "event list \<Rightarrow> event list" where
  "override_wait es = (if es = [] then [] else map no_wait (butlast es) @ [last es])"

definition new_replay :: "event list option \<Rightarrow> replay_manager" where
  "new_replay events =
     (let es = override_wait (filter replay_relevant (case events of None \<Rightarrow> [] | Some l \<Rightarrow> l))
      in \<lparr>rp_events = es, rp_mode = (es \<noteq> []), rp_index = 0\<rparr>)"

definition replayable :: "replay_manager \<Rightarrow> bool" where
  "replayable r = (rp_index r < length (rp_events r) \<and> is_action (rp_events r ! rp_index r))"

function skip_to_action :: "replay_manager \<Rightarrow> replay_manager" where
  "skip_to_action r =
     (if rp_index r < length (rp_events r) \<and> \<not> replayable r then skip_to_action (r\<lparr>rp_index := rp_index r + 1\<rparr>) else r)"
  by pat_completeness auto
termination
  by (relation "measure (\<lambda>r. length (rp_events r) - rp_index r)") auto

declare skip_to_action.simps [simp del]

definition should_replay :: "replay_manager \<Rightarrow> replay_manager \<times> bool" where
  "should_replay r =
     (if \<not> rp_mode r then (r, False) else let r' = skip_to_action r in (r', replayable r'))"

definition replay_step :: "replay_manager \<Rightarrow> replay_manager \<times> event result" where
  "replay_step r =
     (if \<not> rp_index r < length (rp_events r) then (r, Inl IndexError)
      else
        let e = rp_events r ! rp_index r
        in if \<not> is_action e then (r, Inl (AssertionError [])) else (r\<lparr>rp_index := rp_index r + 1\<rparr>, Inr e))"

fun get_replay_events :: "codec \<Rightarrow> jdict list \<Rightarrow> event list result" where
  "get_replay_events C [] = Inr []"
| "get_replay_events C (d # ds) =
     bind_result (event_from_dict C d) (\<lambda>e.
     bind_result (get_replay_events C ds) (\<lambda>es.
       Inr (if ev_source e = Some ENVIRONMENT then es else e\<lparr>ev_id := INVALID_ID\<rparr> # es)))"

section \<open>A whole replay\<close>

lemma skip_keeps [simp]: "rp_events (skip_to_action r) = rp_events r" "rp_mode (skip_to_action r) = rp_mode r"
  by (induction r rule: skip_to_action.induct) (simp_all add: skip_to_action.simps)

lemma skip_index: "rp_index r \<le> rp_index (skip_to_action r)"
  by (induction r rule: skip_to_action.induct) (subst skip_to_action.simps, auto)

lemma skip_suffix:
  "filter is_action (drop (rp_index (skip_to_action r)) (rp_events r)) = filter is_action (drop (rp_index r) (rp_events r))"
proof (induction r rule: skip_to_action.induct)
  case (1 r)
  show ?case
  proof (cases "rp_index r < length (rp_events r) \<and> \<not> replayable r")
    case True
    then have "drop (rp_index r) (rp_events r) = rp_events r ! rp_index r # drop (Suc (rp_index r)) (rp_events r)"
      by (simp add: Cons_nth_drop_Suc)
    with True 1 [OF True] show ?thesis by (simp add: skip_to_action.simps [of r] replayable_def)
  next
    case False
    then show ?thesis by (auto simp: skip_to_action.simps [of r])
  qed
qed

lemma skip_stops: "\<not> replayable (skip_to_action r) \<Longrightarrow> length (rp_events r) \<le> rp_index (skip_to_action r)"
  by (induction r rule: skip_to_action.induct) (subst (asm) skip_to_action.simps, subst skip_to_action.simps, auto split: if_splits)

text \<open>What the controller takes from the manager, step by step.\<close>

function replayed :: "replay_manager \<Rightarrow> event list" where
  "replayed r =
     (case should_replay r of
        (r1, True) \<Rightarrow> (case replay_step r1 of (r2, Inr e) \<Rightarrow> e # replayed r2 | (r2, Inl er) \<Rightarrow> [])
      | (r1, False) \<Rightarrow> [])"
  by pat_completeness auto
termination
  using skip_index
  by (relation "measure (\<lambda>r. length (rp_events r) - rp_index r)")
    (auto simp: should_replay_def replay_step_def Let_def less_Suc_eq_le intro!: diff_less_mono2 le_imp_less_Suc intro: le_less_trans [OF skip_index] split: if_splits)

declare replayed.simps [simp del]

lemma replayed_actions:
  "rp_mode r \<Longrightarrow> replayed r = filter is_action (drop (rp_index r) (rp_events r))"
proof (induction r rule: replayed.induct)
  case (1 r)
  let ?r = "skip_to_action r"
  have sr: "should_replay r = (?r, replayable ?r)" using 1(2) by (simp add: should_replay_def Let_def)
  show ?case
  proof (cases "replayable ?r")
    case True
    let ?e = "rp_events r ! rp_index ?r" and ?r2 = "?r\<lparr>rp_index := rp_index ?r + 1\<rparr>"
    have st: "replay_step ?r = (?r2, Inr ?e)" using True by (simp add: replay_step_def replayable_def)
    have "replayed r = ?e # replayed ?r2" using sr st True by (simp add: replayed.simps [of r])
    also have "replayed ?r2 = filter is_action (drop (Suc (rp_index ?r)) (rp_events r))"
      using 1(1) [of ?r True ?r2 "Inr ?e" ?e] sr st True 1(2) by simp
    finally show ?thesis
      using True skip_suffix [of r] Cons_nth_drop_Suc [of "rp_index ?r" "rp_events r"]
      by (simp add: replayable_def) (metis filter.simps(2))
  next
    case False
    with sr skip_stops [of r] skip_suffix [of r] show ?thesis by (simp add: replayed.simps [of r])
  qed
qed

lemma replayed_off: "\<not> rp_mode r \<Longrightarrow> replayed r = []"
  by (simp add: replayed.simps [of r] should_replay_def)

lemma no_wait_action [simp]: "is_action (no_wait e) = is_action e"
  by (simp add: no_wait_def is_action_def split: payload.split)


end
