(* ===== verification/ControllerHistory.thy ===== *)
theory ControllerHistory
  imports Rolling
begin

text \<open>
  \<^verbatim>\<open>openhands/controller/agent_controller.py\<close>: how the controller restores the history of an agent from
  the stored events and how it shortens it when the context window of the model is exceeded.
\<close>

section \<open>Restoring the history\<close>

definition is_delegate_action :: "event \<Rightarrow> bool" where
  "is_delegate_action e = (case ev_payload e of AgentDelegateAction _ _ _ \<Rightarrow> True | _ \<Rightarrow> False)"

definition is_delegate_observation :: "event \<Rightarrow> bool" where
  "is_delegate_observation e = (case ev_payload e of AgentDelegateObservation _ _ \<Rightarrow> True | _ \<Rightarrow> False)"

definition backend_event :: "event \<Rightarrow> bool" where
  "backend_event e =
     (case ev_payload e of
        NullAction \<Rightarrow> True
      | NullObservation _ \<Rightarrow> True
      | ChangeAgentStateAction _ _ \<Rightarrow> True
      | AgentStateChangedObservation _ _ _ \<Rightarrow> True
      | _ \<Rightarrow> False)"

definition agent_history_filter :: event_filter where
  "agent_history_filter =
     \<lparr>ef_exclude_hidden = True, ef_query = None, ef_include_types = None, ef_exclude_types = Some backend_event, ef_source = None,
      ef_start_date = None, ef_end_date = None\<rparr>"

text \<open>The loop that matches delegate actions with observations; the stack has its top first.\<close>

fun delegate_ranges :: "event list \<Rightarrow> int list \<Rightarrow> (int \<times> int) list" where
  "delegate_ranges [] stack = []"
| "delegate_ranges (e # es) stack =
     (if is_delegate_action e then delegate_ranges es (ev_id e # stack)
      else if is_delegate_observation e then
        (case stack of
           [] \<Rightarrow> delegate_ranges es []
         | a # stack' \<Rightarrow> (a, ev_id e) # delegate_ranges es stack')
      else delegate_ranges es stack)"

definition index_after :: "event list \<Rightarrow> int \<Rightarrow> nat" where
  "index_after events b = length (takeWhile (\<lambda>e. ev_id e \<le> b) events)"

fun filter_ranges :: "event list \<Rightarrow> nat \<Rightarrow> (int \<times> int) list \<Rightarrow> event list" where
  "filter_ranges events current_idx [] = drop current_idx events"
| "filter_ranges events current_idx ((a, b) # ranges) =
     filter (\<lambda>e. ev_id e < a) (drop current_idx events) @ filter (\<lambda>e. ev_id e \<in> {a, b}) events @
     filter_ranges events (index_after events b) ranges"

text \<open>
  The new history and the new \<open>start_id\<close>; \<open>search a b\<close> are the events the stream returns for the
  range through the filter. The loop over the ranges reuses the name \<open>start_id\<close>.
\<close>

definition init_history :: "(int \<Rightarrow> int \<Rightarrow> event list) \<Rightarrow> int \<Rightarrow> int \<Rightarrow> int \<Rightarrow> event list \<times> int" where
  "init_history search latest start end_id =
     (let start_id = (if start \<ge> 0 then start else 0);
          stop = (if end_id \<ge> 0 then end_id else latest)
      in if start_id > stop + 1 then ([], start)
         else
           let events = search start_id stop;
               ranges = sort (delegate_ranges events [])
           in if ranges = [] then (events, start_id)
              else (filter_ranges events 0 ranges, fst (last ranges)))"

section \<open>The conversation window\<close>

definition is_system :: "event \<Rightarrow> bool" where
  "is_system e = (case ev_payload e of SystemMessageAction _ _ _ _ \<Rightarrow> True | _ \<Rightarrow> False)"

definition is_user_message :: "event \<Rightarrow> bool" where
  "is_user_message e = (is_message e \<and> ev_source e = Some USER)"

definition is_recall_of :: "event \<Rightarrow> event \<Rightarrow> bool" where
  "is_recall_of msg e =
     (case (ev_payload e, ev_payload msg) of
        (RecallAction _ q _, MessageAction c _ _ _) \<Rightarrow> q = c
      | _ \<Rightarrow> False)"

text \<open>The first event after the first user message that recalls it, and what follows it.\<close>

definition recall_events :: "event \<Rightarrow> event list \<Rightarrow> event list" where
  "recall_events msg later =
     (case dropWhile (\<lambda>e. \<not> is_recall_of msg e) later of
        [] \<Rightarrow> []
      | action # rest \<Rightarrow>
          action # (case find (\<lambda>e. is_observation e \<and> ev_cause e = Some (ev_id action)) rest of
                      None \<Rightarrow> []
                    | Some ob \<Rightarrow> [ob]))"

text \<open>\<open>first\<close> is the first user message of the stream.\<close>

definition essential_events :: "event list \<Rightarrow> event \<Rightarrow> event list" where
  "essential_events history first =
     (case find is_system history of None \<Rightarrow> [] | Some e \<Rightarrow> [e]) @
     (case dropWhile (\<lambda>e. \<not> is_user_message e) history of
        [] \<Rightarrow> [first]
      | msg # later \<Rightarrow> msg # recall_events msg later)"

definition apply_conversation_window :: "event list \<Rightarrow> event option \<Rightarrow> event list result" where
  "apply_conversation_window history first =
     (case history of
        [] \<Rightarrow> Inr []
      | h # _ \<Rightarrow>
          if (case find is_system history of None \<Rightarrow> False | Some e \<Rightarrow> ev_id e \<noteq> ev_id h) then Inl (AssertionError [])
          else
            case first of
              None \<Rightarrow> Inl (RuntimeError ''No first user message found in the event stream.'')
            | Some msg \<Rightarrow>
                let essential = essential_events history msg;
                    recent_to_keep = max 1 ((int (length history) - int (length essential)) div 2);
                    slice = py_slice (Some (max 0 (int (length history) - recent_to_keep))) None history
                in Inr (essential @ dropWhile is_observation slice))"

definition forget_event :: "int list \<Rightarrow> event" where
  "forget_event ids =
     new_event (CondensationAction
       \<lparr>forgotten_event_ids = None,
        forgotten_events_start_id = Some (if ids = [] then 0 else Min (set ids)),
        forgotten_events_end_id = Some (if ids = [] then 0 else Max (set ids)),
        summary = None, summary_offset = None\<rparr>)"

text \<open>The event that is added to the stream.\<close>

definition handle_long_context_error :: "event list \<Rightarrow> event option \<Rightarrow> event result" where
  "handle_long_context_error history first =
     bind_result (apply_conversation_window history first) (\<lambda>kept_events.
       Inr (forget_event (filter (\<lambda>i. i \<notin> ev_id ` set kept_events) (map ev_id history))))"

section \<open>What is restored\<close>

text \<open>Delegations that do not nest: an action comes when none is open, an observation when one is.\<close>

fun flat_delegations :: "bool \<Rightarrow> event list \<Rightarrow> bool" where
  "flat_delegations busy [] = True"
| "flat_delegations busy (e # es) =
     (if is_delegate_action e then \<not> busy \<and> flat_delegations True es
      else if is_delegate_observation e then busy \<and> flat_delegations False es
      else flat_delegations busy es)"

text \<open>The events of the agent itself: what a finished delegate did is left out.\<close>

function top_level :: "event list \<Rightarrow> event list" where
  "top_level [] = []"
| "top_level (e # es) =
     e # (if is_delegate_action e \<and> (\<exists>x \<in> set es. is_delegate_observation x)
          then top_level (dropWhile (\<lambda>x. \<not> is_delegate_observation x) es) else top_level es)"
  by pat_completeness auto
termination
  by (relation "measure length") (auto simp: le_imp_less_Suc length_dropWhile_le)

lemma delegate_kinds: "is_delegate_observation e \<Longrightarrow> \<not> is_delegate_action e"
  by (auto simp: is_delegate_observation_def is_delegate_action_def split: payload.splits)

lemma flat_busy_split:
  assumes "flat_delegations True es"
  shows "(\<forall>x \<in> set es. \<not> is_delegate_action x \<and> \<not> is_delegate_observation x) \<or>
         (\<exists>m ob rest. es = m @ ob # rest \<and> (\<forall>x \<in> set m. \<not> is_delegate_action x \<and> \<not> is_delegate_observation x) \<and>
            is_delegate_observation ob \<and> flat_delegations False rest)"
  using assms
proof (induction es)
  case (Cons e es)
  show ?case
  proof (cases "is_delegate_observation e")
    case True
    with Cons.prems have "flat_delegations False es" by (simp add: delegate_kinds)
    with True show ?thesis by (intro disjI2 exI [of _ "[]"]) auto
  next
    case False
    with Cons have "\<not> is_delegate_action e" "flat_delegations True es" by (auto split: if_splits)
    then consider "\<forall>x \<in> set es. \<not> is_delegate_action x \<and> \<not> is_delegate_observation x"
      | m ob rest where "es = m @ ob # rest" "\<forall>x \<in> set m. \<not> is_delegate_action x \<and> \<not> is_delegate_observation x"
        "is_delegate_observation ob" "flat_delegations False rest"
      using Cons.IH by blast
    then show ?thesis
    proof cases
      case 1
      with False \<open>\<not> is_delegate_action e\<close> show ?thesis by simp
    next
      case 2
      with False \<open>\<not> is_delegate_action e\<close> show ?thesis by (intro disjI2 exI [of _ "e # m"]) auto
    qed
  qed
qed simp

lemma delegate_ranges_skip:
  "\<forall>x \<in> set m. \<not> is_delegate_action x \<and> \<not> is_delegate_observation x \<Longrightarrow>
   delegate_ranges (m @ es) stack = delegate_ranges es stack"
  by (induction m) auto

lemma delegate_ranges_ids:
  "(a, b) \<in> set (delegate_ranges es stack) \<Longrightarrow> a \<in> set stack \<union> ev_id ` set es \<and> b \<in> ev_id ` set es"
  by (induction es stack rule: delegate_ranges.induct) (auto split: if_splits list.splits)

text \<open>How the flat delegations unfold: the three shapes a list of events has.\<close>

lemma flat_induct [consumes 1, case_names Nil skip unfinished finished]:
  assumes "flat_delegations False es" and "P []"
    and "\<And>e es. \<not> is_delegate_action e \<Longrightarrow> \<not> is_delegate_observation e \<Longrightarrow> flat_delegations False es \<Longrightarrow> P es \<Longrightarrow> P (e # es)"
    and "\<And>e es. is_delegate_action e \<Longrightarrow>
           \<forall>x \<in> set es. \<not> is_delegate_action x \<and> \<not> is_delegate_observation x \<Longrightarrow> P (e # es)"
    and "\<And>e m ob es. is_delegate_action e \<Longrightarrow> is_delegate_observation ob \<Longrightarrow> flat_delegations False es \<Longrightarrow>
           \<forall>x \<in> set m. \<not> is_delegate_action x \<and> \<not> is_delegate_observation x \<Longrightarrow> P es \<Longrightarrow> P (e # m @ ob # es)"
  shows "P es"
  using assms(1)
proof (induction es rule: length_induct)
  case (1 es)
  show ?case
  proof (cases es)
    case (Cons e rest)
    show ?thesis
    proof (cases "is_delegate_action e")
      case True
      with 1 Cons have "flat_delegations True rest" by simp
      with flat_busy_split [OF this] 1 True Cons assms(4,5) show ?thesis by fastforce
    next
      case False
      with 1 Cons assms(3) show ?thesis by (auto split: if_splits)
    qed
  qed (simp add: assms(2))
qed

lemma top_level_none: "\<forall>x \<in> set es. \<not> is_delegate_action x \<and> \<not> is_delegate_observation x \<Longrightarrow> top_level es = es"
  by (induction es rule: top_level.induct) auto

lemma top_level_finished:
  "is_delegate_action e \<Longrightarrow> is_delegate_observation ob \<Longrightarrow>
   \<forall>x \<in> set m. \<not> is_delegate_action x \<and> \<not> is_delegate_observation x \<Longrightarrow> top_level (e # m @ ob # es) = e # ob # top_level es"
  by (simp add: delegate_kinds dropWhile_append2)

lemma filter_ranges_skip:
  assumes "\<forall>(a, b) \<in> set ranges. ev_id e < a"
  shows "filter_ranges (pre @ e # es) (length pre) ranges = e # filter_ranges (pre @ e # es) (Suc (length pre)) ranges"
  using assms by (cases ranges) auto

lemma growing_split:
  assumes "growing (pre @ e # m @ ob # es)"
  shows "filter (\<lambda>x. ev_id x < ev_id e) (e # m @ ob # es) = []"
    and "filter (\<lambda>x. ev_id x \<in> {ev_id e, ev_id ob}) (pre @ e # m @ ob # es) = [e, ob]"
    and "index_after (pre @ e # m @ ob # es) (ev_id ob) = length (pre @ e # m @ [ob])"
    and "ev_id e < ev_id ob"
proof -
  have g: "\<forall>x \<in> set pre. ev_id x < ev_id e \<and> ev_id x < ev_id ob" "\<forall>x \<in> set m. ev_id e < ev_id x \<and> ev_id x < ev_id ob"
    "\<forall>x \<in> set es. ev_id e < ev_id x \<and> ev_id ob < ev_id x" and o: "ev_id e < ev_id ob"
    using assms by (auto simp: growing_def sorted_wrt_append)
  then show "filter (\<lambda>x. ev_id x < ev_id e) (e # m @ ob # es) = []" "ev_id e < ev_id ob"
    by (auto simp: filter_empty_conv)
  have "filter (\<lambda>x. ev_id x \<in> {ev_id e, ev_id ob}) pre = []" "filter (\<lambda>x. ev_id x \<in> {ev_id e, ev_id ob}) m = []"
    "filter (\<lambda>x. ev_id x \<in> {ev_id e, ev_id ob}) es = []"
    using g by (auto simp: filter_empty_conv)
  then show "filter (\<lambda>x. ev_id x \<in> {ev_id e, ev_id ob}) (pre @ e # m @ ob # es) = [e, ob]" by simp
  have "takeWhile (\<lambda>x. ev_id x \<le> ev_id ob) ((pre @ e # m @ [ob]) @ es) = (pre @ e # m @ [ob]) @ takeWhile (\<lambda>x. ev_id x \<le> ev_id ob) es"
    using g o by (intro takeWhile_append2) auto
  moreover have "takeWhile (\<lambda>x. ev_id x \<le> ev_id ob) es = []" using g by (cases es) auto
  ultimately show "index_after (pre @ e # m @ ob # es) (ev_id ob) = length (pre @ e # m @ [ob])"
    by (simp add: index_after_def)
qed

lemma filter_ranges_top_level:
  assumes "flat_delegations False es" and "growing (pre @ es)"
  shows "filter_ranges (pre @ es) (length pre) (delegate_ranges es []) = top_level es"
  using assms
proof (induction es arbitrary: pre rule: flat_induct)
  case (skip e es)
  have "\<forall>(a, b) \<in> set (delegate_ranges es []). ev_id e < a"
    using delegate_ranges_ids [of _ _ es "[]"] skip.prems by (fastforce simp: growing_def sorted_wrt_append)
  with skip.IH [of "pre @ [e]"] skip.prems skip.hyps show ?case
    by (simp add: filter_ranges_skip)
next
  case (unfinished e es)
  then have "delegate_ranges es [ev_id e] = []" using delegate_ranges_skip [of es "[]"] by simp
  with unfinished show ?case by (simp add: top_level_none)
next
  case (finished e m ob es)
  have "filter_ranges (pre @ e # m @ ob # es) (length (pre @ e # m @ [ob])) (delegate_ranges es []) = top_level es"
    using finished.IH [of "pre @ e # m @ [ob]"] finished.prems by simp
  with finished growing_split [OF finished.prems] show ?case
    by (simp add: delegate_ranges_skip delegate_kinds top_level_finished)
qed simp

lemma delegate_ranges_sorted:
  assumes "flat_delegations False es" and "growing es"
  shows "sorted (delegate_ranges es [])"
  using assms
proof (induction es rule: flat_induct)
  case (unfinished e es)
  then have "delegate_ranges es [ev_id e] = []" using delegate_ranges_skip [of es "[]"] by simp
  with unfinished show ?case by simp
next
  case (finished e m ob es)
  have "ev_id e < a" if "(a, b) \<in> set (delegate_ranges es [])" for a b
    using delegate_ranges_ids [OF that] finished.prems by (auto simp: growing_def sorted_wrt_append)
  moreover have "growing es" using growing_appendD [of "e # m @ [ob]" es] finished.prems by simp
  ultimately show ?case using finished by (auto simp: delegate_ranges_skip delegate_kinds less_eq_prod_def)
qed (auto simp: growing_def)

lemma delegate_ranges_last:
  assumes "flat_delegations False es" and "delegate_ranges es [] \<noteq> []"
  shows "\<exists>pre e m ob post. es = pre @ e # m @ ob # post \<and> fst (last (delegate_ranges es [])) = ev_id e \<and>
           is_delegate_action e \<and> is_delegate_observation ob \<and> delegate_ranges post [] = [] \<and> flat_delegations False post \<and>
           (\<forall>x \<in> set m. \<not> is_delegate_action x \<and> \<not> is_delegate_observation x) \<and>
           top_level es = top_level pre @ e # ob # top_level post"
  using assms
proof (induction es rule: flat_induct)
  case (skip e es)
  then obtain pre e' m ob post where "es = pre @ e' # m @ ob # post" "fst (last (delegate_ranges es [])) = ev_id e'"
    "is_delegate_action e'" "is_delegate_observation ob" "delegate_ranges post [] = []" "flat_delegations False post"
    "\<forall>x \<in> set m. \<not> is_delegate_action x \<and> \<not> is_delegate_observation x"
    "top_level es = top_level pre @ e' # ob # top_level post" by auto
  with skip.hyps show ?case by (intro exI [of _ "e # pre"] exI [of _ e'] exI [of _ m] exI [of _ ob] exI [of _ post]) simp
next
  case (unfinished e es)
  then show ?case using delegate_ranges_skip [of es "[]"] by simp
next
  case (finished e m ob es)
  show ?case
  proof (cases "delegate_ranges es [] = []")
    case True
    with finished show ?thesis
      by (intro exI [of _ "[]"] exI [of _ e] exI [of _ m] exI [of _ ob] exI [of _ es])
        (simp add: delegate_ranges_skip delegate_kinds top_level_finished del: top_level.simps(2))
  next
    case False
    then obtain pre e' m' ob' post where "es = pre @ e' # m' @ ob' # post" "fst (last (delegate_ranges es [])) = ev_id e'"
      "is_delegate_action e'" "is_delegate_observation ob'" "delegate_ranges post [] = []" "flat_delegations False post"
      "\<forall>x \<in> set m'. \<not> is_delegate_action x \<and> \<not> is_delegate_observation x"
      "top_level es = top_level pre @ e' # ob' # top_level post" using finished.IH by auto
    with finished.hyps False show ?thesis
      by (intro exI [of _ "e # m @ ob # pre"] exI [of _ e'] exI [of _ m'] exI [of _ ob'] exI [of _ post])
        (simp add: delegate_ranges_skip delegate_kinds top_level_finished del: top_level.simps(2))
  qed
qed simp

text \<open>The events of a stream the filter lets through, in a range.\<close>

definition events_between :: "event list \<Rightarrow> int \<Rightarrow> int \<Rightarrow> event list" where
  "events_between es a b = filter (\<lambda>e. a \<le> ev_id e \<and> ev_id e \<le> b) es"

lemma init_history_flat:
  assumes "growing (search (max start 0) stop)" and "flat_delegations False (search (max start 0) stop)"
    and "max start 0 \<le> stop + 1" and "stop = (if end_id \<ge> 0 then end_id else latest)"
  shows "init_history search latest start end_id =
           (top_level (search (max start 0) stop),
            if delegate_ranges (search (max start 0) stop) [] = [] then max start 0
            else fst (last (delegate_ranges (search (max start 0) stop) [])))"
proof -
  define es where "es = search (max start 0) stop"
  have s: "(if start \<ge> 0 then start else 0) = max start 0" by simp
  have "sort (delegate_ranges es []) = delegate_ranges es []"
    using delegate_ranges_sorted assms(1,2) by (simp add: es_def sorted_sort_id)
  moreover have "filter_ranges es 0 (delegate_ranges es []) = top_level es"
    using filter_ranges_top_level [of es "[]"] assms(1,2) by (simp add: es_def)
  ultimately show ?thesis
    using assms(3,4) unfolding init_history_def s Let_def es_def [symmetric] assms(4) [symmetric] by auto
qed

lemma events_between_all:
  "growing es \<Longrightarrow> \<forall>e \<in> set es. ev_id e \<le> latest \<Longrightarrow> events_between es 0 latest = es"
  by (auto simp: events_between_def growing_def intro!: filter_True)

lemma events_between_from:
  assumes "growing (pre @ e # post)" and "\<forall>x \<in> set (pre @ e # post). ev_id x \<le> latest"
  shows "events_between (pre @ e # post) (ev_id e) latest = e # post"
proof -
  have "filter (\<lambda>x. ev_id e \<le> ev_id x \<and> ev_id x \<le> latest) pre = []"
    using assms(1) by (auto simp: growing_def sorted_wrt_append filter_empty_conv)
  moreover have "filter (\<lambda>x. ev_id e \<le> ev_id x \<and> ev_id x \<le> latest) post = post"
    using assms by (auto simp: growing_def sorted_wrt_append intro!: filter_True)
  ultimately show ?thesis using assms(2) by (simp add: events_between_def)
qed


definition demo_delegation :: "event list" where
  "demo_delegation =
     [demo_thought 0,
      (new_event (AgentDelegateAction ''a'' [] []))\<lparr>ev_id := 1\<rparr>, demo_thought 2,
      (new_event (AgentDelegateObservation [] []))\<lparr>ev_id := 3\<rparr>, demo_thought 4]"

lemma demo_kinds [simp]:
  "\<not> is_delegate_action (demo_thought i)" "\<not> is_delegate_observation (demo_thought i)"
  "is_delegate_action ((new_event (AgentDelegateAction a b c))\<lparr>ev_id := i\<rparr>)"
  "is_delegate_observation ((new_event (AgentDelegateObservation x y))\<lparr>ev_id := i\<rparr>)"
  "\<not> is_delegate_action ((new_event (AgentDelegateObservation x y))\<lparr>ev_id := i\<rparr>)"
  by (simp_all add: demo_thought_def is_delegate_action_def is_delegate_observation_def new_event_def)


text \<open>When delegates delegate in turn, the events of the inner delegation come back, some of them twice.\<close>

definition nested_delegation :: "event list" where
  "nested_delegation =
     [(new_event (AgentDelegateAction ''a'' [] []))\<lparr>ev_id := 0\<rparr>,
      (new_event (AgentDelegateAction ''b'' [] []))\<lparr>ev_id := 1\<rparr>, demo_thought 2,
      (new_event (AgentDelegateObservation [] []))\<lparr>ev_id := 3\<rparr>, demo_thought 4,
      (new_event (AgentDelegateObservation [] []))\<lparr>ev_id := 5\<rparr>, demo_thought 6]"

lemma nested_delegation_duplicates:
  "map ev_id (fst (init_history (events_between nested_delegation) 6 (- 1) (- 1))) = [0, 5, 1, 3, 4, 5, 6]"
  by (simp add: nested_delegation_def init_history_def events_between_def index_after_def less_eq_prod_def)

section \<open>What the conversation window keeps\<close>

text \<open>The newer half of the events after the essential ones, without leading observations.\<close>

definition recent :: "event list \<Rightarrow> event list" where
  "recent rest = dropWhile is_observation (drop (length rest - max 1 (length rest div 2)) rest)"

lemma recent_suffix: "\<exists>M. rest = M @ recent rest"
proof -
  define d where "d = drop (length rest - max 1 (length rest div 2)) rest"
  have "rest = take (length rest - max 1 (length rest div 2)) rest @ d" by (simp add: d_def)
  moreover have "d = takeWhile is_observation d @ dropWhile is_observation d" by simp
  ultimately have "rest = (take (length rest - max 1 (length rest div 2)) rest @ takeWhile is_observation d) @ recent rest"
    by (simp add: recent_def d_def)
  then show ?thesis by blast
qed

lemma recent_all: "recent rest = rest \<longleftrightarrow> length rest \<le> 1 \<and> (\<forall>x \<in> set rest. \<not> is_observation x)"
proof (cases "length rest \<le> 1")
  case True
  then show ?thesis by (cases rest) (auto simp: recent_def)
next
  case False
  have "length (recent rest) \<le> max 1 (length rest div 2)"
    unfolding recent_def by (rule order_trans [OF length_dropWhile_le]) simp
  also have "\<dots> < length rest" using False by auto
  finally show ?thesis using False by auto
qed

lemma essential_events_not_Nil [simp]: "essential_events h first \<noteq> []"
  by (simp add: essential_events_def split: list.split)

lemma window_prefix:
  assumes "essential_events h first = E" and "h = E @ rest" and "find is_system h \<in> {None, Some (hd h)}"
  shows "apply_conversation_window h (Some first) = Inr (E @ (if rest = [] then dropWhile is_observation [last E] else recent rest))"
proof -
  have e: "E \<noteq> []" using assms(1) essential_events_not_Nil by blast
  then obtain x h' where h: "h = x # h'" using assms(2) by (metis append_is_Nil_conv list.exhaust)
  have r: "max 1 ((int (length h) - int (length E)) div 2) = int (max 1 (length rest div 2))"
    using assms(2) by (simp add: zdiv_int)
  have k: "max 0 (int (length h) - int (max 1 (length rest div 2))) = int (length h - max 1 (length rest div 2))"
    by simp
  have "apply_conversation_window h (Some first) =
      Inr (E @ dropWhile is_observation
        (py_slice (Some (max 0 (int (length h) - max 1 ((int (length h) - int (length E)) div 2)))) None h))"
    using assms(1,3) h by (auto simp: apply_conversation_window_def Let_def)
  then have "apply_conversation_window h (Some first) =
      Inr (E @ dropWhile is_observation (drop (length h - max 1 (length rest div 2)) h))"
    unfolding r k py_slice_drop .
  moreover have "drop (length h - max 1 (length rest div 2)) h =
      (if rest = [] then [last E] else drop (length rest - max 1 (length rest div 2)) rest)"
  proof (cases rest)
    case Nil
    then have "h = butlast E @ [last E]" using assms(2) e by simp
    with Nil show ?thesis by simp
  next
    case (Cons y ys)
    then have "max 1 (length rest div 2) \<le> length rest" by auto
    then have "length h - max 1 (length rest div 2) = length E + (length rest - max 1 (length rest div 2))"
      using assms(2) by simp
    with assms(2) Cons show ?thesis by simp
  qed
  ultimately show ?thesis by (auto simp: recent_def)
qed

lemma forgotten_by_window:
  assumes "essential_events h first = E" and "h = E @ M @ recent rest" and "rest = M @ recent rest"
    and "find is_system h \<in> {None, Some (hd h)}" and "growing h"
  shows "handle_long_context_error h (Some first) = Inr (forget_event (map ev_id M))"
proof -
  have e: "E \<noteq> []" using assms(1) essential_events_not_Nil by blast
  have h: "h = E @ rest" using assms(2,3) by simp
  define K where "K = E @ (if rest = [] then dropWhile is_observation [last E] else recent rest)"
  have K: "set K = set E \<union> set (recent rest)" using e assms(3) by (auto simp: K_def recent_def)
  have d: "distinct (map ev_id (E @ M @ recent rest))" using assms(2,5) growing_distinct by blast
  have "filter (\<lambda>i. i \<notin> ev_id ` set K) (map ev_id (E @ M @ recent rest)) = map ev_id M"
  proof -
    have "filter (\<lambda>i. i \<notin> ev_id ` set K) (map ev_id E) = []" "filter (\<lambda>i. i \<notin> ev_id ` set K) (map ev_id (recent rest)) = []"
      by (auto simp: filter_empty_conv K)
    moreover have "filter (\<lambda>i. i \<notin> ev_id ` set K) (map ev_id M) = map ev_id M"
      using d by (intro filter_True) (auto simp: K)
    ultimately show ?thesis by simp
  qed
  then show ?thesis
    using window_prefix [OF assms(1) h assms(4)] assms(2) by (simp add: handle_long_context_error_def K_def [symmetric] image_iff)
qed

lemma forgets_window:
  assumes "growing h" and "h = E @ M @ K" and "ev_payload e = ev_payload (forget_event (map ev_id M))" and "h \<noteq> []"
  shows "carries e (\<lparr>forgotten_event_ids = None,
            forgotten_events_start_id = Some (if M = [] then 0 else ev_id (hd M)),
            forgotten_events_end_id = Some (if M = [] then 0 else ev_id (last M)), summary = None, summary_offset = None\<rparr>)"
    and "forgets [e] = (if M = [] then {0} else {ev_id (hd M)..ev_id (last M)})"
    and "\<And>i. i \<in> forgets [e] \<Longrightarrow> \<exists>x \<in> set h. i \<le> ev_id x"
proof -
  have b: "M \<noteq> [] \<Longrightarrow> Min (ev_id ` set M) = ev_id (hd M) \<and> Max (ev_id ` set M) = ev_id (last M)"
  proof -
    assume "M \<noteq> []"
    moreover have "growing M" using assms(1,2) growing_appendD by blast
    ultimately show ?thesis using growing_bounds [of M] by (auto intro!: Min_eqI Max_eqI)
  qed
  then show c: "carries e (\<lparr>forgotten_event_ids = None,
            forgotten_events_start_id = Some (if M = [] then 0 else ev_id (hd M)),
            forgotten_events_end_id = Some (if M = [] then 0 else ev_id (last M)), summary = None, summary_offset = None\<rparr>)"
    using assms(3) by (simp add: carries_def forget_event_def new_event_def)
  show f: "forgets [e] = (if M = [] then {0} else {ev_id (hd M)..ev_id (last M)})"
    using forgets_range [OF c] by (simp add: validate_field_polymorphism_def)
  show "\<exists>x \<in> set h. i \<le> ev_id x" if "i \<in> forgets [e]" for i
  proof (cases "M = []")
    case True
    with that f assms(1,4) show ?thesis by (cases h) (auto simp: growing_def)
  next
    case False
    with that f assms(2) show ?thesis by (intro bexI [of _ "last M"]) auto
  qed
qed


definition demo_system :: event where
  "demo_system = (new_event (SystemMessageAction ''s'' None None None))\<lparr>ev_id := 0\<rparr>"

definition demo_message :: event where
  "demo_message = (new_event (MessageAction ''m'' None False None))\<lparr>ev_id := 1, ev_source := Some USER\<rparr>"

definition demo_window :: "event list" where
  "demo_window = [demo_system, demo_message, demo_thought 2]"

lemma demo_window_simps [simp]:
  "is_system demo_system" "is_user_message demo_message" "\<not> is_user_message demo_system"
  "\<not> is_recall_of demo_message (demo_thought i)" "ev_id demo_system = 0" "ev_id demo_message = 1"
  "condensation_of demo_system = None" "condensation_of demo_message = None" "\<not> is_observation (demo_thought i)"
  by (simp_all add: demo_system_def demo_message_def demo_thought_def is_system_def is_user_message_def is_recall_of_def
      is_message_def is_observation_def condensation_of_def new_event_def)

lemma demo_window_base:
  "base_history demo_window" "no_summaries demo_window" "kept demo_window = demo_window"
  "essential_events demo_window first = [demo_system, demo_message]"
  by (simp_all add: demo_window_def base_history_def growing_def no_summaries_def kept_def forgets_Cons
      essential_events_def recall_events_def)


end
