(* ===== verification/Controller.thy ===== *)
theory Controller
  imports ControllerHistory Metrics Replay Stuck EventStream
begin

text \<open>
  \<^verbatim>\<open>openhands/controller/agent_controller.py\<close>: the controller of an agent. It receives the events of the stream
  one after the other, keeps the state of the agent and lets it take steps; a delegate is a second
  controller that is handed the events while it runs.

  A controller with its delegate, the delegate of that one and so on are the list \<open>wd_self\<close>,
  \<open>wd_delegates\<close>. All of them share the stream and the metrics of the task, which are objects of
  the first; so these are fields of the world. An operation maps a world to a world and a value or
  an exception; the changes made before an exception stay. The stream, the agent with its language
  model and the class hierarchy of the exceptions are arguments.
\<close>

section \<open>Operations that may raise\<close>

record exn =
  ex_class :: string
  ex_text :: string

type_synonym ('w, 'x) op = "'w \<Rightarrow> 'w \<times> (exn + 'x)"

definition give :: "'x \<Rightarrow> ('w, 'x) op" where
  "give x w = (w, Inr x)"

definition raise :: "exn \<Rightarrow> ('w, 'x) op" where
  "raise e w = (w, Inl e)"

definition modify :: "('w \<Rightarrow> 'w) \<Rightarrow> ('w, unit) op" where
  "modify f w = (f w, Inr ())"

definition and_then :: "('w, 'x) op \<Rightarrow> ('x \<Rightarrow> ('w, 'y) op) \<Rightarrow> ('w, 'y) op" where
  "and_then m f w = (case m w of (w', Inl e) \<Rightarrow> (w', Inl e) | (w', Inr x) \<Rightarrow> f x w')"

definition catch :: "('w, 'x) op \<Rightarrow> (exn \<Rightarrow> ('w, 'x) op) \<Rightarrow> ('w, 'x) op" where
  "catch m h w = (case m w of (w', Inl e) \<Rightarrow> h e w' | (w', Inr x) \<Rightarrow> (w', Inr x))"

definition exn_of :: "py_error \<Rightarrow> exn" where
  "exn_of e =
     (case e of
        ValueError m \<Rightarrow> \<lparr>ex_class = ''ValueError'', ex_text = m\<rparr>
      | KeyError m \<Rightarrow> \<lparr>ex_class = ''KeyError'', ex_text = m\<rparr>
      | IndexError \<Rightarrow> \<lparr>ex_class = ''IndexError'', ex_text = []\<rparr>
      | AttributeError m \<Rightarrow> \<lparr>ex_class = ''AttributeError'', ex_text = m\<rparr>
      | TypeError m \<Rightarrow> \<lparr>ex_class = ''TypeError'', ex_text = m\<rparr>
      | RuntimeError m \<Rightarrow> \<lparr>ex_class = ''RuntimeError'', ex_text = m\<rparr>
      | AssertionError m \<Rightarrow> \<lparr>ex_class = ''AssertionError'', ex_text = m\<rparr>
      | FileNotFoundError m \<Rightarrow> \<lparr>ex_class = ''FileNotFoundError'', ex_text = m\<rparr>
      | FunctionNotRegisteredError m \<Rightarrow> \<lparr>ex_class = ''FunctionNotRegisteredError'', ex_text = m\<rparr>
      | TimeoutError m \<Rightarrow> \<lparr>ex_class = ''TimeoutError'', ex_text = m\<rparr>
      | OtherException m \<Rightarrow> \<lparr>ex_class = ''Exception'', ex_text = m\<rparr>)"

section \<open>State\<close>

text \<open>
  The states of an agent are an enumeration of strings; an action that changes the state carries
  any string.
\<close>

abbreviation LOADING :: string where "LOADING \<equiv> ''loading''"
abbreviation RUNNING :: string where "RUNNING \<equiv> ''running''"
abbreviation AWAITING_USER_INPUT :: string where "AWAITING_USER_INPUT \<equiv> ''awaiting_user_input''"
abbreviation PAUSED :: string where "PAUSED \<equiv> ''paused''"
abbreviation STOPPED :: string where "STOPPED \<equiv> ''stopped''"
abbreviation FINISHED :: string where "FINISHED \<equiv> ''finished''"
abbreviation REJECTED :: string where "REJECTED \<equiv> ''rejected''"
abbreviation ERROR :: string where "ERROR \<equiv> ''error''"
abbreviation AWAITING_USER_CONFIRMATION :: string where "AWAITING_USER_CONFIRMATION \<equiv> ''awaiting_user_confirmation''"
abbreviation USER_CONFIRMED :: string where "USER_CONFIRMED \<equiv> ''user_confirmed''"
abbreviation USER_REJECTED :: string where "USER_REJECTED \<equiv> ''user_rejected''"
abbreviation RATE_LIMITED :: string where "RATE_LIMITED \<equiv> ''rate_limited''"

datatype traffic_control_state = TC_NORMAL | TC_THROTTLING | TC_PAUSED

text \<open>The fields of \<open>State\<close> but \<open>metrics\<close>, and \<open>resume_state\<close> and \<open>delegates\<close>, which nothing reads.\<close>

record ctl_state =
  cs_session_id :: string
  cs_iteration :: int
  cs_local_iteration :: int
  cs_max_iterations :: int
  cs_confirmation_mode :: bool
  cs_history :: "event list"
  cs_inputs :: jdict
  cs_outputs :: jdict
  cs_agent_state :: string
  cs_traffic :: traffic_control_state
  cs_local_metrics :: metrics
  cs_delegate_level :: int
  cs_start_id :: int
  cs_end_id :: int
  cs_extra_data :: jdict
  cs_last_error :: string

definition new_ctl_state :: "string \<Rightarrow> ctl_state" where
  "new_ctl_state session_id =
     \<lparr>cs_session_id = session_id, cs_iteration = 0, cs_local_iteration = 0, cs_max_iterations = 100,
      cs_confirmation_mode = False, cs_history = [], cs_inputs = [], cs_outputs = [], cs_agent_state = LOADING,
      cs_traffic = TC_NORMAL, cs_local_metrics = new_metrics ''default'', cs_delegate_level = 0, cs_start_id = - 1,
      cs_end_id = - 1, cs_extra_data = [], cs_last_error = []\<rparr>"

text \<open>The pending action is kept without the time at which it was set, which only the log uses.\<close>

record 'a controller =
  ct_id :: string
  ct_agent :: 'a
  ct_headless_mode :: bool
  ct_is_delegate :: bool
  ct_state :: ctl_state
  ct_max_budget_per_task :: "real option"
  ct_initial_max_iterations :: int
  ct_initial_max_budget_per_task :: "real option"
  ct_status_callback :: bool
  ct_replay_manager :: replay_manager
  ct_pending_action :: "event option"
  ct_closed :: bool
  ct_first_user_message :: "event option"

text \<open>\<open>wd_status\<close> are the calls of the status callback.\<close>

record ('s, 'a) world =
  wd_stream :: 's
  wd_metrics :: metrics
  wd_status :: "(string \<times> string \<times> string) list"
  wd_self :: "'a controller"
  wd_delegates :: "'a controller list"

section \<open>What the controller calls\<close>

text \<open>
  The stream: adding returns the caller's event with the identifier it has got; the events of a
  search come with the exception that ended it, if any.
\<close>

record 's stream_ops =
  so_add :: "event \<Rightarrow> event_source \<Rightarrow> 's \<Rightarrow> 's \<times> event \<times> (exn + unit)"
  so_latest :: "'s \<Rightarrow> int"
  so_events :: "int \<Rightarrow> bool \<Rightarrow> 's \<Rightarrow> event list \<times> exn option"
  so_search :: "int \<Rightarrow> int \<Rightarrow> event_filter \<Rightarrow> 's \<Rightarrow> event list \<times> exn option"
  so_subscribe :: "string \<Rightarrow> 's \<Rightarrow> 's \<times> (exn + unit)"
  so_unsubscribe :: "string \<Rightarrow> 's \<Rightarrow> 's"

text \<open>
  The agent with its language model: \<open>ag_step\<close> reads the state and may change the extra data of
  the state; \<open>ag_delegate name\<close> creates the agent of that name with the configurations the
  parent has for it.
\<close>

record 'a agent_ops =
  ag_name :: "'a \<Rightarrow> string"
  ag_step :: "ctl_state \<Rightarrow> 'a \<Rightarrow> 'a \<times> jdict \<times> (exn + event option)"
  ag_reset :: "'a \<Rightarrow> 'a"
  ag_metrics :: "'a \<Rightarrow> metrics"
  ag_set_metrics :: "metrics \<Rightarrow> 'a \<Rightarrow> 'a"
  ag_condenser_metrics :: "'a \<Rightarrow> metrics option"
  ag_system_message :: "'a \<Rightarrow> event option"
  ag_delegate :: "string \<Rightarrow> 'a \<Rightarrow> exn + 'a"
  ag_strict_loop_detector :: "'a \<Rightarrow> bool"
  ag_enable_history_truncation :: "'a \<Rightarrow> bool"

text \<open>\<open>en_isa c d\<close>: the class \<open>c\<close> is \<open>d\<close> or a subclass of it.\<close>

record ('s, 'a) env =
  en_stream :: "'s stream_ops"
  en_agent :: "'a agent_ops"
  en_isa :: "string \<Rightarrow> string \<Rightarrow> bool"
  en_lower :: "string \<Rightarrow> string"
  en_two_decimals :: "real \<Rightarrow> string"
  en_render :: "json \<Rightarrow> string"

definition isa :: "('s, 'a) env \<Rightarrow> exn \<Rightarrow> string list \<Rightarrow> bool" where
  "isa E e classes = list_ex (en_isa E (ex_class e)) classes"

section \<open>Access to the world\<close>

abbreviation state_of :: "('s, 'a) world \<Rightarrow> ctl_state" where
  "state_of w \<equiv> ct_state (wd_self w)"

definition upd_self :: "('a controller \<Rightarrow> 'a controller) \<Rightarrow> ('s, 'a) world \<Rightarrow> ('s, 'a) world" where
  "upd_self f w = w\<lparr>wd_self := f (wd_self w)\<rparr>"

definition upd_state :: "(ctl_state \<Rightarrow> ctl_state) \<Rightarrow> ('s, 'a) world \<Rightarrow> ('s, 'a) world" where
  "upd_state f = upd_self (\<lambda>c. c\<lparr>ct_state := f (ct_state c)\<rparr>)"

definition get_agent_state :: "('s, 'a) world \<Rightarrow> string" where
  "get_agent_state w = cs_agent_state (state_of w)"

definition set_pending_action :: "event option \<Rightarrow> ('s, 'a) world \<Rightarrow> ('s, 'a) world" where
  "set_pending_action a = upd_self (\<lambda>c. c\<lparr>ct_pending_action := a\<rparr>)"

text \<open>An operation of the delegate.\<close>

definition on_delegate :: "(('s, 'a) world, 'x) op \<Rightarrow> (('s, 'a) world, 'x) op" where
  "on_delegate f w =
     (case wd_delegates w of
        [] \<Rightarrow> (w, Inl (exn_of (AttributeError ''delegate'')))
      | d # ds \<Rightarrow>
          (case f (w\<lparr>wd_self := d, wd_delegates := ds\<rparr>) of
             (w', r) \<Rightarrow> (w'\<lparr>wd_self := wd_self w, wd_delegates := wd_self w' # wd_delegates w'\<rparr>, r)))"

text \<open>Adding an event; the caller's object has the identifier afterwards, also when adding fails.\<close>

definition stream_add :: "('s, 'a) env \<Rightarrow> event \<Rightarrow> event_source \<Rightarrow> (('s, 'a) world, unit) op" where
  "stream_add E e source w =
     (case so_add (en_stream E) e source (wd_stream w) of (s, _, r) \<Rightarrow> (w\<lparr>wd_stream := s\<rparr>, r))"

definition stream_add_pending :: "('s, 'a) env \<Rightarrow> event \<Rightarrow> event_source \<Rightarrow> (('s, 'a) world, unit) op" where
  "stream_add_pending E e source w =
     (case so_add (en_stream E) e source (wd_stream w) of
        (s, e', r) \<Rightarrow> (set_pending_action (Some e') (w\<lparr>wd_stream := s\<rparr>), r))"

text \<open>The first event of a search that satisfies \<open>P\<close>; the search goes no further.\<close>

definition first_in_stream ::
  "('s, 'a) env \<Rightarrow> int \<Rightarrow> bool \<Rightarrow> (event \<Rightarrow> bool) \<Rightarrow> (('s, 'a) world, event option) op" where
  "first_in_stream E start_id reverse P w =
     (case so_events (en_stream E) start_id reverse (wd_stream w) of
        (es, er) \<Rightarrow>
          (case (find P es, er) of
             (Some e, _) \<Rightarrow> give (Some e) w
           | (None, None) \<Rightarrow> give None w
           | (None, Some e) \<Rightarrow> raise e w))"

section \<open>Metrics\<close>

definition update_state_before_step :: "('s, 'a) world \<Rightarrow> ('s, 'a) world" where
  "update_state_before_step =
     upd_state (\<lambda>s. s\<lparr>cs_iteration := cs_iteration s + 1, cs_local_iteration := cs_local_iteration s + 1\<rparr>)"

definition update_state_after_step :: "('s, 'a) env \<Rightarrow> ('s, 'a) world \<Rightarrow> ('s, 'a) world" where
  "update_state_after_step E w = upd_state (\<lambda>s. s\<lparr>cs_local_metrics := ag_metrics (en_agent E) (ct_agent (wd_self w))\<rparr>) w"

definition merge_local_metrics :: "('s, 'a) world \<Rightarrow> ('s, 'a) world" where
  "merge_local_metrics w = w\<lparr>wd_metrics := merge_metrics (wd_metrics w) (cs_local_metrics (state_of w))\<rparr>"

text \<open>The metrics an action carries to the front end.\<close>

definition frontend_metrics :: "('s, 'a) env \<Rightarrow> 'a \<Rightarrow> metrics" where
  "frontend_metrics E agent =
     (let am = ag_metrics (en_agent E) agent;
          m = (new_metrics (mt_model_name am))
                \<lparr>mt_accumulated_cost := mt_accumulated_cost am, mt_accumulated_token_usage := mt_accumulated_token_usage am\<rparr>
      in case ag_condenser_metrics (en_agent E) agent of
           None \<Rightarrow> m
         | Some cm \<Rightarrow>
             m\<lparr>mt_accumulated_cost := mt_accumulated_cost m + mt_accumulated_cost cm,
               mt_accumulated_token_usage := add_usage (mt_accumulated_token_usage m) (mt_accumulated_token_usage cm)\<rparr>)"

definition prepare_metrics_for_frontend :: "('s, 'a) env \<Rightarrow> 'a \<Rightarrow> event \<Rightarrow> event" where
  "prepare_metrics_for_frontend E agent action =
     action\<lparr>ev_llm_metrics := Some (JObj (get_metrics (frontend_metrics E agent)))\<rparr>"

section \<open>Classes of actions\<close>

text \<open>The class variable \<open>runnable\<close>.\<close>

fun runnable_payload :: "payload \<Rightarrow> bool" where
  "runnable_payload (BrowseURLAction _ _ _) = True"
| "runnable_payload (BrowseInteractiveAction _ _ _ _) = True"
| "runnable_payload (CmdRunAction _ _ _ _ _ _ _ _ _) = True"
| "runnable_payload (IPythonRunCellAction _ _ _ _ _ _) = True"
| "runnable_payload (FileReadAction _ _ _ _ _ _ _) = True"
| "runnable_payload (FileWriteAction _ _ _ _ _ _) = True"
| "runnable_payload (FileEditAction _ _ _ _ _ _ _ _ _ _ _ _) = True"
| "runnable_payload (MCPAction _ _ _ _) = True"
| "runnable_payload _ = False"

definition confirmation_state :: "event \<Rightarrow> string option" where
  "confirmation_state e =
     (case ev_payload e of
        CmdRunAction _ _ _ _ _ _ _ c _ \<Rightarrow> Some c
      | IPythonRunCellAction _ _ _ c _ _ \<Rightarrow> Some c
      | _ \<Rightarrow> None)"

definition set_confirmation_state :: "string \<Rightarrow> event \<Rightarrow> event" where
  "set_confirmation_state c e =
     (case ev_payload e of
        CmdRunAction command is_input thought blocking is_static cwd h _ risk \<Rightarrow>
          e\<lparr>ev_payload := CmdRunAction command is_input thought blocking is_static cwd h c risk\<rparr>
      | IPythonRunCellAction code thought extra _ risk init_code \<Rightarrow>
          e\<lparr>ev_payload := IPythonRunCellAction code thought extra c risk init_code\<rparr>
      | _ \<Rightarrow> e)"

text \<open>The field \<open>thought\<close>, where the class of the action has it, made empty.\<close>

fun no_thought :: "payload \<Rightarrow> payload" where
  "no_thought (BrowseURLAction url thought risk) = BrowseURLAction url [] risk"
| "no_thought (BrowseInteractiveAction acts thought msg risk) = BrowseInteractiveAction acts [] msg risk"
| "no_thought (CmdRunAction c i thought b st cwd h conf risk) = CmdRunAction c i [] b st cwd h conf risk"
| "no_thought (IPythonRunCellAction code thought x conf risk k) = IPythonRunCellAction code [] x conf risk k"
| "no_thought (FileReadAction path a b thought risk src vr) = FileReadAction path a b [] risk src vr"
| "no_thought (FileWriteAction path content a b thought risk) = FileWriteAction path content a b [] risk"
| "no_thought (FileEditAction path cmd ft old new line content a b thought risk src) =
     FileEditAction path cmd ft old new line content a b [] risk src"
| "no_thought (MCPAction name args thought risk) = MCPAction name args [] risk"
| "no_thought (ChangeAgentStateAction st thought) = ChangeAgentStateAction st []"
| "no_thought (AgentFinishAction ft completed outs thought) = AgentFinishAction ft completed outs []"
| "no_thought (AgentThinkAction thought) = AgentThinkAction []"
| "no_thought (AgentRejectAction outs thought) = AgentRejectAction outs []"
| "no_thought (AgentDelegateAction agent inputs thought) = AgentDelegateAction agent inputs []"
| "no_thought (RecallAction t q thought) = RecallAction t q []"
| "no_thought p = p"

section \<open>Changes of state\<close>

definition ERROR_ACTION_NOT_EXECUTED_ID :: string where
  "ERROR_ACTION_NOT_EXECUTED_ID = ''AGENT_ERROR$ERROR_ACTION_NOT_EXECUTED''"

definition ERROR_ACTION_NOT_EXECUTED :: string where
  "ERROR_ACTION_NOT_EXECUTED =
     ''The action has not been executed. This may have occurred because the user pressed the stop button, or because the runtime system crashed and restarted due to resource constraints. Any previously established system state, dependencies, or environment variables may have been lost.''"

definition not_executed :: "event \<Rightarrow> event" where
  "not_executed a =
     (new_event (ErrorObservation ERROR_ACTION_NOT_EXECUTED ERROR_ACTION_NOT_EXECUTED_ID))
       \<lparr>ev_tool_call := ev_tool_call a, ev_cause := Some (ev_id a)\<rparr>"

text \<open>\<open>tool_call_metadata\<close> is a property of every event, so that the test for it holds of every action.\<close>

definition reset :: "('s, 'a) env \<Rightarrow> (('s, 'a) world, unit) op" where
  "reset E w =
     and_then
       (\<lambda>w. case ct_pending_action (wd_self w) of
              None \<Rightarrow> give () w
            | Some a \<Rightarrow>
                if list_ex (\<lambda>e. is_observation e \<and> ev_tool_call e = ev_tool_call a) (cs_history (state_of w)) then give () w
                else stream_add E (not_executed a) AGENT w)
       (\<lambda>_. modify (\<lambda>w. upd_self (\<lambda>c. c\<lparr>ct_pending_action := None, ct_agent := ag_reset (en_agent E) (ct_agent c)\<rparr>) w)) w"

definition resume_limits :: "('s, 'a) world \<Rightarrow> ('s, 'a) world" where
  "resume_limits w =
     (let w1 = upd_state (\<lambda>s. s\<lparr>cs_traffic := TC_PAUSED\<rparr>) w;
          w2 = (if \<not> ct_headless_mode (wd_self w1) \<and> cs_iteration (state_of w1) \<ge> cs_max_iterations (state_of w1)
                then upd_state (\<lambda>s. s\<lparr>cs_max_iterations := cs_max_iterations s + ct_initial_max_iterations (wd_self w1)\<rparr>) w1
                else w1)
      in case (ct_max_budget_per_task (wd_self w2), ct_initial_max_budget_per_task (wd_self w2)) of
           (Some b, Some i) \<Rightarrow>
             if mt_accumulated_cost (wd_metrics w2) \<ge> b
             then upd_self (\<lambda>c. c\<lparr>ct_max_budget_per_task := Some (b + i)\<rparr>) w2 else w2
         | _ \<Rightarrow> w2)"

definition decided :: "string \<Rightarrow> event \<Rightarrow> event" where
  "decided target a =
     (set_confirmation_state (if target = USER_CONFIRMED then ''confirmed'' else ''rejected'')
        (a\<lparr>ev_payload := no_thought (ev_payload a)\<rparr>))\<lparr>ev_id := INVALID_ID\<rparr>"

text \<open>The side effects of a change of state, and the change itself with its observation.\<close>

definition state_effects :: "('s, 'a) env \<Rightarrow> string \<Rightarrow> (('s, 'a) world, unit) op" where
  "state_effects E target w =
     (if target \<in> {STOPPED, ERROR} then reset E (merge_local_metrics (update_state_after_step E w))
      else if target = RUNNING \<and> get_agent_state w = PAUSED \<and> cs_traffic (state_of w) = TC_THROTTLING
      then give () (resume_limits w)
      else
        case ct_pending_action (wd_self w) of
          None \<Rightarrow> give () w
        | Some a \<Rightarrow>
            if target \<in> {USER_CONFIRMED, USER_REJECTED} then stream_add_pending E (decided target a) AGENT w
            else give () w)"

definition enter_state :: "('s, 'a) env \<Rightarrow> string \<Rightarrow> (('s, 'a) world, unit) op" where
  "enter_state E target w =
     (let w1 = upd_state (\<lambda>s. s\<lparr>cs_agent_state := target\<rparr>) w;
          reason = (if target = ERROR then cs_last_error (state_of w1) else [])
      in stream_add E (new_event (AgentStateChangedObservation [] target reason)) ENVIRONMENT w1)"

definition set_agent_state_to :: "('s, 'a) env \<Rightarrow> string \<Rightarrow> (('s, 'a) world, unit) op" where
  "set_agent_state_to E target w =
     (if target = get_agent_state w then give () w else and_then (state_effects E target) (\<lambda>_. enter_state E target) w)"

text \<open>The identifier of the status message; \<open>None\<close> where the code waits for the rate limit.\<close>

definition status_error :: "('s, 'a) env \<Rightarrow> exn \<Rightarrow> string option" where
  "status_error E e =
     (if isa E e [''AuthenticationError''] then Some ''STATUS$ERROR_LLM_AUTHENTICATION''
      else if isa E e [''ServiceUnavailableError'', ''APIConnectionError'', ''APIError''] then
        Some ''STATUS$ERROR_LLM_SERVICE_UNAVAILABLE''
      else if isa E e [''InternalServerError''] then Some ''STATUS$ERROR_LLM_INTERNAL_SERVER_ERROR''
      else if isa E e [''BadRequestError''] \<and> contains ''ExceededBudget'' (ex_text e) then Some ''STATUS$ERROR_LLM_OUT_OF_CREDITS''
      else if isa E e [''ContentPolicyViolationError''] \<or>
        isa E e [''BadRequestError''] \<and> contains ''ContentPolicyViolationError'' (ex_text e) then
        Some ''STATUS$ERROR_LLM_CONTENT_POLICY_VIOLATION''
      else if isa E e [''RateLimitError''] then None
      else Some [])"

definition react_to_exception :: "('s, 'a) env \<Rightarrow> exn \<Rightarrow> (('s, 'a) world, unit) op" where
  "react_to_exception E e w =
     (let w1 = upd_state (\<lambda>s. s\<lparr>cs_last_error := ex_class e @ '': '' @ ex_text e\<rparr>) w
      in if \<not> ct_status_callback (wd_self w1) then set_agent_state_to E ERROR w1
         else
           case status_error E e of
             None \<Rightarrow> set_agent_state_to E RATE_LIMITED w1
           | Some err_id \<Rightarrow>
               let w2 = (if err_id = [] then w1 else upd_state (\<lambda>s. s\<lparr>cs_last_error := err_id\<rparr>) w1);
                   w3 = w2\<lparr>wd_status := wd_status w2 @ [(''error'', err_id, cs_last_error (state_of w2))]\<rparr>
               in set_agent_state_to E ERROR w3)"

definition notify_on_llm_retry :: "(int \<Rightarrow> string) \<Rightarrow> int \<Rightarrow> int \<Rightarrow> ('s, 'a) world \<Rightarrow> ('s, 'a) world" where
  "notify_on_llm_retry show_int retries maximum w =
     (if ct_status_callback (wd_self w)
      then w\<lparr>wd_status := wd_status w @
               [(''info'', ''STATUS$LLM_RETRY'', ''Retrying LLM request, '' @ show_int retries @ '' / '' @ show_int maximum)]\<rparr>
      else w)"

section \<open>The beginning and the end of a controller\<close>

definition first_user_message :: "('s, 'a) env \<Rightarrow> (('s, 'a) world, event option) op" where
  "first_user_message E w =
     (if ct_first_user_message (wd_self w) \<noteq> None then give (ct_first_user_message (wd_self w)) w
      else
        and_then (first_in_stream E (cs_start_id (state_of w)) False is_user_message)
          (\<lambda>m w. give m (upd_self (\<lambda>c. c\<lparr>ct_first_user_message := m\<rparr>) w)) w)"

definition is_awaiting_observation :: "('s, 'a) env \<Rightarrow> (('s, 'a) world, bool) op" where
  "is_awaiting_observation E w =
     and_then
       (first_in_stream E 0 True (\<lambda>e. case ev_payload e of AgentStateChangedObservation _ _ _ \<Rightarrow> True | _ \<Rightarrow> False))
       (\<lambda>e. give (case e of
                    None \<Rightarrow> False
                  | Some ob \<Rightarrow> (case ev_payload ob of AgentStateChangedObservation _ s _ \<Rightarrow> s = RUNNING | _ \<Rightarrow> False))) w"

definition restore_history :: "('s, 'a) env \<Rightarrow> (('s, 'a) world, unit) op" where
  "restore_history E w =
     (let s = state_of w;
          latest = so_latest (en_stream E) (wd_stream w);
          start_id = (if cs_start_id s \<ge> 0 then cs_start_id s else 0);
          stop = (if cs_end_id s \<ge> 0 then cs_end_id s else latest);
          found = so_search (en_stream E) start_id stop agent_history_filter (wd_stream w)
      in case (if start_id > stop + 1 then None else snd found) of
           Some e \<Rightarrow> raise e w
         | None \<Rightarrow>
             (case init_history (\<lambda>_ _. fst found) latest (cs_start_id s) (cs_end_id s) of
                (history, start) \<Rightarrow> modify (upd_state (\<lambda>s. s\<lparr>cs_history := history, cs_start_id := start\<rparr>)) w))"

definition removesuffix :: "string \<Rightarrow> string \<Rightarrow> string" where
  "removesuffix suf s = (if suf \<noteq> [] \<and> suffix suf s then take (length s - length suf) s else s)"

definition set_initial_state :: "('s, 'a) env \<Rightarrow> ctl_state option \<Rightarrow> int \<Rightarrow> bool \<Rightarrow> (('s, 'a) world, unit) op" where
  "set_initial_state E st max_iterations confirmation_mode w =
     restore_history E
       (case st of
          None \<Rightarrow>
            upd_self (\<lambda>c. c\<lparr>ct_state := (new_ctl_state (removesuffix ''-delegate'' (ct_id c)))
                \<lparr>cs_max_iterations := max_iterations, cs_confirmation_mode := confirmation_mode, cs_start_id := 0\<rparr>\<rparr>)
              (w\<lparr>wd_metrics := new_metrics ''default''\<rparr>)
        | Some s \<Rightarrow> upd_self (\<lambda>c. c\<lparr>ct_state := (if cs_start_id s \<le> - 1 then s\<lparr>cs_start_id := 0\<rparr> else s)\<rparr>) w)"

definition add_system_message :: "('s, 'a) env \<Rightarrow> (('s, 'a) world, unit) op" where
  "add_system_message E w =
     and_then (first_in_stream E (cs_start_id (state_of w)) False (\<lambda>e. is_user_message e \<or> is_system e))
       (\<lambda>found w.
          if found \<noteq> None then give () w
          else
            case ag_system_message (en_agent E) (ct_agent (wd_self w)) of
              None \<Rightarrow> give () w
            | Some m \<Rightarrow>
                (case ev_payload m of
                   SystemMessageAction content _ _ _ \<Rightarrow> if content = [] then give () w else stream_add E m AGENT w
                 | _ \<Rightarrow> give () w)) w"

text \<open>The constructor: the object, then what its body does with it.\<close>

definition blank_controller ::
  "string \<Rightarrow> 'a \<Rightarrow> int \<Rightarrow> real option \<Rightarrow> bool \<Rightarrow> bool \<Rightarrow> bool \<Rightarrow> event list option \<Rightarrow> 'a controller" where
  "blank_controller sid agent max_iterations budget is_delegate headless callback replay_events =
     \<lparr>ct_id = sid, ct_agent = agent, ct_headless_mode = headless, ct_is_delegate = is_delegate, ct_state = new_ctl_state [],
      ct_max_budget_per_task = budget, ct_initial_max_iterations = max_iterations, ct_initial_max_budget_per_task = budget,
      ct_status_callback = callback, ct_replay_manager = new_replay replay_events, ct_pending_action = None, ct_closed = False,
      ct_first_user_message = None\<rparr>"

definition init_controller :: "('s, 'a) env \<Rightarrow> ctl_state option \<Rightarrow> int \<Rightarrow> bool \<Rightarrow> (('s, 'a) world, unit) op" where
  "init_controller E initial_state max_iterations confirmation_mode =
     and_then
       (\<lambda>w. if ct_is_delegate (wd_self w) then give () w
            else (case so_subscribe (en_stream E) (ct_id (wd_self w)) (wd_stream w) of (s, r) \<Rightarrow> (w\<lparr>wd_stream := s\<rparr>, r)))
       (\<lambda>_. and_then (set_initial_state E initial_state max_iterations confirmation_mode) (\<lambda>_. add_system_message E))"

text \<open>What the closed controller shows: the whole history, with the events of the delegates.\<close>

definition close :: "('s, 'a) env \<Rightarrow> bool \<Rightarrow> (('s, 'a) world, unit) op" where
  "close E set_stop_state =
     and_then (if set_stop_state then set_agent_state_to E STOPPED else give ())
       (\<lambda>_ w.
          let s = state_of w;
              start_id = (if cs_start_id s \<ge> 0 then cs_start_id s else 0);
              stop = (if cs_end_id s \<ge> 0 then cs_end_id s else so_latest (en_stream E) (wd_stream w))
          in case so_search (en_stream E) start_id stop agent_history_filter (wd_stream w) of
               (_, Some e) \<Rightarrow> raise e w
             | (es, None) \<Rightarrow>
                 let w1 = upd_state (\<lambda>s. s\<lparr>cs_history := es\<rparr>) w;
                     w2 = (if ct_is_delegate (wd_self w1) then w1
                           else w1\<lparr>wd_stream := so_unsubscribe (en_stream E) (ct_id (wd_self w1)) (wd_stream w1)\<rparr>)
                 in modify (upd_self (\<lambda>c. c\<lparr>ct_closed := True\<rparr>)) w2)"

definition get_trajectory :: "(event \<Rightarrow> jdict) \<Rightarrow> (('s, 'a) world, jdict list) op" where
  "get_trajectory event_to_trajectory w =
     (if ct_closed (wd_self w) then give (map event_to_trajectory (cs_history (state_of w))) w
      else raise (exn_of (AssertionError [])) w)"

definition delegate_state :: "('s, 'a) env \<Rightarrow> jdict \<Rightarrow> ('s, 'a) world \<Rightarrow> ctl_state" where
  "delegate_state E inputs w =
     (new_ctl_state (removesuffix ''-delegate'' (ct_id (wd_self w))))
       \<lparr>cs_inputs := inputs, cs_iteration := cs_iteration (state_of w), cs_max_iterations := cs_max_iterations (state_of w),
        cs_delegate_level := cs_delegate_level (state_of w) + 1, cs_start_id := so_latest (en_stream E) (wd_stream w) + 1\<rparr>"

definition start_delegate :: "('s, 'a) env \<Rightarrow> string \<Rightarrow> jdict \<Rightarrow> (('s, 'a) world, unit) op" where
  "start_delegate E name inputs w =
     (case ag_delegate (en_agent E) name (ct_agent (wd_self w)) of
        Inl e \<Rightarrow> raise e w
      | Inr agent \<Rightarrow>
          let c = blank_controller (ct_id (wd_self w) @ ''-delegate'') agent (cs_max_iterations (state_of w))
                    (ct_max_budget_per_task (wd_self w)) True (ct_headless_mode (wd_self w)) False None
          in (case init_controller E (Some (delegate_state E inputs w)) (cs_max_iterations (state_of w)) False
                     (w\<lparr>wd_self := c, wd_delegates := []\<rparr>) of
                (w', Inl e) \<Rightarrow> (w'\<lparr>wd_self := wd_self w, wd_delegates := wd_delegates w\<rparr>, Inl e)
              | (w', Inr _) \<Rightarrow> (w'\<lparr>wd_self := wd_self w, wd_delegates := [wd_self w']\<rparr>, Inr ())))"

definition delegate_result :: "('s, 'a) env \<Rightarrow> string \<Rightarrow> string \<Rightarrow> jdict \<Rightarrow> string" where
  "delegate_result E name final outputs =
     ''Delegated agent finished with result:'' @ [newline, newline] @
     (if final \<in> {FINISHED, REJECTED}
      then name @ '' finishes task with '' @ join_with '', '' (map (\<lambda>(k, v). k @ '': '' @ en_render E v) outputs)
      else name @ '' encountered an error during execution.'')"

definition end_delegate :: "('s, 'a) env \<Rightarrow> (('s, 'a) world, unit) op" where
  "end_delegate E w =
     (case wd_delegates w of
        [] \<Rightarrow> give () w
      | d # _ \<Rightarrow>
          and_then (on_delegate (close E True))
            (\<lambda>_ w.
               case wd_delegates w of
                 [] \<Rightarrow> give () w
               | d' # _ \<Rightarrow>
                   let outputs = cs_outputs (ct_state d');
                       content = delegate_result E (ag_name (en_agent E) (ct_agent d')) (cs_agent_state (ct_state d)) outputs;
                       call = (case find is_delegate_action (rev (cs_history (state_of w))) of
                                 None \<Rightarrow> None
                               | Some a \<Rightarrow> ev_tool_call a)
                   in and_then (stream_add E ((new_event (AgentDelegateObservation content outputs))\<lparr>ev_tool_call := call\<rparr>) AGENT)
                        (\<lambda>_. modify (\<lambda>w. w\<lparr>wd_delegates := []\<rparr>)) w)
            (upd_state (\<lambda>s. s\<lparr>cs_iteration := cs_iteration (ct_state d)\<rparr>) w))"

section \<open>Events\<close>

text \<open>The recall of what the message mentions, which is pending from then on.\<close>

definition request_recall :: "('s, 'a) env \<Rightarrow> event \<Rightarrow> string \<Rightarrow> event option \<Rightarrow> (('s, 'a) world, unit) op" where
  "request_recall E action content first =
     (let is_first = (case first of None \<Rightarrow> False | Some m \<Rightarrow> ev_id action = ev_id m);
          recall = new_event (RecallAction (if is_first then ''workspace_context'' else ''knowledge'') content [])
      in and_then (stream_add_pending E recall USER)
           (\<lambda>_ w. if get_agent_state w \<noteq> RUNNING then set_agent_state_to E RUNNING w else give () w))"

definition extend_limits :: "('s, 'a) world \<Rightarrow> ('s, 'a) world" where
  "extend_limits w =
     (if ct_headless_mode (wd_self w) then w
      else upd_state (\<lambda>s. s\<lparr>cs_max_iterations := cs_iteration s + ct_initial_max_iterations (wd_self w),
             cs_traffic := (if cs_traffic s \<in> {TC_THROTTLING, TC_PAUSED} then TC_NORMAL else cs_traffic s)\<rparr>) w)"

definition handle_message_action :: "('s, 'a) env \<Rightarrow> event \<Rightarrow> string \<Rightarrow> bool \<Rightarrow> (('s, 'a) world, unit) op" where
  "handle_message_action E action content wait_for_response w =
     (if ev_source action = Some USER then
        and_then (first_user_message E) (request_recall E action content) (extend_limits w)
      else if ev_source action = Some AGENT \<and> wait_for_response then set_agent_state_to E AWAITING_USER_INPUT w
      else give () w)"

definition finish_with :: "('s, 'a) env \<Rightarrow> jdict \<Rightarrow> string \<Rightarrow> (('s, 'a) world, unit) op" where
  "finish_with E outputs target w =
     set_agent_state_to E target (merge_local_metrics (upd_state (\<lambda>s. s\<lparr>cs_outputs := outputs\<rparr>) w))"

definition handle_action :: "('s, 'a) env \<Rightarrow> event \<Rightarrow> (('s, 'a) world, unit) op" where
  "handle_action E action =
     (case ev_payload action of
        ChangeAgentStateAction agent_state _ \<Rightarrow> set_agent_state_to E agent_state
      | MessageAction content _ wait _ \<Rightarrow> handle_message_action E action content wait
      | AgentDelegateAction name inputs _ \<Rightarrow>
          and_then (start_delegate E name inputs)
            (\<lambda>_. case dict_get inputs ''task'' of
                   None \<Rightarrow> give ()
                 | Some (JStr task) \<Rightarrow>
                     and_then (stream_add E (new_event (MessageAction (''TASK: '' @ task) None False None)) USER)
                       (\<lambda>_. on_delegate (set_agent_state_to E RUNNING))
                 | Some _ \<Rightarrow> raise (exn_of (TypeError ''can only concatenate str'')))
      | AgentFinishAction _ _ outputs _ \<Rightarrow> finish_with E outputs FINISHED
      | AgentRejectAction outputs _ \<Rightarrow> finish_with E outputs REJECTED
      | _ \<Rightarrow> give ())"

text \<open>The metrics of an observation are merged into those of the agent's model; \<open>now\<close> is not used for what an event carries.\<close>

definition merge_observed_metrics :: "('s, 'a) env \<Rightarrow> event \<Rightarrow> ('s, 'a) world \<Rightarrow> ('s, 'a) world" where
  "merge_observed_metrics E ob w =
     (case ev_llm_metrics ob of
        None \<Rightarrow> w
      | Some j \<Rightarrow>
          (case metrics_from_dict 0 j of
             Inl _ \<Rightarrow> w
           | Inr m \<Rightarrow>
               upd_self (\<lambda>c. c\<lparr>ct_agent := ag_set_metrics (en_agent E)
                                (merge_metrics (ag_metrics (en_agent E) (ct_agent c)) m) (ct_agent c)\<rparr>) w))"

definition answers :: "event \<Rightarrow> event option \<Rightarrow> bool" where
  "answers ob pending = (case pending of None \<Rightarrow> False | Some a \<Rightarrow> ev_cause ob = Some (ev_id a))"

definition handle_observation :: "('s, 'a) env \<Rightarrow> event \<Rightarrow> (('s, 'a) world, unit) op" where
  "handle_observation E ob w =
     (let w1 = merge_observed_metrics E ob w
      in if answers ob (ct_pending_action (wd_self w1)) then
           if get_agent_state w1 = AWAITING_USER_CONFIRMATION then give () w1
           else
             let w2 = set_pending_action None w1
             in and_then (\<lambda>w. if get_agent_state w = USER_CONFIRMED then set_agent_state_to E RUNNING w else give () w)
                  (\<lambda>_ w. if get_agent_state w = USER_REJECTED then set_agent_state_to E AWAITING_USER_INPUT w else give () w) w2
         else if is_error ob \<and> get_agent_state w1 = ERROR then give () (merge_local_metrics w1)
         else give () w1)"

definition should_step :: "event \<Rightarrow> ('s, 'a) world \<Rightarrow> bool" where
  "should_step e w =
     (if wd_delegates w \<noteq> [] then False
      else if is_action e then
        (if is_user_message e then True
         else if is_message e \<and> get_agent_state w \<noteq> AWAITING_USER_INPUT then True
         else case ev_payload e of AgentDelegateAction _ _ _ \<Rightarrow> True | CondensationAction _ \<Rightarrow> True | _ \<Rightarrow> False)
      else if is_null_observation e \<and> (case ev_cause e of None \<Rightarrow> False | Some c \<Rightarrow> c > 0) then True
      else (case ev_payload e of AgentStateChangedObservation _ _ _ \<Rightarrow> False | NullObservation _ \<Rightarrow> False | _ \<Rightarrow> True))"

section \<open>Steps\<close>

definition reached_limit :: "bool \<Rightarrow> string \<Rightarrow> string \<Rightarrow> string \<Rightarrow> exn" where
  "reached_limit headless limit_type current_str max_str =
     \<lparr>ex_class = ''RuntimeError'',
      ex_text =
        (if headless
         then ''Agent reached maximum '' @ limit_type @ '' in headless mode. Current '' @ limit_type @ '': '' @ current_str @
              '', max '' @ limit_type @ '': '' @ max_str
         else ''Agent reached maximum '' @ limit_type @ ''. Current '' @ limit_type @ '': '' @ current_str @
              '', max '' @ limit_type @ '': '' @ max_str @ ''. '')\<rparr>"

text \<open>The values come formatted: integers for iterations, two decimals for the budget.\<close>

definition handle_traffic_control :: "('s, 'a) env \<Rightarrow> string \<Rightarrow> string \<Rightarrow> string \<Rightarrow> (('s, 'a) world, bool) op" where
  "handle_traffic_control E limit_type current_str max_str w =
     (if cs_traffic (state_of w) = TC_PAUSED then give False (upd_state (\<lambda>s. s\<lparr>cs_traffic := TC_NORMAL\<rparr>) w)
      else
        and_then (react_to_exception E (reached_limit (ct_headless_mode (wd_self w)) limit_type current_str max_str))
          (\<lambda>_. give True) (upd_state (\<lambda>s. s\<lparr>cs_traffic := TC_THROTTLING\<rparr>) w))"

definition iteration_limit :: "('s, 'a) env \<Rightarrow> (('s, 'a) world, bool) op" where
  "iteration_limit E w =
     (if cs_iteration (state_of w) \<ge> cs_max_iterations (state_of w)
      then handle_traffic_control E ''iteration'' (str_int (cs_iteration (state_of w))) (str_int (cs_max_iterations (state_of w))) w
      else give False w)"

text \<open>The second check overwrites the result of the first.\<close>

definition budget_limit :: "('s, 'a) env \<Rightarrow> bool \<Rightarrow> (('s, 'a) world, bool) op" where
  "budget_limit E stop_step w =
     (case ct_max_budget_per_task (wd_self w) of
        None \<Rightarrow> give stop_step w
      | Some b \<Rightarrow>
          if mt_accumulated_cost (wd_metrics w) > b
          then handle_traffic_control E ''budget'' (en_two_decimals E (mt_accumulated_cost (wd_metrics w))) (en_two_decimals E b) w
          else give stop_step w)"

definition controller_stuck :: "('s, 'a) env \<Rightarrow> 'a controller \<Rightarrow> bool" where
  "controller_stuck E c =
     (if ag_strict_loop_detector (en_agent E) (ct_agent c) then strict_is_stuck (ct_headless_mode c) (cs_history (ct_state c))
      else is_stuck (ct_headless_mode c) (cs_history (ct_state c)))"

definition any_stuck :: "('s, 'a) env \<Rightarrow> ('s, 'a) world \<Rightarrow> bool" where
  "any_stuck E w = list_ex (controller_stuck E) (wd_self w # wd_delegates w)"

definition context_exceeded :: "('s, 'a) env \<Rightarrow> exn \<Rightarrow> bool" where
  "context_exceeded E e =
     (let error_str = en_lower E (ex_text e)
      in contains ''contextwindowexceedederror'' error_str \<or> contains ''prompt is too long'' error_str \<or>
         contains ''input length and `max_tokens` exceed context limit'' error_str \<or>
         contains ''please reduce the length of either one'' error_str \<or> isa E e [''ContextWindowExceededError''])"

definition long_context :: "('s, 'a) env \<Rightarrow> (('s, 'a) world, unit) op" where
  "long_context E w =
     (let history = cs_history (state_of w);
          add = (\<lambda>first w. case handle_long_context_error history first of
                   Inl er \<Rightarrow> raise (exn_of er) w
                 | Inr e \<Rightarrow> stream_add E e AGENT w)
      in if history = [] \<or> (case find is_system history of None \<Rightarrow> False | Some m \<Rightarrow> ev_id m \<noteq> ev_id (hd history))
         then add None w
         else and_then (first_user_message E) add w)"

definition sent_back :: "string list" where
  "sent_back =
     [''LLMMalformedActionError'', ''LLMNoActionError'', ''LLMResponseError'', ''FunctionCallValidationError'',
      ''FunctionCallNotExistsError'']"

text \<open>What the handlers of the exceptions of the agent do; the step ends.\<close>

definition agent_failed :: "('s, 'a) env \<Rightarrow> exn \<Rightarrow> (('s, 'a) world, unit) op" where
  "agent_failed E e w =
     (if isa E e sent_back then stream_add E (new_event (ErrorObservation (ex_text e) [])) AGENT w
      else if isa E e [''ContextWindowExceededError'', ''BadRequestError'', ''OpenAIError''] \<and> context_exceeded E e then
        if ag_enable_history_truncation (en_agent E) (ct_agent (wd_self w)) then long_context E w
        else raise \<lparr>ex_class = ''LLMContextWindowExceedError'',
               ex_text = ''Conversation history longer than LLM context window limit. Consider turning on enable_history_truncation config to avoid this error''\<rparr> w
      else raise e w)"

definition agent_step :: "('s, 'a) env \<Rightarrow> (('s, 'a) world, event) op" where
  "agent_step E w =
     (case ag_step (en_agent E) (state_of w) (ct_agent (wd_self w)) of
        (agent, extra, r) \<Rightarrow>
          let w1 = upd_self (\<lambda>c. c\<lparr>ct_agent := agent, ct_state := (ct_state c)\<lparr>cs_extra_data := extra\<rparr>\<rparr>) w
          in (case r of
                Inl e \<Rightarrow> raise e w1
              | Inr None \<Rightarrow> raise \<lparr>ex_class = ''LLMNoActionError'', ex_text = ''No action was returned''\<rparr> w1
              | Inr (Some a) \<Rightarrow> give (a\<lparr>ev_source := Some AGENT\<rparr>) w1))"

text \<open>The action of the step; \<open>None\<close> when the step has ended in a handler.\<close>

definition next_action :: "('s, 'a) env \<Rightarrow> (('s, 'a) world, event option) op" where
  "next_action E w =
     (case should_replay (ct_replay_manager (wd_self w)) of
        (rm, True) \<Rightarrow>
          (case replay_step rm of
             (rm', r) \<Rightarrow>
               let w1 = upd_self (\<lambda>c. c\<lparr>ct_replay_manager := rm'\<rparr>) w
               in (case r of Inl er \<Rightarrow> raise (exn_of er) w1 | Inr a \<Rightarrow> give (Some a) w1))
      | (rm, False) \<Rightarrow>
          catch (and_then (agent_step E) (\<lambda>a. give (Some a)))
            (\<lambda>e. and_then (agent_failed E e) (\<lambda>_. give None))
            (upd_self (\<lambda>c. c\<lparr>ct_replay_manager := rm\<rparr>) w))"

definition is_null_action :: "event \<Rightarrow> bool" where
  "is_null_action e = (case ev_payload e of NullAction \<Rightarrow> True | _ \<Rightarrow> False)"

text \<open>The pending action is the object that is added: it has the identifier afterwards.\<close>

definition publish_action :: "('s, 'a) env \<Rightarrow> event \<Rightarrow> (('s, 'a) world, unit) op" where
  "publish_action E action w =
     (let a1 = (if runnable_payload (ev_payload action) \<and> cs_confirmation_mode (state_of w)
                then set_confirmation_state ''awaiting_confirmation'' action else action);
          w1 = (if runnable_payload (ev_payload action) then set_pending_action (Some a1) w else w)
      in if is_null_action a1 then give () w1
         else
           and_then
             (\<lambda>w. if confirmation_state a1 = Some ''awaiting_confirmation''
                  then set_agent_state_to E AWAITING_USER_CONFIRMATION w else give () w)
             (\<lambda>_ w.
                let a2 = prepare_metrics_for_frontend E (ct_agent (wd_self w)) a1;
                    w2 = (if runnable_payload (ev_payload a2) then set_pending_action (Some a2) w else w)
                in case ev_source a2 of
                     None \<Rightarrow> raise (exn_of (AttributeError ''_source'')) w2
                   | Some source \<Rightarrow>
                       (if runnable_payload (ev_payload a2) then stream_add_pending E a2 source w2 else stream_add E a2 source w2))
             w1)"

definition step :: "('s, 'a) env \<Rightarrow> (('s, 'a) world, unit) op" where
  "step E w =
     (if get_agent_state w \<noteq> RUNNING then give () w
      else if ct_pending_action (wd_self w) \<noteq> None then give () w
      else
        and_then (iteration_limit E)
          (\<lambda>stop1. and_then (budget_limit E stop1)
            (\<lambda>stop_step w.
               if stop_step then give () w
               else if any_stuck E w then
                 react_to_exception E \<lparr>ex_class = ''AgentStuckInLoopError'', ex_text = ''Agent got stuck in a loop''\<rparr> w
               else
                 and_then (next_action E)
                   (\<lambda>a. case a of
                          None \<Rightarrow> give ()
                        | Some action \<Rightarrow> and_then (publish_action E action) (\<lambda>_. modify (update_state_after_step E)))
                   (update_state_before_step w))) w)"

definition reported_classes :: "string list" where
  "reported_classes =
     [''Timeout'', ''APIError'', ''BadRequestError'', ''NotFoundError'', ''InternalServerError'', ''AuthenticationError'',
      ''RateLimitError'', ''ContentPolicyViolationError'', ''LLMContextWindowExceedError'']"

definition step_with_exception_handling :: "('s, 'a) env \<Rightarrow> (('s, 'a) world, unit) op" where
  "step_with_exception_handling E =
     catch (step E)
       (\<lambda>e. react_to_exception E
              (if isa E e reported_classes then e
               else \<lparr>ex_class = ''RuntimeError'',
                     ex_text = ''There was an unexpected error while running the agent: '' @ ex_class e @
                       ''. You can refresh the page or ask the agent to try again.''\<rparr>))"

section \<open>The callback of the stream\<close>

definition on_own_event :: "('s, 'a) env \<Rightarrow> event \<Rightarrow> (('s, 'a) world, unit) op" where
  "on_own_event E e w =
     (if hidden e then give () w
      else
        let w1 = (if filter_include (en_lower E) (\<lambda>_. []) agent_history_filter e
                  then upd_state (\<lambda>s. s\<lparr>cs_history := cs_history s @ [e]\<rparr>) w else w)
        in and_then (if is_action e then handle_action E e else handle_observation E e)
             (\<lambda>_ w. if should_step e w then step_with_exception_handling E w else give () w) w1)"

definition on_event :: "('s, 'a) env \<Rightarrow> event \<Rightarrow> (('s, 'a) world, unit) op" where
  "on_event E e w =
     (case wd_delegates w of
        [] \<Rightarrow> on_own_event E e w
      | d # _ \<Rightarrow>
          if cs_agent_state (ct_state d) \<notin> {FINISHED, ERROR, REJECTED} then on_delegate (on_own_event E e) w
          else end_delegate E w)"

end
