(* ===== verification/ControllerStream.thy ===== *)
theory ControllerStream
  imports Controller
begin

text \<open>
  What the controller needs of the event stream, as an interface, and that the event stream in a
  fresh session provides it: an event that can be written is added at the end and gets the next
  identifier, and a search returns the events of the range.
\<close>

section \<open>The stream as the controller uses it\<close>

definition stream_ops_of :: "('fs, 'c) store_env \<Rightarrow> ('fs event_stream \<Rightarrow> string) \<Rightarrow> 'fs event_stream stream_ops" where
  "stream_ops_of E clock =
     \<lparr>so_add = (\<lambda>e source s. case add_event E s (clock s) e source of
         (s', e', r) \<Rightarrow> (s', e', case r of Inl er \<Rightarrow> Inl (exn_of er) | Inr u \<Rightarrow> Inr u)),
      so_latest = get_latest_event_id,
      so_events = (\<lambda>start_id reverse s. case get_events E s (\<lambda>_. True) start_id None reverse None False of
         (es, er) \<Rightarrow> (es, map_option exn_of er)),
      so_search = (\<lambda>start_id end_id flt s. case search_events E s (\<lambda>_. True) start_id (Some end_id) False (Some flt) None of
         (es, er) \<Rightarrow> (es, map_option exn_of er)),
      so_subscribe = (\<lambda>c s. case subscribe ''agent_controller'' c s of
         (s', r) \<Rightarrow> (s', case r of Inl er \<Rightarrow> Inl (exn_of er) | Inr u \<Rightarrow> Inr u)),
      so_unsubscribe = unsubscribe ''agent_controller''\<rparr>"

text \<open>An event that can be written and read back.\<close>

definition storable :: "codec \<Rightarrow> event \<Rightarrow> bool" where
  "storable C e \<longleftrightarrow> event_ok C e \<and> (\<exists>m. event_message (cd_render C) (ev_payload e) = Inr m)"

text \<open>\<open>same_event\<close>: the same action or observation, as far as adding leaves it.\<close>

definition same_event :: "event \<Rightarrow> event \<Rightarrow> bool" where
  "same_event e e' \<longleftrightarrow>
     ev_payload e' = ev_payload e \<and> ev_cause e' = ev_cause e \<and> ev_tool_call e' = ev_tool_call e \<and>
     ev_llm_metrics e' = ev_llm_metrics e \<and> ev_timeout e' = ev_timeout e"

locale controller_stream =
  fixes S :: "'s stream_ops"
    and holds :: "'s \<Rightarrow> event list \<Rightarrow> bool"
    and can_store :: "event \<Rightarrow> bool"
    and selects :: "event_filter \<Rightarrow> event \<Rightarrow> bool"
  assumes ids: "holds s evs \<Longrightarrow> i < length evs \<Longrightarrow> ev_id (evs ! i) = int i"
    and latest: "holds s evs \<Longrightarrow> so_latest S s = int (length evs) - 1"
    and add: "holds s evs \<Longrightarrow> can_store e \<Longrightarrow> ev_id e = INVALID_ID \<Longrightarrow>
      \<exists>s' e'. so_add S e src s = (s', e', Inr ()) \<and> holds s' (evs @ [e']) \<and> same_event e e' \<and>
        ev_id e' = int (length evs) \<and> ev_source e' = Some src"
    and events: "holds s evs \<Longrightarrow> 0 \<le> a \<Longrightarrow> so_events S a False s = (filter (\<lambda>e. a \<le> ev_id e) evs, None)"
    and search: "holds s evs \<Longrightarrow> 0 \<le> a \<Longrightarrow>
      so_search S a b flt s = (filter (selects flt) (events_between evs a b), None)"
    and subscribed: "holds s evs \<Longrightarrow> holds (fst (so_subscribe S c s)) evs"
    and unsubscribed: "holds s evs \<Longrightarrow> holds (so_unsubscribe S c s) evs"

section \<open>The event stream provides it\<close>

lemma event_to_dict_total: "storable C e \<Longrightarrow> \<exists>d. event_to_dict C (e\<lparr>ev_id := i, ev_timestamp := t, ev_source := src\<rparr>) = Inr d"
  by (auto simp: storable_def event_to_dict_def Let_def)

lemma storable_upd [simp]: "storable C (e\<lparr>ev_id := i, ev_timestamp := t, ev_source := src\<rparr>) = storable C e"
  by (simp add: storable_def event_ok_def)

lemma add_locked_succeeds:
  assumes "storable (se_codec E) e" and "st_secrets s = []"
  shows "\<exists>s1 a d. add_locked E s (stamp now src e) =
    (s1, e\<lparr>ev_id := es_cur_id s, ev_timestamp := Some now, ev_source := Some src\<rparr>,
     Inr (a, d, e\<lparr>ev_id := es_cur_id s, ev_timestamp := Some now, ev_source := Some src\<rparr>))"
proof -
  define e1 where "e1 = e\<lparr>ev_id := es_cur_id s, ev_timestamp := Some now, ev_source := Some src\<rparr>"
  have st: "(stamp now src e)\<lparr>ev_id := es_cur_id s\<rparr> = e1" by (simp add: stamp_def e1_def)
  obtain d where d: "event_to_dict (se_codec E) e1 = Inr d" using event_to_dict_total [OF assms(1)] unfolding e1_def by blast
  have "storable (se_codec E) e1" using assms(1) by (simp add: e1_def)
  then have "event_from_dict (se_codec E) d = Inr e1" using event_read_back d by (simp add: storable_def)
  then show ?thesis unfolding e1_def [symmetric] using d assms(2) by (simp add: add_locked_def st Let_def)
qed

text \<open>A stream without secrets that a new session has filled with \<open>evs\<close>.\<close>

definition holds_events :: "('fs, 'c) store_env \<Rightarrow> 'fs event_stream \<Rightarrow> event list \<Rightarrow> bool" where
  "holds_events E s evs \<longleftrightarrow>
     (\<exists>s0. opened E s0 (\<lambda>_. None) \<and> es_cur_id s0 = 0 \<and> runs E s0 evs s [] \<and> st_secrets s = [])"

lemma holds_events_same:
  "holds_events E s evs \<Longrightarrow> (\<And>s0. runs E s0 evs s [] \<Longrightarrow> runs E s0 evs s' []) \<Longrightarrow> st_secrets s' = st_secrets s \<Longrightarrow>
   holds_events E s' evs"
  by (auto simp: holds_events_def)

lemma decoded_none: "decoded C (\<lambda>_. None) (\<lambda>_. None)"
  by (simp add: decoded_def)

lemma secrets_page: "store_cache_page E s page = Inr s' \<Longrightarrow> st_secrets s' = st_secrets s"
  by (auto simp: store_cache_page_def bind_result_Inr_iff split: if_splits list.splits option.splits)

context json_files
begin

lemma page_succeeds:
  assumes "stream_inv E s0 V0 evs s (P @ (a, d, ev, w) # Q)"
  shows "\<exists>s'. store_cache_page E s (st_pages s ! a) = Inr s'"
proof -
  have li: "log_inv E (es_cur_id s0) evs s" and a: "a < length (st_pages s)"
    using assms by (auto simp: stream_inv_def pending_ok_def)
  have "0 < es_cache_size s" using li by (auto simp: log_inv_def pages_ok_def)
  then show ?thesis
    using page_of_log(2) [OF li a] by (cases "st_pages s ! a") (auto simp: store_cache_page_def)
qed

lemma holds_length: "holds_events E s evs \<Longrightarrow> es_cur_id s = int (length evs)"
  using runs_place by (fastforce simp: holds_events_def)

lemma holds_ids:
  assumes "holds_events E s evs" and "i < length evs"
  shows "ev_id (evs ! i) = int i"
proof -
  obtain s0 where s0: "opened E s0 (\<lambda>_. None)" "es_cur_id s0 = 0" "runs E s0 evs s []"
    using assms(1) by (auto simp: holds_events_def)
  have li: "log_inv E 0 evs s" using runs_inv [OF s0(3,1)] s0(2) by (simp add: stream_inv_def)
  let ?log = "concat (st_pages s)"
  have "list_all2 (\<lambda>d ev. event_from_dict (se_codec E) d = Inr ev) ?log evs" using li by (simp add: log_inv_def)
  then have "event_from_dict (se_codec E) (?log ! i) = Inr (evs ! i)" "i < length ?log"
    using assms(2) list_all2_lengthD list_all2_nthD2 by fastforce+
  moreover have "\<forall>k < length ?log. dict_get (?log ! k) ''id'' = Some (JInt (0 + int k))"
    using li unfolding log_inv_def by blast
  ultimately show ?thesis using event_from_dict_id [of "se_codec E" "?log ! i" "evs ! i"] by fastforce
qed

lemma holds_add:
  assumes "holds_events E s evs" and "storable (se_codec E) e" and "ev_id e = INVALID_ID"
  shows "\<exists>s'. add_event E s now e src =
      (s', e\<lparr>ev_id := int (length evs), ev_timestamp := Some now, ev_source := Some src\<rparr>, Inr ()) \<and>
    holds_events E s' (evs @ [e\<lparr>ev_id := int (length evs), ev_timestamp := Some now, ev_source := Some src\<rparr>])"
proof -
  obtain s0 where s0: "opened E s0 (\<lambda>_. None)" "es_cur_id s0 = 0" "runs E s0 evs s []" and sec: "st_secrets s = []"
    using assms(1) by (auto simp: holds_events_def)
  define e1 where "e1 = e\<lparr>ev_id := int (length evs), ev_timestamp := Some now, ev_source := Some src\<rparr>"
  obtain s1 a d where l: "add_locked E s (stamp now src e) = (s1, e1, Inr (a, d, e1))"
    using add_locked_succeeds [OF assms(2) sec, of now src] holds_length [OF assms(1)] by (auto simp: e1_def)
  have r1: "runs E s0 (evs @ [e1]) s1 ([] @ (a, d, e1, False) # [])" using run_lock [OF s0(3) assms(3) l] by simp
  then have r2: "runs E s0 (evs @ [e1]) (store_event E s1 d e1) ([] @ (a, d, e1, True) # [])" by (rule run_write)
  obtain s3 where p: "store_cache_page E (store_event E s1 d e1) (st_pages (store_event E s1 d e1) ! a) = Inr s3"
    using page_succeeds [OF runs_inv [OF r2 s0(1)]] by blast
  have r3: "runs E s0 (evs @ [e1]) (queue_put e1 s3) ([] @ [])" using r2 p by (rule run_page)
  have "add_event E s now e src = (queue_put e1 s3, e1, Inr ())" using assms(3) l p by (simp add: add_event_def)
  moreover have "st_secrets (queue_put e1 s3) = []"
    using secrets_page [OF p] add_locked_ok(3) [OF l] sec by (simp add: queue_put_def store_event_def)
  ultimately show ?thesis using r3 s0(1,2) unfolding e1_def [symmetric] by (auto simp: holds_events_def)
qed

lemma holds_search:
  assumes "holds_events E s evs"
  shows "search_events E s (\<lambda>_. True) a b rv flt None =
    (filter (included E flt) (List.map_filter (event_at 0 (\<lambda>_. None) evs)
       (if rv then rev [a..(case b of None \<Rightarrow> int (length evs) | Some k \<Rightarrow> k + 1) - 1]
        else [a..(case b of None \<Rightarrow> int (length evs) | Some k \<Rightarrow> k + 1) - 1])), None)"
proof -
  obtain s0 where s0: "opened E s0 (\<lambda>_. None)" "es_cur_id s0 = 0" "runs E s0 evs s []"
    using assms by (auto simp: holds_events_def)
  show ?thesis using stream_refines [OF s0(3,1) decoded_none, of a b rv flt None] s0(2)
    by (cases b) (simp_all add: search_spec_def take_limit_def)
qed

end

lemma event_at_snoc:
  "event_at 0 (\<lambda>_. None) (evs @ [e]) = (event_at 0 (\<lambda>_. None) evs)(int (length evs) := Some e)"
  by (auto simp: event_at_def fun_eq_iff nth_append)

lemma map_filter_none: "(\<And>x. x \<in> set xs \<Longrightarrow> f x = None) \<Longrightarrow> List.map_filter f xs = []"
  by (induction xs) (auto simp: List.map_filter_def)

lemma map_filter_cong: "(\<And>x. x \<in> set xs \<Longrightarrow> f x = g x) \<Longrightarrow> List.map_filter f xs = List.map_filter g xs"
  by (induction xs) (auto simp: List.map_filter_def)

lemma map_filter_append: "List.map_filter f (xs @ ys) = List.map_filter f xs @ List.map_filter f ys"
  by (simp add: List.map_filter_def)

lemma events_in_range:
  assumes "\<And>i. i < length evs \<Longrightarrow> ev_id (evs ! i) = int i"
  shows "List.map_filter (event_at 0 (\<lambda>_. None) evs) [a..b] = events_between evs a b"
  using assms
proof (induction evs rule: rev_induct)
  case Nil
  have "event_at 0 (\<lambda>_. None) [] i = None" for i by (simp add: event_at_def)
  then show ?case by (simp add: map_filter_none events_between_def)
next
  case (snoc e evs)
  let ?n = "int (length evs)" and ?f = "event_at 0 (\<lambda>_. None) evs"
  have e: "ev_id e = ?n" using snoc.prems [of "length evs"] by simp
  have "ev_id (evs ! i) = int i" if "i < length evs" for i
    using snoc.prems [of i] that by (simp add: nth_append)
  with snoc.IH have IH: "List.map_filter ?f [a..b] = events_between evs a b" by blast
  have none: "?f i = None" if "?n \<le> i" for i using that by (simp add: event_at_def)
  show ?case
  proof (cases "a \<le> ?n \<and> ?n \<le> b")
    case True
    then have "[a..b] = [a..?n - 1] @ ?n # [?n + 1..b]"
      using upto_split1 [of a ?n b] upto_split2 [of a ?n b] upto_rec1 [of ?n b] by auto
    moreover define g where "g = ?f(?n := Some e)"
    then have "List.map_filter g [a..?n - 1] = List.map_filter ?f [a..?n - 1]" "g ?n = Some e"
      "List.map_filter g [?n + 1..b] = []" "List.map_filter ?f (?n # [?n + 1..b]) = []"
      using none by (auto intro!: map_filter_cong map_filter_none)
    ultimately show ?thesis
      using IH True e unfolding event_at_snoc g_def [symmetric]
      by (simp add: map_filter_append events_between_def map_filter_simps)
  next
    case False
    then have "List.map_filter (?f(?n := Some e)) [a..b] = List.map_filter ?f [a..b]" by (intro map_filter_cong) auto
    with IH False e show ?thesis unfolding event_at_snoc by (auto simp add: events_between_def simp del: fun_upd_apply)
  qed
qed

lemma no_filter: "filter_include lower dump
   \<lparr>ef_exclude_hidden = False, ef_query = None, ef_include_types = None, ef_exclude_types = None, ef_source = None,
    ef_start_date = None, ef_end_date = None\<rparr> e"
  by (simp add: filter_include_def set_text_def)

lemma included_some: "included (memory_env C lower dump) (Some flt) = filter_include lower dump flt"
  by (simp add: fun_eq_iff included_def memory_env_def)

lemma subscribe_secrets:
  "st_secrets (fst (subscribe k c s)) = st_secrets s" "st_secrets (unsubscribe k c s) = st_secrets s"
  by (auto simp: subscribe_def unsubscribe_def clean_up_subscriber_def Let_def)

interpretation fresh_stream: controller_stream "stream_ops_of (memory_env C lower dump) clock" "holds_events (memory_env C lower dump)"
  "storable C" "filter_include lower dump"
proof
  fix s evs e src a b flt c i
  assume h: "holds_events (memory_env C lower dump) s evs"
  note ids = jm.holds_ids [OF h]
  show "i < length evs \<Longrightarrow> ev_id (evs ! i) = int i" by (rule ids)
  show "so_latest (stream_ops_of (memory_env C lower dump) clock) s = int (length evs) - 1"
    using jm.holds_length [OF h] by (simp add: stream_ops_of_def get_latest_event_id_def)
  show "\<exists>s' e'. so_add (stream_ops_of (memory_env C lower dump) clock) e src s = (s', e', Inr ()) \<and>
      holds_events (memory_env C lower dump) s' (evs @ [e']) \<and> same_event e e' \<and> ev_id e' = int (length evs) \<and> ev_source e' = Some src"
    if "storable C e" "ev_id e = INVALID_ID"
  proof -
    have "storable (se_codec (memory_env C lower dump)) e" using that(1) by simp
    from jm.holds_add [OF h this that(2), of "clock s" src] obtain s' where
      "add_event (memory_env C lower dump) s (clock s) e src =
        (s', e\<lparr>ev_id := int (length evs), ev_timestamp := Some (clock s), ev_source := Some src\<rparr>, Inr ())"
      "holds_events (memory_env C lower dump) s'
        (evs @ [e\<lparr>ev_id := int (length evs), ev_timestamp := Some (clock s), ev_source := Some src\<rparr>])" by blast
    then show ?thesis by (auto simp: stream_ops_of_def same_event_def)
  qed
  show "so_events (stream_ops_of (memory_env C lower dump) clock) a False s = (filter (\<lambda>e. a \<le> ev_id e) evs, None)"
  proof -
    have "events_between evs a (int (length evs) - 1) = filter (\<lambda>e. a \<le> ev_id e) evs"
      using ids by (auto simp: events_between_def in_set_conv_nth intro!: filter_cong)
    then show ?thesis
      by (simp add: stream_ops_of_def get_events_def jm.holds_search [OF h] events_in_range [OF ids] included_def no_filter)
  qed
  show "so_search (stream_ops_of (memory_env C lower dump) clock) a b flt s =
      (filter (filter_include lower dump flt) (events_between evs a b), None)"
    by (simp add: stream_ops_of_def jm.holds_search [OF h] events_in_range [OF ids] included_some)
  show "holds_events (memory_env C lower dump) (fst (so_subscribe (stream_ops_of (memory_env C lower dump) clock) c s)) evs"
    using run_join [of "memory_env C lower dump" _ evs s "[]" "''agent_controller''" c] subscribe_secrets(1) [of "''agent_controller''" c s]
    by (intro holds_events_same [OF h]) (auto simp: stream_ops_of_def split: prod.splits)
  show "holds_events (memory_env C lower dump) (so_unsubscribe (stream_ops_of (memory_env C lower dump) clock) c s) evs"
    by (rule holds_events_same [OF h]) (auto simp: stream_ops_of_def subscribe_secrets intro: run_leave)
qed

end
