(* ===== verification/ControllerProps.thy ===== *)
theory ControllerProps
  imports ControllerStream
begin

text \<open>
  Properties of the agent controller: the bound on the steps of a headless run, what happens to
  the events and the costs of delegates, the confirmation of actions, and which exceptions leave
  the callback. What the controller needs of the stream is an interface (\<open>controller_stream\<close>) that
  the event stream implements.
\<close>

section \<open>Following the operations\<close>

lemma and_then_simps [simp]:
  "and_then (give x) f w = f x w" "and_then (raise e) f w = raise e w" "and_then (modify g) f w = f () (g w)"
  by (simp_all add: and_then_def give_def raise_def modify_def)

lemma give_simps [simp]: "fst (give x w) = w" "snd (give x w) = Inr x" "fst (raise e w) = w" "snd (raise e w) = Inl e"
  "fst (modify g w) = g w" "snd (modify g w) = Inr ()"
  by (simp_all add: give_def raise_def modify_def)

lemma fst_and_then:
  "P (fst (m w)) \<Longrightarrow> (\<And>x w'. m w = (w', Inr x) \<Longrightarrow> P w' \<Longrightarrow> P (fst (f x w'))) \<Longrightarrow> P (fst (and_then m f w))"
  by (auto simp: and_then_def split: prod.splits sum.splits)

lemma fst_catch:
  "P (fst (m w)) \<Longrightarrow> (\<And>e w'. m w = (w', Inl e) \<Longrightarrow> P w' \<Longrightarrow> P (fst (h e w'))) \<Longrightarrow> P (fst (catch m h w))"
  by (auto simp: catch_def split: prod.splits sum.splits)

lemma upd_simps [simp]:
  "wd_self (upd_self f w) = f (wd_self w)" "wd_delegates (upd_self f w) = wd_delegates w"
  "wd_metrics (upd_self f w) = wd_metrics w" "wd_stream (upd_self f w) = wd_stream w" "wd_status (upd_self f w) = wd_status w"
  "wd_self (upd_state g w) = (wd_self w)\<lparr>ct_state := g (ct_state (wd_self w))\<rparr>" "wd_delegates (upd_state g w) = wd_delegates w"
  "wd_metrics (upd_state g w) = wd_metrics w" "wd_stream (upd_state g w) = wd_stream w" "wd_status (upd_state g w) = wd_status w"
  "wd_self (set_pending_action a w) = (wd_self w)\<lparr>ct_pending_action := a\<rparr>"
  "wd_delegates (set_pending_action a w) = wd_delegates w" "wd_metrics (set_pending_action a w) = wd_metrics w"
  "wd_stream (set_pending_action a w) = wd_stream w"
  by (simp_all add: upd_state_def upd_self_def set_pending_action_def)

lemma merge_simps [simp]:
  "wd_self (merge_local_metrics w) = wd_self w" "wd_delegates (merge_local_metrics w) = wd_delegates w"
  "wd_stream (merge_local_metrics w) = wd_stream w"
  "wd_metrics (merge_local_metrics w) = merge_metrics (wd_metrics w) (cs_local_metrics (state_of w))"
  by (simp_all add: merge_local_metrics_def)

lemma stream_add_simps [simp]:
  "wd_self (fst (stream_add E e src w)) = wd_self w" "wd_delegates (fst (stream_add E e src w)) = wd_delegates w"
  "wd_metrics (fst (stream_add E e src w)) = wd_metrics w"
  "wd_delegates (fst (stream_add_pending E e src w)) = wd_delegates w"
  "wd_metrics (fst (stream_add_pending E e src w)) = wd_metrics w"
  "wd_self (fst (stream_add_pending E e src w)) =
     (wd_self w)\<lparr>ct_pending_action := Some (fst (snd (so_add (en_stream E) e src (wd_stream w))))\<rparr>"
  by (simp_all add: stream_add_def stream_add_pending_def split: prod.splits)

lemma first_in_stream_world [simp]: "fst (first_in_stream E a r P w) = w"
  by (auto simp: first_in_stream_def split: prod.splits option.splits)

section \<open>A controller for examples\<close>

text \<open>An agent that thinks, known by the metrics of its model, on an event stream in memory.\<close>

definition thinking_agent :: "metrics agent_ops" where
  "thinking_agent =
     \<lparr>ag_name = (\<lambda>_. ''demo''), ag_step = (\<lambda>s a. (a, cs_extra_data s, Inr (Some (new_event (AgentThinkAction ''x''))))),
      ag_reset = reset_metrics, ag_metrics = (\<lambda>m. m), ag_set_metrics = (\<lambda>m _. m), ag_condenser_metrics = (\<lambda>_. None),
      ag_system_message = (\<lambda>_. None), ag_delegate = (\<lambda>_ _. Inl \<lparr>ex_class = ''AgentNotRegisteredError'', ex_text = []\<rparr>),
      ag_strict_loop_detector = (\<lambda>_. False), ag_enable_history_truncation = (\<lambda>_. True)\<rparr>"

definition demo_controllers :: "(json files event_stream, metrics) env" where
  "demo_controllers =
     \<lparr>en_stream = stream_ops_of demo_env (\<lambda>_. ''t0''), en_agent = thinking_agent, en_isa = (=), en_lower = (\<lambda>s. s),
      en_two_decimals = (\<lambda>_. []), en_render = (\<lambda>_. [])\<rparr>"

definition demo_controller :: "metrics controller" where
  "demo_controller =
     (blank_controller ''s'' (new_metrics ''m'') 10 None False True False None)
       \<lparr>ct_state := (new_ctl_state ''s'')\<lparr>cs_max_iterations := 10, cs_agent_state := RUNNING, cs_start_id := 0\<rparr>\<rparr>"

definition demo_world :: "metrics controller list \<Rightarrow> (json files event_stream, metrics) world" where
  "demo_world ds =
     \<lparr>wd_stream = empty_stream 25, wd_metrics = new_metrics ''default'', wd_status = [], wd_self = demo_controller, wd_delegates = ds\<rparr>"

lemmas demo_defs = demo_world_def demo_controller_def blank_controller_def new_ctl_state_def demo_controllers_def thinking_agent_def

section \<open>The bound on the steps of a headless run\<close>

text \<open>A controller that no state change has paused.\<close>

definition capped :: "int \<Rightarrow> 'a controller \<Rightarrow> bool" where
  "capped M c \<longleftrightarrow>
     ct_headless_mode c \<and> cs_max_iterations (ct_state c) = M \<and> cs_iteration (ct_state c) \<le> M \<and>
     cs_traffic (ct_state c) \<noteq> TC_PAUSED \<and> cs_agent_state (ct_state c) \<noteq> PAUSED"

definition all_capped :: "int \<Rightarrow> ('s, 'a) world \<Rightarrow> bool" where
  "all_capped M w \<longleftrightarrow> capped M (wd_self w) \<and> list_all (capped M) (wd_delegates w)"

lemmas capped_then = fst_and_then [where P = "all_capped M" for M]
lemmas capped_catch = fst_catch [where P = "all_capped M" for M]

lemma capped_upd [simp]:
  "capped M (c\<lparr>ct_pending_action := a\<rparr>) = capped M c" "capped M (c\<lparr>ct_agent := g\<rparr>) = capped M c"
  "capped M (c\<lparr>ct_replay_manager := rm\<rparr>) = capped M c" "capped M (c\<lparr>ct_closed := b\<rparr>) = capped M c"
  "capped M (c\<lparr>ct_first_user_message := m\<rparr>) = capped M c"
  "capped M (c\<lparr>ct_max_budget_per_task := x\<rparr>) = capped M c"
  by (simp_all add: capped_def)

lemma all_capped_frame [simp]:
  "all_capped M (fst (stream_add E e src w)) = all_capped M w"
  "all_capped M (fst (stream_add_pending E e src w)) = all_capped M w"
  "all_capped M (merge_local_metrics w) = all_capped M w"
  "all_capped M (update_state_after_step E w) = all_capped M w"
  "all_capped M (set_pending_action a w) = all_capped M w"
  by (simp_all add: all_capped_def update_state_after_step_def capped_def)

lemma capped_reset [simp]: "all_capped M (fst (reset E w)) = all_capped M w"
proof -
  have "wd_delegates (fst (reset E w)) = wd_delegates w \<and> capped M (wd_self (fst (reset E w))) = capped M (wd_self w)"
    by (auto simp: reset_def and_then_def modify_def give_def stream_add_def split: prod.splits sum.splits option.splits if_splits)
  then show ?thesis by (simp add: all_capped_def)
qed

lemma capped_enter [simp]: "target \<noteq> PAUSED \<Longrightarrow> all_capped M w \<Longrightarrow> all_capped M (fst (enter_state E target w))"
  by (simp add: enter_state_def Let_def all_capped_def capped_def)

lemma capped_effects [simp]: "all_capped M w \<Longrightarrow> all_capped M (fst (state_effects E target w))"
  by (auto simp: state_effects_def all_capped_def [of M w] capped_def get_agent_state_def split: option.split)

lemma capped_set_agent_state [simp]:
  "target \<noteq> PAUSED \<Longrightarrow> all_capped M w \<Longrightarrow> all_capped M (fst (set_agent_state_to E target w))"
  unfolding set_agent_state_to_def by (auto intro!: capped_then)

lemma capped_state [simp]:
  "all_capped M (upd_state (\<lambda>s. s\<lparr>cs_last_error := x\<rparr>) w) = all_capped M w"
  "all_capped M (upd_state (\<lambda>s. s\<lparr>cs_outputs := o'\<rparr>) w) = all_capped M w"
  "all_capped M (upd_state (\<lambda>s. s\<lparr>cs_history := f s\<rparr>) w) = all_capped M w"
  "all_capped M (upd_state (\<lambda>s. s\<lparr>cs_history := h, cs_start_id := i\<rparr>) w) = all_capped M w"
  "all_capped M (w\<lparr>wd_status := y\<rparr>) = all_capped M w"
  "all_capped M (w\<lparr>wd_stream := z\<rparr>) = all_capped M w"
  by (simp_all add: all_capped_def capped_def)

lemma capped_self [simp]:
  "all_capped M w \<Longrightarrow> (\<And>c. capped M (f c) = capped M c) \<Longrightarrow> all_capped M (upd_self f w)"
  by (simp add: all_capped_def)

lemma capped_react [simp]: "all_capped M w \<Longrightarrow> all_capped M (fst (react_to_exception E e w))"
  by (simp add: react_to_exception_def Let_def split: option.split)

lemma capped_traffic:
  assumes "all_capped M w"
  shows "all_capped M (fst (handle_traffic_control E l a b w))"
    and "snd (handle_traffic_control E l a b w) \<noteq> Inr False"
proof -
  have w: "cs_traffic (state_of w) \<noteq> TC_PAUSED" using assms by (simp add: all_capped_def capped_def)
  have t: "all_capped M (upd_state (\<lambda>s. s\<lparr>cs_traffic := TC_THROTTLING\<rparr>) w)" using assms by (simp add: all_capped_def capped_def)
  show "all_capped M (fst (handle_traffic_control E l a b w))"
    using w t by (auto simp: handle_traffic_control_def intro!: capped_then)
  show "snd (handle_traffic_control E l a b w) \<noteq> Inr False"
    using w by (auto simp: handle_traffic_control_def and_then_def give_def split: prod.splits sum.splits)
qed

lemma capped_limits:
  assumes "all_capped M w"
  shows "all_capped M (fst (iteration_limit E w))" and "all_capped M (fst (budget_limit E stop w))"
    and "iteration_limit E w = (w', Inr False) \<Longrightarrow> w' = w \<and> cs_iteration (state_of w) < M"
    and "budget_limit E stop w = (w', Inr False) \<Longrightarrow> w' = w \<and> \<not> stop"
proof -
  show "all_capped M (fst (iteration_limit E w))" "all_capped M (fst (budget_limit E stop w))"
    using assms by (auto simp: iteration_limit_def budget_limit_def capped_traffic split: option.split)
  have never: "handle_traffic_control E l a b w \<noteq> (w', Inr False)" for l a b
    using capped_traffic(2) [OF assms, of E l a b] by auto
  show "iteration_limit E w = (w', Inr False) \<Longrightarrow> w' = w \<and> cs_iteration (state_of w) < M"
    using never assms by (auto simp: iteration_limit_def all_capped_def capped_def give_def split: if_splits)
  show "budget_limit E stop w = (w', Inr False) \<Longrightarrow> w' = w \<and> \<not> stop"
    using never by (auto simp: budget_limit_def give_def split: if_splits option.splits)
qed

lemma capped_first_message [simp]: "all_capped M w \<Longrightarrow> all_capped M (fst (first_user_message E w))"
  unfolding first_user_message_def by (auto intro!: capped_then)

lemma capped_long_context [simp]: "all_capped M w \<Longrightarrow> all_capped M (fst (long_context E w))"
  unfolding long_context_def Let_def by (auto intro!: capped_then split: sum.split)

lemma capped_agent_failed [simp]: "all_capped M w \<Longrightarrow> all_capped M (fst (agent_failed E e w))"
  by (simp add: agent_failed_def)

lemma capped_agent_step [simp]: "all_capped M w \<Longrightarrow> all_capped M (fst (agent_step E w))"
  by (auto simp: agent_step_def Let_def capped_def split: prod.split sum.split option.split)

lemma capped_next_action [simp]: "all_capped M w \<Longrightarrow> all_capped M (fst (next_action E w))"
  unfolding next_action_def Let_def
  by (auto intro!: capped_then capped_catch split: prod.split bool.split sum.split)

lemma capped_publish [simp]: "all_capped M w \<Longrightarrow> all_capped M (fst (publish_action E a w))"
  unfolding publish_action_def Let_def by (auto intro!: capped_then split: option.split)

lemma capped_step [simp]:
  assumes "all_capped M w"
  shows "all_capped M (fst (step E w))"
proof -
  have go: "all_capped M (fst (and_then (next_action E)
      (\<lambda>a. case a of None \<Rightarrow> give () | Some action \<Rightarrow> and_then (publish_action E action) (\<lambda>_. modify (update_state_after_step E)))
      (update_state_before_step w)))" if "cs_iteration (state_of w) < M"
  proof -
    have "all_capped M (update_state_before_step w)"
      using assms that by (simp add: update_state_before_step_def all_capped_def capped_def)
    then show ?thesis by (auto intro!: capped_then split: option.split)
  qed
  have passed: "cs_iteration (state_of w) < M \<and> w'' = w"
    if i: "iteration_limit E w = (w', Inr stop)" and b: "budget_limit E stop w' = (w'', Inr False)" for w' w'' stop
  proof -
    have "all_capped M w'" using capped_limits(1) [OF assms, of E] i by simp
    then have "w'' = w' \<and> \<not> stop" using capped_limits(4) b by blast
    then show ?thesis using capped_limits(3) [OF assms] i by auto
  qed
  show ?thesis
    unfolding step_def using assms
    apply (simp add: get_agent_state_def)
    apply (intro impI capped_then)
      apply (rule capped_limits(1), assumption)
     apply (rule capped_limits(2), assumption)
    subgoal for stop w' stop' w'' using passed [of w' stop w''] go by (cases stop') auto
    done
qed

lemma capped_handled_step [simp]: "all_capped M w \<Longrightarrow> all_capped M (fst (step_with_exception_handling E w))"
  unfolding step_with_exception_handling_def by (auto intro!: capped_catch)

lemma capped_message [simp]: "all_capped M w \<Longrightarrow> all_capped M (fst (handle_message_action E a content wait w))"
proof -
  assume w: "all_capped M w"
  then have "ct_headless_mode (wd_self w)" by (simp add: all_capped_def capped_def)
  with w show ?thesis unfolding handle_message_action_def request_recall_def extend_limits_def Let_def by (auto intro!: capped_then)
qed

lemma capped_observed [simp]: "all_capped M (merge_observed_metrics E ob w) = all_capped M w"
  by (simp add: merge_observed_metrics_def all_capped_def split: option.split sum.split)

lemma capped_observation [simp]: "all_capped M w \<Longrightarrow> all_capped M (fst (handle_observation E ob w))"
  unfolding handle_observation_def Let_def by (auto intro!: capped_then)

lemma capped_finish [simp]: "target \<noteq> PAUSED \<Longrightarrow> all_capped M w \<Longrightarrow> all_capped M (fst (finish_with E outs target w))"
  by (simp add: finish_with_def)

lemma capped_on_delegate:
  assumes "\<And>w. all_capped M w \<Longrightarrow> all_capped M (fst (f w))" and "all_capped M w"
  shows "all_capped M (fst (on_delegate f w))"
proof (cases "wd_delegates w")
  case (Cons d ds)
  with assms(2) have "all_capped M (w\<lparr>wd_self := d, wd_delegates := ds\<rparr>)" by (simp add: all_capped_def)
  then have "all_capped M (fst (f (w\<lparr>wd_self := d, wd_delegates := ds\<rparr>)))" by (rule assms(1))
  with assms(2) Cons show ?thesis by (auto simp: on_delegate_def all_capped_def split: prod.splits)
qed (use assms(2) in \<open>simp add: on_delegate_def\<close>)

lemma capped_restore [simp]: "all_capped M w \<Longrightarrow> all_capped M (fst (restore_history E w))"
  by (auto simp: restore_history_def Let_def split: option.split prod.split)

lemma capped_system_message [simp]: "all_capped M w \<Longrightarrow> all_capped M (fst (add_system_message E w))"
  unfolding add_system_message_def by (auto intro!: capped_then split: option.split payload.split)

lemma init_delegate:
  "ct_is_delegate (wd_self w) \<Longrightarrow>
   init_controller E st n conf w = and_then (set_initial_state E st n conf) (\<lambda>_. add_system_message E) w"
  by (simp add: init_controller_def and_then_def give_def)

lemma capped_start_delegate [simp]:
  assumes "all_capped M w"
  shows "all_capped M (fst (start_delegate E name inputs w))"
proof (cases "ag_delegate (en_agent E) name (ct_agent (wd_self w))")
  case (Inr agent)
  define c where "c = blank_controller (ct_id (wd_self w) @ ''-delegate'') agent (cs_max_iterations (state_of w))
    (ct_max_budget_per_task (wd_self w)) True (ct_headless_mode (wd_self w)) False None"
  define w1 where "w1 = w\<lparr>wd_self := c, wd_delegates := []\<rparr>"
  define s where "s = delegate_state E inputs w"
  have d: "ct_is_delegate c" by (simp add: c_def blank_controller_def)
  have "all_capped M (upd_self (\<lambda>c. c\<lparr>ct_state := (if cs_start_id s \<le> - 1 then s\<lparr>cs_start_id := 0\<rparr> else s)\<rparr>) w1)"
    using assms by (auto simp: w1_def c_def s_def all_capped_def capped_def blank_controller_def delegate_state_def new_ctl_state_def)
  then have "all_capped M (fst (init_controller E (Some s) (cs_max_iterations (state_of w)) False w1))"
    using d init_delegate [of w1] by (auto simp: w1_def set_initial_state_def intro!: capped_then)
  with assms Inr show ?thesis
    by (auto simp: start_delegate_def Let_def c_def [symmetric] s_def [symmetric] w1_def [symmetric] all_capped_def split: prod.splits sum.splits)
qed (use assms in \<open>simp add: start_delegate_def\<close>)

lemma capped_action [simp]:
  assumes "all_capped M w" and "\<And>t th. ev_payload a \<noteq> ChangeAgentStateAction t th"
  shows "all_capped M (fst (handle_action E a w))"
  unfolding handle_action_def using assms
  by (auto intro!: capped_then capped_on_delegate split: payload.split option.split json.split)

lemma capped_own_event:
  "all_capped M w \<Longrightarrow> (\<And>t th. ev_payload e \<noteq> ChangeAgentStateAction t th) \<Longrightarrow> all_capped M (fst (on_own_event E e w))"
  unfolding on_own_event_def Let_def by (auto intro!: capped_then)

lemma capped_close [simp]: "all_capped M w \<Longrightarrow> all_capped M (fst (close E stop w))"
  unfolding close_def Let_def by (auto intro!: capped_then split: prod.split option.split)

lemma on_delegate_self [simp]: "wd_self (fst (on_delegate f w)) = wd_self w"
  by (auto simp: on_delegate_def split: list.split prod.split)

lemma capped_end_delegate [simp]:
  assumes "all_capped M w"
  shows "all_capped M (fst (end_delegate E w))"
proof (cases "wd_delegates w")
  case (Cons d ds)
  with assms have "all_capped M (upd_state (\<lambda>s. s\<lparr>cs_iteration := cs_iteration (ct_state d)\<rparr>) w)"
    by (simp add: all_capped_def capped_def)
  then have closed_ok: "all_capped M (fst (on_delegate (close E True) (upd_state (\<lambda>s. s\<lparr>cs_iteration := cs_iteration (ct_state d)\<rparr>) w)))"
    by (intro capped_on_delegate) simp_all
  have last_part: "all_capped M w' \<Longrightarrow> all_capped M (fst (and_then (stream_add E e src) (\<lambda>_. modify (\<lambda>w. w\<lparr>wd_delegates := []\<rparr>)) w'))"
    for w' :: "('a, 'b) world" and e src by (rule capped_then) (auto simp: all_capped_def)
  show ?thesis
    using Cons closed_ok last_part unfolding end_delegate_def by (auto intro!: capped_then simp: Let_def split: list.split)
qed (use assms in \<open>simp add: end_delegate_def\<close>)

lemma capped_event:
  "all_capped M w \<Longrightarrow> (\<And>t th. ev_payload e \<noteq> ChangeAgentStateAction t th) \<Longrightarrow> all_capped M (fst (on_event E e w))"
  by (auto simp: on_event_def capped_own_event intro!: capped_on_delegate split: list.split)

text \<open>
  The events the stream delivers, one after the other; an exception in a callback ends the callback
  and not the stream.
\<close>

fun run_events :: "('s, 'a) env \<Rightarrow> event list \<Rightarrow> ('s, 'a) world \<Rightarrow> ('s, 'a) world" where
  "run_events E [] w = w"
| "run_events E (e # es) w = run_events E es (fst (on_event E e w))"

definition no_state_change :: "event \<Rightarrow> bool" where
  "no_state_change e = (case ev_payload e of ChangeAgentStateAction _ _ \<Rightarrow> False | _ \<Rightarrow> True)"

lemma capped_run: "all_capped M w \<Longrightarrow> list_all no_state_change es \<Longrightarrow> all_capped M (run_events E es w)"
proof (induction es arbitrary: w)
  case (Cons e es)
  then have "all_capped M (fst (on_event E e w))" by (intro capped_event) (auto simp: no_state_change_def split: payload.splits)
  with Cons show ?case by simp
qed simp

text \<open>
  Property C27. A headless run takes at most as many steps as its limit allows: whatever the agent,
  the stream, the user and the delegates do, as long as nobody changes the state of the agent by
  an action, the iteration count of every controller of the chain stays within the maximum, and
  the maximum itself does not change.
\<close>

theorem headless_steps_bounded:
  assumes "ct_headless_mode (wd_self w)" and "wd_delegates w = []" and "cs_iteration (state_of w) \<le> cs_max_iterations (state_of w)"
    and "cs_traffic (state_of w) = TC_NORMAL" and "cs_agent_state (state_of w) \<noteq> PAUSED"
    and "list_all no_state_change es"
  shows "\<forall>c \<in> set (wd_self (run_events E es w) # wd_delegates (run_events E es w)).
           cs_iteration (ct_state c) \<le> cs_max_iterations (state_of w) \<and>
           cs_max_iterations (ct_state c) = cs_max_iterations (state_of w)"
proof -
  have "all_capped (cs_max_iterations (state_of w)) w" using assms by (simp add: all_capped_def capped_def)
  from capped_run [OF this assms(6), of E] show ?thesis by (auto simp: all_capped_def capped_def list_all_iff)
qed

theorem headless_steps_bounded_witness:
  "cs_iteration (state_of (run_events demo_controllers [demo_event, demo_event] (demo_world []))) \<le> 10"
proof -
  have "list_all no_state_change [demo_event, demo_event]"
    by (simp add: no_state_change_def demo_event_def think_event_def think_def stamp_def new_event_def)
  then show ?thesis using headless_steps_bounded [of "demo_world []" "[demo_event, demo_event]" demo_controllers] by (simp add: demo_defs)
qed


section \<open>The costs of delegates\<close>

lemmas metrics_then = fst_and_then [where P = "\<lambda>w. wd_metrics w = m" for m]

lemma metrics_reset [simp]: "wd_metrics (fst (reset E w)) = wd_metrics w"
  unfolding reset_def by (rule metrics_then) (auto split: option.split)

lemma metrics_after_step [simp]:
  "wd_metrics (update_state_after_step E w) = wd_metrics w" "wd_metrics (resume_limits w) = wd_metrics w"
  "cs_local_metrics (state_of (update_state_after_step E w)) = ag_metrics (en_agent E) (ct_agent (wd_self w))"
  by (auto simp: update_state_after_step_def resume_limits_def Let_def split: option.split)

lemma metrics_effects:
  "wd_metrics (fst (state_effects E target w)) =
     (if target \<in> {STOPPED, ERROR} then merge_metrics (wd_metrics w) (ag_metrics (en_agent E) (ct_agent (wd_self w)))
      else wd_metrics w)"
  by (auto simp: state_effects_def split: option.split)

lemma metrics_set_state:
  "wd_metrics (fst (set_agent_state_to E target w)) =
     (if target \<in> {STOPPED, ERROR} \<and> target \<noteq> get_agent_state w
      then merge_metrics (wd_metrics w) (ag_metrics (en_agent E) (ct_agent (wd_self w))) else wd_metrics w)"
proof -
  have "wd_metrics (fst (and_then (state_effects E target) (\<lambda>_. enter_state E target) w)) = wd_metrics (fst (state_effects E target w))"
    by (rule metrics_then) (auto simp: enter_state_def Let_def)
  then show ?thesis unfolding set_agent_state_to_def by (simp add: metrics_effects)
qed

lemma metrics_close: "wd_metrics (fst (close E True w)) = wd_metrics (fst (set_agent_state_to E STOPPED w))"
  unfolding close_def Let_def by (simp, rule metrics_then) (auto split: prod.split option.split)

lemma on_delegate_metrics:
  "wd_delegates w = d # ds \<Longrightarrow> wd_metrics (fst (on_delegate f w)) = wd_metrics (fst (f (w\<lparr>wd_self := d, wd_delegates := ds\<rparr>)))"
  by (simp add: on_delegate_def split: prod.split)

lemma metrics_last_part:
  "wd_metrics (fst (and_then (stream_add E e src) (\<lambda>_. modify (\<lambda>w. w\<lparr>wd_delegates := []\<rparr>)) w)) = wd_metrics w"
  by (rule metrics_then) auto

lemma metrics_end_delegate:
  assumes "wd_delegates w = d # ds"
  shows "wd_metrics (fst (end_delegate E w)) =
    wd_metrics (fst (close E True (w\<lparr>wd_self := d, wd_delegates := ds\<rparr>)))"
proof -
  have "wd_metrics (fst (end_delegate E w)) =
      wd_metrics (fst (on_delegate (close E True) (upd_state (\<lambda>s. s\<lparr>cs_iteration := cs_iteration (ct_state d)\<rparr>) w)))"
    using assms unfolding end_delegate_def by (simp, intro metrics_then) (auto simp: Let_def metrics_last_part split: list.split)
  then show ?thesis using assms by (simp add: on_delegate_metrics metrics_close metrics_set_state get_agent_state_def)
qed

lemma finished_state:
  "target \<notin> {STOPPED, ERROR, RUNNING, USER_CONFIRMED, USER_REJECTED} \<Longrightarrow>
   wd_self (fst (set_agent_state_to E target w)) = (wd_self w)\<lparr>ct_state := (state_of w)\<lparr>cs_agent_state := target\<rparr>\<rparr>"
  by (auto simp: set_agent_state_to_def state_effects_def enter_state_def get_agent_state_def and_then_def give_def Let_def
      split: option.splits)

lemma finished_delegates:
  "target \<notin> {STOPPED, ERROR, RUNNING, USER_CONFIRMED, USER_REJECTED} \<Longrightarrow>
   wd_delegates (fst (set_agent_state_to E target w)) = wd_delegates w"
  by (auto simp: set_agent_state_to_def state_effects_def enter_state_def and_then_def give_def Let_def split: option.splits)

lemma own_finish:
  assumes "ev_payload e = AgentFinishAction th tc outs t"
  shows "wd_metrics (fst (on_own_event E e w)) = merge_metrics (wd_metrics w) (cs_local_metrics (state_of w))"
    and "ct_agent (wd_self (fst (on_own_event E e w))) = ct_agent (wd_self w)"
    and "cs_agent_state (state_of (fst (on_own_event E e w))) = FINISHED"
    and "cs_outputs (state_of (fst (on_own_event E e w))) = outs"
proof -
  have k: "\<not> hidden e" "is_action e" "\<not> should_step e w'" for w' :: "('a, 'b) world"
    using assms by (simp_all add: hidden_def is_action_def should_step_def is_user_message_def is_message_def)
  define w1 where "w1 = (if filter_include (en_lower E) (\<lambda>_. []) agent_history_filter e
    then upd_state (\<lambda>s. s\<lparr>cs_history := cs_history s @ [e]\<rparr>) w else w)"
  have w1: "wd_metrics w1 = wd_metrics w" "ct_agent (wd_self w1) = ct_agent (wd_self w)"
    "cs_local_metrics (state_of w1) = cs_local_metrics (state_of w)"
    by (simp_all add: w1_def)
  have r: "fst (on_own_event E e w) = fst (finish_with E outs FINISHED w1)"
    using k assms unfolding on_own_event_def Let_def w1_def [symmetric]
    by (auto simp: handle_action_def and_then_def give_def split: prod.split sum.split)
  show "wd_metrics (fst (on_own_event E e w)) = merge_metrics (wd_metrics w) (cs_local_metrics (state_of w))"
    "ct_agent (wd_self (fst (on_own_event E e w))) = ct_agent (wd_self w)"
    "cs_agent_state (state_of (fst (on_own_event E e w))) = FINISHED"
    "cs_outputs (state_of (fst (on_own_event E e w))) = outs"
    using w1 by (simp_all add: r finish_with_def metrics_set_state finished_state)
qed

lemma on_delegate_head:
  "wd_delegates w = d # ds \<Longrightarrow>
   wd_delegates (fst (on_delegate f w)) = wd_self (fst (f (w\<lparr>wd_self := d, wd_delegates := ds\<rparr>))) #
     wd_delegates (fst (f (w\<lparr>wd_self := d, wd_delegates := ds\<rparr>)))"
  by (simp add: on_delegate_def split: prod.split)

text \<open>
  The cost of a delegate is counted twice. When a delegate finishes, the handler of
  the finish action adds its metrics to those of the task; at the next event, whatever it is, the
  parent ends the delegate by closing it, which stops it and adds the metrics of its model again.
  Whatever the stream does, the accumulated cost of the task, which the budget check reads, has
  grown by the cost of the delegate twice.
\<close>

theorem delegate_cost_counted_twice:
  assumes "wd_delegates w = d # ds" and "cs_agent_state (ct_state d) \<notin> {FINISHED, ERROR, REJECTED}"
    and "cs_local_metrics (ct_state d) = ag_metrics (en_agent E) (ct_agent d)"
    and "ev_payload e = AgentFinishAction th tc outs t"
  shows "mt_accumulated_cost (wd_metrics (fst (on_event E e' (fst (on_event E e w))))) =
           mt_accumulated_cost (wd_metrics w) + 2 * mt_accumulated_cost (ag_metrics (en_agent E) (ct_agent d))"
proof -
  define w1 where "w1 = fst (on_event E e w)"
  define wd where "wd = w\<lparr>wd_self := d, wd_delegates := ds\<rparr>"
  note f = own_finish [OF assms(4), of E wd]
  have ev: "w1 = fst (on_delegate (on_own_event E e) w)" using assms(1,2) by (simp add: w1_def on_event_def)
  have m: "wd_metrics w1 = merge_metrics (wd_metrics w) (ag_metrics (en_agent E) (ct_agent d))"
    using assms(1,3) f(1) by (simp add: ev on_delegate_metrics wd_def [symmetric]) (simp add: wd_def)
  obtain d1 ds1 where d1: "wd_delegates w1 = d1 # ds1" "ct_agent d1 = ct_agent d" "cs_agent_state (ct_state d1) = FINISHED"
    using on_delegate_head [OF assms(1), of "on_own_event E e"] f(2,3) by (simp add: ev wd_def)
  have "fst (on_event E e' w1) = fst (end_delegate E w1)" using d1 by (simp add: on_event_def)
  then have "wd_metrics (fst (on_event E e' w1)) = merge_metrics (wd_metrics w1) (ag_metrics (en_agent E) (ct_agent d))"
    using d1 by (simp add: metrics_end_delegate metrics_close metrics_set_state get_agent_state_def)
  then show ?thesis unfolding w1_def [symmetric] by (simp add: m merge_metrics_def)
qed

theorem delegate_cost_counted_twice_witness:
  "mt_accumulated_cost (wd_metrics (fst (on_event demo_controllers demo_event
     (fst (on_event demo_controllers (new_event (AgentFinishAction [] None [] []))
       (demo_world [demo_controller\<lparr>ct_agent := (new_metrics ''m'')\<lparr>mt_accumulated_cost := 3\<rparr>,
          ct_state := (ct_state demo_controller)\<lparr>cs_local_metrics := (new_metrics ''m'')\<lparr>mt_accumulated_cost := 3\<rparr>\<rparr>\<rparr>])))))) = 6"
  by (subst delegate_cost_counted_twice) (auto simp: demo_defs new_event_def new_metrics_def)


section \<open>Delegates of delegates\<close>

text \<open>What an event leaves unchanged when the controller that handles it has a delegate itself.\<close>

definition still :: "'a controller list \<Rightarrow> int \<Rightarrow> ('s, 'a) world \<Rightarrow> bool" where
  "still D n w \<longleftrightarrow>
     wd_delegates w = D \<and> cs_local_iteration (state_of w) = n \<and> cs_agent_state (state_of w) \<notin> {FINISHED, ERROR, REJECTED}"

lemmas still_then = fst_and_then [where P = "still D n" for D n]

lemma still_frame [simp]:
  "still D n (fst (stream_add E e src w)) = still D n w" "still D n (fst (stream_add_pending E e src w)) = still D n w"
  "still D n (set_pending_action a w) = still D n w" "still D n (merge_observed_metrics E ob w) = still D n w"
  "still D n (merge_local_metrics w) = still D n w" "still D n (upd_state (\<lambda>s. s\<lparr>cs_history := f s\<rparr>) w) = still D n w"
  "still D n (upd_self (\<lambda>c. c\<lparr>ct_first_user_message := m\<rparr>) w) = still D n w"
  "still D n (upd_state (\<lambda>s. s\<lparr>cs_max_iterations := g s, cs_traffic := h s\<rparr>) w) = still D n w"
  by (auto simp: still_def merge_observed_metrics_def split: option.split sum.split)

lemma still_resume: "still D n (resume_limits w) = still D n w"
  by (auto simp: still_def resume_limits_def Let_def split: option.split)

lemma still_set_state [simp]:
  assumes "target \<notin> {STOPPED, ERROR, FINISHED, REJECTED}" and "still D n w"
  shows "still D n (fst (set_agent_state_to E target w))"
proof -
  have "still D n (fst (state_effects E target w))"
    using assms by (auto simp: state_effects_def still_resume split: option.split)
  moreover have "still D n w' \<Longrightarrow> still D n (fst (enter_state E target w'))" for w'
    using assms(1) by (simp add: enter_state_def Let_def still_def)
  ultimately show ?thesis unfolding set_agent_state_to_def using assms(2) by (auto intro!: still_then)
qed

lemma still_observation [simp]: "still D n w \<Longrightarrow> still D n (fst (handle_observation E ob w))"
  unfolding handle_observation_def Let_def by (auto intro!: still_then)

lemma still_first_message [simp]: "still D n w \<Longrightarrow> still D n (fst (first_user_message E w))"
  unfolding first_user_message_def by (auto intro!: still_then)

lemma still_message [simp]: "still D n w \<Longrightarrow> still D n (fst (handle_message_action E a c wait w))"
  unfolding handle_message_action_def request_recall_def extend_limits_def Let_def
  by (auto intro!: still_then)

text \<open>The actions that start or end the work of an agent, or change its state.\<close>

definition directs :: "event \<Rightarrow> bool" where
  "directs e =
     (case ev_payload e of
        AgentDelegateAction _ _ _ \<Rightarrow> True | AgentFinishAction _ _ _ _ \<Rightarrow> True | AgentRejectAction _ _ \<Rightarrow> True
      | ChangeAgentStateAction _ _ \<Rightarrow> True | _ \<Rightarrow> False)"

lemma still_no_step: "D \<noteq> [] \<Longrightarrow> still D n w \<Longrightarrow> \<not> should_step e w"
  by (simp add: still_def should_step_def)

lemma still_own_event:
  assumes "still D n w" and "D \<noteq> []" and "\<not> directs e"
  shows "still D n (fst (on_own_event E e w))"
proof -
  have "still D n w' \<Longrightarrow> still D n (fst (handle_action E e w'))" for w'
    using assms(3) by (auto simp: handle_action_def directs_def split: payload.split)
  then show ?thesis
    unfolding on_own_event_def Let_def using assms(1) by (auto intro!: still_then dest: still_no_step [OF assms(2)])
qed

lemma nested_event:
  assumes "wd_delegates w = d1 # d2 # ds" and "cs_agent_state (ct_state d1) \<notin> {FINISHED, ERROR, REJECTED}" and "\<not> directs e"
  shows "\<exists>d1'. wd_delegates (fst (on_event E e w)) = d1' # d2 # ds \<and> wd_self (fst (on_event E e w)) = wd_self w \<and>
    cs_local_iteration (ct_state d1') = cs_local_iteration (ct_state d1) \<and>
    cs_agent_state (ct_state d1') \<notin> {FINISHED, ERROR, REJECTED}"
proof -
  have "still (d2 # ds) (cs_local_iteration (ct_state d1)) (w\<lparr>wd_self := d1, wd_delegates := d2 # ds\<rparr>)"
    using assms(2) by (simp add: still_def)
  then have "still (d2 # ds) (cs_local_iteration (ct_state d1)) (fst (on_own_event E e (w\<lparr>wd_self := d1, wd_delegates := d2 # ds\<rparr>)))"
    using assms(3) by (intro still_own_event) auto
  then show ?thesis
    using assms(1,2) on_delegate_head [OF assms(1), of "on_own_event E e"] by (simp add: on_event_def still_def)
qed

text \<open>
  Property C30. A delegate of a delegate is never heard. Events are handed to the delegate of the
  first controller only, and not to the delegate of that one: whatever events follow, other than
  actions that direct an agent, the inner delegate stays exactly as it was created, and neither
  its parent nor the first controller takes a step. The task comes to a halt.
\<close>

theorem nested_delegate_starves:
  assumes "wd_delegates w = d1 # d2 # ds" and "cs_agent_state (ct_state d1) \<notin> {FINISHED, ERROR, REJECTED}"
    and "list_all (\<lambda>e. \<not> directs e) es"
  shows "\<exists>d1'. wd_delegates (run_events E es w) = d1' # d2 # ds \<and> wd_self (run_events E es w) = wd_self w \<and>
           cs_local_iteration (ct_state d1') = cs_local_iteration (ct_state d1)"
  using assms
proof (induction es arbitrary: w d1)
  case (Cons e es)
  then obtain d1' where d: "wd_delegates (fst (on_event E e w)) = d1' # d2 # ds" "wd_self (fst (on_event E e w)) = wd_self w"
    "cs_local_iteration (ct_state d1') = cs_local_iteration (ct_state d1)" "cs_agent_state (ct_state d1') \<notin> {FINISHED, ERROR, REJECTED}"
    using nested_event [of w d1 d2 ds e E] by auto
  from Cons.IH [OF d(1,4)] Cons.prems(3) d(2,3) show ?case by simp
qed simp

theorem nested_delegate_starves_witness:
  "\<exists>d1'. wd_delegates (run_events demo_controllers [demo_event, demo_event] (demo_world [demo_controller, demo_controller])) = [d1', demo_controller]"
proof -
  have "list_all (\<lambda>e. \<not> directs e) [demo_event, demo_event]"
    by (simp add: directs_def demo_event_def think_event_def think_def stamp_def new_event_def)
  moreover have "cs_agent_state (ct_state demo_controller) \<notin> {FINISHED, ERROR, REJECTED}" by (simp add: demo_defs)
  moreover have "wd_delegates (demo_world [demo_controller, demo_controller]) = demo_controller # demo_controller # []"
    by (simp add: demo_world_def)
  ultimately show ?thesis using nested_delegate_starves by blast
qed


end
