(* ===== verification/ControllerErrors.thy ===== *)
theory ControllerErrors
  imports ControllerProps
begin

text \<open>
  Which exceptions leave the callback of the controller, and the confirmation of actions, over the
  interface of the stream.
\<close>

section \<open>Streams that store every well-formed event\<close>

definition well_formed :: "(json \<Rightarrow> string) \<Rightarrow> event \<Rightarrow> bool" where
  "well_formed R e \<longleftrightarrow>
     payload_ok (ev_payload e) \<and> (observation_payload (ev_payload e) \<longrightarrow> ev_timeout e = None) \<and>
     (\<exists>m. event_message R (ev_payload e) = Inr m)"

text \<open>What an event may lose or get without becoming ill-formed.\<close>

lemma well_formed_upd [simp]:
  "well_formed R (e\<lparr>ev_id := i\<rparr>) = well_formed R e" "well_formed R (e\<lparr>ev_source := s\<rparr>) = well_formed R e"
  "well_formed R (e\<lparr>ev_llm_metrics := m\<rparr>) = well_formed R e" "well_formed R (e\<lparr>ev_tool_call := t\<rparr>) = well_formed R e"
  "well_formed R (e\<lparr>ev_cause := c\<rparr>) = well_formed R e"
  by (simp_all add: well_formed_def)

lemma same_event_well_formed: "same_event e e' \<Longrightarrow> well_formed R e' = well_formed R e"
  by (simp add: same_event_def well_formed_def)

lemma well_formed_new [simp]:
  "well_formed R (new_event (AgentStateChangedObservation c st reason))"
  "well_formed R (new_event (ErrorObservation c i))" "well_formed R (new_event (RecallAction k q th))"
  by (simp_all add: well_formed_def new_event_def payload_ok_def)

lemma well_formed_not_executed [simp]: "well_formed R (not_executed a)"
  by (simp add: not_executed_def)

lemma well_formed_confirmation [simp]: "well_formed R (set_confirmation_state c e) = well_formed R e"
  by (auto simp: well_formed_def set_confirmation_state_def payload_ok_def split: payload.split)

lemma well_formed_no_thought: "well_formed R e \<Longrightarrow> well_formed R (e\<lparr>ev_payload := no_thought (ev_payload e)\<rparr>)"
  by (cases "ev_payload e") (auto simp: well_formed_def payload_ok_def split: option.splits json.splits)

lemma well_formed_decided: "well_formed R e \<Longrightarrow> well_formed R (decided t e)"
  by (simp add: decided_def well_formed_no_thought)

lemma well_formed_forget [simp]: "well_formed R (forget_event ids)"
  by (auto simp: well_formed_def forget_event_def new_event_def payload_ok_def validate_field_polymorphism_def forgotten_def)

lemma new_ids [simp]:
  "ev_id (new_event p) = INVALID_ID" "ev_id (not_executed a) = INVALID_ID" "ev_id (decided t e) = INVALID_ID"
  "ev_id (forget_event ids) = INVALID_ID" "ev_id (set_confirmation_state c e) = ev_id e"
  "ev_id (prepare_metrics_for_frontend E ag e) = ev_id e"
  by (simp_all add: new_event_def not_executed_def decided_def forget_event_def set_confirmation_state_def
      prepare_metrics_for_frontend_def split: payload.split)

lemma well_formed_metrics [simp]: "well_formed R (prepare_metrics_for_frontend E ag e) = well_formed R e"
  by (simp add: prepare_metrics_for_frontend_def)

locale plain_stream = controller_stream S holds can_store selects
  for S :: "'s stream_ops" and holds can_store selects +
  fixes R :: "json \<Rightarrow> string"
  assumes can_store_iff: "can_store e \<longleftrightarrow> well_formed R e"

text \<open>A codec that restores the tool calls and metrics it is given.\<close>

lemma storable_plain:
  "cd_tool_call C = Inr \<Longrightarrow> cd_metrics C = (\<lambda>m. m) \<Longrightarrow> storable C e \<longleftrightarrow> well_formed (cd_render C) e"
  by (auto simp: storable_def event_ok_def well_formed_def split: option.split)

definition codec_with :: "(json \<Rightarrow> string) \<Rightarrow> string \<Rightarrow> (string \<Rightarrow> jdict option) \<Rightarrow> codec" where
  "codec_with R version literal_eval =
     \<lparr>cd_render = R, cd_version = version, cd_literal_eval = literal_eval, cd_tool_call = Inr, cd_metrics = (\<lambda>m. m)\<rparr>"

interpretation plain: plain_stream "stream_ops_of (memory_env (codec_with R version ev) lower dump) clock"
  "holds_events (memory_env (codec_with R version ev) lower dump)" "storable (codec_with R version ev)" "filter_include lower dump" R
  by unfold_locales (simp add: storable_plain codec_with_def)

section \<open>Operations that return\<close>

definition returns :: "('w \<Rightarrow> bool) \<Rightarrow> ('w, 'x) op \<Rightarrow> 'w \<Rightarrow> bool" where
  "returns Q m w \<longleftrightarrow> Q (fst (m w)) \<and> (\<exists>x. snd (m w) = Inr x)"

lemma returns_give [simp]: "returns Q (give x) w = Q w" "returns Q (modify f) w = Q (f w)"
  by (simp_all add: returns_def)

lemma returns_then: "returns Q m w \<Longrightarrow> (\<And>x w'. Q w' \<Longrightarrow> returns Q (f x) w') \<Longrightarrow> returns Q (and_then m f) w"
  by (auto simp: returns_def and_then_def split: prod.splits sum.splits)

lemma returns_catch: "Q (fst (m w)) \<Longrightarrow> (\<And>e w'. Q w' \<Longrightarrow> returns Q (h e) w') \<Longrightarrow> returns Q (catch m h) w"
  by (auto simp: returns_def catch_def split: prod.splits sum.splits)

lemma returnsD: "returns Q m w \<Longrightarrow> Q (fst (m w))"
  by (simp add: returns_def)

text \<open>A world whose stream works and whose pending and replayed actions can be stored.\<close>

definition ready :: "('s \<Rightarrow> event list \<Rightarrow> bool) \<Rightarrow> (json \<Rightarrow> string) \<Rightarrow> ('s, 'a) world \<Rightarrow> bool" where
  "ready holds R w \<longleftrightarrow>
     (\<exists>evs. holds (wd_stream w) evs) \<and>
     (\<forall>a. ct_pending_action (wd_self w) = Some a \<longrightarrow> well_formed R a) \<and>
     (\<forall>e \<in> set (rp_events (ct_replay_manager (wd_self w))). well_formed R e \<and> ev_id e = INVALID_ID \<and> ev_source e \<noteq> None)"

lemma ready_frame [simp]:
  "ready holds R (upd_state f w) = ready holds R w" "ready holds R (merge_local_metrics w) = ready holds R w"
  "ready holds R (update_state_after_step E w) = ready holds R w"
  "ready holds R (update_state_before_step w) = ready holds R w"
  "ready holds R (w\<lparr>wd_status := x\<rparr>) = ready holds R w"
  "ready holds R (upd_self (\<lambda>c. c\<lparr>ct_first_user_message := m\<rparr>) w) = ready holds R w"
  "ready holds R (upd_self (\<lambda>c. c\<lparr>ct_agent := g c\<rparr>) w) = ready holds R w"
  "ready holds R (merge_observed_metrics E ob w) = ready holds R w"
  by (auto simp: ready_def update_state_after_step_def update_state_before_step_def merge_observed_metrics_def
      split: option.split sum.split)

lemma ready_pending:
  "ready holds R w \<Longrightarrow> (\<And>e. a = Some e \<Longrightarrow> well_formed R e) \<Longrightarrow> ready holds R (set_pending_action a w)"
  by (auto simp: ready_def)

text \<open>An agent whose actions can be stored.\<close>

definition storable_actions :: "(json \<Rightarrow> string) \<Rightarrow> 'a agent_ops \<Rightarrow> bool" where
  "storable_actions R A \<longleftrightarrow>
     (\<forall>s a a' x act. ag_step A s a = (a', x, Inr (Some act)) \<longrightarrow> well_formed R act \<and> ev_id act = INVALID_ID)"

lemma ready_resume [simp]: "ready holds R (resume_limits w) = ready holds R w"
  by (auto simp: ready_def resume_limits_def Let_def split: option.split)

context plain_stream
begin

lemma returns_add:
  assumes "en_stream E = S" and "ready holds R w" and "well_formed R e" and "ev_id e = INVALID_ID"
  shows "returns (ready holds R) (stream_add E e src) w" and "returns (ready holds R) (stream_add_pending E e src) w"
proof -
  obtain evs where h: "holds (wd_stream w) evs" using assms(2) by (auto simp: ready_def)
  have "can_store e" using assms(3) can_store_iff by simp
  from add [OF h this assms(4), of src] obtain s' e' where
    a: "so_add S e src (wd_stream w) = (s', e', Inr ())" "holds s' (evs @ [e'])" "same_event e e'" by blast
  moreover have "well_formed R e'" using same_event_well_formed [OF a(3)] assms(3) by simp
  ultimately show "returns (ready holds R) (stream_add E e src) w" "returns (ready holds R) (stream_add_pending E e src) w"
    using assms(1,2) by (auto simp: returns_def stream_add_def stream_add_pending_def ready_def)
qed

lemma returns_reset:
  assumes "en_stream E = S" and "ready holds R w"
  shows "returns (ready holds R) (reset E) w"
  unfolding reset_def
proof (rule returns_then)
  show "returns (ready holds R) (\<lambda>w. case ct_pending_action (wd_self w) of
      None \<Rightarrow> give () w
    | Some a \<Rightarrow>
        if list_ex (\<lambda>e. is_observation e \<and> ev_tool_call e = ev_tool_call a) (cs_history (state_of w)) then give () w
        else stream_add E (not_executed a) AGENT w) w"
    using assms returns_add(1) [OF assms, of "not_executed a" AGENT for a] by (auto simp: returns_def split: option.split)
qed (auto simp: ready_def)

lemma returns_set_state:
  assumes "en_stream E = S" and "ready holds R w"
  shows "returns (ready holds R) (set_agent_state_to E target) w"
proof -
  have "returns (ready holds R) (state_effects E target) w"
    using assms returns_reset [OF assms(1), of "merge_local_metrics (update_state_after_step E w)"]
      returns_add(2) [OF assms, of "decided target a" AGENT for a]
    by (auto simp: returns_def state_effects_def ready_def [of holds R w] well_formed_decided split: option.split)
  moreover have "returns (ready holds R) (enter_state E target) w'" if "ready holds R w'" for w'
    using returns_add(1) [OF assms(1), of "upd_state (\<lambda>s. s\<lparr>cs_agent_state := target\<rparr>) w'"] that
    by (auto simp: returns_def enter_state_def Let_def)
  ultimately have "returns (ready holds R) (and_then (state_effects E target) (\<lambda>_. enter_state E target)) w"
    by (rule returns_then)
  then show ?thesis using assms(2) by (simp add: returns_def set_agent_state_to_def)
qed

lemma returns_react:
  assumes "en_stream E = S" and "ready holds R w"
  shows "returns (ready holds R) (react_to_exception E e) w"
  using assms returns_set_state [OF assms(1)]
  by (auto simp: returns_def react_to_exception_def Let_def split: option.split)

lemmas ready_then = fst_and_then [where P = "ready holds R"]
lemmas ready_catch = fst_catch [where P = "ready holds R"]

lemma ready_limits:
  assumes "en_stream E = S" and "ready holds R w"
  shows "ready holds R (fst (iteration_limit E w))" and "ready holds R (fst (budget_limit E stop w))"
proof -
  have "ready holds R (fst (handle_traffic_control E l a b w))" for l a b
    unfolding handle_traffic_control_def using returnsD [OF returns_react [OF assms(1)]] assms(2)
    by (auto intro!: ready_then)
  then show "ready holds R (fst (iteration_limit E w))" "ready holds R (fst (budget_limit E stop w))"
    using assms(2) by (auto simp: iteration_limit_def budget_limit_def split: option.split)
qed

lemma ready_first_message: "ready holds R w \<Longrightarrow> ready holds R (fst (first_user_message E w))"
  unfolding first_user_message_def by (auto intro!: ready_then)

lemma ready_agent_failed:
  assumes "en_stream E = S" and "ready holds R w"
  shows "ready holds R (fst (agent_failed E e w))"
proof -
  have add_ok: "ready holds R (fst (stream_add E x src w'))" if "ready holds R w'" "well_formed R x" "ev_id x = INVALID_ID" for x src w'
    using returnsD [OF returns_add(1) [OF assms(1) that]] .
  have forget: "well_formed R x \<and> ev_id x = INVALID_ID" if "handle_long_context_error h first = Inr x" for h first x
    using that by (auto simp: handle_long_context_error_def bind_result_Inr_iff)
  have "ready holds R (fst (long_context E w))"
    unfolding long_context_def Let_def using assms(2)
    by (auto intro!: ready_then add_ok ready_first_message dest: forget split: sum.split)
  then show ?thesis using assms(2) by (auto simp: agent_failed_def intro!: add_ok)
qed

lemma ready_next_action:
  assumes "en_stream E = S" and "ready holds R w"
    and "storable_actions R (en_agent E)"
  shows "ready holds R (fst (next_action E w))"
    and "next_action E w = (w', Inr (Some act)) \<Longrightarrow> well_formed R act \<and> ev_id act = INVALID_ID \<and> ev_source act \<noteq> None"
proof -
  have step_ok: "ready holds R w1 \<Longrightarrow> ready holds R (fst (agent_step E w1))" for w1
    by (auto simp: agent_step_def Let_def ready_def split: prod.split sum.split option.split)
  have rm: "rp_events (fst (should_replay r)) = rp_events r" for r
    by (simp add: should_replay_def Let_def)
  have replayed: "r' = Inr a \<Longrightarrow> a \<in> set (rp_events r) \<and> rp_events r2 = rp_events r" if "replay_step r = (r2, r')" for r r2 r' a
    using that by (auto simp: replay_step_def Let_def split: if_splits)
  have kept: "rp_events r2 = rp_events r" if "replay_step r = (r2, r')" for r r2 r'
    using that by (auto simp: replay_step_def Let_def split: if_splits)
  have manager: "ready holds R (upd_self (\<lambda>c. c\<lparr>ct_replay_manager := r\<rparr>) w)"
    if "rp_events r = rp_events (ct_replay_manager (wd_self w))" for r
    using assms(2) that by (simp add: ready_def)
  obtain r b where r: "should_replay (ct_replay_manager (wd_self w)) = (r, b)" by (cases "should_replay (ct_replay_manager (wd_self w))")
  have re: "rp_events r = rp_events (ct_replay_manager (wd_self w))" using rm [of "ct_replay_manager (wd_self w)"] r by simp
  obtain r2 r' where r2: "replay_step r = (r2, r')" by (cases "replay_step r")
  have re2: "rp_events r2 = rp_events (ct_replay_manager (wd_self w))" using kept [OF r2] re by simp
  show "ready holds R (fst (next_action E w))"
  proof (cases b)
    case True
    with r r2 manager [OF re2] show ?thesis by (simp add: next_action_def Let_def split: sum.split)
  next
    case False
    with r manager [OF re] step_ok ready_agent_failed [OF assms(1)] show ?thesis
      by (auto simp: next_action_def intro!: ready_then ready_catch)
  qed
  show "well_formed R act \<and> ev_id act = INVALID_ID \<and> ev_source act \<noteq> None" if n: "next_action E w = (w', Inr (Some act))"
  proof (cases b)
    case True
    with n r r2 have "r' = Inr act" by (auto simp: next_action_def Let_def give_def raise_def split: sum.splits)
    with replayed [OF r2] re assms(2) show ?thesis by (auto simp: ready_def)
  next
    case False
    with n r obtain w1 w2 where "agent_step E w1 = (w2, Inr act)"
      by (auto simp: next_action_def catch_def and_then_def give_def split: prod.splits sum.splits)
    then obtain s a a' x act0 where "ag_step (en_agent E) s a = (a', x, Inr (Some act0))" "act = act0\<lparr>ev_source := Some AGENT\<rparr>"
      by (auto simp: agent_step_def Let_def give_def raise_def split: prod.splits sum.splits option.splits)
    with assms(3) show ?thesis unfolding storable_actions_def by (metis event.ext_inject event.surjective event.update_convs(2) well_formed_upd(2) option.distinct(1) event.select_convs(1,2))
  qed
qed

lemma ready_publish:
  assumes "en_stream E = S" and "ready holds R w" and "well_formed R a" and "ev_id a = INVALID_ID"
  shows "ready holds R (fst (publish_action E a w))"
proof -
  define a1 where "a1 = (if runnable_payload (ev_payload a) \<and> cs_confirmation_mode (state_of w)
    then set_confirmation_state ''awaiting_confirmation'' a else a)"
  have a1: "well_formed R a1" "ev_id a1 = INVALID_ID" using assms(3,4) by (simp_all add: a1_def)
  have add_ok: "ready holds R (fst (stream_add E (prepare_metrics_for_frontend E ag a1) src w'))"
    "ready holds R (fst (stream_add_pending E (prepare_metrics_for_frontend E ag a1) src w'))" if "ready holds R w'" for ag src w'
    using returnsD [OF returns_add(1) [OF assms(1) that]] returnsD [OF returns_add(2) [OF assms(1) that]] a1 by simp_all
  have pend: "ready holds R (set_pending_action (Some a1) w)"
    "ready holds R w' \<Longrightarrow> ready holds R (set_pending_action (Some (prepare_metrics_for_frontend E ag a1)) w')" for ag w'
    using a1(1) assms(2) by (auto intro!: ready_pending)
  have st: "ready holds R w' \<Longrightarrow> ready holds R (fst (set_agent_state_to E t w'))" for t w'
    using returnsD [OF returns_set_state [OF assms(1)]] .
  show ?thesis
    unfolding publish_action_def Let_def a1_def [symmetric] using assms(2) pend(1)
    by (auto intro!: ready_then st add_ok pend(2) split: option.split)
qed

lemma ready_step:
  assumes "en_stream E = S" and "ready holds R w"
    and "storable_actions R (en_agent E)"
  shows "ready holds R (fst (step E w))"
proof -
  note next_ok = ready_next_action [OF assms(1) _ assms(3)]
  have pub: "ready holds R (fst (and_then (publish_action E a) (\<lambda>_. modify (update_state_after_step E)) w'))"
    if "ready holds R w'" "well_formed R a" "ev_id a = INVALID_ID" for a w'
    using ready_publish [OF assms(1) that] by (auto intro!: ready_then)
  have go: "ready holds R (fst (and_then (next_action E)
      (\<lambda>a. case a of None \<Rightarrow> give () | Some action \<Rightarrow> and_then (publish_action E action) (\<lambda>_. modify (update_state_after_step E)))
      (update_state_before_step w')))" if w': "ready holds R w'" for w'
  proof (rule ready_then)
    show "ready holds R (fst (next_action E (update_state_before_step w')))" using next_ok(1) w' by simp
  next
    fix x w''
    assume n: "next_action E (update_state_before_step w') = (w'', Inr x)" and r: "ready holds R w''"
    show "ready holds R (fst ((case x of None \<Rightarrow> give ()
        | Some action \<Rightarrow> and_then (publish_action E action) (\<lambda>_. modify (update_state_after_step E))) w''))"
    proof (cases x)
      case (Some act)
      have "ready holds R (update_state_before_step w')" using w' by simp
      with n Some have "well_formed R act" "ev_id act = INVALID_ID" using next_ok(2) by blast+
      with pub [OF r] Some show ?thesis by simp
    qed (use r in simp)
  qed
  show ?thesis
    unfolding step_def
    using assms(2) ready_limits [OF assms(1)] go returnsD [OF returns_react [OF assms(1)]]
    by (auto intro!: ready_then simp: get_agent_state_def)
qed

lemma returns_handled_step:
  assumes "en_stream E = S" and "ready holds R w"
    and "storable_actions R (en_agent E)"
  shows "returns (ready holds R) (step_with_exception_handling E) w"
  unfolding step_with_exception_handling_def
  by (rule returns_catch) (auto intro!: ready_step [OF assms] returns_react [OF assms(1)])

lemma returns_if: "returns Q (\<lambda>w. if b w then f w else g w) w = (if b w then returns Q f w else returns Q g w)"
  by (simp add: returns_def)

lemma returns_observation:
  assumes "en_stream E = S" and "ready holds R w"
  shows "returns (ready holds R) (handle_observation E ob) w"
proof -
  have "ready holds R (set_pending_action None (merge_observed_metrics E ob w))" using assms(2) by (intro ready_pending) auto
  then have "returns (ready holds R)
      (and_then (\<lambda>w. if get_agent_state w = USER_CONFIRMED then set_agent_state_to E RUNNING w else give () w)
        (\<lambda>_ w. if get_agent_state w = USER_REJECTED then set_agent_state_to E AWAITING_USER_INPUT w else give () w))
      (set_pending_action None (merge_observed_metrics E ob w))"
    using returns_set_state [OF assms(1)] by (intro returns_then) (simp_all add: returns_if)
  then show ?thesis using assms(2) by (simp add: returns_def handle_observation_def Let_def)
qed

lemma returns_first_message:
  assumes "en_stream E = S" and "ready holds R w" and "0 \<le> cs_start_id (state_of w)"
  shows "returns (ready holds R) (first_user_message E) w"
proof -
  obtain evs where "holds (wd_stream w) evs" using assms(2) by (auto simp: ready_def)
  then have "so_events S (cs_start_id (state_of w)) False (wd_stream w) = (filter (\<lambda>e. cs_start_id (state_of w) \<le> ev_id e) evs, None)"
    using assms(3) by (rule events)
  then have "snd (first_in_stream E (cs_start_id (state_of w)) False is_user_message w) \<noteq> Inl x" for x
    using assms(1) by (simp add: first_in_stream_def split: option.split)
  then have "\<exists>m. snd (first_in_stream E (cs_start_id (state_of w)) False is_user_message w) = Inr m"
    by (cases "snd (first_in_stream E (cs_start_id (state_of w)) False is_user_message w)") auto
  then have "returns (ready holds R) (first_in_stream E (cs_start_id (state_of w)) False is_user_message) w"
    using assms(2) by (simp add: returns_def)
  then have "returns (ready holds R) (and_then (first_in_stream E (cs_start_id (state_of w)) False is_user_message)
      (\<lambda>m w. give m (upd_self (\<lambda>c. c\<lparr>ct_first_user_message := m\<rparr>) w))) w"
    by (rule returns_then) (simp add: returns_def)
  then show ?thesis using assms(2) by (simp add: returns_def first_user_message_def)
qed

lemma returns_message:
  assumes "en_stream E = S" and "ready holds R w" and "0 \<le> cs_start_id (state_of w)"
  shows "returns (ready holds R) (handle_message_action E a content wait) w"
proof -
  have f: "returns (ready holds R) (request_recall E a content m) w'" if "ready holds R w'" for m w'
    unfolding request_recall_def Let_def
    using returns_add(2) [OF assms(1) that] returns_set_state [OF assms(1)]
    by (intro returns_then) (simp_all add: returns_if)
  have x: "ready holds R (extend_limits w)" "0 \<le> cs_start_id (state_of (extend_limits w))"
    using assms(2,3) by (simp_all add: extend_limits_def)
  have "returns (ready holds R) (and_then (first_user_message E) (request_recall E a content)) (extend_limits w)"
    by (rule returns_then [OF returns_first_message [OF assms(1) x]]) (rule f)
  then show ?thesis
    using assms(2) returns_set_state [OF assms(1,2)] by (simp add: returns_def handle_message_action_def)
qed

lemma returns_own_event:
  assumes "en_stream E = S" and "ready holds R w" and "0 \<le> cs_start_id (state_of w)" and "storable_actions R (en_agent E)"
    and "\<not> is_delegate_action e"
  shows "returns (ready holds R) (on_own_event E e) w"
proof -
  define w1 where "w1 = (if filter_include (en_lower E) (\<lambda>_. []) agent_history_filter e
    then upd_state (\<lambda>s. s\<lparr>cs_history := cs_history s @ [e]\<rparr>) w else w)"
  have w1: "ready holds R w1" "0 \<le> cs_start_id (state_of w1)" using assms(2,3) by (simp_all add: w1_def)
  have "returns (ready holds R) (finish_with E outs t) w1" for outs t
    using returns_set_state [OF assms(1), of "merge_local_metrics (upd_state (\<lambda>s. s\<lparr>cs_outputs := outs\<rparr>) w1)" t] w1(1)
    by (simp add: returns_def finish_with_def)
  then have "returns (ready holds R) (handle_action E e) w1"
    using returns_message [OF assms(1) w1] returns_set_state [OF assms(1) w1(1)] w1(1) assms(5)
    by (simp add: handle_action_def is_delegate_action_def split: payload.splits)
  then have "returns (ready holds R) (if is_action e then handle_action E e else handle_observation E e) w1"
    using returns_observation [OF assms(1) w1(1)] by simp
  then have "returns (ready holds R) (and_then (if is_action e then handle_action E e else handle_observation E e)
      (\<lambda>_ w. if should_step e w then step_with_exception_handling E w else give () w)) w1"
    by (rule returns_then) (simp add: returns_if returns_handled_step [OF assms(1) _ assms(4)])
  then show ?thesis using assms(2) by (simp add: returns_def on_own_event_def w1_def [symmetric] Let_def)
qed

end

section \<open>Confirmation of actions\<close>

definition awaiting :: "event \<Rightarrow> int \<Rightarrow> ('s, 'a) world \<Rightarrow> bool" where
  "awaiting act i w \<longleftrightarrow>
     get_agent_state w = AWAITING_USER_CONFIRMATION \<and>
     (\<exists>a. ct_pending_action (wd_self w) = Some a \<and> ev_id a = i \<and>
        ev_payload a = ev_payload (set_confirmation_state ''awaiting_confirmation'' act))"

definition settled :: "event \<Rightarrow> string \<Rightarrow> int \<Rightarrow> ('s, 'a) world \<Rightarrow> bool" where
  "settled act answer i w \<longleftrightarrow>
     get_agent_state w = answer \<and>
     (\<exists>a. ct_pending_action (wd_self w) = Some a \<and> ev_id a = i \<and>
        ev_payload a = ev_payload (decided answer act))"

lemma decided_again: "ev_payload (decided t e) = ev_payload (decided t act)"
  if "ev_payload e = ev_payload (set_confirmation_state c act)" "confirmation_state act \<noteq> None"
  using that by (cases "ev_payload act") (auto simp: decided_def set_confirmation_state_def confirmation_state_def)

lemma confirmation_payload:
  assumes "confirmation_state act \<noteq> None"
  shows "runnable_payload (ev_payload act)" "runnable_payload (ev_payload (set_confirmation_state c act))"
    "confirmation_state (set_confirmation_state c act) = Some c" "\<not> is_null_action (set_confirmation_state c act)"
    "ev_source (set_confirmation_state c act) = ev_source act"
  using assms by (auto simp: confirmation_state_def set_confirmation_state_def is_null_action_def split: payload.splits)

context plain_stream
begin

lemma add_exact:
  assumes "en_stream E = S" and "holds (wd_stream w) evs" and "well_formed R e" and "ev_id e = INVALID_ID"
  shows "\<exists>s' e'. stream_add E e src w = (w\<lparr>wd_stream := s'\<rparr>, Inr ()) \<and>
    stream_add_pending E e src w = (set_pending_action (Some e') (w\<lparr>wd_stream := s'\<rparr>), Inr ()) \<and>
    holds s' (evs @ [e']) \<and> same_event e e' \<and> ev_id e' = int (length evs)"
proof -
  have "can_store e" using assms(3) can_store_iff by simp
  from add [OF assms(2) this assms(4), of src] obtain s' e' where "so_add S e src (wd_stream w) = (s', e', Inr ())"
    "holds s' (evs @ [e'])" "same_event e e'" "ev_id e' = int (length evs)" by blast
  with assms(1) show ?thesis by (auto simp: stream_add_def stream_add_pending_def)
qed

lemma enter_exact:
  assumes "en_stream E = S" and "holds (wd_stream w) evs"
  shows "\<exists>s' e'. enter_state E t w = ((upd_state (\<lambda>s. s\<lparr>cs_agent_state := t\<rparr>) w)\<lparr>wd_stream := s'\<rparr>, Inr ()) \<and> holds s' (evs @ [e'])"
proof -
  have "holds (wd_stream (upd_state (\<lambda>s. s\<lparr>cs_agent_state := t\<rparr>) w)) evs" using assms(2) by simp
  from add_exact [OF assms(1) this, of "new_event (AgentStateChangedObservation [] t
      (if t = ERROR then cs_last_error (state_of (upd_state (\<lambda>s. s\<lparr>cs_agent_state := t\<rparr>) w)) else []))" ENVIRONMENT]
  show ?thesis unfolding enter_state_def Let_def by (metis well_formed_new(1) new_ids(1))
qed

lemma publish_awaits:
  assumes E: "en_stream E = S" and h: "holds (wd_stream w) evs" and act: "well_formed R act" "ev_id act = INVALID_ID"
    and "confirmation_state act \<noteq> None" and "ev_source act = Some src" and "cs_confirmation_mode (state_of w)"
    and "get_agent_state w = RUNNING"
  shows "\<exists>w' evs'. publish_action E act w = (w', Inr ()) \<and> awaiting act (int (length evs) + 1) w' \<and>
    holds (wd_stream w') evs' \<and> length evs' = length evs + 2 \<and> wd_delegates w' = wd_delegates w"
proof -
  note p = confirmation_payload [OF assms(5)]
  define a1 where "a1 = set_confirmation_state ''awaiting_confirmation'' act"
  define w1 where "w1 = set_pending_action (Some a1) w"
  have h1: "holds (wd_stream w1) evs" using h by (simp add: w1_def)
  obtain s2 o2 where s2: "enter_state E AWAITING_USER_CONFIRMATION w1 =
      ((upd_state (\<lambda>s. s\<lparr>cs_agent_state := AWAITING_USER_CONFIRMATION\<rparr>) w1)\<lparr>wd_stream := s2\<rparr>, Inr ())" "holds s2 (evs @ [o2])"
    using enter_exact [OF E h1] by blast
  define w2 where "w2 = (upd_state (\<lambda>s. s\<lparr>cs_agent_state := AWAITING_USER_CONFIRMATION\<rparr>) w1)\<lparr>wd_stream := s2\<rparr>"
  have st: "set_agent_state_to E AWAITING_USER_CONFIRMATION w1 = (w2, Inr ())"
    using assms(8) s2(1) by (simp add: set_agent_state_to_def state_effects_def get_agent_state_def w1_def w2_def and_then_def give_def)
  define a2 where "a2 = prepare_metrics_for_frontend E (ct_agent (wd_self w2)) a1"
  have a2: "well_formed R a2" "ev_id a2 = INVALID_ID" "ev_payload a2 = ev_payload a1" "ev_source a2 = Some src"
    using act p(5) assms(6) by (simp_all add: a2_def a1_def) (simp_all add: prepare_metrics_for_frontend_def)
  have "holds (wd_stream (set_pending_action (Some a2) w2)) (evs @ [o2])" using s2(2) by (simp add: w2_def)
  from add_exact [OF E this a2(1,2), of src] obtain s3 e3 where
    s3: "stream_add_pending E a2 src (set_pending_action (Some a2) w2) =
        (set_pending_action (Some e3) ((set_pending_action (Some a2) w2)\<lparr>wd_stream := s3\<rparr>), Inr ())"
      "holds s3 ((evs @ [o2]) @ [e3])" "same_event a2 e3" "ev_id e3 = int (length (evs @ [o2]))" by blast
  define w3 where "w3 = set_pending_action (Some e3) ((set_pending_action (Some a2) w2)\<lparr>wd_stream := s3\<rparr>)"
  have r: "publish_action E act w = (w3, Inr ())"
    unfolding publish_action_def Let_def
    using p(1) p(2-4) [of "''awaiting_confirmation''", folded a1_def] assms(7) st s3(1) a2
    by (simp add: a1_def [symmetric] w1_def [symmetric] and_then_def a2_def [symmetric] w3_def)
  moreover have "awaiting act (int (length evs) + 1) w3"
    using s3(3,4) a2(3) by (simp add: awaiting_def w3_def w2_def get_agent_state_def same_event_def a1_def)
  moreover have "holds (wd_stream w3) (evs @ [o2, e3])" "wd_delegates w3 = wd_delegates w"
    using s3(2) by (simp_all add: w3_def w2_def w1_def)
  ultimately show ?thesis by (intro exI [of _ w3] exI [of _ "evs @ [o2, e3]"]) simp
qed

lemma answer_settles:
  assumes E: "en_stream E = S" and h: "holds (wd_stream w) evs" and aw: "awaiting act i w" and wf: "well_formed R act"
    and act: "confirmation_state act \<noteq> None" and t: "t \<in> {USER_CONFIRMED, USER_REJECTED}" and c: "ev_payload c = ChangeAgentStateAction t th"
    and nd: "wd_delegates w = []"
  shows "\<exists>w' evs'. on_event E c w = (w', Inr ()) \<and> settled act t (int (length evs)) w' \<and>
    holds (wd_stream w') evs' \<and> length evs' = length evs + 2"
proof -
  obtain a where a: "ct_pending_action (wd_self w) = Some a" "ev_payload a = ev_payload (set_confirmation_state ''awaiting_confirmation'' act)"
    and st: "get_agent_state w = AWAITING_USER_CONFIRMATION" using aw by (auto simp: awaiting_def)
  have d: "ev_payload (decided t a) = ev_payload (decided t act)" by (rule decided_again [OF a(2) act])
  have "well_formed R (decided t act)" using wf by (rule well_formed_decided)
  moreover have "ev_timeout (decided t a) = None" if "observation_payload (ev_payload (decided t a))"
    using that act d by (cases "ev_payload act") (auto simp: decided_def set_confirmation_state_def confirmation_state_def)
  ultimately have wd: "well_formed R (decided t a)" using d by (simp add: well_formed_def)
  from add_exact [OF E h this new_ids(3), of AGENT] obtain s1 e1 where
    s1: "stream_add_pending E (decided t a) AGENT w = (set_pending_action (Some e1) (w\<lparr>wd_stream := s1\<rparr>), Inr ())"
      "holds s1 (evs @ [e1])" "same_event (decided t a) e1" "ev_id e1 = int (length evs)" by blast
  define w1 where "w1 = set_pending_action (Some e1) (w\<lparr>wd_stream := s1\<rparr>)"
  have "holds (wd_stream w1) (evs @ [e1])" using s1(2) by (simp add: w1_def)
  from enter_exact [OF E this, of t] obtain s2 o2 where
    s2: "enter_state E t w1 = ((upd_state (\<lambda>s. s\<lparr>cs_agent_state := t\<rparr>) w1)\<lparr>wd_stream := s2\<rparr>, Inr ())" "holds s2 ((evs @ [e1]) @ [o2])" by blast
  define w2 where "w2 = (upd_state (\<lambda>s. s\<lparr>cs_agent_state := t\<rparr>) w1)\<lparr>wd_stream := s2\<rparr>"
  have effects: "state_effects E t w = (w1, Inr ())"
    using a(1) t s1(1) st by (auto simp: state_effects_def w1_def)
  have "set_agent_state_to E t w = (w2, Inr ())"
    using t st effects s2(1) by (auto simp: set_agent_state_to_def w2_def and_then_def)
  moreover have "\<not> hidden c" "is_action c" "\<not> filter_include (en_lower E) (\<lambda>_. []) agent_history_filter c" "\<not> should_step c w2"
    using c by (simp_all add: hidden_def is_action_def filter_include_def agent_history_filter_def backend_event_def should_step_def
        is_user_message_def is_message_def)
  ultimately have "on_event E c w = (w2, Inr ())"
    using nd c by (simp add: on_event_def on_own_event_def handle_action_def and_then_def give_def)
  moreover have "settled act t (int (length evs)) w2"
    using s1(3,4) d by (simp add: settled_def w2_def w1_def get_agent_state_def same_event_def)
  ultimately show ?thesis using s2(2) by (intro exI [of _ w2] exI [of _ "evs @ [e1, o2]"]) (simp add: w2_def)
qed

lemma observation_resumes:
  assumes E: "en_stream E = S" and h: "holds (wd_stream w) evs" and s: "settled act t i w" and t: "t \<in> {USER_CONFIRMED, USER_REJECTED}"
    and ob: "ev_cause ob = Some i"
  shows "\<exists>w'. handle_observation E ob w = (w', Inr ()) \<and> ct_pending_action (wd_self w') = None \<and>
    get_agent_state w' = (if t = USER_CONFIRMED then RUNNING else AWAITING_USER_INPUT)"
proof -
  define w1 where "w1 = merge_observed_metrics E ob w"
  have w1: "get_agent_state w1 = t" "answers ob (ct_pending_action (wd_self w1))" "wd_stream w1 = wd_stream w"
    using s ob by (auto simp: settled_def w1_def merge_observed_metrics_def get_agent_state_def answers_def split: option.split sum.split)
  define w2 where "w2 = set_pending_action None w1"
  have h2: "holds (wd_stream w2) evs" using h w1(3) by (simp add: w2_def)
  define target where "target = (if t = USER_CONFIRMED then RUNNING else AWAITING_USER_INPUT)"
  obtain s3 o3 where s3: "enter_state E target w2 = ((upd_state (\<lambda>s. s\<lparr>cs_agent_state := target\<rparr>) w2)\<lparr>wd_stream := s3\<rparr>, Inr ())"
    using enter_exact [OF E h2] by blast
  define w3 where "w3 = (upd_state (\<lambda>s. s\<lparr>cs_agent_state := target\<rparr>) w2)\<lparr>wd_stream := s3\<rparr>"
  have st: "get_agent_state w2 = t" "ct_pending_action (wd_self w2) = None" using w1(1) by (simp_all add: w2_def get_agent_state_def)
  have set: "set_agent_state_to E target w2 = (w3, Inr ())"
    using t st s3 by (auto simp: set_agent_state_to_def state_effects_def target_def w3_def and_then_def give_def)
  have w3: "get_agent_state w3 = target" "ct_pending_action (wd_self w3) = None"
    using st(2) by (simp_all add: w3_def get_agent_state_def)
  have "handle_observation E ob w = (w3, Inr ())"
    using t w1(1,2) st(1) set w3(1)
    by (auto simp: handle_observation_def w1_def [symmetric] w2_def [symmetric] target_def and_then_def give_def Let_def)
  with w3 show ?thesis by (simp add: target_def)
qed

end

section \<open>The example\<close>

definition demo_codec :: codec where
  "demo_codec = codec_with (\<lambda>_. []) ''1'' (\<lambda>_. None)"

lemma demo_codec_env: "demo_env = memory_env demo_codec (\<lambda>s. s) (\<lambda>_. [])"
  by (simp add: demo_env_def demo_codec_def codec_with_def plain_codec_def)

lemma demo_holds: "holds_events demo_env (empty_stream 25) []"
  unfolding holds_events_def using opened_empty [of 25] run_start [of demo_env "empty_stream 25"]
  by (intro exI [of _ "empty_stream 25"]) simp

text \<open>
  Property C29. Confirmation. In confirmation mode a command the agent wants to run is published as
  awaiting confirmation and kept pending; the agent takes no step. The answer of the user publishes
  the same command again, without its thought, as confirmed or rejected, under a new identifier;
  the agent still takes no step. An observation of the first publication changes nothing. The
  observation of the second ends the wait: the agent runs again after a confirmed command and
  waits for the user after a rejected one.
\<close>

theorem confirmation_respected:
  assumes "en_stream E = stream_ops_of (memory_env (codec_with R version lit) lower dump) clock"
    and "holds_events (memory_env (codec_with R version lit) lower dump) (wd_stream w) evs"
    and "well_formed R act" and "ev_id act = INVALID_ID" and "confirmation_state act \<noteq> None" and "ev_source act = Some AGENT"
    and "cs_confirmation_mode (state_of w)" and "get_agent_state w = RUNNING" and "wd_delegates w = []"
    and "answer \<in> {USER_CONFIRMED, USER_REJECTED}" and "ev_payload c = ChangeAgentStateAction answer th"
  shows "\<exists>w1 w2. publish_action E act w = (w1, Inr ()) \<and> awaiting act (int (length evs) + 1) w1 \<and> step E w1 = (w1, Inr ()) \<and>
    on_event E c w1 = (w2, Inr ()) \<and> settled act answer (int (length evs) + 2) w2 \<and> step E w2 = (w2, Inr ()) \<and>
    (\<forall>ob. ev_cause ob = Some (int (length evs) + 1) \<and> ev_llm_metrics ob = None \<longrightarrow> handle_observation E ob w2 = (w2, Inr ())) \<and>
    (\<forall>ob. ev_cause ob = Some (int (length evs) + 2) \<longrightarrow>
       (\<exists>w3. handle_observation E ob w2 = (w3, Inr ()) \<and> ct_pending_action (wd_self w3) = None \<and>
          get_agent_state w3 = (if answer = USER_CONFIRMED then RUNNING else AWAITING_USER_INPUT)))"
proof -
  obtain w1 evs1 where p: "publish_action E act w = (w1, Inr ())" "awaiting act (int (length evs) + 1) w1"
    "holds_events (memory_env (codec_with R version lit) lower dump) (wd_stream w1) evs1" "length evs1 = length evs + 2" "wd_delegates w1 = []"
    using plain.publish_awaits [OF assms(1-8)] assms(9) by auto
  obtain w2 evs2 where a: "on_event E c w1 = (w2, Inr ())" "settled act answer (int (length evs) + 2) w2"
    "holds_events (memory_env (codec_with R version lit) lower dump) (wd_stream w2) evs2"
    using plain.answer_settles [OF assms(1) p(3,2) assms(3,5,10,11) p(5)] p(4) by (auto simp: add.commute)
  have s: "step E w1 = (w1, Inr ())" "step E w2 = (w2, Inr ())"
    using p(2) a(2) assms(10) by (auto simp: step_def awaiting_def settled_def give_def)
  have "handle_observation E ob w2 = (w2, Inr ())" if "ev_cause ob = Some (int (length evs) + 1)" "ev_llm_metrics ob = None" for ob
    using a(2) that assms(10)
    by (auto simp: handle_observation_def merge_observed_metrics_def settled_def answers_def give_def)
  with p(1,2) a(1,2) s plain.observation_resumes [OF assms(1) a(3,2) assms(10)] show ?thesis
    by (intro exI [of _ w1] exI [of _ w2]) simp
qed

theorem confirmation_respected_witness:
  "\<exists>w1. publish_action demo_controllers ((new_event (CmdRunAction ''ls'' False [] False False None False ''confirmed'' None))\<lparr>ev_source := Some AGENT\<rparr>)
     ((demo_world [])\<lparr>wd_self := demo_controller\<lparr>ct_state := (ct_state demo_controller)\<lparr>cs_confirmation_mode := True\<rparr>\<rparr>\<rparr>) = (w1, Inr ()) \<and>
     get_agent_state w1 = AWAITING_USER_CONFIRMATION"
proof -
  define act where "act = (new_event (CmdRunAction ''ls'' False [] False False None False ''confirmed'' None))\<lparr>ev_source := Some AGENT\<rparr>"
  define w where "w = (demo_world [])\<lparr>wd_self := demo_controller\<lparr>ct_state := (ct_state demo_controller)\<lparr>cs_confirmation_mode := True\<rparr>\<rparr>\<rparr>"
  have h: "en_stream demo_controllers = stream_ops_of (memory_env (codec_with (\<lambda>_. []) ''1'' (\<lambda>_. None)) (\<lambda>s. s) (\<lambda>_. [])) (\<lambda>_. ''t0'')"
    "holds_events (memory_env (codec_with (\<lambda>_. []) ''1'' (\<lambda>_. None)) (\<lambda>s. s) (\<lambda>_. [])) (wd_stream w) []"
    using demo_holds unfolding demo_codec_def [symmetric] demo_codec_env [symmetric] by (simp_all add: w_def demo_defs)
  have a: "well_formed (\<lambda>_. []) act" "ev_id act = INVALID_ID" "confirmation_state act \<noteq> None" "ev_source act = Some AGENT"
    by (simp_all add: act_def well_formed_def payload_ok_def confirmation_state_def new_event_def)
  have s: "cs_confirmation_mode (state_of w)" "get_agent_state w = RUNNING" "wd_delegates w = []"
    by (simp_all add: w_def demo_defs get_agent_state_def)
  from confirmation_respected [OF h a s, of USER_CONFIRMED "new_event (ChangeAgentStateAction USER_CONFIRMED [])" "[]"]
  show ?thesis unfolding act_def [symmetric] w_def [symmetric] by (auto simp: awaiting_def new_event_def)
qed


section \<open>What leaves the callback\<close>





text \<open>
  A delegation that fails is lost: when the agent it names cannot be created, the
  exception leaves the callback after the history has been extended and before anything else was
  done. The agent is still running and waits for nothing, no event was added, so that nothing will
  make it take another step, and no error is shown.
\<close>

theorem failed_delegation_lost:
  assumes "wd_delegates w = []" and "ev_payload e = AgentDelegateAction name inputs th"
    and "ag_delegate (en_agent E) name (ct_agent (wd_self w)) = Inl x"
  shows "on_event E e w = (upd_state (\<lambda>s. s\<lparr>cs_history := cs_history s @ [e]\<rparr>) w, Inl x)"
proof -
  have "\<not> hidden e" "is_action e" "filter_include (en_lower E) (\<lambda>_. []) agent_history_filter e"
    using assms(2) by (simp_all add: hidden_def is_action_def filter_include_def agent_history_filter_def backend_event_def set_text_def)
  with assms show ?thesis
    by (simp add: on_event_def on_own_event_def Let_def handle_action_def start_delegate_def and_then_def raise_def upd_state_def upd_self_def)
qed

theorem failed_delegation_lost_witness:
  "\<exists>w'. on_event demo_controllers (new_event (AgentDelegateAction ''browser'' [] [])) (demo_world []) =
     (w', Inl \<lparr>ex_class = ''AgentNotRegisteredError'', ex_text = []\<rparr>) \<and>
     get_agent_state w' = RUNNING \<and> ct_pending_action (wd_self w') = None \<and> wd_stream w' = empty_stream 25"
proof -
  have "on_event demo_controllers (new_event (AgentDelegateAction ''browser'' [] [])) (demo_world []) =
    (upd_state (\<lambda>s. s\<lparr>cs_history := cs_history s @ [new_event (AgentDelegateAction ''browser'' [] [])]\<rparr>) (demo_world []),
     Inl \<lparr>ex_class = ''AgentNotRegisteredError'', ex_text = []\<rparr>)"
    by (rule failed_delegation_lost) (auto simp: demo_defs new_event_def)
  then show ?thesis by (simp add: get_agent_state_def demo_defs)
qed


end
