(* ===== verification/FnCallText.thy ===== *)
theory FnCallText
  imports PyPrelude
begin

text \<open>
  The texts of \<^verbatim>\<open>openhands/llm/fn_call_converter.py\<close>: the description of the calling format
  that is added to the system prompt, the snippets of the running example and the frame of the
  task. Line by line as in the source, joined by line breaks.
\<close>

definition apostrophe :: char where
  "apostrophe = CHR 0x27"

definition quote :: char where
  "quote = CHR 0x22"

definition prompt_before :: string where
  "prompt_before =
     join_with [newline]
     [[],
      ''You have access to the following functions:'',
      [],
      []]"

definition prompt_after :: string where
  "prompt_after =
     join_with [newline]
     [[],
      [],
      ''If you choose to call a function ONLY reply in the following format with NO suffix:'',
      [],
      ''<function=example_function_name>'',
      ''<parameter=example_parameter_1>value_1</parameter>'',
      ''<parameter=example_parameter_2>'',
      ''This is the value for the second parameter'',
      ''that can span'',
      ''multiple lines'',
      ''</parameter>'',
      ''</function>'',
      [],
      ''<IMPORTANT>'',
      ''Reminder:'',
      ''- Function calls MUST follow the specified format, start with <function= and end with </function>'',
      ''- Required parameters MUST be specified'',
      ''- Only call one function at a time'',
      ''- You may provide optional reasoning for your function call in natural language BEFORE the function call, but NOT after.'',
      ''- If there is no function call available, answer the question like normal with your current knowledge and do not tell the user about function calls'',
      ''</IMPORTANT>'',
      []]"

definition example_check_dir :: string where
  "example_check_dir =
     join_with [newline]
     [[],
      ''ASSISTANT: Sure! Let me first check the current directory:'',
      ''<function=execute_bash>'',
      ''<parameter=command>'',
      ''pwd && ls'',
      ''</parameter>'',
      ''</function>'',
      [],
      ''USER: EXECUTION RESULT of [execute_bash]:'',
      ''/workspace'',
      ''openhands@runtime:~/workspace$'',
      []]"

definition example_run_server :: string where
  "example_run_server =
     join_with [newline]
     [[],
      ''ASSISTANT:'',
      ''Let me run the Python file for you:'',
      ''<function=execute_bash>'',
      ''<parameter=command>'',
      ''python3 app.py > server.log 2>&1 &'',
      ''</parameter>'',
      ''</function>'',
      [],
      ''USER: EXECUTION RESULT of [execute_bash]:'',
      ''[1] 121'',
      ''[1]+  Exit 1                  python3 app.py > server.log 2>&1'',
      [],
      ''ASSISTANT:'',
      ''Looks like the server was running with PID 121 then crashed. Let me check the server log:'',
      ''<function=execute_bash>'',
      ''<parameter=command>'',
      ''cat server.log'',
      ''</parameter>'',
      ''</function>'',
      [],
      ''USER: EXECUTION RESULT of [execute_bash]:'',
      ''Traceback (most recent call last):'',
      ''  File '' @ [quote] @ ''/workspace/app.py'' @ [quote] @ '', line 2, in <module>'',
      ''    from flask import Flask'',
      ''ModuleNotFoundError: No module named '' @ [apostrophe] @ ''flask'' @ [apostrophe],
      [],
      ''ASSISTANT:'',
      ''Looks like the server crashed because the `flask` module is not installed. Let me install the `flask` module for you:'',
      ''<function=execute_bash>'',
      ''<parameter=command>'',
      ''pip3 install flask'',
      ''</parameter>'',
      ''</function>'',
      [],
      ''USER: EXECUTION RESULT of [execute_bash]:'',
      ''Defaulting to user installation because normal site-packages is not writeable'',
      ''Collecting flask'',
      ''  Using cached flask-3.0.3-py3-none-any.whl (101 kB)'',
      ''Collecting blinker>=1.6.2'',
      ''  Using cached blinker-1.7.0-py3-none-any.whl (13 kB)'',
      ''Collecting Werkzeug>=3.0.0'',
      ''  Using cached werkzeug-3.0.2-py3-none-any.whl (226 kB)'',
      ''Collecting click>=8.1.3'',
      ''  Using cached click-8.1.7-py3-none-any.whl (97 kB)'',
      ''Collecting itsdangerous>=2.1.2'',
      ''  Using cached itsdangerous-2.2.0-py3-none-any.whl (16 kB)'',
      ''Requirement already satisfied: Jinja2>=3.1.2 in /home/openhands/.local/lib/python3.10/site-packages (from flask) (3.1.3)'',
      ''Requirement already satisfied: MarkupSafe>=2.0 in /home/openhands/.local/lib/python3.10/site-packages (from Jinja2>=3.1.2->flask) (2.1.5)'',
      ''Installing collected packages: Werkzeug, itsdangerous, click, blinker, flask'',
      ''Successfully installed Werkzeug-3.0.2 blinker-1.7.0 click-8.1.7 flask-3.0.3 itsdangerous-2.2.0'',
      [],
      ''ASSISTANT:'',
      ''The `flask` module is installed successfully. Let me run the Python file again:'',
      ''<function=execute_bash>'',
      ''<parameter=command>'',
      ''python3 app.py > server.log 2>&1 &'',
      ''</parameter>'',
      ''</function>'',
      [],
      ''USER: EXECUTION RESULT of [execute_bash]:'',
      ''[1] 124'',
      [],
      ''ASSISTANT:'',
      ''Let me check the server log again:'',
      ''<function=execute_bash>'',
      ''<parameter=command>'',
      ''cat server.log'',
      ''</parameter>'',
      ''</function>'',
      [],
      ''USER: EXECUTION RESULT of [execute_bash]:'',
      ''* Serving Flask app '' @ [apostrophe] @ ''app'' @ [apostrophe],
      '' * Debug mode: off'',
      ''WARNING: This is a development server. Do not use it in a production deployment. Use a production WSGI server instead.'',
      '' * Running on http://127.0.0.1:5000'',
      ''Press CTRL+C to quit'',
      [],
      ''ASSISTANT:'',
      ''The server is running on port 5000 with PID 124. You can access the list of numbers by visiting http://127.0.0.1:5000. If you have any further questions, feel free to ask!'',
      []]"

definition example_kill_server :: string where
  "example_kill_server =
     join_with [newline]
     [[],
      ''USER: Now kill the server, make it display the numbers in a table format.'',
      [],
      ''ASSISTANT:'',
      ''Sure! Let me stop the server first:'',
      ''<function=execute_bash>'',
      ''<parameter=command>'',
      ''kill 124'',
      ''</parameter>'',
      ''</function>'',
      [],
      ''USER: EXECUTION RESULT of [execute_bash]:'',
      ''[1]+  Terminated              python3 app.py > server.log 2>&1'',
      []]"

definition example_run_server_again :: string where
  "example_run_server_again =
     join_with [newline]
     [[],
      ''ASSISTANT:'',
      ''Running the updated file:'',
      ''<function=execute_bash>'',
      ''<parameter=command>'',
      ''python3 app.py > server.log 2>&1 &'',
      ''</parameter>'',
      ''</function>'',
      [],
      ''USER: EXECUTION RESULT of [execute_bash]:'',
      ''[1] 126'',
      [],
      ''ASSISTANT:'',
      ''The server is running on port 5000 with PID 126. You can access the list of numbers in a table format by visiting http://127.0.0.1:5000.'',
      []]"

definition example_create_file :: string where
  "example_create_file =
     join_with [newline]
     [[],
      ''ASSISTANT:'',
      ''There is no `app.py` file in the current directory. Let me create a Python file `app.py`:'',
      ''<function=str_replace_editor>'',
      ''<parameter=command>create</parameter>'',
      ''<parameter=path>/workspace/app.py</parameter>'',
      ''<parameter=file_text>'',
      ''from flask import Flask'',
      ''app = Flask(__name__)'',
      [],
      ''@app.route('' @ [apostrophe] @ ''/'' @ [apostrophe] @ '')'',
      ''def index():'',
      ''    numbers = list(range(1, 11))'',
      ''    return str(numbers)'',
      [],
      ''if __name__ == '' @ [apostrophe] @ ''__main__'' @ [apostrophe] @ '':'',
      ''    app.run(port=5000)'',
      ''</parameter>'',
      ''</function>'',
      [],
      ''USER: EXECUTION RESULT of [str_replace_editor]:'',
      ''File created successfully at: /workspace/app.py'',
      []]"

definition example_edit_file :: string where
  "example_edit_file =
     join_with [newline]
     [[],
      ''ASSISTANT:'',
      ''Now let me display the numbers in a table format:'',
      ''<function=str_replace_editor>'',
      ''<parameter=command>str_replace</parameter>'',
      ''<parameter=path>/workspace/app.py</parameter>'',
      ''<parameter=old_str>return str(numbers)</parameter>'',
      ''<parameter=new_str>return '' @ [apostrophe] @ ''<table>'' @ [apostrophe] @ '' + '' @ [apostrophe] @ [apostrophe] @ ''.join([f'' @ [apostrophe] @ ''<tr><td>{i}</td></tr>'' @ [apostrophe] @ '' for i in numbers]) + '' @ [apostrophe] @ ''</table>'' @ [apostrophe] @ ''</parameter>'',
      ''</function>'',
      [],
      ''USER: EXECUTION RESULT of [str_replace_editor]:'',
      ''The file /workspace/app.py has been edited. Here'' @ [apostrophe] @ ''s the result of running `cat -n` on a snippet of /workspace/app.py:'',
      ''     3'',
      ''     4  @app.route('' @ [apostrophe] @ ''/'' @ [apostrophe] @ '')'',
      ''     5  def index():'',
      ''     6      numbers = list(range(1, 11))'',
      ''     7      return '' @ [apostrophe] @ ''<table>'' @ [apostrophe] @ '' + '' @ [apostrophe] @ [apostrophe] @ ''.join([f'' @ [apostrophe] @ ''<tr><td>{i}</td></tr>'' @ [apostrophe] @ '' for i in numbers]) + '' @ [apostrophe] @ ''</table>'' @ [apostrophe],
      ''     8'',
      ''     9  if __name__ == '' @ [apostrophe] @ ''__main__'' @ [apostrophe] @ '':'',
      ''    10      app.run(port=5000)'',
      ''Review the changes and make sure they are as expected. Edit the file again if necessary.'',
      [],
      []]"

definition example_view_page :: string where
  "example_view_page =
     join_with [newline]
     [[],
      ''ASSISTANT:'',
      ''Let me check how the page looks in the browser:'',
      ''<function=browser>'',
      ''<parameter=code>'',
      ''goto('' @ [apostrophe] @ ''http://127.0.0.1:5000'' @ [apostrophe] @ '')'',
      ''noop(1000)  # Wait for page to load'',
      ''</parameter>'',
      ''</function>'',
      [],
      ''USER: EXECUTION RESULT of [browser]:'',
      ''[Browser shows the numbers in a table format]'',
      []]"

definition example_task_completed :: string where
  "example_task_completed =
     join_with [newline]
     [[],
      ''ASSISTANT:'',
      ''The server is running on port 5000 with PID 126. You can access the list of numbers in a table format by visiting http://127.0.0.1:5000. Let me know if you have any further requests!'',
      ''<function=finish>'',
      ''<parameter=message>The task has been completed. The web server is running and displaying numbers 1-10 in a table format at http://127.0.0.1:5000.</parameter>'',
      ''<parameter=task_completed>true</parameter>'',
      ''</function>'',
      []]"

definition example_head :: string where
  "example_head =
     join_with [newline]
     [''Here'' @ [apostrophe] @ ''s a running example of how to perform a task with the provided tools.'',
      [],
      ''--------------------- START OF EXAMPLE ---------------------'',
      [],
      ''USER: Create a list of numbers from 1 to 10, and display them in a web page at port 5000.'',
      [],
      []]"

definition example_foot :: string where
  "example_foot =
     join_with [newline]
     [[],
      ''--------------------- END OF EXAMPLE ---------------------'',
      [],
      ''Do NOT assume the environment is the same as in the example above.'',
      [],
      ''--------------------- NEW TASK DESCRIPTION ---------------------'',
      []]"

definition EXAMPLE_SUFFIX :: string where
  "EXAMPLE_SUFFIX =
     join_with [newline]
     [[],
      ''--------------------- END OF NEW TASK DESCRIPTION ---------------------'',
      [],
      ''PLEASE follow the format strictly! PLEASE EMIT ONE AND ONLY ONE FUNCTION CALL PER MESSAGE.'',
      []]"

end
