(* ===== verification/FnCall.thy ===== *)
theory FnCall
  imports PyStrings Serialization FnCallText
begin

text \<open>
  \<^verbatim>\<open>openhands/llm/fn_call_converter.py\<close>: tool calls written as text for language models without function calling,
  and read back from their answers; messages with several tool calls broken into single ones.

  Messages and tools are dictionaries, as in the source; different messages share no parts. The
  regular expressions are the functions they denote: the leftmost match, with the shortest body.
  Reading and writing JSON (\<open>loads\<close>, \<open>dumps\<close>) and the rendering of floats and containers (\<open>rp\<close>)
  are arguments. The texts of exceptions leave out the values they print; values of a type that
  the annotations exclude (\<open>ill_typed\<close>) and the limit on the digits of an integer are not
  followed further.
\<close>

section \<open>Strings\<close>

text \<open>The first occurrence of \<open>p\<close>: what is before and what is after it.\<close>

fun find_sub :: "string \<Rightarrow> string \<Rightarrow> (string \<times> string) option" where
  "find_sub p [] = (if p = [] then Some ([], []) else None)"
| "find_sub p (c # s) =
     (if startswith (c # s) p then Some ([], drop (length p) (c # s))
      else map_option (\<lambda>(a, b). (c # a, b)) (find_sub p s))"

definition before_sub :: "string \<Rightarrow> string \<Rightarrow> string" where
  "before_sub p s = (case find_sub p s of None \<Rightarrow> s | Some (a, _) \<Rightarrow> a)"

definition replace_first :: "string \<Rightarrow> string \<Rightarrow> string" where
  "replace_first p s = (case find_sub p s of None \<Rightarrow> s | Some (a, b) \<Rightarrow> a @ b)"

function count_sub :: "string \<Rightarrow> string \<Rightarrow> nat" where
  "count_sub p s =
     (if p = [] then Suc (length s)
      else case find_sub p s of None \<Rightarrow> 0 | Some (_, b) \<Rightarrow> Suc (count_sub p b))"
  by pat_completeness auto

lemma find_sub_length: "find_sub p s = Some (a, b) \<Longrightarrow> length s = length a + length p + length b"
  by (induction p s arbitrary: a b rule: find_sub.induct)
    (auto simp: startswith_def split: if_splits, metis diff_add_inverse2 le_add_diff_inverse length_Cons length_take min.absorb_iff2 min_def add.commute nat_le_linear)

termination count_sub
  by (relation "measure (\<lambda>(p, s). length s)") (auto dest: find_sub_length)

declare count_sub.simps [simp del]

definition py_rstrip :: "string \<Rightarrow> string" where
  "py_rstrip s = rev (dropWhile is_space (rev s))"

section \<open>Regular expressions\<close>

text \<open>\<open><name=([^>]+)>\<close> at the beginning: the name and the rest.\<close>

definition match_tag :: "string \<Rightarrow> string \<Rightarrow> (string \<times> string) option" where
  "match_tag opening s =
     (if \<not> startswith s opening then None
      else
        let r = drop (length opening) s;
            name = takeWhile (\<lambda>c. c \<noteq> CHR ''>'') r
        in case dropWhile (\<lambda>c. c \<noteq> CHR ''>'') r of
             [] \<Rightarrow> None
           | _ # rest \<Rightarrow> if name = [] then None else Some (name, rest))"

text \<open>\<open>FN_REGEX_PATTERN\<close>\<close>

definition match_function :: "string \<Rightarrow> (string \<times> string) option" where
  "match_function s =
     (case match_tag ''<function='' s of
        None \<Rightarrow> None
      | Some (name, rest) \<Rightarrow>
          (case rest of
             [] \<Rightarrow> None
           | c # body \<Rightarrow>
               if c \<noteq> newline then None
               else map_option (\<lambda>(a, _). (name, a)) (find_sub ''</function>'' body)))"

fun search_function :: "string \<Rightarrow> (string \<times> string) option" where
  "search_function [] = None"
| "search_function (c # s) = (case match_function (c # s) of Some m \<Rightarrow> Some m | None \<Rightarrow> search_function s)"

text \<open>\<open>FN_PARAM_REGEX_PATTERN\<close>: name, value, and what follows the match.\<close>

definition match_parameter :: "string \<Rightarrow> (string \<times> string \<times> string) option" where
  "match_parameter s =
     (case match_tag ''<parameter='' s of
        None \<Rightarrow> None
      | Some (name, rest) \<Rightarrow> map_option (\<lambda>(a, b). (name, a, b)) (find_sub ''</parameter>'' rest))"

lemma match_tag_length: "match_tag opening s = Some (name, rest) \<Longrightarrow> length rest < length s"
proof -
  assume "match_tag opening s = Some (name, rest)"
  then obtain c where c: "dropWhile (\<lambda>c. c \<noteq> CHR ''>'') (drop (length opening) s) = c # rest"
    by (auto simp: match_tag_def Let_def split: if_splits list.splits)
  have "length (dropWhile (\<lambda>c. c \<noteq> CHR ''>'') (drop (length opening) s)) \<le> length s"
    by (rule order_trans [OF length_dropWhile_le]) simp
  with c show ?thesis by simp
qed

lemma match_parameter_length: "match_parameter s = Some (name, a, b) \<Longrightarrow> length b < length s"
  by (auto simp: match_parameter_def split: option.splits dest!: match_tag_length find_sub_length)

function find_parameters :: "string \<Rightarrow> (string \<times> string) list" where
  "find_parameters [] = []"
| "find_parameters (c # s) =
     (case match_parameter (c # s) of
        None \<Rightarrow> find_parameters s
      | Some (name, value, rest) \<Rightarrow> (name, value) # find_parameters rest)"
  by pat_completeness auto
termination
  by (relation "measure length") (auto dest: match_parameter_length)

declare find_parameters.simps [simp del]

text \<open>\<open>TOOL_RESULT_REGEX_PATTERN\<close>\<close>

fun search_result :: "string \<Rightarrow> (string \<times> string) option" where
  "search_result [] = None"
| "search_result (c # s) =
     (case (if startswith (c # s) ''EXECUTION RESULT of ['' then find_sub ('']:'' @ [newline]) (drop 21 (c # s)) else None) of
        Some m \<Rightarrow> Some m
      | None \<Rightarrow> search_result s)"

section \<open>Errors and values\<close>

definition conversion_error :: "string \<Rightarrow> py_error" where
  "conversion_error m = OtherException (''FunctionCallConversionError: '' @ m)"

fun is_conversion_error :: "py_error \<Rightarrow> bool" where
  "is_conversion_error (OtherException m) = startswith m ''FunctionCallConversionError: ''"
| "is_conversion_error _ = False"

definition validation_error :: "string \<Rightarrow> py_error" where
  "validation_error m = OtherException (''FunctionCallValidationError: '' @ m)"

definition content_type_error :: py_error where
  "content_type_error = conversion_error ''Unexpected content type. Expected str or list.''"

text \<open>\<open>d[k]\<close> and \<open>d.items()\<close>\<close>

definition dict_item :: "jdict \<Rightarrow> string \<Rightarrow> json result" where
  "dict_item d k = (case dict_get d k of None \<Rightarrow> Inl (KeyError k) | Some v \<Rightarrow> Inr v)"

fun json_items :: "json \<Rightarrow> jdict result" where
  "json_items (JObj d) = Inr d"
| "json_items _ = Inl (AttributeError ''items'')"

text \<open>\<open>set(v)\<close> of a list\<close>

fun hashable :: "json \<Rightarrow> bool" where
  "hashable (JList _) = False"
| "hashable (JObj _) = False"
| "hashable _ = True"

definition py_set :: "json \<Rightarrow> json list result" where
  "py_set v =
     bind_result (as_list v) (\<lambda>l.
       if list_all hashable l then Inr l else Inl (TypeError ''unhashable type''))"

text \<open>Python's equality of numbers does not look at their types.\<close>

fun number_of :: "json \<Rightarrow> real option" where
  "number_of (JBool b) = Some (if b then 1 else 0)"
| "number_of (JInt i) = Some (real_of_int i)"
| "number_of (JFloat r) = Some r"
| "number_of _ = None"

fun py_equal :: "json \<Rightarrow> json \<Rightarrow> bool" where
  "py_equal (JStr s) (JStr t) = (s = t)"
| "py_equal JNull JNull = True"
| "py_equal (JList l) (JList m) = list_all2 py_equal l m"
| "py_equal (JObj d) (JObj e) =
     (length d = length e \<and>
      list_all (\<lambda>(k, v). list_ex (\<lambda>(k', v'). k = k' \<and> py_equal v v') e) d)"
| "py_equal v w = (number_of v \<noteq> None \<and> number_of v = number_of w)"

section \<open>Tool calls as text\<close>

definition EXECUTE_BASH_TOOL_NAME :: string where "EXECUTE_BASH_TOOL_NAME = ''execute_bash''"

definition STR_REPLACE_EDITOR_TOOL_NAME :: string where "STR_REPLACE_EDITOR_TOOL_NAME = ''str_replace_editor''"

definition BROWSER_TOOL_NAME :: string where "BROWSER_TOOL_NAME = ''browser''"

definition FINISH_TOOL_NAME :: string where "FINISH_TOOL_NAME = ''finish''"

text \<open>The names of the tools among the four known ones.\<close>

fun available_tools :: "json list \<Rightarrow> string list result" where
  "available_tools [] = Inr []"
| "available_tools (tool # tools) =
     bind_result (json_item tool ''type'') (\<lambda>ty.
       if ty \<noteq> JStr ''function'' then available_tools tools
       else
         bind_result (json_item tool ''function'') (\<lambda>fn.
         bind_result (json_item fn ''name'') (\<lambda>name.
         bind_result (available_tools tools) (\<lambda>names.
           Inr (if name = JStr EXECUTE_BASH_TOOL_NAME then ''execute_bash'' # names
                else if name = JStr STR_REPLACE_EDITOR_TOOL_NAME then ''str_replace_editor'' # names
                else if name = JStr BROWSER_TOOL_NAME then ''browser'' # names
                else if name = JStr FINISH_TOOL_NAME then ''finish'' # names
                else names)))))"

definition snippet :: "string \<Rightarrow> string list \<Rightarrow> string \<Rightarrow> string" where
  "snippet name names s = (if name \<in> set names then s else [])"

definition get_example_for_tools :: "json list \<Rightarrow> string result" where
  "get_example_for_tools tools =
     bind_result (available_tools tools) (\<lambda>names.
       if names = [] then Inr []
       else Inr (py_lstrip
         (example_head
          @ snippet ''execute_bash'' names example_check_dir
          @ snippet ''str_replace_editor'' names example_create_file
          @ snippet ''execute_bash'' names example_run_server
          @ snippet ''browser'' names example_view_page
          @ snippet ''execute_bash'' names example_kill_server
          @ snippet ''str_replace_editor'' names example_edit_file
          @ snippet ''execute_bash'' names example_run_server_again
          @ snippet ''finish'' names example_task_completed
          @ example_foot)))"

text \<open>One parameter of a call; a value of several lines is put between line breaks.\<close>

definition parameter_text :: "(json \<Rightarrow> string) \<Rightarrow> json \<Rightarrow> string" where
  "parameter_text rp v =
     (case v of
        JStr s \<Rightarrow> if newline \<in> set s then newline # s @ [newline] else s
      | _ \<Rightarrow> py_str rp v)"

definition parameter_line :: "(json \<Rightarrow> string) \<Rightarrow> string \<times> json \<Rightarrow> string" where
  "parameter_line rp p =
     ''<parameter='' @ fst p @ ''>'' @ parameter_text rp (snd p) @ ''</parameter>'' @ [newline]"

definition convert_tool_call_to_string ::
  "(json \<Rightarrow> string) \<Rightarrow> (string \<Rightarrow> json option) \<Rightarrow> jdict \<Rightarrow> string result" where
  "convert_tool_call_to_string rp loads tool_call =
     (case dict_get tool_call ''function'' of
        None \<Rightarrow> Inl (conversion_error ''Tool call must contain 'function' key.'')
      | Some fn \<Rightarrow>
          if dict_get tool_call ''id'' = None then
            Inl (conversion_error ''Tool call must contain 'id' key.'')
          else if dict_get tool_call ''type'' = None then
            Inl (conversion_error ''Tool call must contain 'type' key.'')
          else if dict_get tool_call ''type'' \<noteq> Some (JStr ''function'') then
            Inl (conversion_error ''Tool call type must be 'function'.'')
          else
            bind_result (json_item fn ''name'') (\<lambda>name.
            bind_result (json_item fn ''arguments'') (\<lambda>arguments.
            bind_result (as_str arguments) (\<lambda>s.
              case loads s of
                None \<Rightarrow> Inl (conversion_error ''Failed to parse arguments as JSON.'')
              | Some args \<Rightarrow>
                  bind_result (json_items args) (\<lambda>params.
                    Inr (''<function='' @ py_str rp name @ ''>'' @ [newline] @
                         concat (map (parameter_line rp) params) @ ''</function>''))))))"

section \<open>The description of the tools\<close>

definition describe_parameter ::
  "(json \<Rightarrow> string) \<Rightarrow> json list \<Rightarrow> nat \<times> string \<times> json \<Rightarrow> string result" where
  "describe_parameter rp required_params p =
     (case p of
        (j, param_name, param_info) \<Rightarrow>
          bind_result (json_get param_info ''type'' (JStr ''string'')) (\<lambda>param_type.
          bind_result (json_get param_info ''description'' (JStr ''No description provided'')) (\<lambda>desc.
          bind_result (json_in ''enum'' param_info) (\<lambda>has_enum.
          bind_result
            (if has_enum then
               bind_result (json_item param_info ''enum'') (\<lambda>enum.
               bind_result (as_list enum) (\<lambda>vs.
               bind_result (as_str desc) (\<lambda>d.
                 Inr (d @ [newline] @ ''Allowed values: ['' @
                      join_with '', '' (map (\<lambda>v. ''`'' @ py_str rp v @ ''`'') vs) @ '']''))))
             else Inr (py_str rp desc))
            (\<lambda>text_of.
              Inr (''  ('' @ nat_digits (j + 1) @ '') '' @ param_name @ '' ('' @ py_str rp param_type @ '', '' @
                   (if JStr param_name \<in> set required_params then ''required'' else ''optional'') @
                   ''): '' @ text_of @ [newline]))))))"

definition describe_parameters :: "(json \<Rightarrow> string) \<Rightarrow> json \<Rightarrow> string result" where
  "describe_parameters rp parameters =
     bind_result (json_get parameters ''properties'' (JObj [])) (\<lambda>props.
     bind_result (json_get parameters ''required'' (JList [])) (\<lambda>req.
     bind_result (py_set req) (\<lambda>required_params.
     bind_result (json_items props) (\<lambda>properties.
     bind_result (all_results (map (describe_parameter rp required_params) (enumerate 0 properties))) (\<lambda>ls.
       Inr (''Parameters:'' @ [newline] @ concat ls))))))"

definition describe_tool :: "(json \<Rightarrow> string) \<Rightarrow> nat \<times> json \<Rightarrow> string result" where
  "describe_tool rp t =
     (case t of
        (i, tool) \<Rightarrow>
          bind_result (json_item tool ''type'') (\<lambda>ty.
            if ty \<noteq> JStr ''function'' then Inl (AssertionError [])
            else
              bind_result (json_item tool ''function'') (\<lambda>fn.
              bind_result (json_item fn ''name'') (\<lambda>name.
              bind_result (json_item fn ''description'') (\<lambda>description.
              bind_result (json_in ''parameters'' fn) (\<lambda>has_parameters.
              bind_result
                (if has_parameters then bind_result (json_item fn ''parameters'') (describe_parameters rp)
                 else Inr (''No parameters are required for this function.'' @ [newline]))
                (\<lambda>body.
                  Inr ((if i > 0 then [newline] else []) @
                       ''---- BEGIN FUNCTION #'' @ nat_digits (i + 1) @ '': '' @ py_str rp name @ '' ----'' @ [newline] @
                       ''Description: '' @ py_str rp description @ [newline] @
                       body @
                       ''---- END FUNCTION #'' @ nat_digits (i + 1) @ '' ----'' @ [newline]))))))))"

definition convert_tools_to_description :: "(json \<Rightarrow> string) \<Rightarrow> json list \<Rightarrow> string result" where
  "convert_tools_to_description rp tools =
     bind_result (all_results (map (describe_tool rp) (enumerate 0 tools))) (\<lambda>ls. Inr (concat ls))"

definition system_prompt_suffix :: "(json \<Rightarrow> string) \<Rightarrow> json list \<Rightarrow> string result" where
  "system_prompt_suffix rp tools =
     bind_result (convert_tools_to_description rp tools) (\<lambda>d. Inr (prompt_before @ d @ prompt_after))"

section \<open>Parts of a message\<close>

definition text_part :: "string \<Rightarrow> json" where
  "text_part s = JObj [(''type'', JStr ''text''), (''text'', JStr s)]"

definition is_text_part :: "json \<Rightarrow> bool result" where
  "is_text_part p = bind_result (json_item p ''type'') (\<lambda>t. Inr (t = JStr ''text''))"

definition part_text :: "json \<Rightarrow> string result" where
  "part_text p = bind_result (json_item p ''text'') as_str"

fun update_text :: "(string \<Rightarrow> string) \<Rightarrow> json \<Rightarrow> json result" where
  "update_text f (JObj d) =
     bind_result (part_text (JObj d)) (\<lambda>s. Inr (JObj (dict_set d ''text'' (JStr (f s)))))"
| "update_text f p = Inl (TypeError ''not subscriptable by a string'')"

text \<open>The last part is changed if it is a text, and \<open>other\<close> is the content otherwise.\<close>

definition on_last_text :: "(string \<Rightarrow> string) \<Rightarrow> json list \<Rightarrow> json list \<Rightarrow> json list result" where
  "on_last_text f other l =
     (if l = [] then Inr other
      else
        bind_result (is_text_part (last l)) (\<lambda>b.
          if b then bind_result (update_text f (last l)) (\<lambda>p. Inr (butlast l @ [p]))
          else Inr other))"

definition on_first_part :: "(string \<Rightarrow> string) \<Rightarrow> json list \<Rightarrow> json list \<Rightarrow> json list result" where
  "on_first_part f other l =
     (case l of
        [] \<Rightarrow> Inr other
      | p # ps \<Rightarrow>
          bind_result (is_text_part p) (\<lambda>b.
            if b then bind_result (update_text f p) (\<lambda>q. Inr (q # ps)) else Inr other))"

fun on_first_text :: "(string \<Rightarrow> string) \<Rightarrow> json list \<Rightarrow> json list option result" where
  "on_first_text f [] = Inr None"
| "on_first_text f (p # ps) =
     bind_result (is_text_part p) (\<lambda>b.
       if b then bind_result (update_text f p) (\<lambda>q. Inr (Some (q # ps)))
       else bind_result (on_first_text f ps) (\<lambda>r. Inr (map_option ((#) p) r)))"

definition on_content ::
  "(string \<Rightarrow> string) \<Rightarrow> (json list \<Rightarrow> json list result) \<Rightarrow> json \<Rightarrow> json result" where
  "on_content f g content =
     (case content of
        JStr s \<Rightarrow> Inr (JStr (f s))
      | JList l \<Rightarrow> bind_result (g l) (\<lambda>l'. Inr (JList l'))
      | _ \<Rightarrow> Inl content_type_error)"

definition message_of :: "string \<Rightarrow> json \<Rightarrow> jdict" where
  "message_of role content = [(''role'', JStr role), (''content'', content)]"

section \<open>From function calling messages\<close>

definition convert_system :: "string \<Rightarrow> json \<Rightarrow> json result" where
  "convert_system sfx =
     on_content (\<lambda>s. s @ sfx) (\<lambda>l. on_last_text (\<lambda>s. s @ sfx) (l @ [text_part sfx]) l)"

definition add_example :: "string \<Rightarrow> json \<Rightarrow> json result" where
  "add_example example content =
     (if example = [] then Inr content
      else
        on_content (\<lambda>s. example @ s @ EXAMPLE_SUFFIX)
          (\<lambda>l. on_first_part (\<lambda>s. example @ s @ EXAMPLE_SUFFIX)
                 ([text_part example] @ l @ [text_part EXAMPLE_SUFFIX]) l)
          content)"

definition add_tool_call :: "string \<Rightarrow> json \<Rightarrow> json result" where
  "add_tool_call tool_content =
     on_content (\<lambda>s. py_lstrip (s @ [newline, newline] @ tool_content))
       (\<lambda>l. on_last_text (\<lambda>s. py_lstrip (s @ [newline, newline] @ tool_content))
              (l @ [text_part tool_content]) l)"

definition convert_assistant ::
  "(json \<Rightarrow> string) \<Rightarrow> (string \<Rightarrow> json option) \<Rightarrow> jdict \<Rightarrow> json \<Rightarrow> json result" where
  "convert_assistant rp loads message content =
     (if dict_get_default message ''tool_calls'' JNull = JNull then Inr content
      else
        bind_result (as_list (dict_get_default message ''tool_calls'' JNull)) (\<lambda>calls.
          case calls of
            [call] \<Rightarrow>
              bind_result (as_dict call) (\<lambda>tool_call.
                case convert_tool_call_to_string rp loads tool_call of
                  Inl e \<Rightarrow>
                    Inl (if is_conversion_error e
                         then conversion_error ''Failed to convert tool call to string.'' else e)
                | Inr tool_content \<Rightarrow> add_tool_call tool_content content)
          | _ \<Rightarrow> Inl (conversion_error ''Expected exactly one tool call in the message.'')))"

definition add_result_prefix :: "string \<Rightarrow> json \<Rightarrow> json result" where
  "add_result_prefix pre =
     on_content (\<lambda>s. pre @ s)
       (\<lambda>l. bind_result (on_first_text (\<lambda>s. pre @ s) l) (\<lambda>r.
              Inr (case r of Some l' \<Rightarrow> l' | None \<Rightarrow> text_part pre # l)))"

definition mark_cached :: "json \<Rightarrow> json result" where
  "mark_cached content =
     (case content of
        JList l \<Rightarrow>
          (if l = [] then Inl IndexError
           else case last l of
             JObj d \<Rightarrow>
               Inr (JList (butlast l @
                 [JObj (dict_set d ''cache_control'' (JObj [(''type'', JStr ''ephemeral'')]))]))
           | _ \<Rightarrow> Inl (TypeError ''object does not support item assignment''))
      | _ \<Rightarrow> Inl (TypeError ''object does not support item assignment''))"

definition convert_tool_result :: "(json \<Rightarrow> string) \<Rightarrow> jdict \<Rightarrow> json \<Rightarrow> json result" where
  "convert_tool_result rp message content =
     bind_result
       (add_result_prefix
          (''EXECUTION RESULT of ['' @ py_str rp (dict_get_default message ''name'' (JStr ''function'')) @ '']:'' @ [newline])
          content)
       (\<lambda>c. if dict_get message ''cache_control'' = None then Inr c else mark_cached c)"

text \<open>One round of the loop; \<open>first\<close> is \<open>first_user_message_encountered\<close>.\<close>

definition convert_message ::
  "(json \<Rightarrow> string) \<Rightarrow> (string \<Rightarrow> json option) \<Rightarrow> string \<Rightarrow> string \<Rightarrow> bool \<Rightarrow> bool \<Rightarrow> jdict \<Rightarrow>
    (bool \<times> jdict) result" where
  "convert_message rp loads sfx example add_examples first message =
     bind_result (dict_item message ''role'') (\<lambda>role.
     bind_result (dict_item message ''content'') (\<lambda>content.
       if role = JStr ''system'' then
         bind_result (convert_system sfx content) (\<lambda>c. Inr (first, message_of ''system'' c))
       else if role = JStr ''user'' then
         (if \<not> first \<and> add_examples then
            bind_result (add_example example content) (\<lambda>c. Inr (True, message_of ''user'' c))
          else Inr (first, message_of ''user'' content))
       else if role = JStr ''assistant'' then
         bind_result (convert_assistant rp loads message content) (\<lambda>c. Inr (first, message_of ''assistant'' c))
       else if role = JStr ''tool'' then
         bind_result (convert_tool_result rp message content) (\<lambda>c. Inr (first, message_of ''user'' c))
       else Inl (conversion_error ''Unexpected role. Expected system, user, assistant or tool.'')))"

fun convert_messages ::
  "(bool \<Rightarrow> jdict \<Rightarrow> (bool \<times> jdict) result) \<Rightarrow> bool \<Rightarrow> jdict list \<Rightarrow> jdict list result" where
  "convert_messages f first [] = Inr []"
| "convert_messages f first (m # ms) =
     bind_result (f first m) (\<lambda>(first', m').
     bind_result (convert_messages f first' ms) (\<lambda>ms'. Inr (m' # ms')))"

text \<open>The example is made once: it cannot fail for tools that have been described.\<close>

definition convert_fncall_messages_to_non_fncall_messages ::
  "(json \<Rightarrow> string) \<Rightarrow> (string \<Rightarrow> json option) \<Rightarrow> jdict list \<Rightarrow> json list \<Rightarrow> bool \<Rightarrow> jdict list result" where
  "convert_fncall_messages_to_non_fncall_messages rp loads messages tools add_examples =
     bind_result (system_prompt_suffix rp tools) (\<lambda>sfx.
     bind_result (get_example_for_tools tools) (\<lambda>example.
       convert_messages (convert_message rp loads sfx example add_examples) False messages))"

section \<open>Parameters read from text\<close>

text \<open>The value of \<open>key\<close> in the parameters of a tool, if both are there.\<close>

definition schema_part :: "json \<Rightarrow> string \<Rightarrow> json option result" where
  "schema_part tool key =
     bind_result (json_in ''parameters'' tool) (\<lambda>b.
       if \<not> b then Inr None
       else
         bind_result (json_item tool ''parameters'') (\<lambda>ps.
         bind_result (json_in key ps) (\<lambda>b'.
           if \<not> b' then Inr None
           else bind_result (json_item ps key) (\<lambda>v. Inr (Some v)))))"

definition param_types :: "jdict \<Rightarrow> jdict result" where
  "param_types props =
     all_results (map (\<lambda>(n, v). bind_result (json_get v ''type'' (JStr ''string'')) (\<lambda>t. Inr (n, t))) props)"

definition convert_value :: "(string \<Rightarrow> json option) \<Rightarrow> jdict \<Rightarrow> string \<Rightarrow> string \<Rightarrow> json result" where
  "convert_value loads types name v =
     (if dict_get types name = Some (JStr ''integer'') then
        (case py_int v of
           None \<Rightarrow> Inl (validation_error ''Parameter is expected to be an integer.'')
         | Some i \<Rightarrow> Inr (JInt i))
      else if dict_get types name = Some (JStr ''array'') then
        (case loads v of
           None \<Rightarrow> Inl (validation_error ''Parameter is expected to be an array.'')
         | Some j \<Rightarrow> Inr j)
      else Inr (JStr v))"

definition check_enum :: "json \<Rightarrow> string \<Rightarrow> json \<Rightarrow> unit result" where
  "check_enum tool name v =
     bind_result (json_item tool ''parameters'') (\<lambda>ps.
     bind_result (json_item ps ''properties'') (\<lambda>props.
     bind_result (json_item props name) (\<lambda>info.
     bind_result (json_in ''enum'' info) (\<lambda>b.
       if \<not> b then Inr ()
       else
         bind_result (json_item info ''enum'') (\<lambda>enum.
         bind_result (as_list enum) (\<lambda>vs.
           if list_ex (py_equal v) vs then Inr ()
           else Inl (validation_error ''Parameter is expected to be one of the enum.'')))))))"

fun collect_params ::
  "(string \<Rightarrow> json option) \<Rightarrow> json \<Rightarrow> string list \<Rightarrow> jdict \<Rightarrow> (string \<times> string) list \<Rightarrow> jdict \<Rightarrow> jdict result" where
  "collect_params loads tool allowed types [] params = Inr params"
| "collect_params loads tool allowed types ((name, v) # ms) params =
     (if allowed \<noteq> [] \<and> name \<notin> set allowed then
        Inl (validation_error ''Parameter is not allowed for function.'')
      else
        bind_result (convert_value loads types name v) (\<lambda>value.
        bind_result (check_enum tool name value) (\<lambda>_.
          collect_params loads tool allowed types ms (dict_set params name value))))"

definition extract_and_validate_params ::
  "(string \<Rightarrow> json option) \<Rightarrow> json \<Rightarrow> (string \<times> string) list \<Rightarrow> jdict result" where
  "extract_and_validate_params loads tool param_matches =
     bind_result (schema_part tool ''required'') (\<lambda>req.
     bind_result (case req of None \<Rightarrow> Inr [] | Some r \<Rightarrow> py_set r) (\<lambda>required_params.
     bind_result (schema_part tool ''properties'') (\<lambda>pr.
     bind_result (case pr of None \<Rightarrow> Inr [] | Some p \<Rightarrow> json_items p) (\<lambda>props.
     bind_result (param_types props) (\<lambda>types.
     bind_result (collect_params loads tool (dict_keys props) types param_matches []) (\<lambda>params.
       if list_all (\<lambda>r. r \<in> JStr ` set (dict_keys params)) required_params then Inr params
       else Inl (validation_error ''Missing required parameters for function.'')))))))"

section \<open>To function calling messages\<close>

definition fix_stopword :: "string \<Rightarrow> string" where
  "fix_stopword content =
     (if contains ''<function='' content \<and> count_sub ''<function='' content = 1 then
        (if endswith content ''</'' then py_rstrip content @ ''function>''
         else content @ [newline] @ ''</function>'')
      else content)"

definition strip_example :: "string \<Rightarrow> string \<Rightarrow> string" where
  "strip_example example s =
     (let s1 = if startswith s example then replace_first example s else s
      in if endswith s1 EXAMPLE_SUFFIX then replace_first EXAMPLE_SUFFIX s1 else s1)"

definition remove_example :: "string \<Rightarrow> json \<Rightarrow> json result" where
  "remove_example example =
     on_content (strip_example example)
       (\<lambda>l. all_results (map (\<lambda>p. bind_result (is_text_part p) (\<lambda>b.
              if b then update_text (strip_example example) p else Inr p)) l))"

fun first_result_part :: "json list \<Rightarrow> (string \<times> string) option result" where
  "first_result_part [] = Inr None"
| "first_result_part (p # ps) =
     bind_result (json_get p ''type'' JNull) (\<lambda>t.
       if t = JStr ''text'' then
         bind_result (part_text p) (\<lambda>s.
           case search_result s of Some m \<Rightarrow> Inr (Some m) | None \<Rightarrow> first_result_part ps)
       else first_result_part ps)"

definition tool_result_match :: "json \<Rightarrow> (string \<times> string) option result" where
  "tool_result_match content =
     (case content of
        JStr s \<Rightarrow> Inr (search_result s)
      | JList l \<Rightarrow> first_result_part l
      | _ \<Rightarrow> Inl content_type_error)"

text \<open>The content is a string or a list with one text.\<close>

definition single_text :: "json \<Rightarrow> bool" where
  "single_text content =
     (case content of
        JStr _ \<Rightarrow> True
      | JList [JObj d] \<Rightarrow> dict_get d ''type'' = Some (JStr ''text'')
      | _ \<Rightarrow> False)"

definition tool_call_id :: "nat \<Rightarrow> string" where
  "tool_call_id n = ''toolu_'' @ (if n < 10 then ''0'' else []) @ nat_digits n"

definition back_user :: "string \<Rightarrow> bool \<Rightarrow> nat \<Rightarrow> json \<Rightarrow> jdict result" where
  "back_user example first counter content0 =
     bind_result (if first then Inr content0 else remove_example example content0) (\<lambda>content.
     bind_result (tool_result_match content) (\<lambda>m.
       case m of
         None \<Rightarrow> Inr (message_of ''user'' content)
       | Some (tool_name, tool_result) \<Rightarrow>
           if \<not> single_text content then
             Inl (conversion_error ''Expected str or list with one text item when tool result is present in the message.'')
           else
             Inr [(''role'', JStr ''tool''), (''name'', JStr tool_name),
                  (''content'', (case content of
                                   JList _ \<Rightarrow> JList [text_part (py_strip tool_result)]
                                 | _ \<Rightarrow> JStr (py_strip tool_result))),
                  (''tool_call_id'', JStr (tool_call_id (counter - 1)))]))"

fun any_function_call :: "json list \<Rightarrow> bool result" where
  "any_function_call [] = Inr False"
| "any_function_call (p # ps) =
     bind_result (json_get p ''type'' JNull) (\<lambda>t.
       if t = JStr ''text'' then
         bind_result (part_text p) (\<lambda>s.
           if search_function s \<noteq> None then Inr True else any_function_call ps)
       else any_function_call ps)"

text \<open>The content with the stop word restored, and the function call at its end.\<close>

definition function_match :: "json \<Rightarrow> (json \<times> (string \<times> string) option) result" where
  "function_match content =
     (case content of
        JStr s \<Rightarrow> Inr (JStr (fix_stopword s), search_function (fix_stopword s))
      | JList l \<Rightarrow>
          bind_result (if l = [] then Inr False else is_text_part (last l)) (\<lambda>b.
          bind_result (on_last_text fix_stopword l l) (\<lambda>l'.
          bind_result (if b then bind_result (part_text (last l')) (\<lambda>s. Inr (search_function s)) else Inr None) (\<lambda>m.
          bind_result (any_function_call l') (\<lambda>any.
            if any \<and> m = None then
              Inl (conversion_error ''Expecting function call in the LAST index of content list.'')
            else Inr (JList l', m)))))
      | _ \<Rightarrow> Inl content_type_error)"

fun find_tool :: "string \<Rightarrow> json list \<Rightarrow> json option result" where
  "find_tool name [] = Inr None"
| "find_tool name (tool # tools) =
     bind_result (json_item tool ''type'') (\<lambda>ty.
       if ty \<noteq> JStr ''function'' then find_tool name tools
       else
         bind_result (json_item tool ''function'') (\<lambda>fn.
         bind_result (json_item fn ''name'') (\<lambda>n.
           if n = JStr name then Inr (Some fn) else find_tool name tools)))"

definition call_of :: "nat \<Rightarrow> string \<Rightarrow> string \<Rightarrow> json" where
  "call_of counter fn_name arguments =
     JObj [(''index'', JInt 1), (''id'', JStr (tool_call_id counter)), (''type'', JStr ''function''),
           (''function'', JObj [(''name'', JStr fn_name), (''arguments'', JStr arguments)])]"

definition drop_call :: "json \<Rightarrow> json result" where
  "drop_call =
     on_content (\<lambda>s. py_strip (before_sub ''<function='' s))
       (\<lambda>l. on_last_text (\<lambda>s. py_strip (before_sub ''<function='' s)) l l)"

definition back_assistant ::
  "(string \<Rightarrow> json option) \<Rightarrow> (json \<Rightarrow> string) \<Rightarrow> json list \<Rightarrow> nat \<Rightarrow> jdict \<Rightarrow> json \<Rightarrow> (nat \<times> jdict) result" where
  "back_assistant loads dumps tools counter message content0 =
     bind_result (function_match content0) (\<lambda>(content, m).
       case m of
         None \<Rightarrow>
           Inr (counter, case content of JList l \<Rightarrow> dict_set message ''content'' content | _ \<Rightarrow> message)
       | Some (fn_name, fn_body) \<Rightarrow>
           bind_result (find_tool fn_name tools) (\<lambda>found.
             case found of
               None \<Rightarrow> Inl (validation_error ''Function not found in available tools'')
             | Some tool \<Rightarrow>
                 bind_result (extract_and_validate_params loads tool (find_parameters fn_body)) (\<lambda>params.
                 bind_result (drop_call content) (\<lambda>c.
                   Inr (Suc counter,
                        message_of ''assistant'' c @
                        [(''tool_calls'', JList [call_of counter fn_name (dumps (JObj params))])])))))"

text \<open>\<open>content or ''\<close>\<close>

definition or_empty :: "json \<Rightarrow> json" where
  "or_empty v = (if truthy v then v else JStr [])"

definition back_system :: "string \<Rightarrow> json \<Rightarrow> json result" where
  "back_system sfx content =
     (case content of
        JStr s \<Rightarrow> Inr (JStr (before_sub sfx s))
      | JList l \<Rightarrow> bind_result (on_last_text (before_sub sfx) l l) (\<lambda>l'. Inr (JList l'))
      | _ \<Rightarrow> Inr content)"

fun back_messages ::
  "(string \<Rightarrow> json option) \<Rightarrow> (json \<Rightarrow> string) \<Rightarrow> json list \<Rightarrow> string \<Rightarrow> string \<Rightarrow> bool \<Rightarrow> nat \<Rightarrow>
    jdict list \<Rightarrow> jdict list result" where
  "back_messages loads dumps tools sfx example first counter [] = Inr []"
| "back_messages loads dumps tools sfx example first counter (message # ms) =
     bind_result (dict_item message ''role'') (\<lambda>role.
     bind_result (dict_item message ''content'') (\<lambda>content0.
       let content = or_empty content0 in
       if role = JStr ''system'' then
         bind_result (back_system sfx content) (\<lambda>c.
         bind_result (back_messages loads dumps tools sfx example first counter ms) (\<lambda>ms'.
           Inr (message_of ''system'' c # ms')))
       else if role = JStr ''user'' then
         bind_result (back_user example first counter content) (\<lambda>m.
         bind_result (back_messages loads dumps tools sfx example True counter ms) (\<lambda>ms'.
           Inr (m # ms')))
       else if role = JStr ''assistant'' then
         bind_result (back_assistant loads dumps tools counter message content) (\<lambda>(counter', m).
         bind_result (back_messages loads dumps tools sfx example first counter' ms) (\<lambda>ms'.
           Inr (m # ms')))
       else Inl (conversion_error ''Unexpected role. Expected system, user, or assistant in non-function calling messages.'')))"

definition convert_non_fncall_messages_to_fncall_messages ::
  "(json \<Rightarrow> string) \<Rightarrow> (string \<Rightarrow> json option) \<Rightarrow> (json \<Rightarrow> string) \<Rightarrow> jdict list \<Rightarrow> json list \<Rightarrow> jdict list result" where
  "convert_non_fncall_messages_to_fncall_messages rp loads dumps messages tools =
     bind_result (system_prompt_suffix rp tools) (\<lambda>sfx.
     bind_result (get_example_for_tools tools) (\<lambda>example.
       back_messages loads dumps tools sfx example False 1 messages))"

section \<open>One tool call per message\<close>

definition single_call :: "json \<Rightarrow> json \<Rightarrow> jdict" where
  "single_call content call = message_of ''assistant'' content @ [(''tool_calls'', JList [call])]"

text \<open>The entries of \<open>pending_tool_calls\<close> for the calls of one message, from the call \<open>i\<close> on.\<close>

fun add_pending ::
  "json \<Rightarrow> nat \<Rightarrow> json list \<Rightarrow> (string, jdict) dict \<Rightarrow> (string, jdict) dict result" where
  "add_pending content i [] pending = Inr pending"
| "add_pending content i (call # calls) pending =
     bind_result (json_item call ''id'') (\<lambda>v.
     bind_result (as_str v) (\<lambda>k.
       add_pending content (Suc i) calls
         (dict_set pending k (single_call (if i = 0 then content else JStr []) call))))"

definition several_calls :: "jdict \<Rightarrow> json list result" where
  "several_calls message =
     (let v = dict_get_default message ''tool_calls'' JNull
      in if \<not> truthy v then Inr [] else bind_result (as_list v) (\<lambda>l. Inr (if length l > 1 then l else [])))"

fun split_calls :: "jdict list \<Rightarrow> (string, jdict) dict \<Rightarrow> (jdict list \<times> (string, jdict) dict) result" where
  "split_calls [] pending = Inr ([], pending)"
| "split_calls (message # ms) pending =
     bind_result (dict_item message ''role'') (\<lambda>role.
     bind_result (dict_item message ''content'') (\<lambda>content.
       if role = JStr ''assistant'' then
         bind_result (several_calls message) (\<lambda>calls.
           if calls = [] then
             bind_result (split_calls ms pending) (\<lambda>(out, p). Inr (message # out, p))
           else
             bind_result (add_pending content 0 calls pending) (split_calls ms))
       else if role = JStr ''tool'' then
         bind_result (dict_item message ''tool_call_id'') (\<lambda>v.
         bind_result (as_str v) (\<lambda>k.
           case dict_get pending k of
             Some call_message \<Rightarrow>
               bind_result (split_calls ms (dict_del pending k)) (\<lambda>(out, p).
                 Inr (call_message # message # out, p))
           | None \<Rightarrow>
               if pending \<noteq> [] then
                 Inl (AssertionError ''Found pending tool calls but not found in pending list'')
               else
                 bind_result (split_calls ms pending) (\<lambda>(out, p). Inr (message # out, p))))
       else if pending \<noteq> [] then
         Inl (AssertionError ''Found pending tool calls but not expect to handle it with role'')
       else
         bind_result (split_calls ms pending) (\<lambda>(out, p). Inr (message # out, p))))"

definition convert_from_multiple_tool_calls_to_single_tool_call_messages ::
  "jdict list \<Rightarrow> bool \<Rightarrow> jdict list result" where
  "convert_from_multiple_tool_calls_to_single_tool_call_messages messages ignore_final_tool_result =
     bind_result (split_calls messages []) (\<lambda>(out, pending).
       if \<not> ignore_final_tool_result \<and> pending \<noteq> [] then
         Inl (conversion_error ''Found pending tool calls but no tool result'')
       else Inr out)"

end
