(* ===== verification/FnCallProps.thy ===== *)
theory FnCallProps
  imports FnCall
begin

text \<open>
  What the conversion of tool calls preserves: a conversation written as text and read back, a
  call cut off at the stop word, the refusal of invalid calls, and messages with several calls
  broken into pairs of call and result.
\<close>

section \<open>Occurrences\<close>

lemma find_sub_None_iff: "find_sub p s = None \<longleftrightarrow> \<not> contains p s"
  by (induction s) (auto split: option.splits)

lemma find_sub_here: "find_sub p (p @ r) = Some ([], r)"
proof (cases "p @ r")
  case (Cons c s)
  then show ?thesis by (simp add: startswith_def) (metis append_eq_conv_conj)
qed simp

text \<open>The occurrence at the end of \<open>v\<close> is the first one, if none starts in \<open>v\<close>.\<close>

lemma find_sub_at: "\<not> contains p (v @ butlast p) \<Longrightarrow> find_sub p (v @ p @ r) = Some (v, r)"
proof (induction v)
  case Nil
  then show ?case by (simp add: find_sub_here)
next
  case (Cons x v)
  have "\<not> startswith (x # v @ p @ r) p"
  proof
    assume "startswith (x # v @ p @ r) p"
    moreover have "p \<noteq> [] \<Longrightarrow> x # v @ p @ r = (x # v @ butlast p) @ [last p] @ r"
      by (metis append.assoc append_Cons append_butlast_last_id)
    ultimately have p: "prefix p ((x # v @ butlast p) @ [last p] @ r) \<or> p = []"
      by (metis startswith_prefix)
    have "length p \<le> length (x # v @ butlast p)" by simp
    with p have "prefix p (x # v @ butlast p)"
      by (metis prefix_length_prefix prefixI Nil_prefix)
    with Cons.prems show False by (simp add: startswith_prefix)
  qed
  moreover have "\<not> contains p (v @ butlast p)" using Cons.prems by simp
  ultimately show ?case using Cons.IH by simp
qed

text \<open>Patterns whose first character does not come again do not overlap with themselves.\<close>

lemma prefix_inside: "c \<notin> set q \<Longrightarrow> prefix (c # q) (x # a @ c # b) \<longleftrightarrow> prefix (c # q) (x # a)"
proof
  assume c: "c \<notin> set q" and "prefix (c # q) (x # a @ c # b)"
  then have "prefix (c # q) ((x # a) @ c # b)" by (simp only: append_Cons)
  then consider "prefix (c # q) (x # a)" | us where "c # q = (x # a) @ us" "prefix us (c # b)"
    unfolding prefix_append by blast
  then show "prefix (c # q) (x # a)"
  proof cases
    case (2 us)
    with c show ?thesis by (cases us) auto
  qed
qed (metis append_Cons prefix_prefix)

lemma sublist_before: "c \<notin> set q \<Longrightarrow> sublist (c # q) (v @ c # b) \<longleftrightarrow> sublist (c # q) v \<or> sublist (c # q) (c # b)"
proof (induction v)
  case (Cons x v)
  then show ?case by (simp add: sublist_Cons_right prefix_inside del: Cons_prefix_Cons)
qed simp

lemma sublist_skip: "c \<notin> set a \<Longrightarrow> sublist (c # q) (a @ b) \<longleftrightarrow> sublist (c # q) b"
  by (induction a) (auto simp: sublist_Cons_right)

lemma find_sub_simple:
  assumes "c \<notin> set q" "\<not> contains (c # q) v"
  shows "find_sub (c # q) (v @ (c # q) @ r) = Some (v, r)"
proof (rule find_sub_at)
  have "\<not> sublist (c # q) (c # butlast q)" if "q \<noteq> []"
    using that sublist_length_le [of "c # q" "c # butlast q"] by (cases q) auto
  with assms show "\<not> contains (c # q) (v @ butlast (c # q))"
    by (cases "q = []") (simp_all add: contains_sublist sublist_before)
qed

lemma before_sub_at: "\<not> contains p (v @ butlast p) \<Longrightarrow> before_sub p (v @ p) = v"
  using find_sub_at [of p v "[]"] by (simp add: before_sub_def)

section \<open>Calls as text\<close>

lemma match_tag_here:
  assumes "name \<noteq> []" "CHR ''>'' \<notin> set name"
  shows "match_tag opening (opening @ name @ CHR ''>'' # rest) = Some (name, rest)"
proof -
  have "takeWhile (\<lambda>c. c \<noteq> CHR ''>'') (name @ CHR ''>'' # rest) = name"
    using assms by (subst takeWhile_append2) auto
  moreover have "dropWhile (\<lambda>c. c \<noteq> CHR ''>'') (name @ CHR ''>'' # rest) = CHR ''>'' # rest"
    using assms by (subst dropWhile_append2) auto
  ultimately show ?thesis
    using assms by (simp add: match_tag_def startswith_def Let_def)
qed

lemma search_function_skip:
  assumes "\<not> contains ''<function='' a"
  shows "search_function (a @ CHR ''<'' # b) = search_function (CHR ''<'' # b)"
  using assms
proof (induction a)
  case (Cons x a)
  then have "\<not> startswith (x # a) ''<function=''" by simp
  then have "\<not> startswith (x # a @ CHR ''<'' # b) ''<function=''"
    by (simp add: startswith_prefix prefix_inside del: Cons_prefix_Cons)
  then have "match_function (x # a @ CHR ''<'' # b) = None"
    by (simp add: match_function_def match_tag_def)
  with Cons show ?case by simp
qed simp

lemma search_function_None: "\<not> contains ''<function='' s \<Longrightarrow> search_function s = None"
  by (induction s) (auto simp: match_function_def match_tag_def)

lemma search_function_here:
  assumes "name \<noteq> []" "CHR ''>'' \<notin> set name" "\<not> contains ''</function>'' body"
  shows "search_function (''<function='' @ name @ ''>'' @ [newline] @ body @ ''</function>'' @ r) = Some (name, body)"
proof -
  have "match_tag ''<function='' (''<function='' @ name @ CHR ''>'' # newline # body @ ''</function>'' @ r)
      = Some (name, newline # body @ ''</function>'' @ r)"
    using assms by (intro match_tag_here)
  moreover have "find_sub ''</function>'' (body @ ''</function>'' @ r) = Some (body, r)"
    using assms(3) by (intro find_sub_simple) simp_all
  ultimately have "match_function (''<function='' @ name @ CHR ''>'' # newline # body @ ''</function>'' @ r)
      = Some (name, body)"
    by (simp add: match_function_def)
  then show ?thesis by simp
qed

definition clean_name :: "string \<Rightarrow> bool" where
  "clean_name n \<longleftrightarrow> n \<noteq> [] \<and> CHR ''<'' \<notin> set n \<and> CHR ''>'' \<notin> set n"

definition clean_text :: "string \<Rightarrow> bool" where
  "clean_text s \<longleftrightarrow> \<not> contains ''</parameter>'' s \<and> \<not> contains ''</function>'' s"

definition parameter_block :: "(string \<times> string) list \<Rightarrow> string" where
  "parameter_block ps =
     concat (map (\<lambda>(n, t). ''<parameter='' @ n @ ''>'' @ t @ ''</parameter>'' @ [newline]) ps)"

abbreviation clean_params :: "(string \<times> string) list \<Rightarrow> bool" where
  "clean_params ps \<equiv> list_all (\<lambda>(n, t). clean_name n \<and> clean_text t) ps"

lemma find_parameters_block: "clean_params ps \<Longrightarrow> find_parameters (parameter_block ps @ [newline]) = ps \<and> find_parameters (parameter_block ps) = ps"
proof (induction ps)
  case Nil
  then show ?case by (simp add: parameter_block_def find_parameters.simps match_parameter_def match_tag_def startswith_def newline_def)
next
  case (Cons p ps)
  obtain n t where p: "p = (n, t)" by (cases p)
  with Cons.prems have n: "n \<noteq> []" "CHR ''>'' \<notin> set n" and t: "\<not> contains ''</parameter>'' t"
    by (auto simp: clean_name_def clean_text_def)
  have nl: "match_parameter (newline # s) = None" for s
    by (simp add: match_parameter_def match_tag_def startswith_def newline_def)
  have step: "find_parameters (''<parameter='' @ n @ CHR ''>'' # t @ ''</parameter>'' @ newline # s) = (n, t) # find_parameters s" for s
  proof -
    have "match_tag ''<parameter='' (''<parameter='' @ n @ CHR ''>'' # t @ ''</parameter>'' @ newline # s)
        = Some (n, t @ ''</parameter>'' @ newline # s)"
      using n by (intro match_tag_here)
    moreover have "find_sub ''</parameter>'' (t @ ''</parameter>'' @ newline # s) = Some (t, newline # s)"
      using t by (intro find_sub_simple) simp_all
    ultimately have "match_parameter (''<parameter='' @ n @ CHR ''>'' # t @ ''</parameter>'' @ newline # s) = Some (n, t, newline # s)"
      by (simp add: match_parameter_def)
    then show ?thesis by (simp add: find_parameters.simps(2) nl)
  qed
  show ?case
    using Cons.IH Cons.prems step [of "parameter_block ps"] step [of "parameter_block ps @ [newline]"]
    by (simp add: p parameter_block_def)
qed

lemma block_has_no_end: "clean_params ps \<Longrightarrow> \<not> contains ''</function>'' (parameter_block ps)"
proof (induction ps)
  case Nil
  then show ?case by (simp add: parameter_block_def)
next
  case (Cons p ps)
  obtain n t where p: "p = (n, t)" by (cases p)
  with Cons.prems have n: "CHR ''<'' \<notin> set n" and t: "\<not> sublist ''</function>'' t"
    by (auto simp: clean_name_def clean_text_def contains_sublist)
  from Cons have "\<not> sublist ''</function>'' (parameter_block ps)" by (simp add: contains_sublist)
  then have "\<not> sublist ''</function>'' (CHR ''<'' # ''/parameter>'' @ newline # parameter_block ps)"
    by (simp add: sublist_Cons_right newline_def)
  with t have "\<not> sublist ''</function>'' (t @ CHR ''<'' # ''/parameter>'' @ newline # parameter_block ps)"
    by (subst sublist_before) simp_all
  then have "\<not> sublist ''</function>'' (CHR ''>'' # t @ CHR ''<'' # ''/parameter>'' @ newline # parameter_block ps)"
    by (simp add: sublist_Cons_right)
  with n have "\<not> sublist ''</function>'' (n @ CHR ''>'' # t @ CHR ''<'' # ''/parameter>'' @ newline # parameter_block ps)"
    by (subst sublist_skip) simp_all
  then show ?case
    by (simp add: p parameter_block_def contains_sublist sublist_Cons_right)
qed

section \<open>Calls that fit their tool\<close>

text \<open>What the receiver of a value gets: strings of several lines have two more line breaks.\<close>

definition received :: "json \<Rightarrow> json" where
  "received v =
     (case v of
        JStr s \<Rightarrow> JStr (if newline \<in> set s then newline # s @ [newline] else s)
      | _ \<Rightarrow> v)"

definition accepts :: "jdict \<Rightarrow> json \<Rightarrow> bool" where
  "accepts info v \<longleftrightarrow>
     (let ty = dict_get_default info ''type'' (JStr ''string'')
      in case v of
           JStr s \<Rightarrow> clean_text s \<and> ty \<noteq> JStr ''integer'' \<and> ty \<noteq> JStr ''array''
         | JInt _ \<Rightarrow> ty = JStr ''integer''
         | _ \<Rightarrow> False) \<and>
     (case dict_get info ''enum'' of
        None \<Rightarrow> True
      | Some (JList vs) \<Rightarrow> list_ex (py_equal (received v)) vs
      | _ \<Rightarrow> False)"

definition argument_ok :: "jdict \<Rightarrow> string \<times> json \<Rightarrow> bool" where
  "argument_ok props p \<longleftrightarrow>
     clean_name (fst p) \<and>
     (case dict_get props (fst p) of Some (JObj info) \<Rightarrow> accepts info (snd p) | _ \<Rightarrow> False)"

fun is_object :: "json \<Rightarrow> bool" where
  "is_object (JObj _) = True"
| "is_object _ = False"

definition schema_ok :: "json \<Rightarrow> jdict \<Rightarrow> bool" where
  "schema_ok tool args \<longleftrightarrow>
     (case tool of
        JObj fn \<Rightarrow>
          (case dict_get fn ''parameters'' of
             Some (JObj ps) \<Rightarrow>
               (case (dict_get ps ''properties'', dict_get_default ps ''required'' (JList [])) of
                  (Some (JObj props), JList req) \<Rightarrow>
                    list_all is_object (map snd props) \<and> list_all (argument_ok props) args \<and>
                    list_all (\<lambda>r. r \<in> JStr ` set (dict_keys args)) req
                | _ \<Rightarrow> False)
           | _ \<Rightarrow> False)
      | _ \<Rightarrow> False)"

definition call_ok :: "json list \<Rightarrow> string \<Rightarrow> jdict \<Rightarrow> bool" where
  "call_ok tools name args \<longleftrightarrow>
     clean_name name \<and> distinct (dict_keys args) \<and>
     (case find_tool name tools of Inr (Some tool) \<Rightarrow> schema_ok tool args | _ \<Rightarrow> False)"

lemma clean_text_wrapped [simp]: "clean_text (newline # s @ [newline]) \<longleftrightarrow> clean_text s"
proof -
  have "sublist q (newline # s @ [newline]) \<longleftrightarrow> sublist q s" if "newline \<notin> set q" "q \<noteq> []" for q
    using that sublist_around [of newline q "[]" "s @ [newline]"] sublist_around [of newline q s "[]"]
    by simp
  then show ?thesis by (simp add: clean_text_def contains_sublist newline_def)
qed

lemma json_text_cases:
  assumes "accepts info v"
  shows "(\<exists>s. v = JStr s \<and> clean_text s) \<or> (\<exists>i. v = JInt i)"
  using assms by (auto simp: accepts_def Let_def split: json.splits)

lemma digits_clean: "\<forall>c \<in> set s. is_digit c \<or> c = CHR ''-'' \<Longrightarrow> clean_text s"
proof -
  assume "\<forall>c \<in> set s. is_digit c \<or> c = CHR ''-''"
  then have "CHR ''<'' \<notin> set s" by (auto simp: is_digit_def)
  then show ?thesis
    using sublist_skip [of "CHR ''<''" s _ "[]"] by (simp add: clean_text_def contains_sublist)
qed

lemma parameter_text_clean: "accepts info v \<Longrightarrow> clean_text (parameter_text rp v)"
  using json_text_cases [of info v] digits_clean str_int_chars
  by (fastforce simp: parameter_text_def)

definition param_texts :: "(json \<Rightarrow> string) \<Rightarrow> jdict \<Rightarrow> (string \<times> string) list" where
  "param_texts rp args = map (\<lambda>(n, v). (n, parameter_text rp v)) args"

lemma parameter_block_texts: "concat (map (parameter_line rp) args) = parameter_block (param_texts rp args)"
  by (induction args) (auto simp: parameter_block_def param_texts_def parameter_line_def)

lemma clean_param_texts: "list_all (argument_ok props) args \<Longrightarrow> clean_params (param_texts rp args)"
  by (induction args) (auto simp: param_texts_def argument_ok_def parameter_text_clean split: option.splits json.splits)

text \<open>Types and checks of an accepted value.\<close>

lemma convert_value_accepted:
  assumes "dict_get types n = Some (dict_get_default info ''type'' (JStr ''string''))" "accepts info v"
  shows "convert_value loads types n (parameter_text rp v) = Inr (received v)"
  using assms json_text_cases [OF assms(2)]
  by (auto simp: convert_value_def accepts_def parameter_text_def received_def Let_def)

lemma check_enum_accepted:
  assumes "dict_get fn ''parameters'' = Some (JObj ps)" "dict_get ps ''properties'' = Some (JObj props)"
    and "dict_get props n = Some (JObj info)" "accepts info v"
  shows "check_enum (JObj fn) n (received v) = Inr ()"
proof (cases "dict_get info ''enum''")
  case None
  then have "''enum'' \<notin> fst ` set info" using dict_get_None_iff [of info "''enum''"] by simp
  with assms show ?thesis by (simp add: check_enum_def json_item_def)
next
  case (Some e)
  then have "''enum'' \<in> fst ` set info" using dict_get_None_iff [of info "''enum''"] by auto
  moreover from assms(4) Some obtain vs where "e = JList vs" "list_ex (py_equal (received v)) vs"
    by (auto simp: accepts_def split: json.splits)
  ultimately show ?thesis using assms(1-3) Some by (simp add: check_enum_def json_item_def)
qed

lemma param_types_objects:
  "list_all is_object (map snd props) \<Longrightarrow>
     \<exists>types. param_types props = Inr types \<and>
       (\<forall>n info. dict_get props n = Some (JObj info) \<longrightarrow>
          dict_get types n = Some (dict_get_default info ''type'' (JStr ''string'')))"
proof (induction props)
  case Nil
  then show ?case by (simp add: param_types_def dict_get_def)
next
  case (Cons p props)
  then obtain types where t: "param_types props = Inr types"
    and g: "\<forall>n info. dict_get props n = Some (JObj info) \<longrightarrow>
          dict_get types n = Some (dict_get_default info ''type'' (JStr ''string''))" by auto
  obtain k d where p: "p = (k, JObj d)" using Cons.prems by (cases p; cases "snd p") auto
  show ?case
    using t g by (auto simp: p param_types_def json_get_def dict_get_def)
qed

lemma collect_params_ok:
  assumes fn: "dict_get fn ''parameters'' = Some (JObj ps)" "dict_get ps ''properties'' = Some (JObj props)"
    and types: "\<forall>n info. dict_get props n = Some (JObj info) \<longrightarrow>
          dict_get types n = Some (dict_get_default info ''type'' (JStr ''string''))"
  shows "list_all (argument_ok props) args \<Longrightarrow> distinct (dict_keys (acc @ args)) \<Longrightarrow>
    collect_params loads (JObj fn) (dict_keys props) types (param_texts rp args) acc
      = Inr (acc @ map (apsnd received) args)"
proof (induction args arbitrary: acc)
  case Nil
  then show ?case by (simp add: param_texts_def)
next
  case (Cons p args)
  obtain n v where p: "p = (n, v)" by (cases p)
  from Cons.prems(1) p obtain info where i: "dict_get props n = Some (JObj info)" "accepts info v"
    by (auto simp: argument_ok_def split: option.splits json.splits)
  then have "n \<in> set (dict_keys props)" using dict_get_None_iff [of props n] by fastforce
  moreover have "convert_value loads types n (parameter_text rp v) = Inr (received v)"
    using types i by (intro convert_value_accepted) auto
  moreover have "check_enum (JObj fn) n (received v) = Inr ()"
    using check_enum_accepted [OF fn i] .
  moreover have "dict_set acc n (received v) = acc @ [(n, received v)]"
    using Cons.prems(2) by (intro dict_set_new) (auto simp: p)
  moreover have "collect_params loads (JObj fn) (dict_keys props) types (param_texts rp args) (acc @ [(n, received v)])
      = Inr ((acc @ [(n, received v)]) @ map (apsnd received) args)"
    using Cons.prems by (intro Cons.IH) (auto simp: p)
  ultimately show ?case by (simp add: p param_texts_def)
qed

lemma schema_part_found:
  "dict_get fn ''parameters'' = Some (JObj ps) \<Longrightarrow> schema_part (JObj fn) key = Inr (dict_get ps key)"
  using dict_get_None_iff [of fn "''parameters''"] dict_get_None_iff [of ps key]
  by (cases "dict_get ps key") (auto simp: schema_part_def json_item_def)

lemma schema_okE:
  assumes "schema_ok tool args"
  obtains fn ps props req where "tool = JObj fn"
    "dict_get fn ''parameters'' = Some (JObj ps)" "dict_get ps ''properties'' = Some (JObj props)"
    "dict_get_default ps ''required'' (JList []) = JList req"
    "list_all is_object (map snd props)" "list_all (argument_ok props) args"
    "list_all (\<lambda>r. r \<in> JStr ` set (dict_keys args)) req"
  using assms unfolding schema_ok_def
  by (auto split: json.splits option.splits) (metis json.exhaust)

lemma extract_ok:
  assumes "schema_ok tool args" "distinct (dict_keys args)"
  shows "extract_and_validate_params loads tool (param_texts rp args) = Inr (map (apsnd received) args)"
proof -
  from assms(1) obtain fn ps props req where fn: "tool = JObj fn"
      "dict_get fn ''parameters'' = Some (JObj ps)" "dict_get ps ''properties'' = Some (JObj props)"
    and req: "dict_get_default ps ''required'' (JList []) = JList req"
    and ok: "list_all is_object (map snd props)" "list_all (argument_ok props) args"
      "list_all (\<lambda>r. r \<in> JStr ` set (dict_keys args)) req"
    by (rule schema_okE)
  obtain types where types: "param_types props = Inr types"
    "\<forall>n info. dict_get props n = Some (JObj info) \<longrightarrow>
          dict_get types n = Some (dict_get_default info ''type'' (JStr ''string''))"
    using param_types_objects [OF ok(1)] by blast
  have "(case dict_get ps ''required'' of None \<Rightarrow> Inr [] | Some r \<Rightarrow> py_set r) = Inr req"
    using req ok(3) by (auto simp: dict_get_default_def py_set_def list_all_iff split: option.splits)
  moreover have "collect_params loads tool (dict_keys props) types (param_texts rp args) [] = Inr (map (apsnd received) args)"
    using collect_params_ok [OF fn(2,3) types(2), of args "[]"] ok(2) assms(2) fn(1) by simp
  moreover have "fst ` apsnd received ` set args = fst ` set args" by force
  ultimately show ?thesis
    using fn types(1) ok(3)
    by (simp add: extract_and_validate_params_def schema_part_found)
qed

section \<open>Conversations\<close>

text \<open>A conversation with plain text, the calls of tools and their results.\<close>

datatype chat =
    System string
  | User string
  | Answer string
  | Call string string string jdict
  | Result string string string

text \<open>A call is its text, identifier, name and arguments, a result is the name, the identifier of the
  call and the text.\<close>

fun chat_message :: "(json \<Rightarrow> string) \<Rightarrow> chat \<Rightarrow> jdict" where
  "chat_message dumps (System s) = message_of ''system'' (JStr s)"
| "chat_message dumps (User s) = message_of ''user'' (JStr s)"
| "chat_message dumps (Answer s) = message_of ''assistant'' (JStr s)"
| "chat_message dumps (Call s i n args) =
     message_of ''assistant'' (JStr s) @
     [(''tool_calls'', JList [JObj [(''index'', JInt 1), (''id'', JStr i), (''type'', JStr ''function''),
        (''function'', JObj [(''name'', JStr n), (''arguments'', JStr (dumps (JObj args)))])]])]"
| "chat_message dumps (Result n i s) =
     [(''role'', JStr ''tool''), (''name'', JStr n), (''content'', JStr s), (''tool_call_id'', JStr i)]"

text \<open>What is kept: calls are numbered and a result refers to the last call, the texts beside
  calls and results lose surrounding white space, and arguments are received as text.\<close>

fun kept :: "nat \<Rightarrow> chat list \<Rightarrow> chat list" where
  "kept k [] = []"
| "kept k (Call s i n args # cs) =
     Call (py_strip s) (tool_call_id k) n (map (apsnd received) args) # kept (Suc k) cs"
| "kept k (Result n i s # cs) = Result n (tool_call_id (k - 1)) (py_strip s) # kept k cs"
| "kept k (c # cs) = c # kept k cs"

text \<open>No text is taken for a part of the format.\<close>

definition user_ok :: "string \<Rightarrow> string \<Rightarrow> bool" where
  "user_ok example s \<longleftrightarrow>
     search_result s = None \<and> \<not> contains EXAMPLE_SUFFIX (s @ butlast EXAMPLE_SUFFIX) \<and>
     (example = [] \<or> \<not> startswith s example)"

fun chat_ok ::
  "(string \<Rightarrow> json option) \<Rightarrow> (json \<Rightarrow> string) \<Rightarrow> json list \<Rightarrow> string \<Rightarrow> string \<Rightarrow> chat \<Rightarrow> bool" where
  "chat_ok loads dumps tools sfx example (System s) = (\<not> contains sfx (s @ butlast sfx))"
| "chat_ok loads dumps tools sfx example (User s) = user_ok example s"
| "chat_ok loads dumps tools sfx example (Answer s) = (\<not> contains ''<function='' s)"
| "chat_ok loads dumps tools sfx example (Call s i n args) =
     (\<not> contains ''<function='' s \<and> call_ok tools n args \<and> loads (dumps (JObj args)) = Some (JObj args))"
| "chat_ok loads dumps tools sfx example (Result n i s) = (\<not> contains ('']:'' @ [newline]) n)"

text \<open>The first message of the user comes before the first result.\<close>

fun user_first :: "chat list \<Rightarrow> bool" where
  "user_first [] = True"
| "user_first (User s # cs) = True"
| "user_first (Result n i s # cs) = False"
| "user_first (c # cs) = user_first cs"

section \<open>Message by message\<close>

lemma py_strip_append_space: "is_space x \<Longrightarrow> py_strip (s @ [x]) = py_strip s"
  by (induction s) (simp_all add: py_strip_def)

lemma py_strip_lstrip [simp]: "py_strip (py_lstrip s) = py_strip s"
proof -
  have "dropWhile is_space (dropWhile is_space s) = dropWhile is_space s"
    by (metis dropWhile_idem)
  then show ?thesis by (simp add: py_strip_def py_lstrip_def)
qed

lemma py_lstrip_before: "\<not> is_space y \<Longrightarrow> py_lstrip (s @ y # t) = py_lstrip s @ y # t"
  by (induction s) (auto simp: py_lstrip_def)

lemma is_space_newline [simp]: "is_space newline"
  by (simp add: is_space_def newline_def)

lemma no_function_lstrip: "\<not> contains ''<function='' s \<Longrightarrow> \<not> contains ''<function='' (py_lstrip (s @ [newline, newline]))"
proof -
  assume "\<not> contains ''<function='' s"
  then have "\<not> sublist ''<function='' (s @ [newline, newline])"
    using sublist_around [of newline "''<function=''" s "[newline]"] sublist_around [of newline "''<function=''" "[]" "[]"]
    by (simp add: contains_sublist newline_def)
  then show ?thesis
    unfolding contains_sublist py_lstrip_def
    by (metis sublist_order.order.trans suffix_dropWhile suffix_imp_sublist)
qed

definition call_text :: "(json \<Rightarrow> string) \<Rightarrow> string \<Rightarrow> jdict \<Rightarrow> string" where
  "call_text rp n args =
     ''<function='' @ n @ ''>'' @ [newline] @ parameter_block (param_texts rp args) @ ''</function>''"

definition result_text :: "string \<Rightarrow> string \<Rightarrow> string" where
  "result_text n s = ''EXECUTION RESULT of ['' @ n @ '']:'' @ [newline] @ s"

fun shown :: "(json \<Rightarrow> string) \<Rightarrow> string \<Rightarrow> string \<Rightarrow> bool \<Rightarrow> chat \<Rightarrow> jdict" where
  "shown rp sfx example add (System s) = message_of ''system'' (JStr (s @ sfx))"
| "shown rp sfx example add (User s) =
     message_of ''user'' (JStr (if add \<and> example \<noteq> [] then example @ s @ EXAMPLE_SUFFIX else s))"
| "shown rp sfx example add (Answer s) = message_of ''assistant'' (JStr s)"
| "shown rp sfx example add (Call s i n args) =
     message_of ''assistant'' (JStr (py_lstrip (s @ [newline, newline]) @ call_text rp n args))"
| "shown rp sfx example add (Result n i s) = message_of ''user'' (JStr (result_text n s))"

fun is_user :: "chat \<Rightarrow> bool" where
  "is_user (User s) = True"
| "is_user _ = False"

fun shown_all :: "(json \<Rightarrow> string) \<Rightarrow> string \<Rightarrow> string \<Rightarrow> bool \<Rightarrow> bool \<Rightarrow> chat list \<Rightarrow> jdict list" where
  "shown_all rp sfx example add first [] = []"
| "shown_all rp sfx example add first (c # cs) =
     shown rp sfx example (add \<and> \<not> first) c # shown_all rp sfx example add (first \<or> add \<and> is_user c) cs"

lemma convert_call_text:
  assumes "loads (dumps (JObj args)) = Some (JObj args)"
  shows "convert_tool_call_to_string rp loads
    [(''index'', JInt 1), (''id'', JStr i), (''type'', JStr ''function''),
     (''function'', JObj [(''name'', JStr n), (''arguments'', JStr (dumps (JObj args)))])] = Inr (call_text rp n args)"
  using assms
  by (simp add: convert_tool_call_to_string_def dict_get_def json_item_def call_text_def parameter_block_texts)

lemma call_text_Cons: "call_text rp n args = CHR ''<'' # tl (call_text rp n args)"
  by (simp add: call_text_def)

lemma lstrip_call_text:
  "py_lstrip (s @ newline # newline # call_text rp n args) = py_lstrip (s @ [newline, newline]) @ call_text rp n args"
proof -
  have "\<not> is_space CHR ''<''" by (simp add: is_space_def)
  then show ?thesis
    using py_lstrip_before [of "CHR ''<''" "s @ [newline, newline]" "tl (call_text rp n args)"]
    by (simp flip: call_text_Cons)
qed

lemma convert_message_chat:
  assumes "chat_ok loads dumps tools sfx example c"
  shows "convert_message rp loads sfx example add first (chat_message dumps c)
    = Inr (first \<or> add \<and> is_user c, shown rp sfx example (add \<and> \<not> first) c)"
proof (cases c)
  case (Call s i n args)
  with assms show ?thesis
    by (simp add: convert_message_def message_of_def dict_item_def dict_get_def convert_assistant_def
        dict_get_default_def convert_call_text add_tool_call_def on_content_def lstrip_call_text)
qed (auto simp: convert_message_def message_of_def dict_item_def dict_get_def convert_assistant_def
        dict_get_default_def convert_system_def on_content_def add_example_def convert_tool_result_def
        add_result_prefix_def result_text_def)

lemma convert_messages_chat:
  assumes "list_all (chat_ok loads dumps tools sfx example) cs"
  shows "convert_messages (convert_message rp loads sfx example add) first (map (chat_message dumps) cs)
    = Inr (shown_all rp sfx example add first cs)"
  using assms by (induction cs arbitrary: first) (auto simp: convert_message_chat)

lemma forward_shown:
  assumes "system_prompt_suffix rp tools = Inr sfx" "get_example_for_tools tools = Inr example"
    and "list_all (chat_ok loads dumps tools sfx example) cs"
  shows "convert_fncall_messages_to_non_fncall_messages rp loads (map (chat_message dumps) cs) tools add
      = Inr (shown_all rp sfx example add False cs)"
  using assms(1,2) convert_messages_chat [OF assms(3)]
  by (simp add: convert_fncall_messages_to_non_fncall_messages_def)

text \<open>Reading back\<close>

lemma fix_stopword_cases:
  "fix_stopword (t @ ''</function>'') \<in> {t @ ''</function>'', t @ ''</function>'' @ [newline] @ ''</function>''}"
proof -
  have "\<not> endswith (t @ ''</function>'') ''</''" by (simp add: endswith_def startswith_def)
  then show ?thesis by (simp add: fix_stopword_def)
qed

lemma fix_stopword_none: "\<not> contains ''<function='' s \<Longrightarrow> fix_stopword s = s"
  by (simp add: fix_stopword_def)

lemma function_match_call:
  assumes pre: "\<not> contains ''<function='' pre" and n: "clean_name n"
    and ps: "clean_params (param_texts rp args)"
  shows "\<exists>r. function_match (JStr (pre @ call_text rp n args))
    = Inr (JStr (pre @ call_text rp n args @ r), Some (n, parameter_block (param_texts rp args)))"
proof -
  let ?b = "parameter_block (param_texts rp args)"
  obtain r where r: "fix_stopword (pre @ call_text rp n args) = pre @ call_text rp n args @ r"
    using fix_stopword_cases [of "pre @ ''<function='' @ n @ ''>'' @ [newline] @ ?b"]
    by (auto simp: call_text_def)
  have "search_function (pre @ call_text rp n args @ r) = search_function (call_text rp n args @ r)"
    using search_function_skip [OF pre, of "tl (call_text rp n args) @ r"]
    by (simp add: call_text_def)
  also have "\<dots> = Some (n, ?b)"
    using search_function_here [of n ?b r] n block_has_no_end [OF ps]
    by (simp add: call_text_def clean_name_def)
  finally show ?thesis by (auto simp: function_match_def r)
qed

lemma before_function: "\<not> contains ''<function='' pre \<Longrightarrow> before_sub ''<function='' (pre @ call_text rp n args @ r) = pre"
proof -
  assume "\<not> contains ''<function='' pre"
  then have "find_sub ''<function='' (pre @ ''<function='' @ tl (drop 9 (call_text rp n args)) @ r) = Some (pre, tl (drop 9 (call_text rp n args)) @ r)"
    by (intro find_sub_simple) simp_all
  then show ?thesis by (simp add: before_sub_def call_text_def)
qed

lemma back_call:
  assumes pre: "\<not> contains ''<function='' pre" and ok: "call_ok tools n args"
  shows "back_assistant loads dumps tools k m (JStr (pre @ call_text rp n args))
    = Inr (Suc k, message_of ''assistant'' (JStr (py_strip pre)) @
        [(''tool_calls'', JList [call_of k n (dumps (JObj (map (apsnd received) args)))])])"
proof -
  from ok obtain tool where t: "find_tool n tools = Inr (Some tool)" "schema_ok tool args"
    and n: "clean_name n" "distinct (dict_keys args)"
    by (auto simp: call_ok_def split: sum.splits option.splits)
  have ps: "clean_params (param_texts rp args)"
    using t(2) by (rule schema_okE) (rule clean_param_texts)
  obtain r where "function_match (JStr (pre @ call_text rp n args))
    = Inr (JStr (pre @ call_text rp n args @ r), Some (n, parameter_block (param_texts rp args)))"
    using function_match_call [OF pre n(1) ps] by blast
  then show ?thesis
    using t extract_ok [OF t(2) n(2)] find_parameters_block [OF ps] before_function [OF pre]
    by (simp add: back_assistant_def drop_call_def on_content_def)
qed

lemma strip_example_added:
  assumes "\<not> contains EXAMPLE_SUFFIX (s @ butlast EXAMPLE_SUFFIX)"
  shows "strip_example example (example @ s @ EXAMPLE_SUFFIX) = s"
proof -
  have "startswith (example @ s @ EXAMPLE_SUFFIX) example" by (simp add: startswith_def)
  moreover have "endswith (s @ EXAMPLE_SUFFIX) EXAMPLE_SUFFIX"
    by (simp add: endswith_def startswith_def)
  ultimately show ?thesis
    using find_sub_at [OF assms, of "[]"] find_sub_here [of example "s @ EXAMPLE_SUFFIX"]
    by (simp add: strip_example_def replace_first_def)
qed

lemma strip_example_absent: "user_ok example s \<Longrightarrow> strip_example example s = s"
proof -
  assume ok: "user_ok example s"
  have "\<not> endswith s EXAMPLE_SUFFIX"
  proof
    assume "endswith s EXAMPLE_SUFFIX"
    then have "suffix EXAMPLE_SUFFIX s" by (simp add: endswith_def startswith_prefix suffix_to_prefix)
    then have "sublist EXAMPLE_SUFFIX (s @ butlast EXAMPLE_SUFFIX)"
      by (metis suffix_imp_sublist sublist_append_rightI sublist_order.order.trans)
    with ok show False by (simp add: user_ok_def contains_sublist)
  qed
  moreover have "replace_first [] s = s" using find_sub_here [of "[]" s] by (simp add: replace_first_def)
  ultimately show ?thesis using ok by (auto simp: strip_example_def user_ok_def)
qed

lemma search_result_here:
  assumes "\<not> contains ('']:'' @ [newline]) n"
  shows "search_result (result_text n s) = Some (n, s)"
proof -
  have "find_sub (CHR '']'' # [CHR '':'', newline]) (n @ (CHR '']'' # [CHR '':'', newline]) @ s) = Some (n, s)"
    using assms by (intro find_sub_simple) (simp_all add: newline_def)
  then show ?thesis by (simp add: result_text_def startswith_def)
qed

lemma back_user_shown:
  assumes "user_ok example s" "b \<Longrightarrow> \<not> add"
  shows "back_user example b k (or_empty (JStr (if add \<and> example \<noteq> [] then example @ s @ EXAMPLE_SUFFIX else s)))
    = Inr (message_of ''user'' (JStr s))"
  using assms strip_example_added [of s example] strip_example_absent [of example s]
  by (auto simp: back_user_def or_empty_def remove_example_def on_content_def tool_result_match_def user_ok_def)

lemma back_result_shown:
  assumes "\<not> contains ('']:'' @ [newline]) n"
  shows "back_user example True k (or_empty (JStr (result_text n s))) = Inr (chat_message dumps (Result n (tool_call_id (k - 1)) (py_strip s)))"
proof -
  have "result_text n s \<noteq> []" by (simp add: result_text_def)
  then show ?thesis
    using search_result_here [OF assms, of s]
    by (simp add: back_user_def or_empty_def tool_result_match_def single_text_def)
qed

lemma back_answer_shown:
  assumes "\<not> contains ''<function='' s"
  shows "back_assistant loads dumps tools k m (or_empty (JStr s)) = Inr (k, m)"
  using assms by (simp add: back_assistant_def or_empty_def function_match_def fix_stopword_none search_function_None)

text \<open>Behind the conversation: the number of the next call, and whether a user was heard.\<close>

fun calls :: "chat list \<Rightarrow> nat" where
  "calls [] = 0"
| "calls (Call s i n args # cs) = Suc (calls cs)"
| "calls (c # cs) = calls cs"

lemma back_messages_chat:
  assumes "list_all (chat_ok loads dumps tools sfx example) cs" "b \<or> user_first cs"
  shows "back_messages loads dumps tools sfx example b k (shown_all rp sfx example add (add \<and> b) cs @ rest)
    = bind_result (back_messages loads dumps tools sfx example (b \<or> list_ex is_user cs) (k + calls cs) rest)
        (\<lambda>ms. Inr (map (chat_message dumps) (kept k cs) @ ms))"
  using assms
proof (induction cs arbitrary: b k)
  case Nil
  show ?case by (cases "back_messages loads dumps tools sfx example b k rest") auto
next
  case (Cons c cs)
  have push: "bind_result (bind_result r (\<lambda>ms. Inr (xs @ ms))) (\<lambda>ms'. Inr (m # ms')) = bind_result r (\<lambda>ms. Inr (m # xs @ ms))"
    for r :: "jdict list result" and xs m by (cases r) auto
  show ?case
  proof (cases c)
    case (System s)
    with Cons.prems have ok: "\<not> contains sfx (s @ butlast sfx)" "b \<or> user_first cs" by auto
    have "back_system sfx (or_empty (JStr (s @ sfx))) = Inr (JStr s)"
      using before_sub_at [OF ok(1)] by (auto simp: back_system_def or_empty_def)
    with Cons.IH [OF _ ok(2), of k] Cons.prems(1) show ?thesis
      by (simp add: System message_of_def dict_item_def dict_get_def Let_def push)
  next
    case (User s)
    have "back_messages loads dumps tools sfx example True k (shown_all rp sfx example add add cs @ rest)
      = bind_result (back_messages loads dumps tools sfx example True (k + calls cs) rest)
        (\<lambda>ms. Inr (map (chat_message dumps) (kept k cs) @ ms))"
      using Cons.IH [of True k] Cons.prems(1) by simp
    with Cons.prems(1) back_user_shown [of example s b "add \<and> \<not> b" k] show ?thesis
      by (cases add; cases b) (simp_all add: User dict_item_def dict_get_def Let_def message_of_def push)
  next
    case (Answer s)
    with Cons.prems have "\<not> contains ''<function='' s" "b \<or> user_first cs" by auto
    with Cons.IH [of b k] Cons.prems(1) show ?thesis
      by (simp add: Answer back_answer_shown message_of_def dict_item_def dict_get_def Let_def push)
  next
    case (Call s i n args)
    let ?pre = "py_lstrip (s @ [newline, newline])"
    have pre: "\<not> contains ''<function='' ?pre" and ok: "call_ok tools n args" and b: "b \<or> user_first cs"
      using Cons.prems by (auto simp: Call no_function_lstrip)
    have "py_strip ?pre = py_strip s"
      using py_strip_append_space [of newline "s @ [newline]"] py_strip_append_space [of newline s] by simp
    moreover have "or_empty (JStr (?pre @ call_text rp n args)) = JStr (?pre @ call_text rp n args)"
      by (simp add: or_empty_def call_text_def)
    ultimately show ?thesis
      using Cons.IH [OF _ b, of "Suc k"] Cons.prems(1) back_call [OF pre ok]
      by (simp add: Call message_of_def dict_item_def dict_get_def Let_def call_of_def push)
  next
    case (Result n i s)
    with Cons.prems have b: "b" and n: "\<not> contains ('']:'' @ [newline]) n" by auto
    with Cons.IH [of b k] Cons.prems(1) back_result_shown [OF n, of example k s dumps] show ?thesis
      by (simp add: Result message_of_def dict_item_def dict_get_def Let_def push)
  qed
qed


definition sample_tools :: "json list" where
  "sample_tools =
     [JObj [(''type'', JStr ''function''),
            (''function'', JObj
              [(''name'', JStr ''finish''), (''description'', JStr ''done''),
               (''parameters'', JObj
                 [(''properties'', JObj
                    [(''message'', JObj [(''type'', JStr ''string'')]),
                     (''status'', JObj [(''type'', JStr ''integer''), (''enum'', JList [JInt 0, JInt 1])])]),
                  (''required'', JList [JStr ''message''])])])]]"

definition sample_args :: jdict where
  "sample_args = [(''message'', JStr (''all'' @ [newline] @ ''set'')), (''status'', JInt 1)]"

definition sample_chat :: "chat list" where
  "sample_chat =
     [System ''You help.'', User ''Go on'', Answer ''Working.'', Call ''Now '' ''x'' ''finish'' sample_args,
      Result ''finish'' ''x'' '' ok'', User ''Thanks'']"

lemma no_newline_no_frame: "p = newline # q \<Longrightarrow> newline \<notin> set s \<Longrightarrow> \<not> contains p (s @ butlast p)"
  using sublist_length_le [of p "butlast p"] by (auto simp: contains_sublist sublist_skip)

lemma example_suffix_Cons: "\<exists>q. EXAMPLE_SUFFIX = newline # q"
  by (simp add: EXAMPLE_SUFFIX_def)

lemma sample_suffix: "\<exists>q. system_prompt_suffix (\<lambda>_. []) sample_tools = Inr (newline # q)"
proof -
  have "case convert_tools_to_description (\<lambda>_. []) sample_tools of Inr _ \<Rightarrow> True | Inl _ \<Rightarrow> False"
    by code_simp
  then show ?thesis
    by (auto simp: system_prompt_suffix_def prompt_before_def split: sum.splits)
qed

lemma sample_example: "\<exists>q. get_example_for_tools sample_tools = Inr (CHR ''H'' # q)"
proof -
  have "available_tools sample_tools = Inr [''finish'']" by code_simp
  then show ?thesis
    by (simp add: get_example_for_tools_def example_head_def py_lstrip_def is_space_def)
qed

lemma sample_call: "call_ok sample_tools ''finish'' sample_args"
  by code_simp

lemma sample_kept: "kept 1 sample_chat =
  [System ''You help.'', User ''Go on'', Answer ''Working.'',
   Call ''Now'' ''toolu_01'' ''finish'' [(''message'', JStr ([newline] @ ''all'' @ [newline] @ ''set'' @ [newline])), (''status'', JInt 1)],
   Result ''finish'' ''toolu_01'' ''ok'', User ''Thanks'']"
  by code_simp

lemma sample_ok:
  "\<exists>sfx example. system_prompt_suffix (\<lambda>_. []) sample_tools = Inr sfx \<and> get_example_for_tools sample_tools = Inr example \<and>
     list_all (chat_ok (\<lambda>_. Some (JObj sample_args)) (\<lambda>_. ''{}'') sample_tools sfx example) sample_chat \<and>
     user_first sample_chat"
proof -
  obtain q q' q'' where e: "system_prompt_suffix (\<lambda>_. []) sample_tools = Inr (newline # q)"
      "get_example_for_tools sample_tools = Inr (CHR ''H'' # q')" "EXAMPLE_SUFFIX = newline # q''"
    using sample_suffix sample_example example_suffix_Cons by blast
  have texts: "user_ok (CHR ''H'' # q') s" if "newline \<notin> set s" "search_result s = None" "\<not> startswith s ''H''" for s
  proof -
    have "\<not> startswith s (CHR ''H'' # q')" using that(3) by (cases s) (simp_all add: startswith_def)
    with that(1,2) no_newline_no_frame [OF e(3)] show ?thesis unfolding user_ok_def by blast
  qed
  have "list_all (chat_ok (\<lambda>_. Some (JObj sample_args)) (\<lambda>_. ''{}'') sample_tools (newline # q) (CHR ''H'' # q')) sample_chat"
    using no_newline_no_frame [of "newline # q" q "''You help.''"] sample_call
    by (simp add: sample_chat_def texts startswith_def newline_def del: butlast.simps)
  moreover have "user_first sample_chat" by (simp add: sample_chat_def)
  ultimately show ?thesis using e(1,2) by blast
qed


section \<open>Answers cut at the stop word\<close>

definition cut_text :: "(json \<Rightarrow> string) \<Rightarrow> string \<Rightarrow> jdict \<Rightarrow> string \<Rightarrow> string" where
  "cut_text rp n args tail =
     ''<function='' @ n @ ''>'' @ [newline] @ parameter_block (param_texts rp args) @ tail"

lemma block_ends: "parameter_block ps = [] \<or> (\<exists>b. parameter_block ps = b @ [newline])"
  by (induction ps rule: rev_induct) (auto simp: parameter_block_def)

lemma cut_text_ends: "\<exists>b. cut_text rp n args [] = b @ [newline]"
  using block_ends [of "param_texts rp args"] by (auto simp: cut_text_def)

lemma one_call_counted:
  assumes "\<not> contains ''<function='' pre" "clean_name n" "\<not> contains ''<function='' (parameter_block (param_texts rp args))"
    and "tail = [] \<or> tail = ''</''"
  shows "count_sub ''<function='' (pre @ cut_text rp n args tail) = 1"
proof -
  let ?b = "parameter_block (param_texts rp args)"
  let ?rest = "n @ ''>'' @ [newline] @ ?b @ tail"
  have "\<not> sublist ''<function='' (?b @ tail)"
    using assms(3,4) by (auto simp: contains_sublist sublist_before sublist_Cons_right)
  then have "\<not> contains ''<function='' ?rest"
    using assms(2) by (simp add: contains_sublist sublist_skip clean_name_def sublist_Cons_right newline_def)
  then have "count_sub ''<function='' ?rest = 0"
    by (subst count_sub.simps) (simp add: find_sub_None_iff [THEN iffD2])
  moreover have "find_sub ''<function='' (pre @ ''<function='' @ ?rest) = Some (pre, ?rest)"
    using assms(1) by (intro find_sub_simple) simp_all
  ultimately show ?thesis
    by (subst count_sub.simps) (simp add: cut_text_def)
qed

lemma cut_restored:
  assumes "\<not> contains ''<function='' pre" "clean_name n" "\<not> contains ''<function='' (parameter_block (param_texts rp args))"
  shows "fix_stopword (pre @ cut_text rp n args []) = pre @ cut_text rp n args [] @ [newline] @ ''</function>''"
    and "fix_stopword (pre @ cut_text rp n args ''</'') = pre @ cut_text rp n args ''</function>''"
proof -
  obtain b where "cut_text rp n args [] = b @ [newline]" using cut_text_ends by blast
  then have "\<not> endswith (pre @ cut_text rp n args []) ''</''"
    by (simp add: endswith_def startswith_def newline_def)
  moreover have c: "contains ''<function='' (pre @ cut_text rp n args tail)" for tail
    unfolding contains_sublist cut_text_def by (metis sublist_appendI)
  ultimately show "fix_stopword (pre @ cut_text rp n args []) = pre @ cut_text rp n args [] @ [newline] @ ''</function>''"
    using one_call_counted [OF assms, of "[]"] by (simp add: fix_stopword_def)
  have "endswith (pre @ cut_text rp n args ''</'') ''</''"
    by (simp add: endswith_def startswith_def cut_text_def)
  moreover have "py_rstrip (pre @ cut_text rp n args ''</'') = pre @ cut_text rp n args ''</''"
    by (simp add: py_rstrip_def cut_text_def is_space_def)
  ultimately show "fix_stopword (pre @ cut_text rp n args ''</'') = pre @ cut_text rp n args ''</function>''"
    using c one_call_counted [OF assms, of "''</''"] by (simp add: fix_stopword_def cut_text_def)
qed

lemma function_match_cut:
  assumes pre: "\<not> contains ''<function='' pre" and n: "clean_name n"
    and args: "\<not> contains ''<function='' (parameter_block (param_texts rp args))"
    and ps: "clean_params (param_texts rp args)" and tail: "tail \<in> {[], ''</'', ''</function>''}"
  shows "\<exists>body r. function_match (JStr (pre @ cut_text rp n args tail)) = Inr (JStr (pre @ ''<function='' @ r), Some (n, body)) \<and>
    find_parameters body = param_texts rp args"
proof -
  let ?b = "parameter_block (param_texts rp args)"
  note skip = search_function_skip [OF pre, of "''function='' @ _"]
  have nb: "\<not> contains ''</function>'' (?b @ [newline])"
    using block_has_no_end [OF ps] sublist_around [of newline "''</function>''" ?b "[]"]
    by (simp add: contains_sublist newline_def)
  consider "tail = []" | "tail = ''</''" | "tail = ''</function>''" using tail by blast
  then show ?thesis
  proof cases
    case 1
    have "search_function (pre @ cut_text rp n args [] @ [newline] @ ''</function>'') = Some (n, ?b @ [newline])"
      using search_function_here [OF _ _ nb, of n "[]"] n skip [of "n @ ''>'' @ [newline] @ ?b @ [newline] @ ''</function>''"]
      by (simp add: clean_name_def cut_text_def)
    then show ?thesis
      using find_parameters_block [OF ps] cut_restored(1) [OF pre n args]
      by (auto simp: 1 function_match_def cut_text_def)
  next
    case 2
    have "search_function (pre @ cut_text rp n args ''</function>'') = Some (n, ?b)"
      using search_function_here [OF _ _ block_has_no_end [OF ps], of n "[]"] n
        skip [of "n @ ''>'' @ [newline] @ ?b @ ''</function>''"]
      by (simp add: clean_name_def cut_text_def)
    then show ?thesis
      using find_parameters_block [OF ps] cut_restored(2) [OF pre n args]
      by (auto simp: 2 function_match_def cut_text_def)
  next
    case 3
    have "cut_text rp n args ''</function>'' = call_text rp n args" by (simp add: cut_text_def call_text_def)
    then show ?thesis
      using function_match_call [OF pre n ps] find_parameters_block [OF ps]
      by (auto simp: 3 call_text_def)
  qed
qed

lemma back_cut_call:
  assumes pre: "\<not> contains ''<function='' pre" and ok: "call_ok tools n args"
    and args: "\<not> contains ''<function='' (parameter_block (param_texts rp args))"
    and tail: "tail \<in> {[], ''</'', ''</function>''}"
  shows "back_assistant loads dumps tools k m (JStr (pre @ cut_text rp n args tail))
    = Inr (Suc k, chat_message dumps (Call (py_strip pre) (tool_call_id k) n (map (apsnd received) args)))"
proof -
  from ok obtain tool where t: "find_tool n tools = Inr (Some tool)" "schema_ok tool args"
    and n: "clean_name n" "distinct (dict_keys args)"
    by (auto simp: call_ok_def split: sum.splits option.splits)
  have ps: "clean_params (param_texts rp args)"
    using t(2) by (rule schema_okE) (rule clean_param_texts)
  obtain body r where
    "function_match (JStr (pre @ cut_text rp n args tail)) = Inr (JStr (pre @ ''<function='' @ r), Some (n, body))"
    "find_parameters body = param_texts rp args"
    using function_match_cut [OF pre n(1) args ps tail] by blast
  moreover have "find_sub ''<function='' (pre @ ''<function='' @ r) = Some (pre, r)"
    using pre by (intro find_sub_simple) simp_all
  ultimately show ?thesis
    using t extract_ok [OF t(2) n(2)]
    by (simp add: back_assistant_def drop_call_def on_content_def before_sub_def call_of_def)
qed



section \<open>Accepted calls\<close>

text \<open>A value that its description admits.\<close>

definition value_fits :: "jdict \<Rightarrow> json \<Rightarrow> bool" where
  "value_fits info v \<longleftrightarrow>
     (let ty = dict_get_default info ''type'' (JStr ''string'')
      in if ty = JStr ''integer'' then (case v of JInt _ \<Rightarrow> True | _ \<Rightarrow> False)
         else if ty = JStr ''array'' then True
         else (case v of JStr _ \<Rightarrow> True | _ \<Rightarrow> False)) \<and>
     (case dict_get info ''enum'' of
        None \<Rightarrow> True
      | Some e \<Rightarrow> (case e of JList vs \<Rightarrow> list_ex (py_equal v) vs | _ \<Rightarrow> False))"

lemma param_types_get:
  "param_types props = Inr types \<Longrightarrow> dict_get props n = Some v \<Longrightarrow>
     \<exists>info. v = JObj info \<and> dict_get types n = Some (dict_get_default info ''type'' (JStr ''string''))"
proof (induction props arbitrary: types)
  case Nil
  then show ?case by (simp add: dict_get_def)
next
  case (Cons p props)
  obtain k w where p: "p = (k, w)" by (cases p)
  from Cons.prems(1) obtain d types' where w: "w = JObj d"
    and t: "types = (k, dict_get_default d ''type'' (JStr ''string'')) # types'" "param_types props = Inr types'"
    by (auto simp: p param_types_def json_get_def bind_result_Inr_iff split: json.splits)
  then show ?case
    using Cons.IH [of types'] Cons.prems(2) by (auto simp: p dict_get_def split: if_splits)
qed

lemma check_enum_fits:
  assumes "check_enum (JObj fn) n v = Inr ()" "dict_get fn ''parameters'' = Some (JObj ps)"
    "dict_get ps ''properties'' = Some (JObj props)"
  shows "\<exists>info. dict_get props n = Some info"
    and "dict_get props n = Some (JObj info) \<Longrightarrow> dict_get info ''enum'' = Some e \<Longrightarrow>
      \<exists>vs. e = JList vs \<and> list_ex (py_equal v) vs"
proof -
  show "\<exists>info. dict_get props n = Some info"
    using assms by (cases "dict_get props n") (auto simp: check_enum_def json_item_def)
  assume i: "dict_get props n = Some (JObj info)" "dict_get info ''enum'' = Some e"
  then have "''enum'' \<in> fst ` set info" using dict_get_None_iff [of info "''enum''"] by auto
  with assms i show "\<exists>vs. e = JList vs \<and> list_ex (py_equal v) vs"
    by (cases e) (auto simp: check_enum_def json_item_def split: if_splits)
qed

lemma collected_fit:
  assumes fn: "dict_get fn ''parameters'' = Some (JObj ps)" "dict_get ps ''properties'' = Some (JObj props)"
    and types: "param_types props = Inr types"
  shows "collect_params loads (JObj fn) allowed types ms acc = Inr params \<Longrightarrow>
    (\<And>n v. dict_get acc n = Some v \<Longrightarrow> \<exists>info. dict_get props n = Some (JObj info) \<and> value_fits info v) \<Longrightarrow>
    set (dict_keys params) = set (dict_keys acc) \<union> fst ` set ms \<and>
    (\<forall>n v. dict_get params n = Some v \<longrightarrow> (\<exists>info. dict_get props n = Some (JObj info) \<and> value_fits info v))"
proof (induction ms arbitrary: acc)
  case Nil
  then show ?case by simp
next
  case (Cons m ms)
  obtain n t where m: "m = (n, t)" by (cases m)
  from Cons.prems(1) obtain v where v: "convert_value loads types n t = Inr v" "check_enum (JObj fn) n v = Inr ()"
    "collect_params loads (JObj fn) allowed types ms (dict_set acc n v) = Inr params"
    by (auto simp: m bind_result_Inr_iff split: if_splits)
  obtain info where i: "dict_get props n = Some (JObj info)"
      "dict_get types n = Some (dict_get_default info ''type'' (JStr ''string''))"
    using check_enum_fits(1) [OF v(2) fn] param_types_get [OF types] by blast
  have "value_fits info v"
    using v(1) i(2) check_enum_fits(2) [OF v(2) fn i(1)]
    by (fastforce simp: value_fits_def Let_def convert_value_def split: if_splits option.splits)
  then have acc: "\<exists>info. dict_get props k = Some (JObj info) \<and> value_fits info w"
    if "dict_get (dict_set acc n v) k = Some w" for k w
    using that i(1) Cons.prems(2) by (auto split: if_splits)
  show ?case
    using Cons.IH [OF v(3) acc] by (simp add: m insert_commute Un_commute)
qed

lemma accepted_fit:
  assumes fn: "dict_get fn ''parameters'' = Some (JObj ps)" and props: "dict_get ps ''properties'' = Some (JObj props)"
    and ex: "extract_and_validate_params loads (JObj fn) ms = Inr params"
  shows "set (dict_keys params) = fst ` set ms \<and>
      (\<forall>n v. dict_get params n = Some v \<longrightarrow> (\<exists>info. dict_get props n = Some (JObj info) \<and> value_fits info v)) \<and>
      (\<forall>req. dict_get ps ''required'' = Some (JList req) \<longrightarrow> set req \<subseteq> JStr ` set (dict_keys params))"
proof -
  obtain types req where types: "param_types props = Inr types"
    and c: "collect_params loads (JObj fn) (dict_keys props) types ms [] = Inr params"
    and req: "(case dict_get ps ''required'' of None \<Rightarrow> Inr [] | Some r \<Rightarrow> py_set r) = Inr req"
      "list_all (\<lambda>r. r \<in> JStr ` set (dict_keys params)) req"
    using fn props ex
    by (auto simp: extract_and_validate_params_def schema_part_found bind_result_Inr_iff split: if_splits)
  have "set req' \<subseteq> JStr ` set (dict_keys params)" if "dict_get ps ''required'' = Some (JList req')" for req'
    using req that by (auto simp: py_set_def list_all_iff split: if_splits)
  with collected_fit [OF fn props types c] show ?thesis by (simp add: dict_get_def)
qed



section \<open>One call per message\<close>

text \<open>A message with several calls comes with their results in some order; other messages come alone.\<close>

datatype turn =
    Alone jdict
  | Several jdict json "(string \<times> json) list" "(string \<times> jdict) list"

fun turn_messages :: "turn \<Rightarrow> jdict list" where
  "turn_messages (Alone m) = [m]"
| "turn_messages (Several m content cs rs) = m # map snd rs"

definition call_message :: "json \<Rightarrow> (string \<times> json) list \<Rightarrow> string \<Rightarrow> jdict" where
  "call_message content cs k =
     single_call (if k = fst (hd cs) then content else JStr []) (the (map_of cs k))"

fun turn_pairs :: "turn \<Rightarrow> jdict list" where
  "turn_pairs (Alone m) = [m]"
| "turn_pairs (Several m content cs rs) = concat (map (\<lambda>(k, r). [call_message content cs k, r]) rs)"

fun turn_ok :: "turn \<Rightarrow> bool" where
  "turn_ok (Alone m) \<longleftrightarrow>
     (case (dict_get m ''role'', dict_get m ''content'') of
        (Some role, Some _) \<Rightarrow>
          (if role = JStr ''assistant'' then several_calls m = Inr []
           else if role = JStr ''tool'' then (case dict_get m ''tool_call_id'' of Some (JStr _) \<Rightarrow> True | _ \<Rightarrow> False)
           else True)
      | _ \<Rightarrow> False)"
| "turn_ok (Several m content cs rs) \<longleftrightarrow>
     dict_get m ''role'' = Some (JStr ''assistant'') \<and> dict_get m ''content'' = Some content \<and>
     dict_get m ''tool_calls'' = Some (JList (map snd cs)) \<and> 1 < length cs \<and>
     distinct (map fst cs) \<and> mset (map fst rs) = mset (map fst cs) \<and>
     list_all (\<lambda>(k, c). json_item c ''id'' = Inr (JStr k)) cs \<and>
     list_all (\<lambda>(k, r). dict_get r ''role'' = Some (JStr ''tool'') \<and> dict_get r ''content'' \<noteq> None \<and>
                 dict_get r ''tool_call_id'' = Some (JStr k)) rs"

lemma add_pending_all:
  "list_all (\<lambda>(k, c). json_item c ''id'' = Inr (JStr k)) cs \<Longrightarrow> distinct (dict_keys pending @ map fst cs) \<Longrightarrow>
     add_pending content i (map snd cs) pending
       = Inr (pending @ map (\<lambda>(j, k, c). (k, single_call (if j = 0 then content else JStr []) c)) (enumerate i cs))"
proof (induction cs arbitrary: i pending)
  case (Cons p cs)
  obtain k c where p: "p = (k, c)" by (cases p)
  with Cons.prems have "dict_set pending k x = pending @ [(k, x)]" for x by (intro dict_set_new) auto
  then show ?case
    using Cons.IH [of "pending @ [(k, single_call (if i = 0 then content else JStr []) c)]" "Suc i"] Cons.prems
    by (simp add: p)
qed simp

lemma mset_keys_del:
  assumes "distinct (dict_keys d)" "k \<in> set (dict_keys d)"
  shows "mset (dict_keys (dict_del d k)) = mset (dict_keys d) - {#k#}"
proof -
  have "mset (dict_keys (dict_del d k)) = mset_set (set (dict_keys d) - {k})"
    using mset_set_set [OF distinct_dict_del [OF assms(1), of k]] by (simp only: dict_keys_del)
  also have "\<dots> = mset_set (set (dict_keys d)) - mset_set {k}"
    using assms(2) by (intro mset_set_Diff) auto
  finally show ?thesis using mset_set_set [OF assms(1)] by simp
qed

lemma results_taken:
  "list_all (\<lambda>(k, r). dict_get r ''role'' = Some (JStr ''tool'') \<and> dict_get r ''content'' \<noteq> None \<and>
       dict_get r ''tool_call_id'' = Some (JStr k)) rs \<Longrightarrow>
   mset (map fst rs) = mset (dict_keys pending) \<Longrightarrow> distinct (dict_keys pending) \<Longrightarrow>
     split_calls (map snd rs @ rest) pending
       = bind_result (split_calls rest []) (\<lambda>(out, p).
           Inr (concat (map (\<lambda>(k, r). [the (dict_get pending k), r]) rs) @ out, p))"
proof (induction rs arbitrary: pending)
  case Nil
  then show ?case by (cases "split_calls rest []") auto
next
  case (Cons x rs)
  obtain k r where x: "x = (k, r)" by (cases x)
  have keys: "k \<in> set (dict_keys pending)" using Cons.prems(2) x by (metis list.set_intros(1) set_mset_mset fst_conv list.simps(9))
  then obtain m where m: "dict_get pending k = Some m" using dict_get_None_iff [of pending k] by auto
  have "mset (dict_keys (dict_del pending k)) = mset (dict_keys pending) - {#k#}"
    using Cons.prems(3) keys by (rule mset_keys_del)
  then have k: "mset (map fst rs) = mset (dict_keys (dict_del pending k))"
    using Cons.prems(2) by (simp add: x) (metis add_mset_remove_trivial)
  have "distinct (map fst (x # rs))"
    using Cons.prems(2,3) by (metis mset_eq_imp_distinct_iff)
  then have same: "map (\<lambda>(k', r). [the (if k' = k then None else dict_get pending k'), r]) rs
      = map (\<lambda>(k', r). [the (dict_get pending k'), r]) rs"
    by (auto simp: x) (metis fst_conv image_eqI)
  obtain content where c: "dict_get r ''content'' = Some content" using Cons.prems(1) by (auto simp: x)
  show ?case
    using Cons.IH [OF _ k distinct_dict_del [OF Cons.prems(3)]] Cons.prems(1) c m
    by (cases "split_calls rest []") (auto simp: x same dict_item_def)
qed

lemma enumerated_calls:
  assumes "distinct (map fst cs)" "k \<in> set (map fst cs)"
  shows "map_of (map (\<lambda>(j, k, c). (k, single_call (if j = 0 then content else JStr []) c)) (enumerate 0 cs)) k
    = Some (call_message content cs k)"
proof -
  obtain p ds where cs: "cs = p # ds" using assms(2) by (cases cs) auto
  have rest: "map_of (map (\<lambda>(j, k, c). (k, single_call (if j = 0 then content else JStr []) c)) (enumerate (Suc i) ds)) k
      = map_option (single_call (JStr [])) (map_of ds k)" for i ds
    by (induction ds arbitrary: i) auto
  have "k \<noteq> fst p \<Longrightarrow> \<exists>c. map_of ds k = Some c"
    using assms(2) by (auto simp: cs intro: weak_map_of_SomeI)
  with rest [of 0 ds] assms show ?thesis
    by (cases p) (auto simp: cs call_message_def)
qed

lemma several_split:
  assumes "turn_ok (Several m content cs rs)"
  shows "split_calls (turn_messages (Several m content cs rs) @ rest) []
    = bind_result (split_calls rest []) (\<lambda>(out, p). Inr (turn_pairs (Several m content cs rs) @ out, p))"
proof -
  let ?P = "map (\<lambda>(j, k, c). (k, single_call (if j = 0 then content else JStr []) c)) (enumerate 0 cs)"
  have d: "distinct (map fst cs)" and rs: "mset (map fst rs) = mset (map fst cs)" using assms by auto
  have "map (\<lambda>(j, k, c). k) (enumerate i ds) = map fst ds" for i and ds :: "(string \<times> json) list"
    by (induction ds arbitrary: i) auto
  then have keys: "dict_keys ?P = map fst cs" by (simp add: comp_def case_prod_unfold)
  have "the (dict_get ?P k) = call_message content cs k" if "(k, r) \<in> set rs" for k r
  proof -
    have "k \<in> set (map fst cs)" by (metis that rs image_eqI fst_conv set_map mset_eq_setD)
    then show ?thesis using enumerated_calls [OF d] by (simp add: dict_get_def)
  qed
  then have eq: "map (\<lambda>(k, r). [the (dict_get ?P k), r]) rs = map (\<lambda>(k, r). [call_message content cs k, r]) rs"
    by (intro map_cong) auto
  have "several_calls m = Inr (map snd cs)"
    using assms by (auto simp: several_calls_def dict_get_default_def)
  moreover have "map snd cs \<noteq> []" using assms by auto
  moreover have "add_pending content 0 (map snd cs) [] = Inr ?P"
    using add_pending_all [of cs "[]" content 0] assms d by simp
  ultimately have "split_calls (turn_messages (Several m content cs rs) @ rest) [] = split_calls (map snd rs @ rest) ?P"
    using assms by (simp add: dict_item_def)
  also have "\<dots> = bind_result (split_calls rest []) (\<lambda>(out, p). Inr (concat (map (\<lambda>(k, r). [the (dict_get ?P k), r]) rs) @ out, p))"
    using assms rs d by (intro results_taken) (auto simp only: turn_ok.simps keys)
  finally show ?thesis by (simp only: eq turn_pairs.simps)
qed

lemma alone_split:
  "turn_ok (Alone m) \<Longrightarrow> split_calls (m # rest) [] = bind_result (split_calls rest []) (\<lambda>(out, p). Inr (m # out, p))"
  by (auto simp: dict_item_def dict_get_def split: option.splits json.splits if_splits)

lemma turns_split: "list_all turn_ok ts \<Longrightarrow> split_calls (concat (map turn_messages ts)) [] = Inr (concat (map turn_pairs ts), [])"
proof (induction ts)
  case (Cons t ts)
  then show ?case
  proof (cases t)
    case (Alone m)
    with Cons alone_split [of m "concat (map turn_messages ts)"] show ?thesis
      by (simp del: split_calls.simps turn_ok.simps)
  next
    case (Several m content cs rs)
    with Cons several_split [of m content cs rs "concat (map turn_messages ts)"] show ?thesis
      by (simp del: split_calls.simps turn_ok.simps turn_messages.simps turn_pairs.simps)
  qed
qed simp

text \<open>Property C38. Messages with several calls, each followed by the results of its calls in any order,
  between other messages: the conversion succeeds and puts every result directly behind the
  message with its call and no other, the first call keeps the text of the message, all other
  messages stay as they are and in order, and no message has more than one call.\<close>

theorem calls_paired:
  assumes "list_all turn_ok ts"
  shows "convert_from_multiple_tool_calls_to_single_tool_call_messages (concat (map turn_messages ts)) ignore
      = Inr (concat (map turn_pairs ts)) \<and>
    (\<forall>m. m \<in> set (concat (map turn_pairs ts)) \<and> dict_get m ''role'' = Some (JStr ''assistant'') \<longrightarrow> several_calls m = Inr [])"
proof
  show "convert_from_multiple_tool_calls_to_single_tool_call_messages (concat (map turn_messages ts)) ignore
      = Inr (concat (map turn_pairs ts))"
    using turns_split [OF assms]
    by (simp add: convert_from_multiple_tool_calls_to_single_tool_call_messages_def)
  have one: "several_calls (call_message content cs k) = Inr []" for content cs k
    by (simp add: several_calls_def call_message_def single_call_def message_of_def dict_get_default_def dict_get_def)
  have "several_calls m = Inr []"
    if "turn_ok t" "m \<in> set (turn_pairs t)" "dict_get m ''role'' = Some (JStr ''assistant'')" for t m
    using that by (cases t) (auto simp: one list_all_iff split: option.splits if_splits)
  then show "\<forall>m. m \<in> set (concat (map turn_pairs ts)) \<and> dict_get m ''role'' = Some (JStr ''assistant'') \<longrightarrow> several_calls m = Inr []"
    using assms by (auto simp: list_all_iff)
qed

definition sample_call_of :: "string \<Rightarrow> json" where
  "sample_call_of k = JObj [(''id'', JStr k), (''type'', JStr ''function'')]"

definition sample_result :: "string \<Rightarrow> jdict" where
  "sample_result k = [(''role'', JStr ''tool''), (''content'', JStr ''ok''), (''tool_call_id'', JStr k)]"

definition sample_turns :: "turn list" where
  "sample_turns =
     [Alone (message_of ''user'' (JStr ''Go'')),
      Several [(''role'', JStr ''assistant''), (''content'', JStr ''Two''), (''tool_calls'', JList [sample_call_of ''a'', sample_call_of ''b''])]
        (JStr ''Two'') [(''a'', sample_call_of ''a''), (''b'', sample_call_of ''b'')]
        [(''b'', sample_result ''b''), (''a'', sample_result ''a'')]]"

theorem calls_paired_witness:
  "convert_from_multiple_tool_calls_to_single_tool_call_messages (concat (map turn_messages sample_turns)) False
     = Inr [message_of ''user'' (JStr ''Go''),
            single_call (JStr []) (sample_call_of ''b''), sample_result ''b'',
            single_call (JStr ''Two'') (sample_call_of ''a''), sample_result ''a'']"
proof -
  have "list_all turn_ok sample_turns"
    by (simp add: sample_turns_def message_of_def sample_call_of_def sample_result_def dict_get_def json_item_def add_mset_commute)
  from calls_paired [OF this, of False] show ?thesis
    by (simp add: sample_turns_def call_message_def)
qed

text \<open>A message without calls that comes before the results is put before the calls.\<close>

lemma late_answer_overtakes:
  "split_calls (message_of ''assistant'' c # ms) pending
    = bind_result (split_calls ms pending) (\<lambda>(out, p). Inr (message_of ''assistant'' c # out, p))"
  by (simp add: message_of_def dict_item_def dict_get_def several_calls_def dict_get_default_def)

end
