(* ===== verification/ConvMemory.thy ===== *)
theory ConvMemory
  imports Serialization Views
begin

text \<open>
  \<^verbatim>\<open>openhands/memory/conversation_memory.py\<close> and \<^verbatim>\<open>openhands/core/message.py\<close>: the history of events as the
  list of messages for the language model, prompt caching, and messages as dictionaries.

  The responses of the language model are objects of a library; a response is a record of the
  attributes that are read, and \<open>me_metadata\<close> gives it for the tool call metadata of an event. The
  templates of the prompt manager, the printing of file edits, the flattening of accessibility
  trees and the rendering of containers are arguments (\<open>memory_env\<close>). Events are values: a thought
  that is changed in place is changed in the list of events that is returned.
\<close>

section \<open>Messages\<close>

record tool_call =
  tc_id :: string
  tc_name :: string
  tc_arguments :: string

datatype content =
    TextContent string bool
  | ImageContent "string list" bool

text \<open>The attributes \<open>input_ids\<close>, \<open>output_ids\<close> and \<open>logprobs\<close> are the tokens.\<close>

type_synonym tokens = "json \<times> json \<times> json"

abbreviation no_tokens :: tokens where
  "no_tokens \<equiv> (JNull, JNull, JNull)"

record message =
  msg_role :: string
  msg_content :: "content list"
  msg_cache_enabled :: bool
  msg_vision_enabled :: bool
  msg_function_calling_enabled :: bool
  msg_tool_calls :: "tool_call list option"
  msg_tool_call_id :: "string option"
  msg_name :: "string option"
  msg_force_string :: bool
  msg_tokens :: tokens

definition new_message :: "string \<Rightarrow> content list \<Rightarrow> message" where
  "new_message role content =
     \<lparr>msg_role = role, msg_content = content, msg_cache_enabled = False, msg_vision_enabled = False,
      msg_function_calling_enabled = False, msg_tool_calls = None, msg_tool_call_id = None, msg_name = None,
      msg_force_string = False, msg_tokens = no_tokens\<rparr>"

abbreviation text_of :: "string \<Rightarrow> content" where
  "text_of s \<equiv> TextContent s False"

definition ephemeral :: json where
  "ephemeral = JObj [(''type'', JStr ''ephemeral'')]"

fun dump_text :: "string \<Rightarrow> bool \<Rightarrow> jdict" where
  "dump_text s cache =
     [(''type'', JStr ''text''), (''text'', JStr s)] @ (if cache then [(''cache_control'', ephemeral)] else [])"

fun dump_images :: "string list \<Rightarrow> bool \<Rightarrow> jdict list" where
  "dump_images urls cache =
     (let images = map (\<lambda>url. [(''type'', JStr ''image_url''), (''image_url'', JObj [(''url'', JStr url)])]) urls
      in if cache \<and> images \<noteq> [] then butlast images @ [last images @ [(''cache_control'', ephemeral)]]
         else images)"

fun cache_prompt :: "content \<Rightarrow> bool" where
  "cache_prompt (TextContent _ c) = c"
| "cache_prompt (ImageContent _ c) = c"

definition call_dict :: "tool_call \<Rightarrow> json" where
  "call_dict tc =
     JObj [(''id'', JStr (tc_id tc)), (''type'', JStr ''function''),
           (''function'', JObj [(''name'', JStr (tc_name tc)), (''arguments'', JStr (tc_arguments tc))])]"

definition add_tool_call_keys :: "message \<Rightarrow> jdict \<Rightarrow> jdict result" where
  "add_tool_call_keys m d =
     (let d1 = (case msg_tool_calls m of
                  None \<Rightarrow> d
                | Some calls \<Rightarrow> d @ [(''tool_calls'', JList (map call_dict calls))])
      in case msg_tool_call_id m of
           None \<Rightarrow> Inr d1
         | Some k \<Rightarrow>
             (case msg_name m of
                None \<Rightarrow> Inl (AssertionError ''name is required when tool_call_id is not None'')
              | Some n \<Rightarrow> Inr (d1 @ [(''tool_call_id'', JStr k), (''name'', JStr n)])))"

definition message_dict :: "message \<Rightarrow> json \<Rightarrow> jdict" where
  "message_dict m content =
     (case msg_tokens m of
        (inp, outp, lp) \<Rightarrow>
          [(''content'', content), (''role'', JStr (msg_role m)), (''input_ids'', inp), (''output_ids'', outp),
           (''logprobs'', lp)])"

definition string_serializer :: "message \<Rightarrow> jdict result" where
  "string_serializer m =
     add_tool_call_keys m
       (message_dict m (JStr (join_with [newline] (List.map_filter (\<lambda>c. case c of TextContent s _ \<Rightarrow> Some s | _ \<Rightarrow> None) (msg_content m)))))"

text \<open>The cache mark of a part of a tool message is moved to the message.\<close>

definition list_part :: "message \<Rightarrow> content \<Rightarrow> json list" where
  "list_part m c =
     (case c of
        TextContent s b \<Rightarrow> [JObj (dump_text s (b \<and> msg_role m \<noteq> ''tool''))]
      | ImageContent urls b \<Rightarrow>
          if msg_vision_enabled m then map JObj (dump_images urls (b \<and> msg_role m \<noteq> ''tool'')) else [])"

definition list_serializer :: "message \<Rightarrow> jdict result" where
  "list_serializer m =
     add_tool_call_keys m
       (message_dict m (JList (concat (map (list_part m) (msg_content m)))) @
        (if msg_role m = ''tool'' \<and> list_ex cache_prompt (msg_content m) then [(''cache_control'', ephemeral)] else []))"

definition serialize_model :: "message \<Rightarrow> jdict result" where
  "serialize_model m =
     (if \<not> msg_force_string m \<and> (msg_cache_enabled m \<or> msg_vision_enabled m \<or> msg_function_calling_enabled m)
      then list_serializer m else string_serializer m)"

section \<open>Responses and the environment\<close>

record response_choice =
  rc_role :: "string option"
  rc_content :: "string option"
  rc_tool_calls :: "tool_call list option"
  rc_tokens :: tokens

record llm_response =
  lr_id :: string
  lr_choices :: "response_choice list"

record tool_metadata =
  tm_function_name :: string
  tm_tool_call_id :: string
  tm_response :: llm_response

text \<open>What a workspace context is made of: repository, runtime and instructions.\<close>

record workspace_info =
  wi_repository :: "(json \<times> json) option"
  wi_hosts :: json
  wi_agent_instructions :: json
  wi_date :: json
  wi_secrets :: json
  wi_conversation :: "json option"
  wi_repo_instructions :: json

record memory_env =
  me_metadata :: "json \<Rightarrow> tool_metadata"
  me_render :: "json \<Rightarrow> string"
  me_show :: "payload \<Rightarrow> string"
  me_axtree :: "jdict \<Rightarrow> string + string"
  me_system_message :: string
  me_workspace_context :: "workspace_info \<Rightarrow> string"
  me_microagent_info :: "json list \<Rightarrow> string"
  me_prompt_extensions :: bool
  me_som_browsing :: bool
  me_disabled_microagents :: "string list"

section \<open>Actions\<close>

definition first_choice :: "llm_response \<Rightarrow> response_choice result" where
  "first_choice r = (case lr_choices r of [] \<Rightarrow> Inl IndexError | c # _ \<Rightarrow> Inr c)"

definition has_source :: "event_source \<Rightarrow> event \<Rightarrow> bool" where
  "has_source s e \<longleftrightarrow> ev_source e = Some s"

definition is_tool_action :: "event \<Rightarrow> bool" where
  "is_tool_action e =
     (case ev_payload e of
        AgentDelegateAction _ _ _ \<Rightarrow> True
      | AgentThinkAction _ \<Rightarrow> True
      | IPythonRunCellAction _ _ _ _ _ _ \<Rightarrow> True
      | FileEditAction _ _ _ _ _ _ _ _ _ _ _ _ \<Rightarrow> True
      | FileReadAction _ _ _ _ _ _ _ \<Rightarrow> True
      | BrowseInteractiveAction _ _ _ _ \<Rightarrow> True
      | BrowseURLAction _ _ _ \<Rightarrow> True
      | MCPAction _ _ _ _ \<Rightarrow> True
      | CmdRunAction _ _ _ _ _ _ _ _ _ \<Rightarrow> has_source AGENT e
      | _ \<Rightarrow> False)"

text \<open>The message that initiated the calls of a response.\<close>

definition response_message :: "response_choice \<Rightarrow> message" where
  "response_message c =
     (new_message (case rc_role c of Some r \<Rightarrow> r | None \<Rightarrow> ''assistant'')
        (case rc_content c of Some s \<Rightarrow> if py_strip s \<noteq> [] then [text_of s] else [] | None \<Rightarrow> []))
     \<lparr>msg_tool_calls := rc_tool_calls c, msg_tokens := rc_tokens c\<rparr>"

type_synonym pending = "(string, message) dict"

text \<open>\<open>action.thought\<close> of a finish action after it has been processed.\<close>

definition finish_thought :: "string \<Rightarrow> string \<Rightarrow> string" where
  "finish_thought thought content =
     (if thought \<noteq> [] then (if thought \<noteq> content then thought @ [newline] @ content else thought) else content)"

definition event_tokens :: "memory_env \<Rightarrow> event \<Rightarrow> tokens result" where
  "event_tokens M e =
     (case ev_tool_call e of
        None \<Rightarrow> Inr no_tokens
      | Some j \<Rightarrow> bind_result (first_choice (tm_response (me_metadata M j))) (\<lambda>c. Inr (rc_tokens c)))"

text \<open>The messages, the pending messages and the action after processing.\<close>

definition process_action ::
  "memory_env \<Rightarrow> bool \<Rightarrow> event \<Rightarrow> pending \<Rightarrow> (message list \<times> pending \<times> event) result" where
  "process_action M vision e pending =
     (if is_tool_action e then
        (case ev_tool_call e of
           None \<Rightarrow> Inl (AssertionError ''Tool call metadata should NOT be None when function calling is enabled.'')
         | Some j \<Rightarrow>
             (let r = tm_response (me_metadata M j) in
              bind_result (first_choice r) (\<lambda>c.
                Inr ([], dict_set pending (lr_id r) (response_message c), e))))
      else
        (case ev_payload e of
           AgentFinishAction final_thought completed outputs thought \<Rightarrow>
             bind_result
               (case ev_tool_call e of
                  None \<Rightarrow> Inr thought
                | Some j \<Rightarrow>
                    bind_result (first_choice (tm_response (me_metadata M j))) (\<lambda>c.
                      Inr (finish_thought thought (case rc_content c of Some s \<Rightarrow> s | None \<Rightarrow> []))))
               (\<lambda>thought'.
             bind_result (event_tokens M e) (\<lambda>tk.
               Inr ([(new_message (if has_source USER e then ''user'' else ''assistant'') [text_of thought'])\<lparr>msg_tokens := tk\<rparr>],
                    pending, e\<lparr>ev_payload := AgentFinishAction final_thought completed outputs thought'\<rparr>)))
         | MessageAction content image_urls _ _ \<Rightarrow>
             bind_result (event_tokens M e) (\<lambda>tk.
               Inr ([(new_message (if has_source USER e then ''user'' else ''assistant'')
                        (text_of content #
                         (case image_urls of
                            Some us \<Rightarrow> if vision \<and> us \<noteq> [] then [ImageContent us False] else []
                          | None \<Rightarrow> [])))\<lparr>msg_tokens := tk\<rparr>],
                    pending, e))
         | CmdRunAction command _ _ _ _ _ _ _ _ \<Rightarrow>
             Inr (if has_source USER e
                  then [new_message ''user'' [text_of (''User executed the command:'' @ [newline] @ command)]] else [],
                  pending, e)
         | SystemMessageAction content _ _ _ \<Rightarrow> Inr ([new_message ''system'' [text_of content]], pending, e)
         | _ \<Rightarrow> Inr ([], pending, e)))"

section \<open>Observations\<close>

text \<open>\<open>CmdOutputObservation.to_agent_observation\<close>\<close>

definition meta_field :: "cmd_metadata \<Rightarrow> string \<Rightarrow> json" where
  "meta_field md k = value_of METADATA_FIELDS (md_rest md) k"

definition to_agent_observation :: "(json \<Rightarrow> string) \<Rightarrow> string \<Rightarrow> cmd_metadata \<Rightarrow> string" where
  "to_agent_observation rp content md =
     py_str rp (meta_field md ''prefix'') @ content @ py_str rp (meta_field md ''suffix'') @
     (if truthy (meta_field md ''working_dir'')
      then [newline] @ ''[Current working directory: '' @ py_str rp (meta_field md ''working_dir'') @ '']'' else []) @
     (if truthy (meta_field md ''py_interpreter_path'')
      then [newline] @ ''[Python interpreter: '' @ py_str rp (meta_field md ''py_interpreter_path'') @ '']'' else []) @
     (if md_exit_code md \<noteq> - 1
      then [newline] @ ''[Command finished with exit code '' @ str_int (md_exit_code md) @ '']'' else [])"

text \<open>\<open>BrowserOutputObservation.get_agent_obs_text\<close>\<close>

definition browser_field :: "jdict \<Rightarrow> string \<Rightarrow> json" where
  "browser_field d k = value_of BROWSER_FIELDS d k"

definition browser_error :: "(json \<Rightarrow> string) \<Rightarrow> jdict \<Rightarrow> string \<Rightarrow> string" where
  "browser_error rp d what =
     ''================ BEGIN error message ==============='' @ [newline] @
     ''The following error occurred when '' @ what @ '':'' @ [newline] @
     py_str rp (browser_field d ''last_browser_action_error'') @ [newline] @
     ''================ END error message ==============='' @ [newline]"

definition get_agent_obs_text :: "memory_env \<Rightarrow> string \<Rightarrow> string \<Rightarrow> jdict \<Rightarrow> string result" where
  "get_agent_obs_text M content url d =
     (let rp = me_render M;
          trigger = browser_field d ''trigger_by_action'';
          head = ''[Current URL: '' @ url @ '']'' @ [newline]
      in if trigger = JStr ''browse_interactive'' then
           Inr (head @ ''[Focused element bid: '' @ py_str rp (browser_field d ''focused_element_bid'') @ '']'' @ [newline] @
                (if truthy (browser_field d ''screenshot_path'')
                 then ''[Screenshot saved to: '' @ py_str rp (browser_field d ''screenshot_path'') @ '']'' @ [newline] else []) @
                [newline] @
                (if truthy (browser_field d ''error'') then browser_error rp d ''executing the last action''
                 else ''[Action executed successfully.]'' @ [newline]) @
                (case me_axtree M d of
                   Inr tree \<Rightarrow>
                     ''============== BEGIN accessibility tree =============='' @ [newline] @ tree @ [newline] @
                     ''============== END accessibility tree =============='' @ [newline]
                 | Inl err \<Rightarrow>
                     [newline] @ ''[Error encountered when processing the accessibility tree: '' @ err @ '']''))
         else if trigger = JStr ''browse'' then
           Inr (head @
                (if truthy (browser_field d ''error'') then browser_error rp d ''trying to visit the URL'' else []) @
                ''============== BEGIN webpage content =============='' @ [newline] @ content @ [newline] @
                ''============== END webpage content =============='' @ [newline])
         else Inl (ValueError ''Invalid trigger_by_action''))"

definition screenshot_note :: string where
  "screenshot_note =
     ''Image: Current webpage screenshot (Note that only visible portion of webpage is present in the screenshot. You may need to scroll to view the remaining portion of the web-page.)'' @ [newline]"

definition browser_content :: "memory_env \<Rightarrow> bool \<Rightarrow> string \<Rightarrow> string \<Rightarrow> jdict \<Rightarrow> content list result" where
  "browser_content M vision content url d =
     bind_result (get_agent_obs_text M content url d) (\<lambda>t.
       if browser_field d ''trigger_by_action'' = JStr ''browse_interactive'' \<and> me_som_browsing M \<and> vision then
         Inr [text_of (t @ screenshot_note),
              ImageContent [py_str (me_render M)
                (if truthy (browser_field d ''set_of_marks'') then browser_field d ''set_of_marks''
                 else browser_field d ''screenshot'')] False]
       else Inr [text_of t])"

text \<open>Images in the output of a cell are replaced line by line.\<close>

definition clean_images :: "string \<Rightarrow> string" where
  "clean_images t =
     join_with [newline]
       (map (\<lambda>line. if contains ''![image](data:image/png;base64,'' line
                    then ''![image](data:image/png;base64, ...) already displayed to user'' else line)
          (split_on newline t))"

text \<open>Microagents\<close>

definition recall_field :: "jdict \<Rightarrow> string \<Rightarrow> json" where
  "recall_field d k = value_of RECALL_FIELDS d k"

definition agent_name :: "json \<Rightarrow> string" where
  "agent_name a = (case a of JObj d \<Rightarrow> (case dict_get d ''name'' of Some (JStr n) \<Rightarrow> n | _ \<Rightarrow> []) | _ \<Rightarrow> [])"

definition knowledge_of :: "jdict \<Rightarrow> json list" where
  "knowledge_of d = (case recall_field d ''microagent_knowledge'' of JList l \<Rightarrow> l | _ \<Rightarrow> [])"

definition has_agent_in_earlier_events :: "string \<Rightarrow> event list \<Rightarrow> bool" where
  "has_agent_in_earlier_events name earlier =
     list_ex (\<lambda>e. case ev_payload e of
         RecallObservation _ _ d \<Rightarrow> list_ex (\<lambda>a. agent_name a = name) (knowledge_of d)
       | _ \<Rightarrow> False) earlier"

definition filter_agents_in_microagent_obs :: "string \<Rightarrow> jdict \<Rightarrow> event list \<Rightarrow> json list" where
  "filter_agents_in_microagent_obs recall_type d earlier =
     (if recall_type \<noteq> ''knowledge'' then knowledge_of d
      else filter (\<lambda>a. \<not> has_agent_in_earlier_events (agent_name a) earlier) (knowledge_of d))"

definition enabled_agents :: "memory_env \<Rightarrow> json list \<Rightarrow> json list" where
  "enabled_agents M l = filter (\<lambda>a. agent_name a \<notin> set (me_disabled_microagents M)) l"

definition or_blank :: "json \<Rightarrow> json" where
  "or_blank v = (if truthy v then v else JStr [])"

definition workspace_of :: "jdict \<Rightarrow> workspace_info" where
  "workspace_of d =
     (let name = recall_field d ''repo_name'';
          dir = recall_field d ''repo_directory'';
          hosts = recall_field d ''runtime_hosts'';
          instructions = recall_field d ''additional_agent_instructions'';
          full = truthy hosts \<or> truthy instructions;
          conv = recall_field d ''conversation_instructions''
      in \<lparr>wi_repository = (if truthy name \<or> truthy dir then Some (or_blank name, or_blank dir) else None),
          wi_hosts = (if full then hosts else JObj []),
          wi_agent_instructions = (if full then instructions else JStr []),
          wi_date = recall_field d ''date'',
          wi_secrets = recall_field d ''custom_secrets_descriptions'',
          wi_conversation = (if truthy conv then Some conv else None),
          wi_repo_instructions = or_blank (recall_field d ''repo_instructions'')\<rparr>)"

definition has_workspace :: "workspace_info \<Rightarrow> bool" where
  "has_workspace w \<longleftrightarrow>
     wi_repository w \<noteq> None \<or> truthy (wi_date w) \<or> truthy (wi_secrets w) \<or>
     (case wi_repo_instructions w of JStr s \<Rightarrow> py_strip s \<noteq> [] | _ \<Rightarrow> True) \<or> wi_conversation w \<noteq> None"

definition workspace_content :: "memory_env \<Rightarrow> jdict \<Rightarrow> content list" where
  "workspace_content M d =
     (if has_workspace (workspace_of d) then [text_of (me_workspace_context M (workspace_of d))] else []) @
     (if enabled_agents M (knowledge_of d) \<noteq> []
      then [text_of (me_microagent_info M (enabled_agents M (knowledge_of d)))] else [])"

definition knowledge_messages :: "memory_env \<Rightarrow> jdict \<Rightarrow> event list \<Rightarrow> message list" where
  "knowledge_messages M d earlier =
     (let agents = enabled_agents M (filter_agents_in_microagent_obs ''knowledge'' d earlier)
      in if agents \<noteq> [] then [new_message ''user'' [text_of (me_microagent_info M agents)]] else [])"

text \<open>The content of the message of an observation; \<open>Inl\<close> in the second sum is a message list that is
  returned at once.\<close>

definition observation_content ::
  "memory_env \<Rightarrow> int option \<Rightarrow> bool \<Rightarrow> event list \<Rightarrow> event \<Rightarrow> (message list + content list) result" where
  "observation_content M max_chars vision earlier e =
     (let short = (\<lambda>t. Inr (Inr [text_of (truncate_content t max_chars)])) in
      case ev_payload e of
        CmdOutputObservation content _ md _ \<Rightarrow>
          short ((if ev_tool_call e = None
                then [newline] @ ''Observed result of command executed by user:'' @ [newline] else []) @
               to_agent_observation (me_render M) content md)
      | MCPObservation content _ _ \<Rightarrow> short content
      | IPythonRunCellObservation content _ image_urls \<Rightarrow>
          Inr (Inr (text_of (truncate_content (clean_images content) max_chars) #
                    (case image_urls of
                       Some us \<Rightarrow> if vision \<and> us \<noteq> [] then [ImageContent us False] else []
                     | None \<Rightarrow> [])))
      | FileEditObservation _ _ _ _ _ _ _ _ \<Rightarrow> short (me_show M (ev_payload e))
      | FileReadObservation content _ _ \<Rightarrow> Inr (Inr [text_of content])
      | BrowserOutputObservation content url d \<Rightarrow>
          bind_result (browser_content M vision content url d) (\<lambda>c. Inr (Inr c))
      | AgentDelegateObservation content outputs \<Rightarrow>
          bind_result (as_str (dict_get_default outputs ''content'' (JStr content))) short
      | AgentThinkObservation content \<Rightarrow> short content
      | ErrorObservation content _ \<Rightarrow>
          Inr (Inr [text_of (truncate_content content max_chars @ [newline] @ ''[Error occurred in processing last action]'')])
      | UserRejectObservation content \<Rightarrow>
          Inr (Inr [text_of (''OBSERVATION:'' @ [newline] @ truncate_content content max_chars @ [newline] @
                             ''[Last action has been rejected by the user]'')])
      | AgentCondensationObservation content \<Rightarrow> short content
      | RecallObservation _ recall_type d \<Rightarrow>
          (if \<not> me_prompt_extensions M then Inr (Inl [])
           else if recall_type = ''workspace_context'' then
             Inr (if workspace_content M d = [] then Inl [] else Inr (workspace_content M d))
           else if recall_type = ''knowledge'' then Inr (Inl (knowledge_messages M d earlier))
           else Inl (OtherException ''UnboundLocalError: message''))
      | _ \<Rightarrow> Inl (ValueError ''Unknown observation type''))"

definition process_observation ::
  "memory_env \<Rightarrow> int option \<Rightarrow> bool \<Rightarrow> event list \<Rightarrow> event \<Rightarrow> pending \<Rightarrow> (message list \<times> pending) result" where
  "process_observation M max_chars vision earlier e results =
     bind_result (observation_content M max_chars vision earlier e) (\<lambda>r.
       case r of
         Inl ms \<Rightarrow> Inr (ms, results)
       | Inr content \<Rightarrow>
           (case ev_tool_call e of
              None \<Rightarrow> Inr ([new_message ''user'' content], results)
            | Some j \<Rightarrow>
                (let tm = me_metadata M j in
                 Inr ([], dict_set results (tm_tool_call_id tm)
                   ((new_message ''tool'' content)
                    \<lparr>msg_tool_call_id := Some (tm_tool_call_id tm), msg_name := Some (tm_function_name tm)\<rparr>)))))"

section \<open>The loop\<close>

text \<open>The results of the calls of a complete message, taken out of the table.\<close>

fun take_results :: "tool_call list \<Rightarrow> pending \<Rightarrow> (message list \<times> pending) result" where
  "take_results [] results = Inr ([], results)"
| "take_results (tc # tcs) results =
     (case dict_get results (tc_id tc) of
        None \<Rightarrow> Inl (KeyError (tc_id tc))
      | Some m \<Rightarrow>
          bind_result (take_results tcs (dict_del results (tc_id tc))) (\<lambda>(ms, rs). Inr (m # ms, rs)))"

text \<open>One pass over the pending messages: the messages to add, the response ids to remove and the results.\<close>

fun complete_pending ::
  "pending \<Rightarrow> pending \<Rightarrow> (message list \<times> string list \<times> pending) result" where
  "complete_pending [] results = Inr ([], [], results)"
| "complete_pending ((rid, m) # ps) results =
     (case msg_tool_calls m of
        None \<Rightarrow> Inl (AssertionError ''Tool calls should NOT be None'')
      | Some calls \<Rightarrow>
          if list_all (\<lambda>tc. dict_get results (tc_id tc) \<noteq> None) calls then
            bind_result (take_results calls results) (\<lambda>(ms, results').
            bind_result (complete_pending ps results') (\<lambda>(ms', rids, rs).
              Inr (m # ms @ ms', rid # rids, rs)))
          else complete_pending ps results)"

record memory_state =
  mm_messages :: "message list"
  mm_pending :: pending
  mm_results :: pending
  mm_events :: "event list"

definition process_event ::
  "memory_env \<Rightarrow> int option \<Rightarrow> bool \<Rightarrow> event \<Rightarrow> memory_state \<Rightarrow> memory_state result" where
  "process_event M max_chars vision e s =
     bind_result
       (if is_action e then
          bind_result (process_action M vision e (mm_pending s)) (\<lambda>(ms, pending, e').
            Inr (ms, pending, mm_results s, e'))
        else
          bind_result (process_observation M max_chars vision (mm_events s) e (mm_results s)) (\<lambda>(ms, results).
            Inr (ms, mm_pending s, results, e)))
       (\<lambda>(ms, pending, results, e').
     bind_result (complete_pending pending results) (\<lambda>(ms', rids, results').
       Inr \<lparr>mm_messages = mm_messages s @ ms @ ms',
            mm_pending = filter (\<lambda>(k, _). k \<notin> set rids) pending,
            mm_results = results',
            mm_events = mm_events s @ [e']\<rparr>))"

fun process_loop ::
  "memory_env \<Rightarrow> int option \<Rightarrow> bool \<Rightarrow> event list \<Rightarrow> memory_state \<Rightarrow> memory_state result" where
  "process_loop M max_chars vision [] s = Inr s"
| "process_loop M max_chars vision (e # es) s =
     bind_result (process_event M max_chars vision e s) (process_loop M max_chars vision es)"

section \<open>Before and after the loop\<close>

definition is_system_message :: "event \<Rightarrow> bool" where
  "is_system_message e = (case ev_payload e of SystemMessageAction _ _ _ _ \<Rightarrow> True | _ \<Rightarrow> False)"

definition ensure_system_message :: "memory_env \<Rightarrow> event list \<Rightarrow> event list" where
  "ensure_system_message M es =
     (if list_ex is_system_message es \<or> me_system_message M = [] then es
      else new_event (SystemMessageAction (me_system_message M) None None None) # es)"

definition ensure_initial_user_message :: "event list \<Rightarrow> event \<Rightarrow> event list" where
  "ensure_initial_user_message es initial =
     (case es of
        [] \<Rightarrow> []
      | [e] \<Rightarrow> [e, initial]
      | e # e1 # rest \<Rightarrow>
          if \<not> is_message e1 \<or> \<not> has_source USER e1 then e # initial # e1 # rest else es)"

text \<open>Identifiers that are empty strings count as none.\<close>

definition tool_call_ids :: "message list \<Rightarrow> string set" where
  "tool_call_ids ms =
     set (filter (\<lambda>k. k \<noteq> []) (concat (map (\<lambda>m.
       case msg_tool_calls m of
         Some calls \<Rightarrow> if msg_role m = ''assistant'' then map tc_id calls else []
       | None \<Rightarrow> []) ms)))"

definition tool_response_ids :: "message list \<Rightarrow> string set" where
  "tool_response_ids ms =
     set (filter (\<lambda>k. k \<noteq> []) (List.map_filter (\<lambda>m. if msg_role m = ''tool'' then msg_tool_call_id m else None) ms))"

definition filter_message :: "string set \<Rightarrow> string set \<Rightarrow> message \<Rightarrow> message list" where
  "filter_message call_ids response_ids m =
     (if msg_role m = ''tool'' \<and> msg_tool_call_id m \<notin> {None, Some []} then
        (if the (msg_tool_call_id m) \<in> call_ids then [m] else [])
      else if msg_role m = ''assistant'' \<and> msg_tool_calls m \<notin> {None, Some []} then
        (let calls = the (msg_tool_calls m);
             matched = filter (\<lambda>tc. tc_id tc \<in> response_ids) calls
         in if list_all (\<lambda>tc. tc_id tc \<in> response_ids) calls then [m]
            else if matched \<noteq> [] then [m\<lparr>msg_tool_calls := Some matched\<rparr>] else [])
      else [m])"

definition filter_unmatched_tool_calls :: "message list \<Rightarrow> message list" where
  "filter_unmatched_tool_calls ms =
     concat (map (filter_message (tool_call_ids ms) (tool_response_ids ms)) ms)"

fun prepend_text :: "string \<Rightarrow> content list \<Rightarrow> content list" where
  "prepend_text p [] = []"
| "prepend_text p (TextContent s b # cs) = TextContent (p @ s) b # cs"
| "prepend_text p (c # cs) = c # prepend_text p cs"

fun apply_user_message_formatting :: "string \<Rightarrow> message list \<Rightarrow> message list" where
  "apply_user_message_formatting prev [] = []"
| "apply_user_message_formatting prev (m # ms) =
     (if msg_role m = ''user'' \<and> prev = ''user''
      then m\<lparr>msg_content := prepend_text [newline, newline] (msg_content m)\<rparr> else m)
     # apply_user_message_formatting (msg_role m) ms"

text \<open>The messages, and the history as it is left behind.\<close>

definition process_events ::
  "memory_env \<Rightarrow> event list \<Rightarrow> event \<Rightarrow> int option \<Rightarrow> bool \<Rightarrow> (message list \<times> event list) result" where
  "process_events M condensed_history initial max_chars vision =
     bind_result
       (process_loop M max_chars vision (ensure_initial_user_message (ensure_system_message M condensed_history) initial)
          \<lparr>mm_messages = [], mm_pending = [], mm_results = [], mm_events = []\<rparr>)
       (\<lambda>s. Inr (apply_user_message_formatting [] (filter_unmatched_tool_calls (mm_messages s)), mm_events s))"

section \<open>Prompt caching and formatting for the model\<close>

fun mark_content :: "content \<Rightarrow> content" where
  "mark_content (TextContent s _) = TextContent s True"
| "mark_content (ImageContent us _) = ImageContent us True"

definition mark_message :: "message \<Rightarrow> message result" where
  "mark_message m =
     (if msg_content m = [] then Inl IndexError
      else Inr (m\<lparr>msg_content := butlast (msg_content m) @ [mark_content (last (msg_content m))]\<rparr>))"

fun mark_first_heard :: "message list \<Rightarrow> message list result" where
  "mark_first_heard [] = Inr []"
| "mark_first_heard (m # ms) =
     (if msg_role m \<in> {''user'', ''tool''} then bind_result (mark_message m) (\<lambda>m'. Inr (m' # ms))
      else bind_result (mark_first_heard ms) (\<lambda>ms'. Inr (m # ms')))"

definition apply_prompt_caching :: "message list \<Rightarrow> message list result" where
  "apply_prompt_caching ms =
     bind_result
       (case ms of
          m # rest \<Rightarrow> if msg_role m = ''system'' then bind_result (mark_message m) (\<lambda>m'. Inr (m' # rest)) else Inr ms
        | [] \<Rightarrow> Inr [])
       (\<lambda>ms1. bind_result (mark_first_heard (rev ms1)) (\<lambda>r. Inr (rev r)))"

definition format_message :: "bool \<Rightarrow> bool \<Rightarrow> bool \<Rightarrow> string \<Rightarrow> message \<Rightarrow> message" where
  "format_message caching vision function_calling model m =
     (let m1 = m\<lparr>msg_cache_enabled := caching, msg_vision_enabled := vision,
                msg_function_calling_enabled := function_calling\<rparr>
      in if contains ''deepseek'' model then m1\<lparr>msg_force_string := True\<rparr> else m1)"

definition format_messages_for_llm ::
  "bool \<Rightarrow> bool \<Rightarrow> bool \<Rightarrow> string \<Rightarrow> message list \<Rightarrow> jdict list result" where
  "format_messages_for_llm caching vision function_calling model ms =
     all_results (map (serialize_model \<circ> format_message caching vision function_calling model) ms)"

section \<open>The messages of the agent\<close>

fun get_initial_user_message :: "event list \<Rightarrow> event result" where
  "get_initial_user_message [] = Inl (ValueError ''Initial user message not found in history. Please report this issue.'')"
| "get_initial_user_message (e # es) =
     (if is_message e \<and> has_source USER e then Inr e else get_initial_user_message es)"

definition get_messages ::
  "memory_env \<Rightarrow> int option \<Rightarrow> bool \<Rightarrow> bool \<Rightarrow> event list \<Rightarrow> event \<Rightarrow> (message list \<times> event list) result" where
  "get_messages M max_chars vision caching events initial =
     bind_result (process_events M events initial max_chars vision) (\<lambda>(ms, es).
       if caching then bind_result (apply_prompt_caching ms) (\<lambda>ms'. Inr (ms', es)) else Inr (ms, es))"

end
