(* ===== verification/ConvMemoryProps.thy ===== *)
theory ConvMemoryProps
  imports ConvMemory
begin

text \<open>
  The messages made from a history: calls are followed by their results, calls are shown exactly
  if all their results are there, and what reading the history does to it.
\<close>

section \<open>Histories that can be shown\<close>

definition response_ok :: "llm_response \<Rightarrow> bool" where
  "response_ok r =
     (case lr_choices r of
        [] \<Rightarrow> False
      | c # _ \<Rightarrow>
          rc_role c \<in> {None, Some ''assistant''} \<and>
          (case rc_tool_calls c of
             None \<Rightarrow> False
           | Some calls \<Rightarrow> distinct (map tc_id calls) \<and> [] \<notin> set (map tc_id calls)))"

text \<open>Messages and finish actions need a response only, actions that are calls a response with calls.\<close>

definition metadata_ok :: "memory_env \<Rightarrow> event \<Rightarrow> bool" where
  "metadata_ok M e =
     (case ev_tool_call e of
        None \<Rightarrow> True
      | Some j \<Rightarrow>
          lr_choices (tm_response (me_metadata M j)) \<noteq> [] \<and>
          (is_tool_action e \<longrightarrow> response_ok (tm_response (me_metadata M j))))"

text \<open>The classes of observations that are known.\<close>

definition observation_shown :: "memory_env \<Rightarrow> payload \<Rightarrow> bool" where
  "observation_shown M p =
     (case p of
        CmdOutputObservation _ _ _ _ \<Rightarrow> True
      | MCPObservation _ _ _ \<Rightarrow> True
      | IPythonRunCellObservation _ _ _ \<Rightarrow> True
      | FileEditObservation _ _ _ _ _ _ _ _ \<Rightarrow> True
      | FileReadObservation _ _ _ \<Rightarrow> True
      | BrowserOutputObservation _ _ d \<Rightarrow>
          browser_field d ''trigger_by_action'' \<in> {JStr ''browse_interactive'', JStr ''browse''}
      | AgentDelegateObservation content outputs \<Rightarrow>
          (case dict_get_default outputs ''content'' (JStr content) of JStr _ \<Rightarrow> True | _ \<Rightarrow> False)
      | AgentThinkObservation _ \<Rightarrow> True
      | ErrorObservation _ _ \<Rightarrow> True
      | UserRejectObservation _ \<Rightarrow> True
      | AgentCondensationObservation _ \<Rightarrow> True
      | RecallObservation _ ty _ \<Rightarrow> me_prompt_extensions M \<longrightarrow> ty \<in> {''workspace_context'', ''knowledge''}
      | _ \<Rightarrow> False)"

definition event_shown :: "memory_env \<Rightarrow> event \<Rightarrow> bool" where
  "event_shown M e \<longleftrightarrow>
     metadata_ok M e \<and> (is_tool_action e \<longrightarrow> ev_tool_call e \<noteq> None) \<and>
     (is_observation e \<longrightarrow> observation_shown M (ev_payload e))"

section \<open>Blocks\<close>

text \<open>A message without calls, or a message with calls and their results in order.\<close>

definition result_for :: "message \<Rightarrow> string \<Rightarrow> bool" where
  "result_for r k \<longleftrightarrow>
     msg_role r = ''tool'' \<and> msg_tool_call_id r = Some k \<and> msg_name r \<noteq> None \<and> msg_tool_calls r = None \<and>
     msg_content r \<noteq> []"

definition block_ok :: "message list \<Rightarrow> bool" where
  "block_ok b =
     (case b of
        [] \<Rightarrow> False
      | m # rs \<Rightarrow>
          msg_role m \<noteq> ''tool'' \<and> msg_tool_call_id m = None \<and>
          (case msg_tool_calls m of
             None \<Rightarrow> rs = [] \<and> msg_content m \<noteq> []
           | Some calls \<Rightarrow>
               msg_role m = ''assistant'' \<and> [] \<notin> set (map tc_id calls) \<and> list_all2 result_for rs (map tc_id calls)))"

definition well_paired :: "message list \<Rightarrow> bool" where
  "well_paired ms \<longleftrightarrow> (\<exists>bs. ms = concat bs \<and> list_all block_ok bs)"

lemma well_paired_append: "well_paired xs \<Longrightarrow> well_paired ys \<Longrightarrow> well_paired (xs @ ys)"
proof -
  assume "well_paired xs" "well_paired ys"
  then obtain as bs where "xs = concat as" "list_all block_ok as" "ys = concat bs" "list_all block_ok bs"
    by (auto simp: well_paired_def)
  then show ?thesis unfolding well_paired_def by (intro exI [of _ "as @ bs"]) simp
qed

lemma well_paired_Nil [simp]: "well_paired []"
  unfolding well_paired_def by (intro exI [of _ "[]"]) simp

lemma well_paired_block: "block_ok b \<Longrightarrow> well_paired b"
  unfolding well_paired_def by (intro exI [of _ "[b]"]) simp

definition plain_message :: "message \<Rightarrow> bool" where
  "plain_message m \<longleftrightarrow>
     msg_role m \<noteq> ''tool'' \<and> msg_tool_call_id m = None \<and> msg_tool_calls m = None \<and> msg_content m \<noteq> []"

lemma well_paired_plain: "list_all plain_message ms \<Longrightarrow> well_paired ms"
proof (induction ms)
  case (Cons m ms)
  then have "block_ok [m]" by (simp add: plain_message_def block_ok_def)
  with Cons well_paired_append [OF well_paired_block, of "[m]" ms] show ?case by simp
qed simp

lemma plain_new_message [simp]:
  "plain_message ((new_message role c)\<lparr>msg_tokens := t\<rparr>) \<longleftrightarrow> role \<noteq> ''tool'' \<and> c \<noteq> []"
  "plain_message (new_message role c) \<longleftrightarrow> role \<noteq> ''tool'' \<and> c \<noteq> []"
  by (simp_all add: plain_message_def new_message_def)

section \<open>Invariant of the loop\<close>

definition call_ready :: "message \<Rightarrow> bool" where
  "call_ready m \<longleftrightarrow>
     msg_role m = ''assistant'' \<and> msg_tool_call_id m = None \<and>
     (case msg_tool_calls m of
        None \<Rightarrow> False
      | Some calls \<Rightarrow> distinct (map tc_id calls) \<and> [] \<notin> set (map tc_id calls))"

definition results_ok :: "pending \<Rightarrow> bool" where
  "results_ok results \<longleftrightarrow> (\<forall>k r. dict_get results k = Some r \<longrightarrow> result_for r k)"

lemma results_ok_del: "results_ok results \<Longrightarrow> results_ok (dict_del results k)"
  by (simp add: results_ok_def)

lemma results_ok_set: "results_ok results \<Longrightarrow> result_for r k \<Longrightarrow> results_ok (dict_set results k r)"
  by (simp add: results_ok_def)

lemma take_results_ok:
  "distinct (map tc_id calls) \<Longrightarrow> list_all (\<lambda>tc. dict_get results (tc_id tc) \<noteq> None) calls \<Longrightarrow>
     \<exists>rs. take_results calls results = Inr (map (\<lambda>tc. the (dict_get results (tc_id tc))) calls, rs) \<and>
       (\<forall>k. dict_get rs k = (if k \<in> set (map tc_id calls) then None else dict_get results k))"
proof (induction calls arbitrary: results)
  case (Cons tc calls)
  let ?r = "dict_del results (tc_id tc)"
  have other: "tc_id tc' \<noteq> tc_id tc" if "tc' \<in> set calls" for tc'
    using Cons.prems(1) that by (metis distinct.simps(2) image_eqI list.simps(9) set_map)
  have "list_all (\<lambda>tc'. dict_get ?r (tc_id tc') \<noteq> None) calls"
    using Cons.prems other by (simp add: list_all_iff)
  then obtain rs where rs: "take_results calls ?r = Inr (map (\<lambda>tc. the (dict_get ?r (tc_id tc))) calls, rs)"
    "\<forall>k. dict_get rs k = (if k \<in> set (map tc_id calls) then None else dict_get ?r k)"
    using Cons.IH [of ?r] Cons.prems(1) by auto
  have "map (\<lambda>tc'. the (dict_get ?r (tc_id tc'))) calls = map (\<lambda>tc'. the (dict_get results (tc_id tc'))) calls"
    using other by (intro map_cong) auto
  with rs Cons.prems show ?case by (auto simp: list_all_iff)
qed simp

definition ready :: "pending \<Rightarrow> message \<Rightarrow> bool" where
  "ready results m \<longleftrightarrow> list_all (\<lambda>tc. dict_get results (tc_id tc) \<noteq> None) (the (msg_tool_calls m))"

lemma block_of_results:
  assumes "call_ready m" "ready results m" "results_ok results" "msg_tool_calls m = Some calls"
  shows "block_ok (m # map (\<lambda>tc. the (dict_get results (tc_id tc))) calls)"
proof -
  have "result_for (the (dict_get results (tc_id tc))) (tc_id tc)" if "tc \<in> set calls" for tc
    using that assms by (auto simp: ready_def results_ok_def list_all_iff)
  then have "list_all2 result_for (map (\<lambda>tc. the (dict_get results (tc_id tc))) calls) (map tc_id calls)"
    by (simp add: list_all2_conv_all_nth)
  with assms show ?thesis by (simp add: block_ok_def call_ready_def)
qed

lemma complete_pending_paired:
  "list_all (call_ready \<circ> snd) ps \<Longrightarrow> results_ok results \<Longrightarrow>
     \<exists>ms rids rs. complete_pending ps results = Inr (ms, rids, rs) \<and> well_paired ms \<and> results_ok rs"
proof (induction ps arbitrary: results)
  case (Cons p ps)
  obtain rid m where p: "p = (rid, m)" by (cases p)
  then obtain calls where c: "msg_tool_calls m = Some calls" "distinct (map tc_id calls)" "call_ready m"
    using Cons.prems(1) by (auto simp: call_ready_def split: option.splits)
  show ?case
  proof (cases "ready results m")
    case True
    then have "list_all (\<lambda>tc. dict_get results (tc_id tc) \<noteq> None) calls" by (simp add: ready_def c)
    then obtain rs where rs: "take_results calls results = Inr (map (\<lambda>tc. the (dict_get results (tc_id tc))) calls, rs)"
      "\<forall>k. dict_get rs k = (if k \<in> set (map tc_id calls) then None else dict_get results k)"
      using take_results_ok [OF c(2)] by blast
    have "results_ok rs" using rs(2) Cons.prems(2) by (simp add: results_ok_def)
    then obtain ms rids rs' where "complete_pending ps rs = Inr (ms, rids, rs')" "well_paired ms" "results_ok rs'"
      using Cons.IH [of rs] Cons.prems(1) by auto
    moreover have "well_paired (m # map (\<lambda>tc. the (dict_get results (tc_id tc))) calls)"
      using block_of_results [OF c(3) True Cons.prems(2) c(1)] by (rule well_paired_block)
    ultimately show ?thesis
      using True rs(1) well_paired_append [of "m # map (\<lambda>tc. the (dict_get results (tc_id tc))) calls" ms]
      by (simp add: p c ready_def)
  next
    case False
    then show ?thesis using Cons.IH [OF _ Cons.prems(2)] Cons.prems(1) by (simp add: p c ready_def)
  qed
qed simp

lemma first_choice_ok: "response_ok r \<Longrightarrow> \<exists>c. first_choice r = Inr c \<and> call_ready (response_message c)"
  by (auto simp: response_ok_def first_choice_def call_ready_def response_message_def new_message_def split: list.splits option.splits)

lemma event_tokens_ok: "metadata_ok M e \<Longrightarrow> \<exists>t. event_tokens M e = Inr t"
  by (auto simp: metadata_ok_def event_tokens_def first_choice_def simp del: split_paired_Ex
      split: option.splits list.splits)

lemma pending_set: "list_all (call_ready \<circ> snd) pending \<Longrightarrow> call_ready m \<Longrightarrow> list_all (call_ready \<circ> snd) (dict_set pending k m)"
  by (induction pending k m rule: dict_set.induct) auto

lemma process_action_ok:
  assumes "event_shown M e" "list_all (call_ready \<circ> snd) pending"
  shows "\<exists>ms pending' e'. process_action M vision e pending = Inr (ms, pending', e') \<and>
    list_all plain_message ms \<and> list_all (call_ready \<circ> snd) pending'"
proof (cases "is_tool_action e")
  case True
  then obtain j where j: "ev_tool_call e = Some j" using assms(1) by (auto simp: event_shown_def)
  then obtain c where c: "first_choice (tm_response (me_metadata M j)) = Inr c" "call_ready (response_message c)"
    using True assms(1) first_choice_ok by (auto simp: event_shown_def metadata_ok_def)
  show ?thesis
    using True j c pending_set [OF assms(2) c(2)] by (simp add: process_action_def Let_def)
next
  case False
  obtain t where t: "event_tokens M e = Inr t" using assms(1) event_tokens_ok [of M e] unfolding event_shown_def by blast
  show ?thesis
  proof (cases "ev_payload e")
    case (AgentFinishAction final_thought completed outputs thought)
    have "\<exists>th. (case ev_tool_call e of None \<Rightarrow> Inr thought | Some j \<Rightarrow>
        bind_result (first_choice (tm_response (me_metadata M j))) (\<lambda>c.
          Inr (finish_thought thought (case rc_content c of Some s \<Rightarrow> s | None \<Rightarrow> [])))) = Inr th"
      using assms(1) by (auto simp: event_shown_def metadata_ok_def first_choice_def split: option.splits list.splits)
    with False t assms(2) AgentFinishAction show ?thesis by (auto simp: process_action_def)
  qed (use False t assms(2) in \<open>auto simp: process_action_def split: option.splits\<close>)
qed

lemma workspace_not_plain: "workspace_content M d \<noteq> [] \<Longrightarrow> plain_message (new_message ''user'' (workspace_content M d))"
  by simp

lemma observation_content_ok:
  assumes "observation_shown M (ev_payload e)"
  shows "\<exists>r. observation_content M max_chars vision earlier e = Inr r \<and>
    (case r of Inl ms \<Rightarrow> list_all plain_message ms | Inr content \<Rightarrow> content \<noteq> [])"
proof (cases "ev_payload e")
  case (BrowserOutputObservation content url d)
  then show ?thesis
    using assms by (auto simp: observation_shown_def observation_content_def browser_content_def get_agent_obs_text_def Let_def)
next
  case (AgentDelegateObservation content outputs)
  then show ?thesis
    using assms by (auto simp: observation_shown_def observation_content_def split: json.splits)
next
  case (RecallObservation content ty d)
  then show ?thesis
    using assms by (auto simp: observation_shown_def observation_content_def knowledge_messages_def Let_def)
qed (use assms in \<open>auto simp: observation_shown_def observation_content_def\<close>)

lemma process_observation_ok:
  assumes "event_shown M e" "is_observation e" "results_ok results"
  shows "\<exists>ms results'. process_observation M max_chars vision earlier e results = Inr (ms, results') \<and>
    list_all plain_message ms \<and> results_ok results'"
proof -
  have "observation_shown M (ev_payload e)" using assms(1,2) by (simp add: event_shown_def)
  from observation_content_ok [OF this, of max_chars vision earlier]
  obtain r where r: "observation_content M max_chars vision earlier e = Inr r"
    "case r of Inl ms \<Rightarrow> list_all plain_message ms | Inr content \<Rightarrow> content \<noteq> []" by blast
  have "results_ok (dict_set results k ((new_message ''tool'' c)\<lparr>msg_tool_call_id := Some k, msg_name := Some n\<rparr>))"
    if "c \<noteq> []" for k n c
    using that by (intro results_ok_set [OF assms(3)]) (simp add: result_for_def new_message_def)
  with r assms(3) show ?thesis
    by (cases r) (auto simp: process_observation_def Let_def split: option.splits)
qed

definition memory_ok :: "memory_state \<Rightarrow> bool" where
  "memory_ok s \<longleftrightarrow>
     well_paired (mm_messages s) \<and> list_all (call_ready \<circ> snd) (mm_pending s) \<and> results_ok (mm_results s)"

lemma process_event_ok:
  assumes "event_shown M e" "memory_ok s"
  shows "\<exists>s'. process_event M max_chars vision e s = Inr s' \<and> memory_ok s'"
proof -
  obtain ms pending results e' where step:
    "(if is_action e then
          bind_result (process_action M vision e (mm_pending s)) (\<lambda>(ms, pending, e').
            Inr (ms, pending, mm_results s, e'))
        else
          bind_result (process_observation M max_chars vision (mm_events s) e (mm_results s)) (\<lambda>(ms, results).
            Inr (ms, mm_pending s, results, e))) = Inr (ms, pending, results, e')"
    and ok: "list_all plain_message ms" "list_all (call_ready \<circ> snd) pending" "results_ok results"
    using assms process_action_ok [of M e "mm_pending s" vision]
      process_observation_ok [of M e "mm_results s" max_chars vision "mm_events s"]
    by (cases "is_action e") (fastforce simp: memory_ok_def action_or_observation)+
  from complete_pending_paired [OF ok(2,3)] obtain ms' rids rs where
    "complete_pending pending results = Inr (ms', rids, rs)" "well_paired ms'" "results_ok rs" by blast
  moreover have "list_all (call_ready \<circ> snd) (filter (\<lambda>(k, _). k \<notin> set rids) pending)"
    using ok(2) by (auto simp: list_all_iff)
  ultimately show ?thesis
    using step well_paired_append [OF _ well_paired_append [OF well_paired_plain [OF ok(1)]]] assms(2)
    by (simp add: process_event_def memory_ok_def)
qed

lemma process_loop_ok:
  "list_all (event_shown M) es \<Longrightarrow> memory_ok s \<Longrightarrow> \<exists>s'. process_loop M max_chars vision es s = Inr s' \<and> memory_ok s'"
proof (induction es arbitrary: s)
  case (Cons e es)
  then show ?case using process_event_ok [of M e s max_chars vision] by fastforce
qed simp

section \<open>The final filter\<close>

lemma tool_call_ids_append: "tool_call_ids (xs @ ys) = tool_call_ids xs \<union> tool_call_ids ys"
  by (simp add: tool_call_ids_def image_Un)

lemma tool_response_ids_append: "tool_response_ids (xs @ ys) = tool_response_ids xs \<union> tool_response_ids ys"
  by (simp add: tool_response_ids_def map_filter_def)

lemma tool_response_ids_iff:
  "k \<in> tool_response_ids ms \<longleftrightarrow> k \<noteq> [] \<and> (\<exists>m \<in> set ms. msg_role m = ''tool'' \<and> msg_tool_call_id m = Some k)"
  by (induction ms) (auto simp: tool_response_ids_def map_filter_def split: if_splits)

lemma results_cover:
  "list_all2 result_for rs ks \<Longrightarrow>
     (\<forall>r \<in> set rs. \<exists>k \<in> set ks. result_for r k) \<and> (\<forall>k \<in> set ks. \<exists>r \<in> set rs. result_for r k)"
  by (induction rule: list_all2_induct) auto

lemma block_ids:
  assumes "block_ok b"
  shows "\<forall>m \<in> set b. \<forall>C R. tool_call_ids b \<subseteq> C \<and> tool_response_ids b \<subseteq> R \<longrightarrow> filter_message C R m = [m]"
proof -
  obtain m rs where b: "b = m # rs" "msg_role m \<noteq> ''tool''" using assms by (auto simp: block_ok_def split: list.splits)
  show ?thesis
  proof (cases "msg_tool_calls m")
    case None
    with assms b show ?thesis by (simp add: block_ok_def filter_message_def)
  next
    case (Some calls)
    with assms b have c: "msg_role m = ''assistant''" "[] \<notin> set (map tc_id calls)" "list_all2 result_for rs (map tc_id calls)"
      by (auto simp: block_ok_def)
    have rs: "msg_role r = ''tool'' \<and> (\<exists>k \<in> set (map tc_id calls). msg_tool_call_id r = Some k)" if "r \<in> set rs" for r
      using that results_cover [OF c(3)] by (auto simp: result_for_def)
    have calls: "set (map tc_id calls) \<subseteq> tool_call_ids b"
      using Some c by (auto simp: b tool_call_ids_def) (metis image_eqI)+
    have "\<exists>r \<in> set rs. msg_role r = ''tool'' \<and> msg_tool_call_id r = Some k" if "k \<in> set (map tc_id calls)" for k
      using that results_cover [OF c(3)] by (auto simp: result_for_def)
    then have responses: "set (map tc_id calls) \<subseteq> tool_response_ids b"
      using c(2) unfolding tool_response_ids_iff subset_iff b(1) by (metis list.set_intros(2))
    show ?thesis
    proof (intro ballI allI impI)
      fix x C R
      assume x: "x \<in> set b" and CR: "tool_call_ids b \<subseteq> C \<and> tool_response_ids b \<subseteq> R"
      show "filter_message C R x = [x]"
      proof (cases "x = m")
        case True
        with Some c responses CR show ?thesis by (auto simp: filter_message_def list_all_iff Let_def)
      next
        case False
        with x b(1) rs [of x] obtain k where k: "k \<in> set (map tc_id calls)" "msg_tool_call_id x = Some k" "msg_role x = ''tool''"
          by auto
        then have "k \<in> C" "k \<noteq> []" using c(2) calls CR by blast+
        with k show ?thesis by (simp add: filter_message_def)
      qed
    qed
  qed
qed

lemma filter_keeps: "well_paired ms \<Longrightarrow> filter_unmatched_tool_calls ms = ms"
proof -
  assume "well_paired ms"
  then obtain bs where bs: "ms = concat bs" "list_all block_ok bs" by (auto simp: well_paired_def)
  have sub: "tool_call_ids b \<subseteq> tool_call_ids ms \<and> tool_response_ids b \<subseteq> tool_response_ids ms" if b: "b \<in> set bs" for b
  proof -
    obtain xs ys where "bs = xs @ b # ys" using b by (meson split_list)
    then show ?thesis by (auto simp: bs(1) tool_call_ids_append tool_response_ids_append)
  qed
  have "filter_message (tool_call_ids ms) (tool_response_ids ms) m = [m]" if "m \<in> set ms" for m
    using that bs sub block_ids by (fastforce simp: list_all_iff)
  then have "map (filter_message (tool_call_ids ms) (tool_response_ids ms)) ms = map (\<lambda>m. [m]) ms"
    by (intro map_cong) auto
  then show ?thesis by (simp only: filter_unmatched_tool_calls_def concat_map_singleton list.map_ident)
qed

section \<open>Formatting\<close>

lemma formatting_append:
  "apply_user_message_formatting prev (xs @ ys)
    = apply_user_message_formatting prev xs @
      apply_user_message_formatting (if xs = [] then prev else msg_role (last xs)) ys"
  by (induction xs arbitrary: prev) auto

lemma prepend_text_Nil [simp]: "prepend_text p cs = [] \<longleftrightarrow> cs = []"
  by (induction p cs rule: prepend_text.induct) auto

lemma formatting_tools: "list_all (\<lambda>m. msg_role m \<noteq> ''user'') ms \<Longrightarrow> apply_user_message_formatting prev ms = ms"
  by (induction ms arbitrary: prev) auto

lemma formatting_block: "block_ok b \<Longrightarrow> block_ok (apply_user_message_formatting prev b)"
proof -
  assume b: "block_ok b"
  then obtain m rs where m: "b = m # rs" by (auto simp: block_ok_def split: list.splits)
  show ?thesis
  proof (cases "msg_tool_calls m")
    case None
    with b m show ?thesis by (auto simp: block_ok_def)
  next
    case (Some calls)
    then have "list_all2 result_for rs (map tc_id calls)" "msg_role m = ''assistant''" using b m by (auto simp: block_ok_def)
    then have "list_all (\<lambda>m. msg_role m \<noteq> ''user'') b"
      using results_cover [of rs "map tc_id calls"] by (auto simp: m list_all_iff result_for_def)
    then show ?thesis using b by (simp add: formatting_tools)
  qed
qed

lemma formatting_paired: "well_paired ms \<Longrightarrow> well_paired (apply_user_message_formatting prev ms)"
proof -
  assume "well_paired ms"
  then obtain bs where bs: "ms = concat bs" "list_all block_ok bs" by (auto simp: well_paired_def)
  from bs(2) have "well_paired (apply_user_message_formatting prev (concat bs))" for prev
  proof (induction bs arbitrary: prev)
    case (Cons b bs)
    then show ?case
      using well_paired_append [OF well_paired_block [OF formatting_block]] by (simp add: formatting_append)
  qed simp
  then show ?thesis by (simp add: bs)
qed

section \<open>Caching and serialization\<close>

lemma in_block: "well_paired ms \<Longrightarrow> m \<in> set ms \<Longrightarrow> \<exists>b. block_ok b \<and> m \<in> set b"
  by (auto simp: well_paired_def list_all_iff) blast

lemma heard_content:
  assumes "well_paired ms" "m \<in> set ms" "msg_role m \<noteq> ''assistant''"
  shows "msg_content m \<noteq> []"
proof -
  obtain b where b: "block_ok b" "m \<in> set b"
    using in_block [OF assms(1,2)] by blast
  then show ?thesis
    using assms(3) results_cover by (fastforce simp: block_ok_def result_for_def split: list.splits option.splits)
qed

lemma named_results:
  assumes "well_paired ms" "m \<in> set ms" "msg_tool_call_id m \<noteq> None"
  shows "msg_name m \<noteq> None"
proof -
  obtain b where b: "block_ok b" "m \<in> set b"
    using in_block [OF assms(1,2)] by blast
  then show ?thesis
    using assms(3) results_cover by (fastforce simp: block_ok_def result_for_def split: list.splits option.splits)
qed

lemma mark_first_heard_ok:
  "(\<And>m. m \<in> set ms \<Longrightarrow> msg_role m \<noteq> ''assistant'' \<Longrightarrow> msg_content m \<noteq> []) \<Longrightarrow> \<exists>ms'. mark_first_heard ms = Inr ms' \<and>
     map (msg_content_update (\<lambda>_. [])) ms' = map (msg_content_update (\<lambda>_. [])) ms"
proof (induction ms)
  case (Cons m ms)
  then obtain ms' where "mark_first_heard ms = Inr ms'"
      "map (msg_content_update (\<lambda>_. [])) ms' = map (msg_content_update (\<lambda>_. [])) ms"
    by auto
  with Cons.prems [of m] show ?case by (auto simp: mark_message_def)
qed simp

lemma caching_ok:
  assumes "\<And>m. m \<in> set ms \<Longrightarrow> msg_role m \<noteq> ''assistant'' \<Longrightarrow> msg_content m \<noteq> []"
  shows "\<exists>ms'. apply_prompt_caching ms = Inr ms' \<and>
    map (msg_content_update (\<lambda>_. [])) ms' = map (msg_content_update (\<lambda>_. [])) ms"
proof -
  have "\<exists>ms1. (case ms of
          m # rest \<Rightarrow> if msg_role m = ''system'' then bind_result (mark_message m) (\<lambda>m'. Inr (m' # rest)) else Inr ms
        | [] \<Rightarrow> Inr []) = Inr ms1 \<and>
      map (msg_content_update (\<lambda>_. [])) ms1 = map (msg_content_update (\<lambda>_. [])) ms \<and>
      (\<forall>m \<in> set ms1. msg_role m \<noteq> ''assistant'' \<longrightarrow> msg_content m \<noteq> [])"
  proof (cases ms)
    case (Cons m rest)
    with assms [of m] assms show ?thesis by (cases "msg_role m = ''system''") (auto simp: mark_message_def)
  qed simp
  then obtain ms1 where ms1: "(case ms of
          m # rest \<Rightarrow> if msg_role m = ''system'' then bind_result (mark_message m) (\<lambda>m'. Inr (m' # rest)) else Inr ms
        | [] \<Rightarrow> Inr []) = Inr ms1"
    and same: "map (msg_content_update (\<lambda>_. [])) ms1 = map (msg_content_update (\<lambda>_. [])) ms"
    and ok: "\<forall>m \<in> set ms1. msg_role m \<noteq> ''assistant'' \<longrightarrow> msg_content m \<noteq> []" by blast
  obtain r where r: "mark_first_heard (rev ms1) = Inr r"
      "map (msg_content_update (\<lambda>_. [])) r = map (msg_content_update (\<lambda>_. [])) (rev ms1)"
    using mark_first_heard_ok [of "rev ms1"] ok by auto
  then have "map (msg_content_update (\<lambda>_. [])) (rev r) = map (msg_content_update (\<lambda>_. [])) ms1"
    by (simp flip: rev_map)
  with ms1 same r(1) show ?thesis by (simp add: apply_prompt_caching_def)
qed

lemma serialized_ok:
  assumes "msg_tool_call_id m \<noteq> None \<longrightarrow> msg_name m \<noteq> None"
  shows "\<exists>d. serialize_model (format_message c v f model m) = Inr d"
  using assms
  by (auto simp: serialize_model_def format_message_def list_serializer_def string_serializer_def add_tool_call_keys_def
      Let_def split: option.splits)

lemma format_messages_ok:
  "list_all (\<lambda>m. msg_tool_call_id m \<noteq> None \<longrightarrow> msg_name m \<noteq> None) ms \<Longrightarrow>
     \<exists>ds. format_messages_for_llm c v f model ms = Inr ds \<and> length ds = length ms"
proof (induction ms)
  case Nil
  then show ?case by (simp add: format_messages_for_llm_def)
next
  case (Cons m ms)
  then show ?case
    using serialized_ok [of m c v f model] by (auto simp: format_messages_for_llm_def)
qed

lemma initial_shown:
  assumes "list_all (event_shown M) es" "event_shown M initial"
  shows "list_all (event_shown M) (ensure_initial_user_message (ensure_system_message M es) initial)"
proof -
  have "event_shown M (new_event (SystemMessageAction p None None None))" for p
    by (simp add: event_shown_def metadata_ok_def new_event_def is_tool_action_def is_observation_def)
  then have "list_all (event_shown M) (ensure_system_message M es)" using assms(1) by (simp add: ensure_system_message_def)
  then show ?thesis using assms(2) by (auto simp: ensure_initial_user_message_def split: list.splits)
qed


section \<open>Calls and their answers\<close>

definition call_ids :: "message \<Rightarrow> string set" where
  "call_ids m = set (map tc_id (case msg_tool_calls m of Some calls \<Rightarrow> calls | None \<Rightarrow> []))"

lemma ready_iff: "call_ready m \<Longrightarrow> ready results m \<longleftrightarrow> (\<forall>k \<in> call_ids m. dict_get results k \<noteq> None)"
  by (auto simp: ready_def call_ready_def call_ids_def list_all_iff split: option.splits)

text \<open>What a pass over the pending messages does, if their calls are different.\<close>

lemma complete_pending_exact:
  assumes "distinct (map fst ps)" "list_all (call_ready \<circ> snd) ps" "results_ok results"
    and "\<forall>k m k' m'. (k, m) \<in> set ps \<and> (k', m') \<in> set ps \<and> k \<noteq> k' \<longrightarrow> call_ids m \<inter> call_ids m' = {}"
  shows "\<exists>ms rids rs. complete_pending ps results = Inr (ms, rids, rs) \<and>
    (\<forall>k. k \<in> set rids \<longleftrightarrow> (\<exists>m. (k, m) \<in> set ps \<and> ready results m)) \<and>
    (\<forall>x. msg_tool_calls x \<noteq> None \<longrightarrow> (x \<in> set ms \<longleftrightarrow> (\<exists>k. (k, x) \<in> set ps \<and> ready results x))) \<and>
    (\<forall>c. dict_get rs c = (if \<exists>k m. (k, m) \<in> set ps \<and> ready results m \<and> c \<in> call_ids m then None else dict_get results c))"
  using assms
proof (induction ps arbitrary: results)
  case (Cons p ps)
  obtain rid m where p: "p = (rid, m)" by (cases p)
  have m: "call_ready m" and rest: "list_all (call_ready \<circ> snd) ps" and d: "distinct (map fst ps)" "rid \<notin> fst ` set ps"
    using Cons.prems(1,2) by (auto simp: p comp_def)
  then obtain calls where c: "msg_tool_calls m = Some calls" "distinct (map tc_id calls)"
    by (auto simp: call_ready_def split: option.splits)
  have ids: "call_ids m = set (map tc_id calls)" by (simp add: call_ids_def c)
  have apart: "call_ids m \<inter> call_ids m' = {}" if "(k, m') \<in> set ps" for k m'
    using Cons.prems(4) [rule_format, of rid m k m'] that d(2) by (force simp: p)
  have ready': "call_ready m'" if "(k, m') \<in> set ps" for k m' using that rest by (auto simp: list_all_iff)
  show ?case
  proof (cases "ready results m")
    case True
    then have "list_all (\<lambda>tc. dict_get results (tc_id tc) \<noteq> None) calls" by (simp add: ready_def c)
    then obtain rs where rs: "take_results calls results = Inr (map (\<lambda>tc. the (dict_get results (tc_id tc))) calls, rs)"
      "\<forall>k. dict_get rs k = (if k \<in> call_ids m then None else dict_get results k)"
      using take_results_ok [OF c(2)] unfolding ids by blast
    have ok: "results_ok rs" using rs(2) Cons.prems(3) by (simp add: results_ok_def)
    have same: "ready rs m' \<longleftrightarrow> ready results m'" if "(k, m') \<in> set ps" for k m'
      using rs(2) apart [OF that] ready' [OF that] by (auto simp: ready_iff)
    have taken: "msg_tool_calls x = None" if "x \<in> set (map (\<lambda>tc. the (dict_get results (tc_id tc))) calls)" for x
      using that True Cons.prems(3) by (auto simp: ready_def c list_all_iff results_ok_def result_for_def)
    obtain ms rids rs' where r: "complete_pending ps rs = Inr (ms, rids, rs')"
      "\<forall>k. k \<in> set rids \<longleftrightarrow> (\<exists>m. (k, m) \<in> set ps \<and> ready rs m)"
      "\<forall>x. msg_tool_calls x \<noteq> None \<longrightarrow> (x \<in> set ms \<longleftrightarrow> (\<exists>k. (k, x) \<in> set ps \<and> ready rs x))"
      "\<forall>c. dict_get rs' c = (if \<exists>k m. (k, m) \<in> set ps \<and> ready rs m \<and> c \<in> call_ids m then None else dict_get rs c)"
      using Cons.IH [OF d(1) rest ok] Cons.prems(4) by fastforce
    have eq: "complete_pending (p # ps) results
        = Inr (m # map (\<lambda>tc. the (dict_get results (tc_id tc))) calls @ ms, rid # rids, rs')"
      using True rs(1) r(1) by (simp add: p c ready_def)
    have rids: "k \<in> set (rid # rids) \<longleftrightarrow> (\<exists>m. (k, m) \<in> set (p # ps) \<and> ready results m)" for k
      using r(2) same True by (auto simp: p)
    have ms: "x \<in> set (m # map (\<lambda>tc. the (dict_get results (tc_id tc))) calls @ ms)
        \<longleftrightarrow> (\<exists>k. (k, x) \<in> set (p # ps) \<and> ready results x)" if "msg_tool_calls x \<noteq> None" for x
      using r(3) same True taken [of x] that by (auto simp: p)
    have get: "dict_get rs' c = (if \<exists>k m. (k, m) \<in> set (p # ps) \<and> ready results m \<and> c \<in> call_ids m then None else dict_get results c)" for c
    proof -
      have "(\<exists>k m'. (k, m') \<in> set (p # ps) \<and> ready results m' \<and> c \<in> call_ids m') \<longleftrightarrow>
          c \<in> call_ids m \<or> (\<exists>k m'. (k, m') \<in> set ps \<and> ready rs m' \<and> c \<in> call_ids m')"
        using True same by (auto simp: p)
      then show ?thesis using r(4) rs(2) by simp blast
    qed
    show ?thesis using eq rids ms get by blast
  next
    case False
    have "complete_pending (p # ps) results = complete_pending ps results"
      using False by (simp add: p c ready_def)
    with False Cons.IH [OF d(1) rest Cons.prems(3)] Cons.prems(4) show ?thesis
      by (simp add: p) (smt (verit, best))
  qed
qed simp

text \<open>The responses whose calls are in a history, and the calls that have results there.\<close>

definition asks :: "memory_env \<Rightarrow> event \<Rightarrow> llm_response option" where
  "asks M e = (if is_tool_action e then map_option (\<lambda>j. tm_response (me_metadata M j)) (ev_tool_call e) else None)"

definition answers :: "memory_env \<Rightarrow> event \<Rightarrow> string option" where
  "answers M e = (if is_observation e then map_option (\<lambda>j. tm_tool_call_id (me_metadata M j)) (ev_tool_call e) else None)"

definition asked :: "memory_env \<Rightarrow> event list \<Rightarrow> llm_response set" where
  "asked M es = {r. \<exists>e \<in> set es. asks M e = Some r}"

definition answered :: "memory_env \<Rightarrow> event list \<Rightarrow> string set" where
  "answered M es = {k. \<exists>e \<in> set es. answers M e = Some k}"

definition initiating :: "llm_response \<Rightarrow> message" where
  "initiating r = response_message (hd (lr_choices r))"

text \<open>Different responses have different identifiers and different calls.\<close>

definition responses_apart :: "llm_response set \<Rightarrow> bool" where
  "responses_apart R \<longleftrightarrow>
     (\<forall>r \<in> R. \<forall>r' \<in> R. r \<noteq> r' \<longrightarrow> lr_id r \<noteq> lr_id r' \<and> call_ids (initiating r) \<inter> call_ids (initiating r') = {})"

text \<open>Recalled knowledge is not the result of a call.\<close>

definition recall_plain :: "event \<Rightarrow> bool" where
  "recall_plain e = (case ev_payload e of RecallObservation _ _ _ \<Rightarrow> ev_tool_call e = None | _ \<Rightarrow> True)"

definition shown_inv :: "memory_env \<Rightarrow> event list \<Rightarrow> memory_state \<Rightarrow> bool" where
  "shown_inv M P s \<longleftrightarrow>
     memory_ok s \<and> distinct (map fst (mm_pending s)) \<and>
     (\<forall>k m. (k, m) \<in> set (mm_pending s) \<longrightarrow> (\<exists>r \<in> asked M P. k = lr_id r \<and> m = initiating r)) \<and>
     (\<forall>r \<in> asked M P. initiating r \<in> set (mm_messages s) \<longleftrightarrow> call_ids (initiating r) \<subseteq> answered M P) \<and>
     (\<forall>r \<in> asked M P. \<not> call_ids (initiating r) \<subseteq> answered M P \<longrightarrow> (lr_id r, initiating r) \<in> set (mm_pending s)) \<and>
     (\<forall>m \<in> set (mm_messages s). msg_tool_calls m \<noteq> None \<longrightarrow> (\<exists>r \<in> asked M P. m = initiating r)) \<and>
     (\<forall>c. dict_get (mm_results s) c \<noteq> None \<longrightarrow> c \<in> answered M P) \<and>
     (\<forall>c \<in> answered M P. dict_get (mm_results s) c = None \<longrightarrow>
        (\<exists>r \<in> asked M P. c \<in> call_ids (initiating r) \<and> call_ids (initiating r) \<subseteq> answered M P))"

lemma asked_snoc: "asked M (P @ [e]) = asked M P \<union> set_option (asks M e)"
  by (auto simp: asked_def)

lemma answered_snoc: "answered M (P @ [e]) = answered M P \<union> set_option (answers M e)"
  by (auto simp: answered_def)

lemma initiating_first: "response_ok r \<Longrightarrow> first_choice r = Inr (hd (lr_choices r))"
  by (auto simp: response_ok_def first_choice_def split: list.splits)

lemma initiating_ready: "response_ok r \<Longrightarrow> call_ready (initiating r)"
  using first_choice_ok [of r] initiating_first [of r] by (simp add: initiating_def)

lemma set_dict_set: "distinct (map fst d) \<Longrightarrow> set (dict_set d k v) = insert (k, v) {p \<in> set d. fst p \<noteq> k}"
  by (induction d k v rule: dict_set.induct) (auto simp: image_iff)

text \<open>One event before the pass: the tables with the question or the answer of the event.\<close>

lemma step_tables:
  assumes shown: "event_shown M e" "recall_plain e" and ok: "memory_ok s"
  shows "\<exists>ms pending results e'.
    (if is_action e then
          bind_result (process_action M vision e (mm_pending s)) (\<lambda>(ms, pending, e').
            Inr (ms, pending, mm_results s, e'))
        else
          bind_result (process_observation M max_chars vision (mm_events s) e (mm_results s)) (\<lambda>(ms, results).
            Inr (ms, mm_pending s, results, e))) = Inr (ms, pending, results, e') \<and>
    list_all plain_message ms \<and>
    pending = (case asks M e of None \<Rightarrow> mm_pending s | Some r \<Rightarrow> dict_set (mm_pending s) (lr_id r) (initiating r)) \<and>
    (\<forall>c. dict_get results c \<noteq> None \<longleftrightarrow> dict_get (mm_results s) c \<noteq> None \<or> answers M e = Some c) \<and>
    results_ok results \<and> list_all (call_ready \<circ> snd) pending"
proof (cases "is_action e")
  case True
  obtain ms pending e' where p: "process_action M vision e (mm_pending s) = Inr (ms, pending, e')"
    "list_all plain_message ms" "list_all (call_ready \<circ> snd) pending"
    using process_action_ok [OF shown(1), of "mm_pending s" vision] ok by (auto simp: memory_ok_def)
  have "pending = (case asks M e of None \<Rightarrow> mm_pending s | Some r \<Rightarrow> dict_set (mm_pending s) (lr_id r) (initiating r))"
  proof (cases "is_tool_action e")
    case True
    then obtain j where j: "ev_tool_call e = Some j" using shown(1) by (auto simp: event_shown_def)
    have "response_ok (tm_response (me_metadata M j))" using True shown(1) j by (simp add: event_shown_def metadata_ok_def)
    then show ?thesis
      using p(1) True j initiating_first by (simp add: process_action_def Let_def asks_def initiating_def)
  next
    case False
    then have "pending = mm_pending s"
      using p(1) by (auto simp: process_action_def bind_result_Inr_iff split: payload.splits)
    with False show ?thesis by (simp add: asks_def)
  qed
  moreover have "answers M e = None" using True by (simp add: answers_def action_or_observation)
  ultimately show ?thesis using p True ok by (auto simp: memory_ok_def)
next
  case False
  then have obs: "is_observation e" by (simp add: action_or_observation)
  obtain ms results where p: "process_observation M max_chars vision (mm_events s) e (mm_results s) = Inr (ms, results)"
    "list_all plain_message ms" "results_ok results"
    using process_observation_ok [OF shown(1) obs, of "mm_results s" max_chars vision "mm_events s"] ok by (auto simp: memory_ok_def)
  have "\<forall>c. dict_get results c \<noteq> None \<longleftrightarrow> dict_get (mm_results s) c \<noteq> None \<or> answers M e = Some c"
  proof -
    obtain r where r: "observation_content M max_chars vision (mm_events s) e = Inr r"
      using p(1) by (auto simp: process_observation_def bind_result_Inr_iff)
    have "\<exists>c. r = Inr c" if "ev_tool_call e = Some j" for j
      using r shown(2) that by (cases "ev_payload e")
        (auto simp: observation_content_def recall_plain_def bind_result_Inr_iff Let_def)
    then show ?thesis using p(1) r obs
      by (cases r; cases "ev_tool_call e") (auto simp: process_observation_def answers_def Let_def)
  qed
  moreover have "\<not> is_tool_action e"
    using obs by (auto simp: is_tool_action_def is_observation_def split: payload.splits)
  ultimately show ?thesis using p False ok by (auto simp: memory_ok_def asks_def)
qed

lemma ready_initiating:
  "response_ok r \<Longrightarrow> ready results (initiating r) \<longleftrightarrow> call_ids (initiating r) \<subseteq> {c. dict_get results c \<noteq> None}"
  using ready_iff [OF initiating_ready] by auto

lemma initiating_calls: "response_ok r \<Longrightarrow> msg_tool_calls (initiating r) \<noteq> None"
  using initiating_ready [of r] by (auto simp: call_ready_def split: option.splits)

text \<open>The tables after the question or answer of an event, as sets.\<close>

lemma tables_known:
  assumes inv: "shown_inv M P s" and apart: "responses_apart (asked M (P @ [e]))"
    and pending: "pending = (case asks M e of None \<Rightarrow> mm_pending s | Some r \<Rightarrow> dict_set (mm_pending s) (lr_id r) (initiating r))"
  shows "distinct (map fst pending)"
    and "(k, m) \<in> set pending \<Longrightarrow> \<exists>r \<in> asked M (P @ [e]). k = lr_id r \<and> m = initiating r"
    and "r \<in> asked M (P @ [e]) \<Longrightarrow> \<not> (r \<in> asked M P \<and> call_ids (initiating r) \<subseteq> answered M P) \<Longrightarrow>
      (lr_id r, initiating r) \<in> set pending"
proof -
  have old: "distinct (map fst (mm_pending s))"
    "\<And>k m. (k, m) \<in> set (mm_pending s) \<Longrightarrow> \<exists>r \<in> asked M P. k = lr_id r \<and> m = initiating r"
    "\<And>r. r \<in> asked M P \<Longrightarrow> \<not> call_ids (initiating r) \<subseteq> answered M P \<Longrightarrow> (lr_id r, initiating r) \<in> set (mm_pending s)"
    using inv by (auto simp: shown_inv_def)
  show "distinct (map fst pending)" using old(1) by (auto simp: pending distinct_dict_set split: option.splits)
  show "\<exists>r \<in> asked M (P @ [e]). k = lr_id r \<and> m = initiating r" if "(k, m) \<in> set pending"
    using that old(1,2) by (auto simp: pending asked_snoc set_dict_set split: option.splits)
  assume r: "r \<in> asked M (P @ [e])" "\<not> (r \<in> asked M P \<and> call_ids (initiating r) \<subseteq> answered M P)"
  show "(lr_id r, initiating r) \<in> set pending"
  proof (cases "asks M e = Some r")
    case True
    then show ?thesis using old(1) by (simp add: pending set_dict_set)
  next
    case False
    then have "(lr_id r, initiating r) \<in> set (mm_pending s)" "r \<in> asked M P"
      using r old(3) by (auto simp: asked_snoc)
    moreover have "lr_id r \<noteq> lr_id r'" if "asks M e = Some r'" for r'
      using apart r(1) that False unfolding responses_apart_def asked_snoc by auto
    ultimately show ?thesis using old(1) by (auto simp: pending set_dict_set split: option.splits)
  qed
qed

lemma shown_inv_step:
  assumes e: "event_shown M e" "recall_plain e" and inv: "shown_inv M P s"
    and apart: "responses_apart (asked M (P @ [e]))" and resp: "\<forall>r \<in> asked M (P @ [e]). response_ok r"
  shows "\<exists>s'. process_event M max_chars vision e s = Inr s' \<and> shown_inv M (P @ [e]) s'"
proof -
  let ?A = "asked M P" and ?A' = "asked M (P @ [e])" and ?B = "answered M P" and ?B' = "answered M (P @ [e])"
  have ok: "memory_ok s" using inv by (simp add: shown_inv_def)
  from step_tables [OF e ok, of vision max_chars] obtain ms pending results e' where
    step: "(if is_action e then
          bind_result (process_action M vision e (mm_pending s)) (\<lambda>(ms, pending, e').
            Inr (ms, pending, mm_results s, e'))
        else
          bind_result (process_observation M max_chars vision (mm_events s) e (mm_results s)) (\<lambda>(ms, results).
            Inr (ms, mm_pending s, results, e))) = Inr (ms, pending, results, e')"
    and ms: "list_all plain_message ms"
    and pending: "pending = (case asks M e of None \<Rightarrow> mm_pending s | Some r \<Rightarrow> dict_set (mm_pending s) (lr_id r) (initiating r))"
    and results: "\<forall>c. dict_get results c \<noteq> None \<longleftrightarrow> dict_get (mm_results s) c \<noteq> None \<or> answers M e = Some c"
    and tables: "results_ok results" "list_all (call_ready \<circ> snd) pending" by blast
  note known = tables_known [OF inv apart pending]
  have sub: "?A \<subseteq> ?A'" "?B \<subseteq> ?B'" by (auto simp: asked_snoc answered_snoc)
  have same: "r = r'" if "r \<in> ?A'" "r' \<in> ?A'" "lr_id r = lr_id r' \<or> c \<in> call_ids (initiating r) \<inter> call_ids (initiating r')" for r r' c
    using apart that unfolding responses_apart_def by blast
  have disjoint: "call_ids m \<inter> call_ids m' = {}" if q: "(k, m) \<in> set pending" "(k', m') \<in> set pending" "k \<noteq> k'" for k m k' m'
  proof -
    obtain r r' where "r \<in> ?A'" "k = lr_id r" "m = initiating r" "r' \<in> ?A'" "k' = lr_id r'" "m' = initiating r'"
      using known(2) [OF q(1)] known(2) [OF q(2)] by blast
    with q(3) apart show ?thesis unfolding responses_apart_def by metis
  qed
  obtain ms' rids rs where c: "complete_pending pending results = Inr (ms', rids, rs)"
    "\<forall>k. k \<in> set rids \<longleftrightarrow> (\<exists>m. (k, m) \<in> set pending \<and> ready results m)"
    "\<forall>x. msg_tool_calls x \<noteq> None \<longrightarrow> (x \<in> set ms' \<longleftrightarrow> (\<exists>k. (k, x) \<in> set pending \<and> ready results x))"
    "\<forall>c. dict_get rs c = (if \<exists>k m. (k, m) \<in> set pending \<and> ready results m \<and> c \<in> call_ids m then None else dict_get results c)"
    using complete_pending_exact [OF known(1) tables(2,1)] disjoint by blast
  define s' where "s' = \<lparr>mm_messages = mm_messages s @ ms @ ms', mm_pending = filter (\<lambda>(k, _). k \<notin> set rids) pending,
            mm_results = rs, mm_events = mm_events s @ [e']\<rparr>"
  have s': "process_event M max_chars vision e s = Inr s'" by (simp add: process_event_def step c(1) s'_def)
  have old: "\<And>c. dict_get (mm_results s) c \<noteq> None \<Longrightarrow> c \<in> ?B"
    "\<And>c. c \<in> ?B \<Longrightarrow> dict_get (mm_results s) c = None \<Longrightarrow>
        \<exists>r \<in> ?A. c \<in> call_ids (initiating r) \<and> call_ids (initiating r) \<subseteq> ?B"
    using inv unfolding shown_inv_def by blast+
  have g1: "x \<in> ?B'" if "dict_get results x \<noteq> None" for x
    using that results old(1) [of x] by (auto simp: answered_snoc)
  have g2: "\<exists>r \<in> ?A. x \<in> call_ids (initiating r) \<and> call_ids (initiating r) \<subseteq> ?B" if "x \<in> ?B'" "dict_get results x = None" for x
  proof -
    have "dict_get (mm_results s) x = None" "answers M e \<noteq> Some x" using that(2) results by blast+
    then show ?thesis using that(1) old(2) [of x] by (simp add: answered_snoc)
  qed
  have rdy: "ready results (initiating r) \<Longrightarrow> call_ids (initiating r) \<subseteq> ?B'" if "r \<in> ?A'" for r
    using that resp g1 by (auto simp: ready_initiating)
  have emitted: "initiating r \<in> set ms'" if "r \<in> ?A'" "call_ids (initiating r) \<subseteq> ?B'" "\<not> (r \<in> ?A \<and> call_ids (initiating r) \<subseteq> ?B)" for r
  proof -
    have "dict_get results x \<noteq> None" if x: "x \<in> call_ids (initiating r)" for x
    proof
      assume "dict_get results x = None"
      then obtain r2 where "r2 \<in> ?A" "x \<in> call_ids (initiating r2)" "call_ids (initiating r2) \<subseteq> ?B"
        using g2 x \<open>call_ids (initiating r) \<subseteq> ?B'\<close> by blast
      with same [of r r2 x] x sub \<open>r \<in> ?A'\<close> \<open>\<not> (r \<in> ?A \<and> call_ids (initiating r) \<subseteq> ?B)\<close> show False by blast
    qed
    then have "ready results (initiating r)" using resp that(1) by (auto simp: ready_initiating)
    with known(3) [OF that(1,3)] c(3) initiating_calls resp that(1) show ?thesis by blast
  qed
  have shown_before: "\<forall>r \<in> ?A. initiating r \<in> set (mm_messages s) \<longleftrightarrow> call_ids (initiating r) \<subseteq> ?B"
    using inv unfolding shown_inv_def by blast
  have calls_in: "\<exists>r \<in> ?A'. m = initiating r \<and> call_ids (initiating r) \<subseteq> ?B'"
    if q: "m \<in> set (mm_messages s')" "msg_tool_calls m \<noteq> None" for m
  proof -
    have "m \<notin> set ms" using q(2) ms by (auto simp: list_all_iff plain_message_def)
    then consider "m \<in> set (mm_messages s)" | "m \<in> set ms'" using q(1) by (auto simp: s'_def)
    then show ?thesis
    proof cases
      case 1
      then obtain r where "r \<in> ?A" "m = initiating r" using inv q(2) unfolding shown_inv_def by blast
      with 1 inv sub show ?thesis unfolding shown_inv_def by blast
    next
      case 2
      then obtain k where "(k, m) \<in> set pending" "ready results m" using c(3) q(2) by blast
      with known(2) rdy show ?thesis by blast
    qed
  qed
  have "shown_inv M (P @ [e]) s'"
    unfolding shown_inv_def
  proof (intro conjI allI impI ballI)
    show "memory_ok s'" using process_event_ok [OF e(1) ok, of max_chars vision] s' by auto
    show "distinct (map fst (mm_pending s'))" using known(1) by (simp add: s'_def distinct_map_filter)
  next
    fix k m assume "(k, m) \<in> set (mm_pending s')"
    then show "\<exists>r \<in> ?A'. k = lr_id r \<and> m = initiating r" using known(2) by (simp add: s'_def)
  next
    fix r assume r: "r \<in> ?A'"
    show "initiating r \<in> set (mm_messages s') \<longleftrightarrow> call_ids (initiating r) \<subseteq> ?B'"
    proof
      assume "initiating r \<in> set (mm_messages s')"
      then show "call_ids (initiating r) \<subseteq> ?B'" using calls_in initiating_calls resp r by metis
    next
      assume "call_ids (initiating r) \<subseteq> ?B'"
      then show "initiating r \<in> set (mm_messages s')"
        using emitted [OF r] shown_before by (cases "r \<in> ?A \<and> call_ids (initiating r) \<subseteq> ?B") (auto simp: s'_def)
    qed
    assume n: "\<not> call_ids (initiating r) \<subseteq> ?B'"
    with sub have "(lr_id r, initiating r) \<in> set pending" by (intro known(3) [OF r]) blast
    moreover have "lr_id r \<notin> set rids"
    proof
      assume "lr_id r \<in> set rids"
      then obtain m where "(lr_id r, m) \<in> set pending" "ready results m" using c(2) by blast
      with known(2) same [of _ r] r rdy n show False by metis
    qed
    ultimately show "(lr_id r, initiating r) \<in> set (mm_pending s')" by (simp add: s'_def)
  next
    fix m assume "m \<in> set (mm_messages s')" "msg_tool_calls m \<noteq> None"
    then show "\<exists>r \<in> ?A'. m = initiating r" using calls_in by blast
  next
    fix x assume "dict_get (mm_results s') x \<noteq> None"
    then show "x \<in> ?B'" using c(4) g1 by (auto simp: s'_def split: if_splits)
  next
    fix x assume x: "x \<in> ?B'" "dict_get (mm_results s') x = None"
    show "\<exists>r \<in> ?A'. x \<in> call_ids (initiating r) \<and> call_ids (initiating r) \<subseteq> ?B'"
    proof (cases "dict_get results x = None")
      case True
      with g2 [OF x(1)] sub show ?thesis by blast
    next
      case False
      with x(2) c(4) obtain k m where "(k, m) \<in> set pending" "ready results m" "x \<in> call_ids m"
        by (auto simp: s'_def split: if_splits)
      with known(2) rdy show ?thesis by blast
    qed
  qed
  with s' show ?thesis by blast
qed

lemma shown_inv_loop:
  assumes "list_all (\<lambda>e. event_shown M e \<and> recall_plain e) es" "shown_inv M P s"
    and "responses_apart (asked M (P @ es))" "\<forall>r \<in> asked M (P @ es). response_ok r"
  shows "\<exists>s'. process_loop M max_chars vision es s = Inr s' \<and> shown_inv M (P @ es) s'"
  using assms
proof (induction es arbitrary: P s)
  case (Cons e es)
  have sub: "asked M (P @ [e]) \<subseteq> asked M (P @ e # es)" by (auto simp: asked_def)
  have "responses_apart (asked M (P @ [e]))" using Cons.prems(3) sub unfolding responses_apart_def by blast
  moreover have "\<forall>r \<in> asked M (P @ [e]). response_ok r" using Cons.prems(4) sub by blast
  ultimately obtain s1 where s1: "process_event M max_chars vision e s = Inr s1" "shown_inv M (P @ [e]) s1"
    using shown_inv_step [of M e P s max_chars vision] Cons.prems(1,2) by auto
  with Cons.IH [of "P @ [e]" s1] Cons.prems show ?case by auto
qed simp

lemma asked_ok: "list_all (event_shown M) es \<Longrightarrow> \<forall>r \<in> asked M es. response_ok r"
  by (auto simp: asked_def asks_def list_all_iff event_shown_def metadata_ok_def split: if_splits)

lemma formatting_calls:
  assumes "msg_role m \<noteq> ''user''"
  shows "m \<in> set (apply_user_message_formatting prev ms) \<longleftrightarrow> m \<in> set ms"
  using assms by (induction ms arbitrary: prev) auto

lemma inserted_events:
  assumes "is_message initial"
  shows "asked M (ensure_initial_user_message (ensure_system_message M es) initial) = asked M es"
    and "answered M (ensure_initial_user_message (ensure_system_message M es) initial) = answered M es"
proof -
  let ?sys = "new_event (SystemMessageAction (me_system_message M) None None None)"
  have i: "asks M initial = None" "answers M initial = None" "asks M ?sys = None" "answers M ?sys = None"
    using assms by (auto simp: is_message_def asks_def answers_def is_tool_action_def is_observation_def new_event_def
        split: payload.splits)
  have "set (ensure_initial_user_message (ensure_system_message M es) initial) \<subseteq> insert initial (insert ?sys (set es))"
    "set es \<subseteq> set (ensure_initial_user_message (ensure_system_message M es) initial)"
    by (auto simp: ensure_initial_user_message_def ensure_system_message_def split: list.splits if_splits)
  with i show "asked M (ensure_initial_user_message (ensure_system_message M es) initial) = asked M es"
    "answered M (ensure_initial_user_message (ensure_system_message M es) initial) = answered M es"
    unfolding asked_def answered_def by (smt (verit, ccfv_SIG) Collect_cong insert_iff option.distinct(1) subset_iff)+
qed

lemma recall_plain_inserted:
  assumes "list_all recall_plain es" "is_message initial"
  shows "list_all recall_plain (ensure_initial_user_message (ensure_system_message M es) initial)"
proof -
  have "recall_plain (new_event (SystemMessageAction p None None None))" "recall_plain initial" for p
    using assms(2) by (auto simp: recall_plain_def new_event_def is_message_def split: payload.splits)
  then show ?thesis using assms(1)
    by (auto simp: ensure_initial_user_message_def ensure_system_message_def split: list.splits)
qed


section \<open>Samples\<close>

definition sample_response :: "string \<Rightarrow> string list \<Rightarrow> llm_response" where
  "sample_response k ids =
     \<lparr>lr_id = k, lr_choices = [\<lparr>rc_role = Some ''assistant'', rc_content = Some ''Next'',
        rc_tool_calls = Some (map (\<lambda>i. \<lparr>tc_id = i, tc_name = ''think'', tc_arguments = ''{}''\<rparr>) ids), rc_tokens = no_tokens\<rparr>]\<rparr>"

definition sample_metadata :: "json \<Rightarrow> tool_metadata" where
  "sample_metadata j =
     (let k = (case j of JStr s \<Rightarrow> s | _ \<Rightarrow> ''x'')
      in \<lparr>tm_function_name = ''think'', tm_tool_call_id = k,
          tm_response = (if k = ''c'' then sample_response ''R2'' [''c''] else sample_response ''R1'' [''a'', ''b''])\<rparr>)"

definition sample_memory :: memory_env where
  "sample_memory =
     \<lparr>me_metadata = sample_metadata, me_render = (\<lambda>_. []), me_show = (\<lambda>_. []), me_axtree = (\<lambda>_. Inr []),
      me_system_message = ''You help.'', me_workspace_context = (\<lambda>_. ''Workspace''), me_microagent_info = (\<lambda>_. ''Knowledge''),
      me_prompt_extensions = True, me_som_browsing = False, me_disabled_microagents = []\<rparr>"

definition sample_event :: "event_source \<Rightarrow> string option \<Rightarrow> payload \<Rightarrow> event" where
  "sample_event src k p = (new_event p)\<lparr>ev_source := Some src, ev_tool_call := map_option JStr k\<rparr>"

definition sample_user :: event where
  "sample_user = sample_event USER None (MessageAction ''Go'' None False None)"

text \<open>One response with two calls, answered in the other order around a second response without an answer.\<close>

definition sample_history :: "event list" where
  "sample_history =
     [sample_user,
      sample_event AGENT (Some ''a'') (AgentThinkAction ''first''), sample_event AGENT (Some ''b'') (AgentThinkAction ''second''),
      sample_event ENVIRONMENT (Some ''b'') (AgentThinkObservation ''two''),
      sample_event AGENT (Some ''c'') (AgentThinkAction ''third''),
      sample_event ENVIRONMENT (Some ''a'') (AgentThinkObservation ''one'')]"

lemmas sample_simps = sample_history_def sample_user_def sample_event_def sample_memory_def sample_metadata_def
  sample_response_def new_event_def Let_def

lemma sample_shown:
  "list_all (event_shown sample_memory) sample_history" "event_shown sample_memory sample_user" "is_message sample_user"
  "list_all recall_plain sample_history"
  by (simp_all add: sample_simps event_shown_def metadata_ok_def response_ok_def observation_shown_def is_observation_def
      is_tool_action_def is_message_def recall_plain_def)

lemma sample_roles:
  "case process_events sample_memory sample_history sample_user None False of
     Inl _ \<Rightarrow> False
   | Inr (ms, _) \<Rightarrow> map msg_role ms = [''system'', ''user'', ''assistant'', ''tool'', ''tool'']"
  by code_simp


lemma sample_asked: "asked sample_memory sample_history = {sample_response ''R1'' [''a'', ''b''], sample_response ''R2'' [''c'']}"
  by (auto simp: asked_def asks_def sample_simps is_tool_action_def)

lemma sample_answered: "answered sample_memory sample_history = {''a'', ''b''}"
  by (auto simp: answered_def answers_def sample_simps is_observation_def)

lemma sample_ids: "call_ids (initiating (sample_response k ids)) = set ids"
  by (simp add: call_ids_def initiating_def response_message_def sample_response_def)


section \<open>What reading the history changes\<close>

text \<open>The thought of a finish action grows by the text of its response whenever the history is shown.\<close>

lemma finish_thought_again:
  assumes "t \<noteq> []" "t \<noteq> c"
  shows "((\<lambda>t. finish_thought t c) ^^ n) t = t @ concat (replicate n (newline # c))"
proof (induction n)
  case (Suc n)
  have "t @ concat (replicate n (newline # c)) \<noteq> c"
  proof (cases n)
    case (Suc j)
    have "length (t @ concat (replicate (Suc j) (newline # c))) > length c" by simp
    then show ?thesis unfolding Suc by (metis less_irrefl)
  qed (use assms in simp)
  with Suc assms(1) show ?case
    by (simp add: finish_thought_def flip: replicate_append_same)
qed simp

definition sample_finish :: "event list" where
  "sample_finish = [sample_user, sample_event AGENT (Some ''a'') (AgentFinishAction ''bye'' None [] ''Over'')]"

definition thoughts :: "event list \<Rightarrow> string list" where
  "thoughts es = List.map_filter (\<lambda>e. case ev_payload e of AgentFinishAction _ _ _ t \<Rightarrow> Some t | _ \<Rightarrow> None) es"

lemma finish_thought_grows:
  "case process_events sample_memory sample_finish sample_user None False of
     Inl _ \<Rightarrow> False
   | Inr (_, es) \<Rightarrow>
       (case process_events sample_memory es sample_user None False of
          Inl _ \<Rightarrow> False
        | Inr (_, es') \<Rightarrow>
            thoughts es = [''Over'' @ [newline] @ ''Next''] \<and>
            thoughts es' = [''Over'' @ [newline] @ ''Next'' @ [newline] @ ''Next''])"
  by code_simp

text \<open>An observation of a class without a branch, here that of a changed state, ends the making of
  messages with an error.\<close>

lemma unknown_observation_refused:
  assumes "\<not> is_action e" "ev_payload e \<in> {NullObservation c, SuccessObservation c, FileWriteObservation c p,
    AgentStateChangedObservation c st reason}"
  shows "process_event M max_chars vision e s = Inl (ValueError ''Unknown observation type'')"
  using assms by (auto simp: process_event_def process_observation_def observation_content_def)

end
