(* ===== verification/Spec2Isabelle.thy ===== *)
theory Spec2Isabelle
  imports Timer Registry Heapq Balancer JobResults Server ProcServer Events Serialization PyStrings FileStore EventStore EventStream Stuck Views Condensers Rolling Masking CondenserConfig Metrics Replay ControllerHistory Controller ControllerStream ControllerProps ControllerErrors FnCallText FnCall FnCallProps ConvMemory ConvMemoryProps
begin

text \<open>
  Verification of the agent rollout server.

  \<^bold>\<open>The program.\<close> A trainer sends instances of software tasks to a server, which runs an agent on
  each and returns the trajectory with a reward. The server (\<^verbatim>\<open>src/openhands/nvidia\<close>) takes a job
  through three stages, initialisation of a container, the run of the agent and evaluation, each
  with a pool of workers, under one timeout that counts the time inside stages only; jobs are
  spread over the addresses of inference servers by a heap of weights; what a stage does is
  looked up in a registry of handlers by the name of the dataset. There are two servers: worker
  threads with queues (\<^verbatim>\<open>async_server.py\<close>) and a process per job with shared semaphores
  (\<^verbatim>\<open>async_server_process.py\<close>). The agent (\<^verbatim>\<open>src/openhands/events\<close>, \<^verbatim>\<open>controller\<close>, \<^verbatim>\<open>memory\<close>) keeps a
  history of events, actions and observations; a detector looks at the history for agents that
  repeat themselves, and condensers shorten the view of the history that goes to the language
  model.

  \<^bold>\<open>The theories.\<close>

  \<^item> \<open>PyPrelude\<close>: Python's exceptions as values of a sum type (\<open>result\<close>), slices and insertion with
    negative indices, strings, ordered dictionaries as association lists, JSON values.
  \<^item> \<open>Timer\<close> (\<^verbatim>\<open>timer.py\<close>): the timer as a record, its operations with the clock readings as
    arguments, the context manager of a phase and the run of a coroutine under the rest of the
    timeout. The times of the phases add up; the time left is zero exactly at expiry; on every
    path the phase is left.
  \<^item> \<open>Registry\<close> (\<^verbatim>\<open>registry.py\<close>, \<^verbatim>\<open>__init__.py\<close>): the handler tables, name mapping and the
    registrations at import.
  \<^item> \<open>Heapq\<close>, \<open>Balancer\<close>: the algorithms of the standard library's heap behind the interface
    \<open>min_heap\<close>, and the weighted addresses of both servers, which stay balanced.
  \<^item> \<open>JobResults\<close> (\<^verbatim>\<open>utils.py\<close>): identifiers, results of failed stages, the final result with the
    filter for training, the repetition penalty.
  \<^item> \<open>Server\<close> (\<^verbatim>\<open>async_server.py\<close>): the state of the thread server as a record with a store of job
    objects, every block of a worker between two awaits or lock regions as a function on it, and
    a step relation that interleaves workers and clients. No job is lost and waiting calls
    return, by invariants over reachable states; cancellation, resubmission and stop break this in
    ways the error properties state exactly.
  \<^item> \<open>ProcServer\<close> (\<^verbatim>\<open>async_server_process.py\<close>): a worker process as a function of its clocks and
    handlers, which refines the undisturbed blocks of a thread worker; the shared state with the
    operations of the server; processes as program counters over semaphores, whose permits are
    conserved.
  \<^item> \<open>Events\<close> (\<^verbatim>\<open>events\<close>): events with the data classes as constructors of \<open>payload\<close>, filters,
    condensation actions, pairs of actions and observations.
  \<^item> \<open>Serialization\<close> (\<^verbatim>\<open>events/serialization\<close>): events as dictionaries, with the deprecated arguments
    and extras of old streams; every event is read back as it was written.
  \<^item> \<open>PyStrings\<close>, \<open>FileStore\<close> (\<^verbatim>\<open>storage\<close>), \<open>EventStore\<close> (\<^verbatim>\<open>events/event_store.py\<close>), \<open>EventStream\<close>
    (\<^verbatim>\<open>events/stream.py\<close>): the interface \<open>file_store\<close> with the store in memory and the one with a web
    hook as interpretations; reading through cache pages; adding events in several threads, with
    the write pages as shared objects. The stream refines a map from identifiers to events
    (\<open>search_spec\<close>) for every interleaving, sessions continue each other, stored text is free of
    secrets, and callbacks are served.
  \<^item> \<open>Stuck\<close> (\<^verbatim>\<open>controller/stuck.py\<close>): both detectors; loops are found, alarms need repetition.
  \<^item> \<open>Views\<close> (\<^verbatim>\<open>memory/view.py\<close>, \<^verbatim>\<open>controller/state/state.py\<close>): the view of a history and the cache.
  \<^item> \<open>Condensers\<close> (\<^verbatim>\<open>memory/condenser\<close>): all strategies, the pipeline and the metadata as
    functions of the language model. \<open>Rolling\<close>: the interface \<open>rolling_condenser\<close> and its four
    interpretations; the view of an agent stays bounded. \<open>Masking\<close>: masking, recent events,
    pipelines and metadata. \<open>CondenserConfig\<close> (\<^verbatim>\<open>core/config/condenser_config.py\<close>): the section of
    the configuration file and the registry of condensers.
  \<^item> \<open>Metrics\<close> (\<^verbatim>\<open>llm/metrics.py\<close>): costs and token counts; the accumulated values are the sums.
    \<open>Replay\<close> (\<^verbatim>\<open>controller/replay.py\<close>): recorded trajectories.
  \<^item> \<open>ControllerHistory\<close>, \<open>Controller\<close> (\<^verbatim>\<open>controller/agent_controller.py\<close>): the controller of an agent with its
    delegates as a list of records over a shared stream and shared metrics; every method as an
    operation that may raise after it has changed the world. \<open>ControllerStream\<close>: what the controller
    needs of a stream (\<open>controller_stream\<close>), with the event stream as interpretation.
    \<open>ControllerProps\<close>, \<open>ControllerErrors\<close>: the steps of a headless run are bounded, failures of the
    agent are handled, confirmation is respected; nested delegates are not heard, and delegates
    are paid for twice.
  \<^item> \<open>FnCallText\<close>, \<open>FnCall\<close> (\<^verbatim>\<open>llm/fn_call_converter.py\<close>): tool calls as text for models without function
    calling and back, with the regular expressions as functions on strings. \<open>FnCallProps\<close>:
    conversations round trip against the specification \<open>chat\<close>, answers cut at the stop word are
    restored, accepted calls fit their tool, and several calls in a message are paired with
    their results.
  \<^item> \<open>ConvMemory\<close> (\<^verbatim>\<open>memory/conversation_memory.py\<close>, \<^verbatim>\<open>core/message.py\<close>): the messages made from a
    history, prompt caching, and messages as dictionaries. \<open>ConvMemoryProps\<close>: calls are directly
    followed by their results, and are shown exactly if all of them are answered.

  \<^bold>\<open>Parameters.\<close> Handlers, the language model, clocks, random identifiers, hashes, the printing of
  values and schema validation are arguments of the definitions. What a theorem needs of them is a
  hypothesis of the theorem (for example that the language model answers), and its witness
  instantiates them.

  \<^bold>\<open>Loops and fuel.\<close> All loops of the sources that are modelled run over lists and are structural
  recursions or have a measure; the workers' endless loops are step relations. No definition uses fuel.

  \<^bold>\<open>Not modelled.\<close> Logging, process ids and signals, the containers and shells the handlers drive
  (\<^verbatim>\<open>runtime\<close>), HTTP front ends, and the trainer side (\<^verbatim>\<open>trainer_integration\<close>), which is tensor code on
  third-party frameworks. Saving and restoring the state by pickle is not modelled.
\<close>

end
